(* ===== verification/Prelude.thy ===== *)
theory Prelude
  imports Main "HOL-Library.Monad_Syntax"
begin

text \<open>
  Shared ground of the development: the counting loops of the C sources
  (the macro \<^verbatim>\<open>FOR\<close> of \<^verbatim>\<open>servers/cv/includes.h\<close> and the plain \<^verbatim>\<open>for\<close> loops of the
  process manager), tables of slots read as maps from keys to values, and the
  generic facts about lists and options that the component theories use.

  A C function that may run into undefined behaviour (an access outside an array or
  through a pointer that is not valid) or into a \<^verbatim>\<open>panic\<close> is a function into an option
  type: \<^term>\<open>None\<close> stands for that outcome.
\<close>

named_theorems krok_monitora \<open>the dispatch of a request to an operation of the monitor\<close>

named_theorems slot_pm \<open>what an operation of the process manager may change in a slot\<close>

section \<open>Counting loops\<close>

text \<open>
  \<open>FOR a n body s\<close> is \<^verbatim>\<open>FOR(i, a, n - 1) body\<close>: the body runs for
  \<open>i = a, a + 1, \<dots>, n - 1\<close> and the state is threaded through.
\<close>

function FOR :: "nat \<Rightarrow> nat \<Rightarrow> (nat \<Rightarrow> 's \<Rightarrow> 's option) \<Rightarrow> 's \<Rightarrow> 's option" where
  "FOR a n body s =
     (if a < n then do { s' \<leftarrow> body a s; FOR (Suc a) n body s' } else Some s)"
  by pat_completeness auto
termination
  by (relation "measure (\<lambda>(a, n, _, _). n - a)") auto

text \<open>
  \<open>FOR_szukaj a n P\<close> is \<^verbatim>\<open>FOR(i, a, n - 1) if (P(i)) break;\<close>: the value of the
  counter after the loop, which is \<open>n\<close> when no index satisfies the condition.
\<close>

function FOR_szukaj :: "nat \<Rightarrow> nat \<Rightarrow> (nat \<Rightarrow> bool) \<Rightarrow> nat" where
  "FOR_szukaj a n P = (if a < n then if P a then a else FOR_szukaj (Suc a) n P else a)"
  by pat_completeness auto
termination
  by (relation "measure (\<lambda>(a, n, _). n - a)") auto

declare FOR.simps [simp del] FOR_szukaj.simps [simp del]

lemma FOR_done [simp]: "n \<le> a \<Longrightarrow> FOR a n body s = Some s"
  by (simp add: FOR.simps)

lemma FOR_step:
  "a < n \<Longrightarrow> FOR a n body s = do { s' \<leftarrow> body a s; FOR (Suc a) n body s' }"
  by (subst FOR.simps) simp

text \<open>
  The rule for a loop: an invariant indexed by the counter holds at the start, every
  round succeeds and carries it to the next index; then the loop succeeds and the
  invariant holds at the end.
\<close>

lemma FOR_rule:
  assumes "I a s" and "a \<le> n"
    and step: "\<And>i t. a \<le> i \<Longrightarrow> i < n \<Longrightarrow> I i t \<Longrightarrow> \<exists>t'. body i t = Some t' \<and> I (Suc i) t'"
  shows "\<exists>s'. FOR a n body s = Some s' \<and> I n s'"
  using assms
proof (induction a n body s rule: FOR.induct)
  case (1 a n body s)
  show ?case
  proof (cases "a < n")
    case True
    with "1.prems" obtain t where t: "body a s = Some t" "I (Suc a) t"
      by blast
    have "\<exists>s'. FOR (Suc a) n body t = Some s' \<and> I n s'"
      using True t "1.prems"(3) by (intro "1.IH") auto
    with True t show ?thesis by (simp add: FOR_step)
  next
    case False
    with "1.prems"(1,2) show ?thesis by simp
  qed
qed

text \<open>The same rule for what a loop that is known to have succeeded leaves behind.\<close>

lemma FOR_rule_Some:
  assumes run: "FOR a n body s = Some s'" and "I a s" and "a \<le> n"
    and step: "\<And>i t t'. a \<le> i \<Longrightarrow> i < n \<Longrightarrow> I i t \<Longrightarrow> body i t = Some t' \<Longrightarrow> I (Suc i) t'"
  shows "I n s'"
  using assms
proof (induction a n body s rule: FOR.induct)
  case (1 a n body s)
  show ?case
  proof (cases "a < n")
    case True
    with "1.prems"(1) obtain t where t: "body a s = Some t" "FOR (Suc a) n body t = Some s'"
      by (auto simp: FOR_step bind_eq_Some_conv)
    then show ?thesis
      using True "1.prems" by (intro "1.IH"[of t]) auto
  next
    case False
    with "1.prems" show ?thesis by simp
  qed
qed

lemma FOR_szukaj_bounds: "a \<le> n \<Longrightarrow> a \<le> FOR_szukaj a n P \<and> FOR_szukaj a n P \<le> n"
  by (induction a n P rule: FOR_szukaj.induct) (subst (1 2) FOR_szukaj.simps, auto)

lemma FOR_szukaj_le: "a \<le> n \<Longrightarrow> FOR_szukaj a n P \<le> n"
  by (simp add: FOR_szukaj_bounds)

lemma FOR_szukaj_found: "FOR_szukaj a n P < n \<Longrightarrow> P (FOR_szukaj a n P)"
  by (induction a n P rule: FOR_szukaj.induct) (subst FOR_szukaj.simps, subst (asm) (2) FOR_szukaj.simps, auto split: if_splits)

lemma FOR_szukaj_before: "a \<le> i \<Longrightarrow> i < FOR_szukaj a n P \<Longrightarrow> \<not> P i"
proof (induction a n P rule: FOR_szukaj.induct)
  case (1 a n P)
  from "1.prems" have "a < n \<and> \<not> P a" and "i < FOR_szukaj (Suc a) n P"
    by (subst (asm) FOR_szukaj.simps; auto split: if_splits)+
  with "1.IH" "1.prems"(1) show ?case
    by (cases "i = a") auto
qed

lemma FOR_szukaj_brak: "\<not> FOR_szukaj a n P < n \<Longrightarrow> a \<le> i \<Longrightarrow> i < n \<Longrightarrow> \<not> P i"
  using FOR_szukaj_before[of a i n P] by simp

lemma FOR_szukaj_eqI:
  assumes "a \<le> k" "k < n" "P k" "\<And>i. a \<le> i \<Longrightarrow> i < k \<Longrightarrow> \<not> P i"
  shows "FOR_szukaj a n P = k"
proof -
  have le: "a \<le> FOR_szukaj a n P" "FOR_szukaj a n P \<le> n"
    using FOR_szukaj_bounds[of a n P] assms(1,2) by auto
  have "\<not> k < FOR_szukaj a n P"
    using FOR_szukaj_before[of a k n P] assms by blast
  moreover have "\<not> FOR_szukaj a n P < k"
    using FOR_szukaj_found[of a n P] assms le by fastforce
  ultimately show ?thesis by simp
qed

lemma FOR_szukaj_none_iff: "a \<le> n \<Longrightarrow> FOR_szukaj a n P = n \<longleftrightarrow> (\<forall>i. a \<le> i \<and> i < n \<longrightarrow> \<not> P i)"
  by (metis FOR_szukaj_before FOR_szukaj_bounds FOR_szukaj_found le_less nat_less_le)

section \<open>Reachable states\<close>

text \<open>
  The states a machine can reach from its starting states, and the interface of a machine
  that keeps an invariant.
\<close>

inductive osiagalny :: "('s \<Rightarrow> bool) \<Rightarrow> ('s \<Rightarrow> 's \<Rightarrow> bool) \<Rightarrow> 's \<Rightarrow> bool"
  for poczatek :: "'s \<Rightarrow> bool" and krok :: "'s \<Rightarrow> 's \<Rightarrow> bool" where
  start: "poczatek s \<Longrightarrow> osiagalny poczatek krok s"
| dalej: "osiagalny poczatek krok s \<Longrightarrow> krok s t \<Longrightarrow> osiagalny poczatek krok t"

locale maszyna =
  fixes poczatek :: "'s \<Rightarrow> bool"
    and krok :: "'s \<Rightarrow> 's \<Rightarrow> bool"
    and inw :: "'s \<Rightarrow> bool"
  assumes poczatek_ok: "poczatek s \<Longrightarrow> inw s"
    and krok_ok: "inw s \<Longrightarrow> krok s t \<Longrightarrow> inw t"
begin

lemma osiagalny_inw: "osiagalny poczatek krok s \<Longrightarrow> inw s"
  by (induction rule: osiagalny.induct) (auto intro: poczatek_ok krok_ok)

end

end
