(* ===== verification/Kolejka.thy ===== *)
theory Kolejka
  imports Prelude
begin

text \<open>
  The waiting queue of a mutex, \<^verbatim>\<open>servers/cv/queue.h\<close>: a singly linked list between two
  sentinels \<^verbatim>\<open>start\<close> and \<^verbatim>\<open>koniec\<close>. Every queue owns the region of the heap in which its
  elements live: \<^verbatim>\<open>malloc\<close> never hands out overlapping blocks and no element is ever
  shared between two queues, so a region per queue is the whole heap as far as one
  queue can see it. An address that is not in the region (never allocated, or freed)
  makes every access through it fail with \<^term>\<open>None\<close>.

  \<^verbatim>\<open>malloc\<close> does not initialise what it returns; the value it leaves in a fresh element
  is the parameter \<open>smiec\<close>. This matters: \<^verbatim>\<open>utworzKolejke\<close> never writes the field
  \<^verbatim>\<open>proces\<close> of the sentinels, and the \<^verbatim>\<open>FOR_EACH\<close> loops of the server start at the
  sentinel \<^verbatim>\<open>start\<close> and read it.
\<close>

section \<open>The data structure and its operations\<close>

type_synonym addr = nat

definition NULL :: addr where
  "NULL = 0"

record element =
  nastepny :: addr
  proces :: int

record kolejka =
  start :: addr
  koniec :: addr
  sterta :: "addr \<rightharpoonup> element"
  wolny :: addr

text \<open>\<^verbatim>\<open>malloc(sizeof(element_t))\<close>, \<^verbatim>\<open>free\<close> and a write through a pointer.\<close>

definition malloc_element :: "(addr \<Rightarrow> element) \<Rightarrow> kolejka \<Rightarrow> addr \<times> kolejka" where
  "malloc_element smiec q =
     (wolny q,
      q\<lparr>sterta := (sterta q)(wolny q \<mapsto> smiec (wolny q)), wolny := Suc (wolny q)\<rparr>)"

definition free_element :: "addr \<Rightarrow> kolejka \<Rightarrow> kolejka option" where
  "free_element a q =
     (case sterta q a of None \<Rightarrow> None | Some _ \<Rightarrow> Some (q\<lparr>sterta := (sterta q)(a := None)\<rparr>))"

definition zapisz_element :: "addr \<Rightarrow> (element \<Rightarrow> element) \<Rightarrow> kolejka \<Rightarrow> kolejka option" where
  "zapisz_element a f q =
     (case sterta q a of None \<Rightarrow> None | Some e \<Rightarrow> Some (q\<lparr>sterta := (sterta q)(a \<mapsto> f e)\<rparr>))"

definition utworzKolejke :: "(addr \<Rightarrow> element) \<Rightarrow> kolejka option" where
  "utworzKolejke smiec = do {
     let q = \<lparr>start = NULL, koniec = NULL, sterta = Map.empty, wolny = 1\<rparr>;
     let (a, q) = malloc_element smiec q;
     let q = q\<lparr>start := a\<rparr>;
     let (b, q) = malloc_element smiec q;
     let q = q\<lparr>koniec := b\<rparr>;
     q \<leftarrow> zapisz_element (start q) (nastepny_update (\<lambda>_. koniec q)) q;
     zapisz_element (koniec q) (nastepny_update (\<lambda>_. NULL)) q
   }"

text \<open>The loop of \<^verbatim>\<open>wstaw\<close>: the last element before the sentinel \<^verbatim>\<open>koniec\<close>.\<close>

partial_function (option) ostatni :: "kolejka \<Rightarrow> addr \<Rightarrow> addr option" where
  "ostatni q ost = do {
     e \<leftarrow> sterta q ost;
     if nastepny e = koniec q then Some ost else ostatni q (nastepny e)
   }"

definition wstaw :: "(addr \<Rightarrow> element) \<Rightarrow> kolejka \<Rightarrow> int \<Rightarrow> kolejka option" where
  "wstaw smiec q p = do {
     ost \<leftarrow> ostatni q (start q);
     let (nowy, q) = malloc_element smiec q;
     q \<leftarrow> zapisz_element nowy (proces_update (\<lambda>_. p)) q;
     q \<leftarrow> zapisz_element ost (nastepny_update (\<lambda>_. nowy)) q;
     zapisz_element nowy (nastepny_update (\<lambda>_. koniec q)) q
   }"

definition pierwszyKolejka :: "kolejka \<Rightarrow> (int \<times> kolejka) option" where
  "pierwszyKolejka q = do {
     s \<leftarrow> sterta q (start q);
     let first = nastepny s;
     f \<leftarrow> sterta q first;
     q \<leftarrow> zapisz_element (start q) (nastepny_update (\<lambda>_. nastepny f)) q;
     q \<leftarrow> free_element first q;
     Some (proces f, q)
   }"

definition czyPusto :: "kolejka \<Rightarrow> int option" where
  "czyPusto q = do {
     s \<leftarrow> sterta q (start q);
     Some (if nastepny s = koniec q then 1 else 0)
   }"

text \<open>\<^verbatim>\<open>usunElement\<close> walks with \<^verbatim>\<open>FOR_EACH\<close> from \<^verbatim>\<open>start\<close> to the predecessor of \<^verbatim>\<open>item\<close>.\<close>

partial_function (option) usunElement_od :: "kolejka \<Rightarrow> addr \<Rightarrow> addr \<Rightarrow> kolejka option" where
  "usunElement_od q item i =
     (if i = koniec q then Some q
      else do {
        e \<leftarrow> sterta q i;
        if nastepny e = item
        then do {
          it \<leftarrow> sterta q item;
          q \<leftarrow> zapisz_element i (nastepny_update (\<lambda>_. nastepny it)) q;
          free_element item q
        }
        else usunElement_od q item (nastepny e)
      })"

definition usunElement :: "kolejka \<Rightarrow> addr \<Rightarrow> kolejka option" where
  "usunElement q item = usunElement_od q item (start q)"

text \<open>
  The loop \<^verbatim>\<open>FOR_EACH(item, q) if (item->proces == proces) ...; break\<close> of the server:
  the first element, counting from the sentinel \<^verbatim>\<open>start\<close>, whose field \<^verbatim>\<open>proces\<close> matches.
\<close>

partial_function (option) znajdz_od :: "kolejka \<Rightarrow> int \<Rightarrow> addr \<Rightarrow> addr option option" where
  "znajdz_od q p item =
     (if item = koniec q then Some None
      else do {
        e \<leftarrow> sterta q item;
        if proces e = p then Some (Some item) else znajdz_od q p (nastepny e)
      })"

definition znajdz :: "kolejka \<Rightarrow> int \<Rightarrow> addr option option" where
  "znajdz q p = znajdz_od q p (start q)"

section \<open>The list a queue stands for\<close>

text \<open>
  \<open>sciezka h a as b\<close>: following \<^verbatim>\<open>nastepny\<close> from \<open>a\<close> one passes exactly the elements
  \<open>as\<close> and arrives at \<open>b\<close>.
\<close>

primrec sciezka :: "(addr \<rightharpoonup> element) \<Rightarrow> addr \<Rightarrow> addr list \<Rightarrow> addr \<Rightarrow> bool" where
  "sciezka h a [] b \<longleftrightarrow> a = b"
| "sciezka h a (x # xs) b \<longleftrightarrow> a = x \<and> (\<exists>e. h x = Some e \<and> sciezka h (nastepny e) xs b)"

definition proc_w :: "(addr \<rightharpoonup> element) \<Rightarrow> addr \<Rightarrow> int" where
  "proc_w h a = (case h a of Some e \<Rightarrow> proces e | None \<Rightarrow> 0)"

text \<open>\<open>rep q as\<close>: \<open>q\<close> is well formed and its elements between the sentinels are \<open>as\<close>.\<close>

definition rep :: "kolejka \<Rightarrow> addr list \<Rightarrow> bool" where
  "rep q as \<longleftrightarrow>
     sciezka (sterta q) (start q) (start q # as) (koniec q) \<and>
     distinct (start q # as @ [koniec q]) \<and>
     (\<forall>a \<in> set (start q # as @ [koniec q]). a < wolny q \<and> a \<noteq> NULL) \<and>
     sterta q (koniec q) \<noteq> None"

partial_function (option) elementy_od :: "kolejka \<Rightarrow> addr \<Rightarrow> addr list option" where
  "elementy_od q a =
     (if a = koniec q then Some []
      else do {
        e \<leftarrow> sterta q a;
        as \<leftarrow> elementy_od q (nastepny e);
        Some (a # as)
      })"

definition elementy :: "kolejka \<Rightarrow> addr list" where
  "elementy q = (case elementy_od q (start q) of None \<Rightarrow> [] | Some as \<Rightarrow> tl as)"

definition poprawna :: "kolejka \<Rightarrow> bool" where
  "poprawna q \<longleftrightarrow> rep q (elementy q)"

definition zawartosc :: "kolejka \<Rightarrow> int list" where
  "zawartosc q = map (proc_w (sterta q)) (elementy q)"

definition straznik :: "kolejka \<Rightarrow> int" where
  "straznik q = proc_w (sterta q) (start q)"

section \<open>Paths\<close>

lemma sciezka_append:
  "sciezka h a (xs @ ys) b \<longleftrightarrow> (\<exists>c. sciezka h a xs c \<and> sciezka h c ys b)"
  by (induction xs arbitrary: a) auto

lemma sciezka_cong:
  "(\<And>x. x \<in> set xs \<Longrightarrow> h x = h' x) \<Longrightarrow> sciezka h a xs b = sciezka h' a xs b"
  by (induction xs arbitrary: a) auto

lemma sciezka_upd [simp]:
  "u \<notin> set xs \<Longrightarrow> sciezka (h(u := v)) a xs b = sciezka h a xs b"
  by (rule sciezka_cong) auto

lemma sciezka_hd: "sciezka h a xs b \<Longrightarrow> xs \<noteq> [] \<Longrightarrow> hd xs = a"
  by (cases xs) auto

lemma sciezka_mem: "sciezka h a xs b \<Longrightarrow> x \<in> set xs \<Longrightarrow> \<exists>e. h x = Some e"
  by (induction xs arbitrary: a) auto

lemma proc_w_upd [simp]: "a \<noteq> u \<Longrightarrow> proc_w (h(u := v)) a = proc_w h a"
  by (simp add: proc_w_def)

lemma map_proc_w_upd [simp]: "u \<notin> set as \<Longrightarrow> map (proc_w (h(u := v))) as = map (proc_w h) as"
  by (induction as) auto

lemma elementy_od_sciezka:
  "sciezka (sterta q) a as (koniec q) \<Longrightarrow> koniec q \<notin> set as \<Longrightarrow> elementy_od q a = Some as"
  by (induction as arbitrary: a) (subst elementy_od.simps, auto)+

lemma rep_elementy: "rep q as \<Longrightarrow> elementy q = as"
  unfolding rep_def elementy_def by (subst elementy_od_sciezka[of q _ "start q # as"]) auto

lemma rep_poprawna: "rep q as \<Longrightarrow> poprawna q"
  by (simp add: poprawna_def rep_elementy)

lemma poprawna_iff: "poprawna q \<longleftrightarrow> (\<exists>as. rep q as)"
  by (metis poprawna_def rep_elementy)

lemma rep_zawartosc: "rep q as \<Longrightarrow> zawartosc q = map (proc_w (sterta q)) as"
  by (simp add: zawartosc_def rep_elementy)

lemma rep_koniec_notin: "rep q as \<Longrightarrow> koniec q \<notin> set (start q # as)"
  by (auto simp: rep_def)

lemma rep_start_e:
  assumes "rep q as"
  obtains e where "sterta q (start q) = Some e" "sciezka (sterta q) (nastepny e) as (koniec q)"
  using assms by (auto simp: rep_def)

text \<open>
  Relinking: when \<open>l\<close> is the last element of a prefix and its successor is redirected,
  the prefix leads to the new successor.
\<close>

lemma sciezka_przepnij:
  assumes "sciezka h a (xs @ [l]) b" "distinct (xs @ [l])" "h l = Some e"
  shows "sciezka (h(l \<mapsto> e\<lparr>nastepny := c\<rparr>)) a (xs @ [l]) c"
  using assms by (auto simp: sciezka_append)

lemma proc_w_przepnij:
  "h l = Some e \<Longrightarrow> proc_w (h(l \<mapsto> e\<lparr>nastepny := c\<rparr>)) = proc_w h"
  by (auto simp: proc_w_def fun_eq_iff)

section \<open>Functional behaviour of the operations\<close>

lemma element_nadpisany:
  "(e :: element)\<lparr>proces := p, nastepny := n\<rparr> = \<lparr>nastepny = n, proces = p\<rparr>"
  by (cases e) simp

lemma utworzKolejke_rep:
  "\<exists>q. utworzKolejke smiec = Some q \<and> rep q [] \<and> straznik q = proces (smiec 1)"
  by (auto simp: utworzKolejke_def malloc_element_def zapisz_element_def rep_def straznik_def
      proc_w_def NULL_def Let_def)

lemma ostatni_sciezka:
  assumes "sciezka (sterta q) a (xs @ [l]) (koniec q)" "koniec q \<notin> set (xs @ [l])"
  shows "ostatni q a = Some l"
  using assms
proof (induction xs arbitrary: a)
  case Nil
  then show ?case by (subst ostatni.simps) auto
next
  case (Cons x xs)
  then obtain e where e: "a = x" "sterta q x = Some e"
    "sciezka (sterta q) (nastepny e) (xs @ [l]) (koniec q)"
    by auto
  then have "nastepny e \<in> set (xs @ [l])"
    by (metis hd_in_set sciezka_hd snoc_eq_iff_butlast)
  with Cons.prems have "nastepny e \<noteq> koniec q" by auto
  with e Cons show ?case by (subst ostatni.simps) auto
qed

lemma wstaw_rep:
  assumes "rep q as"
  obtains q' where "wstaw smiec q p = Some q'" "rep q' (as @ [wolny q])"
    "zawartosc q' = zawartosc q @ [p]" "straznik q' = straznik q"
proof -
  define xs l where "xs = butlast (start q # as)" and "l = last (start q # as)"
  have sp: "start q # as = xs @ [l]" by (simp add: xs_def l_def)
  from assms have path: "sciezka (sterta q) (start q) (xs @ [l]) (koniec q)"
    and dist: "distinct (xs @ [l] @ [koniec q])"
    and bnd: "\<forall>a \<in> set (xs @ [l] @ [koniec q]). a < wolny q \<and> a \<noteq> NULL"
    and kon: "sterta q (koniec q) \<noteq> None"
    unfolding rep_def append_Cons[symmetric] append_assoc[symmetric] sp by simp_all
  from path obtain e where e: "sterta q l = Some e"
    using sciezka_mem[of _ _ _ _ l] by fastforce
  have ost: "ostatni q (start q) = Some l"
    using ostatni_sciezka[OF path] dist by auto
  have ln: "l \<noteq> wolny q" "koniec q \<noteq> wolny q" "wolny q \<notin> set xs" and l0: "koniec q \<noteq> l"
    using bnd dist by auto
  define h' where "h' = (sterta q)(wolny q \<mapsto> \<lparr>nastepny = koniec q, proces = p\<rparr>,
    l \<mapsto> e\<lparr>nastepny := wolny q\<rparr>)"
  define q' where "q' = q\<lparr>sterta := h', wolny := Suc (wolny q)\<rparr>"
  have run: "wstaw smiec q p = Some q'"
    using ln e by (simp add: wstaw_def ost malloc_element_def zapisz_element_def q'_def h'_def Let_def
        fun_upd_twist element_nadpisany)
  have "sciezka h' (start q) (xs @ [l]) (wolny q)"
  proof -
    have "sciezka ((sterta q)(wolny q \<mapsto> \<lparr>nastepny = koniec q, proces = p\<rparr>)) (start q) (xs @ [l]) (koniec q)"
      using path ln by simp
    then show ?thesis
      unfolding h'_def using dist ln e by (intro sciezka_przepnij) auto
  qed
  then have p': "sciezka h' (start q) (start q # as @ [wolny q]) (koniec q)"
    using ln unfolding append_Cons[symmetric] sp by (simp add: sciezka_append h'_def del: sciezka.simps) auto
  have mem: "set (start q # as) = set (xs @ [l])" "distinct (start q # as)"
    using sp dist by (metis, metis distinct_append append_assoc)
  have out: "wolny q \<notin> set (start q # as)" "koniec q \<notin> set (start q # as)"
    unfolding mem(1) using ln dist by auto
  have bnd': "\<forall>a \<in> set (start q # as) \<union> {koniec q}. a < wolny q \<and> a \<noteq> NULL"
    unfolding mem(1) using bnd by auto
  have d': "distinct (start q # as @ [wolny q, koniec q])" and k': "h' (koniec q) \<noteq> None"
    using mem(2) out ln l0 kon by (auto simp: h'_def)
  have b': "\<forall>a \<in> set (start q # as @ [wolny q, koniec q]). a < Suc (wolny q) \<and> a \<noteq> NULL"
    using bnd' by (auto simp: less_Suc_eq NULL_def)
  have "rep q' (as @ [wolny q])"
    using p' d' k' b' by (simp add: rep_def q'_def del: sciezka.simps)
  moreover have "zawartosc q' = zawartosc q @ [p]" "straznik q' = straznik q"
  proof -
    have "proc_w h' = (proc_w (sterta q))(wolny q := p)"
      using e ln by (auto simp: h'_def proc_w_def fun_eq_iff)
    with out show "zawartosc q' = zawartosc q @ [p]" "straznik q' = straznik q"
      using \<open>rep q' (as @ [wolny q])\<close> assms
      by (auto simp: rep_zawartosc straznik_def q'_def)
  qed
  ultimately show thesis using run that by blast
qed

lemma czyPusto_rep: "rep q as \<Longrightarrow> czyPusto q = Some (if as = [] then 1 else 0)"
proof -
  assume r: "rep q as"
  then obtain e where e: "sterta q (start q) = Some e" "sciezka (sterta q) (nastepny e) as (koniec q)"
    by (rule rep_start_e)
  then have "nastepny e = koniec q \<longleftrightarrow> as = []"
    using rep_koniec_notin[OF r] by (cases as) auto
  with e show ?thesis by (simp add: czyPusto_def)
qed

lemma pierwszyKolejka_rep:
  assumes "rep q (a # as)"
  obtains q' where "pierwszyKolejka q = Some (hd (zawartosc q), q')" "rep q' as"
    "zawartosc q' = tl (zawartosc q)" "straznik q' = straznik q"
proof -
  from assms obtain s f where s: "sterta q (start q) = Some s" "nastepny s = a"
    and f: "sterta q a = Some f" "sciezka (sterta q) (nastepny f) as (koniec q)"
    by (auto simp: rep_def)
  from assms have d: "start q \<noteq> a" "a \<notin> set as" "start q \<notin> set as" "koniec q \<noteq> a" "koniec q \<noteq> start q"
    by (auto simp: rep_def)
  define h' where "h' = (sterta q)(start q \<mapsto> s\<lparr>nastepny := nastepny f\<rparr>, a := None)"
  define q' where "q' = q\<lparr>sterta := h'\<rparr>"
  have run: "pierwszyKolejka q = Some (proces f, q')"
    using s f d by (simp add: pierwszyKolejka_def zapisz_element_def free_element_def Let_def q'_def h'_def)
  have r': "rep q' as"
    using assms s f d by (auto simp: rep_def q'_def h'_def)
  have "map (proc_w h') as = map (proc_w (sterta q)) as"
    using d by (simp add: h'_def)
  moreover have "proc_w h' (start q) = proc_w (sterta q) (start q)"
    using d s by (simp add: h'_def proc_w_def)
  ultimately have "zawartosc q' = tl (zawartosc q)" "straznik q' = straznik q" "hd (zawartosc q) = proces f"
    using rep_zawartosc[OF r'] rep_zawartosc[OF assms] f by (auto simp: q'_def straznik_def proc_w_def)
  with run r' show thesis using that by simp
qed

lemma znajdz_od_sciezka:
  assumes "sciezka (sterta q) a as (koniec q)" "koniec q \<notin> set as"
  shows "znajdz_od q p a = Some (List.find (\<lambda>x. proc_w (sterta q) x = p) as)"
  using assms
proof (induction as arbitrary: a)
  case Nil
  then show ?case by (subst znajdz_od.simps) simp
next
  case (Cons x as)
  then show ?case by (subst znajdz_od.simps) (auto simp: proc_w_def)
qed

lemma znajdz_rep:
  assumes "rep q as"
  shows "znajdz q p = Some (if straznik q = p then Some (start q)
           else List.find (\<lambda>x. proc_w (sterta q) x = p) as)"
  unfolding znajdz_def straznik_def
  using assms by (subst znajdz_od_sciezka[of q _ "start q # as"]) (auto simp: rep_def)

lemma usunElement_od_sciezka:
  assumes "sciezka (sterta q) i (zs @ pr # item # ys) (koniec q)"
    and "distinct (zs @ pr # item # ys)" "koniec q \<notin> set (zs @ pr # item # ys)"
    and "sterta q pr = Some e" "sterta q item = Some it"
  shows "usunElement_od q item i =
    Some (q\<lparr>sterta := (sterta q)(pr \<mapsto> e\<lparr>nastepny := nastepny it\<rparr>, item := None)\<rparr>)"
  using assms
proof (induction zs arbitrary: i)
  case Nil
  then show ?case
    by (subst usunElement_od.simps) (auto simp: zapisz_element_def free_element_def)
next
  case (Cons z zs)
  then obtain e' where e': "i = z" "sterta q z = Some e'"
    "sciezka (sterta q) (nastepny e') (zs @ pr # item # ys) (koniec q)" by auto
  have "nastepny e' = hd (zs @ pr # item # ys)"
    using sciezka_hd[OF e'(3)] by simp
  then have "nastepny e' \<noteq> item"
    using Cons.prems(2) by (cases zs) auto
  moreover have "usunElement_od q item (nastepny e') =
    Some (q\<lparr>sterta := (sterta q)(pr \<mapsto> e\<lparr>nastepny := nastepny it\<rparr>, item := None)\<rparr>)"
    using e' Cons.prems by (intro Cons.IH) auto
  ultimately show ?case using e' Cons.prems(3) by (subst usunElement_od.simps) simp
qed

lemma in_tlD: "x \<in> set (tl xs) \<Longrightarrow> x \<in> set xs"
  by (cases xs) auto

lemma usunElement_od_nic:
  assumes "sciezka (sterta q) i as (koniec q)" "koniec q \<notin> set as"
    and "item \<notin> set (tl as)" "item \<noteq> koniec q"
  shows "usunElement_od q item i = Some q"
  using assms
proof (induction as arbitrary: i)
  case Nil
  then show ?case by (subst usunElement_od.simps) simp
next
  case (Cons a as)
  then obtain e where e: "i = a" "sterta q a = Some e" "sciezka (sterta q) (nastepny e) as (koniec q)"
    by auto
  have "nastepny e \<noteq> item"
    using e(3) Cons.prems(3,4) sciezka_hd[OF e(3)] by (cases as) auto
  moreover have "usunElement_od q item (nastepny e) = Some q"
    using e Cons.prems by (intro Cons.IH) (auto dest: in_tlD)
  ultimately show ?case using e Cons.prems(2) by (subst usunElement_od.simps) auto
qed

lemma usunElement_rep:
  assumes "rep q (xs @ item # ys)"
  obtains q' where "usunElement q item = Some q'" "rep q' (xs @ ys)"
    "zawartosc q' = map (proc_w (sterta q)) (xs @ ys)" "straznik q' = straznik q"
proof -
  define zs pr where "zs = butlast (start q # xs)" and "pr = last (start q # xs)"
  have sp: "start q # xs = zs @ [pr]" by (simp add: zs_def pr_def)
  have eq: "start q # xs @ ws = zs @ pr # ws" for ws
    using sp by (metis append_Cons append_assoc append_Nil)
  from assms have path: "sciezka (sterta q) (start q) (zs @ pr # item # ys) (koniec q)"
    and dist: "distinct (zs @ pr # item # ys @ [koniec q])"
    and bnd: "\<forall>a \<in> set (zs @ pr # item # ys @ [koniec q]). a < wolny q \<and> a \<noteq> NULL"
    and kon: "sterta q (koniec q) \<noteq> None"
    unfolding rep_def append_assoc append_Cons eq by simp_all
  from path obtain e it where e: "sterta q pr = Some e" "sterta q item = Some it"
    by (auto simp: sciezka_append)
  define h' where "h' = (sterta q)(pr \<mapsto> e\<lparr>nastepny := nastepny it\<rparr>, item := None)"
  define q' where "q' = q\<lparr>sterta := h'\<rparr>"
  have run: "usunElement q item = Some q'"
    unfolding usunElement_def q'_def h'_def
    using path dist e by (intro usunElement_od_sciezka) auto
  have "sciezka h' (start q) (zs @ pr # ys) (koniec q)"
    using path dist e by (auto simp: sciezka_append h'_def)
  moreover have "distinct (zs @ pr # ys @ [koniec q])" "h' (koniec q) \<noteq> None"
    "\<forall>a \<in> set (zs @ pr # ys @ [koniec q]). a < wolny q \<and> a \<noteq> NULL"
    using dist bnd kon by (auto simp: h'_def)
  ultimately have r': "rep q' (xs @ ys)"
    unfolding rep_def q'_def append_assoc by (simp add: eq del: sciezka.simps distinct.simps)
  have "a \<noteq> item \<Longrightarrow> proc_w h' a = proc_w (sterta q) a" for a
    using e by (auto simp: h'_def proc_w_def)
  moreover have "item \<notin> set (start q # xs @ ys)" unfolding eq using dist by auto
  ultimately have "\<forall>a \<in> set (start q # xs @ ys). proc_w h' a = proc_w (sterta q) a"
    by metis
  then have "zawartosc q' = map (proc_w (sterta q)) (xs @ ys)" "straznik q' = straznik q"
    using rep_zawartosc[OF r'] by (auto simp: q'_def straznik_def)
  with run r' show thesis using that by blast
qed

lemma usunElement_straznik: "rep q as \<Longrightarrow> usunElement q (start q) = Some q"
  unfolding usunElement_def
  by (rule usunElement_od_nic[of _ _ "start q # as"]) (auto simp: rep_def)

section \<open>The interface of a waiting queue\<close>

text \<open>
  What the server relies on, stated over the abstraction \<open>lista\<close> of a queue to the list of
  waiting processes. \<open>straz\<close> is the indeterminate value in the sentinel; \<open>szuk\<close> may be
  trusted for a process only when that value is a different one.
\<close>

locale kolejka_fifo =
  fixes inv :: "'q \<Rightarrow> bool"
    and lista :: "'q \<Rightarrow> int list"
    and straz :: "'q \<Rightarrow> int"
    and wst :: "'q \<Rightarrow> int \<Rightarrow> 'q option"
    and zdejm :: "'q \<Rightarrow> (int \<times> 'q) option"
    and pusta :: "'q \<Rightarrow> int option"
    and szuk :: "'q \<Rightarrow> int \<Rightarrow> 'a option option"
    and usun :: "'q \<Rightarrow> 'a \<Rightarrow> 'q option"
  assumes wst_ok: "inv q \<Longrightarrow>
      \<exists>q'. wst q p = Some q' \<and> inv q' \<and> lista q' = lista q @ [p] \<and> straz q' = straz q"
    and zdejm_ok: "inv q \<Longrightarrow> lista q = p # ps \<Longrightarrow>
      \<exists>q'. zdejm q = Some (p, q') \<and> inv q' \<and> lista q' = ps \<and> straz q' = straz q"
    and pusta_ok: "inv q \<Longrightarrow> pusta q = Some (if lista q = [] then 1 else 0)"
    and szuk_brak: "inv q \<Longrightarrow> straz q \<noteq> p \<Longrightarrow> p \<notin> set (lista q) \<Longrightarrow> szuk q p = Some None"
    and szuk_usun: "inv q \<Longrightarrow> straz q \<noteq> p \<Longrightarrow> p \<in> set (lista q) \<Longrightarrow>
      \<exists>a q'. szuk q p = Some (Some a) \<and> usun q a = Some q' \<and> inv q' \<and>
        lista q' = remove1 p (lista q) \<and> straz q' = straz q"

fun wstaw_liste :: "('q \<Rightarrow> int \<Rightarrow> 'q option) \<Rightarrow> 'q \<Rightarrow> int list \<Rightarrow> 'q option" where
  "wstaw_liste wst q [] = Some q"
| "wstaw_liste wst q (p # ps) = do { q' \<leftarrow> wst q p; wstaw_liste wst q' ps }"

fun zdejmij_n :: "('q \<Rightarrow> (int \<times> 'q) option) \<Rightarrow> nat \<Rightarrow> 'q \<Rightarrow> (int list \<times> 'q) option" where
  "zdejmij_n zdejm 0 q = Some ([], q)"
| "zdejmij_n zdejm (Suc n) q = do {
     (p, q') \<leftarrow> zdejm q;
     (ps, q'') \<leftarrow> zdejmij_n zdejm n q';
     Some (p # ps, q'')
   }"

context kolejka_fifo
begin

lemma wstaw_liste_ok:
  "inv q \<Longrightarrow> \<exists>q'. wstaw_liste wst q ps = Some q' \<and> inv q' \<and> lista q' = lista q @ ps \<and> straz q' = straz q"
proof (induction ps arbitrary: q)
  case Nil
  then show ?case by simp
next
  case (Cons p ps)
  from wst_ok[OF Cons.prems, of p] obtain q1 where q1: "wst q p = Some q1" "inv q1"
    "lista q1 = lista q @ [p]" "straz q1 = straz q" by blast
  from Cons.IH[OF q1(2)] q1 show ?case by auto
qed

lemma zdejmij_n_ok:
  "inv q \<Longrightarrow> lista q = ps @ qs \<Longrightarrow>
    \<exists>q'. zdejmij_n zdejm (length ps) q = Some (ps, q') \<and> inv q' \<and> lista q' = qs"
proof (induction ps arbitrary: q)
  case Nil
  then show ?case by simp
next
  case (Cons p ps)
  from zdejm_ok[OF Cons.prems(1), of p "ps @ qs"] Cons.prems(2) obtain q1
    where q1: "zdejm q = Some (p, q1)" "inv q1" "lista q1 = ps @ qs" by auto
  from Cons.IH[OF q1(2,3)] q1 show ?case by auto
qed

lemma fifo:
  assumes "inv q" "lista q = []"
  shows "\<exists>q1 q2. wstaw_liste wst q ps = Some q1 \<and>
    zdejmij_n zdejm (length ps) q1 = Some (ps, q2) \<and> pusta q2 = Some 1"
proof -
  from wstaw_liste_ok[OF assms(1), of ps] assms(2) obtain q1
    where q1: "wstaw_liste wst q ps = Some q1" "inv q1" "lista q1 = ps" by auto
  from zdejmij_n_ok[OF q1(2), of ps "[]"] q1(3) obtain q2
    where q2: "zdejmij_n zdejm (length ps) q1 = Some (ps, q2)" "inv q2" "lista q2 = []" by auto
  with q1 pusta_ok[of q2] show ?thesis by auto
qed

end

lemma find_split:
  "List.find P xs = Some x \<Longrightarrow> \<exists>us vs. xs = us @ x # vs \<and> P x \<and> (\<forall>u \<in> set us. \<not> P u)"
proof (induction xs)
  case (Cons y ys)
  show ?case
  proof (cases "P y")
    case True
    with Cons.prems have "y # ys = [] @ x # ys" by simp
    with True Cons.prems show ?thesis by fastforce
  next
    case False
    with Cons.prems Cons.IH obtain us vs where "ys = us @ x # vs" "P x" "\<forall>u \<in> set us. \<not> P u"
      by auto
    with False have "y # ys = (y # us) @ x # vs \<and> P x \<and> (\<forall>u \<in> set (y # us). \<not> P u)" by simp
    then show ?thesis by blast
  qed
qed simp

lemma znajdz_usunElement:
  assumes "poprawna q" "straznik q \<noteq> p" "p \<in> set (zawartosc q)"
  shows "\<exists>a q'. znajdz q p = Some (Some a) \<and> usunElement q a = Some q' \<and> poprawna q' \<and>
    zawartosc q' = remove1 p (zawartosc q) \<and> straznik q' = straznik q"
proof -
  let ?f = "proc_w (sterta q)"
  from assms(1) obtain as where r: "rep q as" by (auto simp: poprawna_iff)
  with assms(3) have "List.find (\<lambda>x. ?f x = p) as \<noteq> None"
    by (auto simp: rep_zawartosc find_None_iff)
  then obtain a where a: "List.find (\<lambda>x. ?f x = p) as = Some a" by blast
  then obtain us vs where sp: "as = us @ a # vs" "?f a = p" "\<forall>u \<in> set us. ?f u \<noteq> p"
    using find_split by fastforce
  obtain q' where q': "usunElement q a = Some q'" "rep q' (us @ vs)"
    "zawartosc q' = map ?f (us @ vs)" "straznik q' = straznik q"
    using r sp usunElement_rep by metis
  have "remove1 p (zawartosc q) = map ?f (us @ vs)"
    using sp by (auto simp: rep_zawartosc[OF r] remove1_append)
  with q' a assms(2) r show ?thesis by (auto simp: znajdz_rep rep_poprawna)
qed

interpretation kq: kolejka_fifo poprawna zawartosc straznik "wstaw smiec" pierwszyKolejka czyPusto
  znajdz usunElement for smiec
proof
  fix q p assume "poprawna q"
  then show "\<exists>q'. wstaw smiec q p = Some q' \<and> poprawna q' \<and> zawartosc q' = zawartosc q @ [p] \<and>
      straznik q' = straznik q"
    by (metis poprawna_iff wstaw_rep)
next
  fix q p ps assume q: "poprawna q" "zawartosc q = p # ps"
  then obtain a as where "rep q (a # as)"
    by (metis list.distinct(1) list.exhaust list.simps(8) poprawna_def zawartosc_def)
  then show "\<exists>q'. pierwszyKolejka q = Some (p, q') \<and> poprawna q' \<and> zawartosc q' = ps \<and>
      straznik q' = straznik q"
    using q(2) pierwszyKolejka_rep[of q a as] by (metis list.sel(1,3) rep_poprawna)
next
  fix q assume "poprawna q"
  then show "czyPusto q = Some (if zawartosc q = [] then 1 else 0)"
    using czyPusto_rep by (auto simp: poprawna_def zawartosc_def)
next
  fix q p assume "poprawna q" "straznik q \<noteq> p" "p \<notin> set (zawartosc q)"
  then show "znajdz q p = Some None"
    using znajdz_rep[of q "elementy q" p] by (auto simp: poprawna_def zawartosc_def find_None_iff)
next
  fix q p assume "poprawna q" "straznik q \<noteq> p" "p \<in> set (zawartosc q)"
  then show "\<exists>a q'. znajdz q p = Some (Some a) \<and> usunElement q a = Some q' \<and> poprawna q' \<and>
      zawartosc q' = remove1 p (zawartosc q) \<and> straznik q' = straznik q"
    by (rule znajdz_usunElement)
qed

section \<open>Properties\<close>

lemma utworzKolejke_ok:
  "\<exists>q. utworzKolejke smiec = Some q \<and> poprawna q \<and> zawartosc q = [] \<and> straznik q = proces (smiec 1)"
  using utworzKolejke_rep[of smiec] rep_zawartosc rep_poprawna by fastforce

text \<open>
  C26. The linked list of \<^verbatim>\<open>queue.h\<close> is a queue: after inserting any processes into a new queue,
  removing as many gives them back in the order of insertion and leaves an empty queue; no
  operation touches memory that is not allocated.
\<close>

theorem kolejka_jest_fifo:
  "\<exists>q q1 q2. utworzKolejke smiec = Some q \<and> wstaw_liste (wstaw smiec) q ps = Some q1 \<and>
     zdejmij_n pierwszyKolejka (length ps) q1 = Some (ps, q2) \<and> czyPusto q2 = Some 1"
  using utworzKolejke_ok[of smiec] kq.fifo by metis

lemma znajdz_straznik:
  assumes "poprawna q" and "straznik q = p"
  shows "znajdz q p = Some (Some (start q)) \<and> usunElement q (start q) = Some q"
  using assms by (auto simp: poprawna_def znajdz_rep usunElement_straznik)

end
