(* ===== verification/Tablica.thy ===== *)
theory Tablica
  imports Prelude
begin

text \<open>
  The server keeps its mutexes and its condition variables in arrays of slots, each slot
  with a flag that says whether it is in use and with the number the clients know it by.
  Read through the flag and the number such an array is a finite map from numbers to
  values. This theory has that reading, how it changes when one slot is written, and the
  interface of a table that is searched by number.
\<close>

section \<open>An array of slots as a map\<close>

definition tab :: "('e \<Rightarrow> bool) \<Rightarrow> ('e \<Rightarrow> int) \<Rightarrow> ('e \<Rightarrow> 'v) \<Rightarrow> 'e list \<Rightarrow> int \<rightharpoonup> 'v" where
  "tab u k v xs = map_of (map (\<lambda>e. (k e, v e)) (filter u xs))"

definition rozne :: "('e \<Rightarrow> bool) \<Rightarrow> ('e \<Rightarrow> int) \<Rightarrow> 'e list \<Rightarrow> bool" where
  "rozne u k xs \<longleftrightarrow> (\<forall>i < length xs. \<forall>j < length xs.
     u (xs ! i) \<and> u (xs ! j) \<and> k (xs ! i) = k (xs ! j) \<longrightarrow> i = j)"

lemma rozneD:
  "rozne u k xs \<Longrightarrow> i < length xs \<Longrightarrow> j < length xs \<Longrightarrow> u (xs ! i) \<Longrightarrow> u (xs ! j) \<Longrightarrow>
    k (xs ! i) = k (xs ! j) \<Longrightarrow> i = j"
  by (auto simp: rozne_def)

lemma tab_None_iff: "tab u k v xs n = None \<longleftrightarrow> (\<forall>i < length xs. u (xs ! i) \<longrightarrow> k (xs ! i) \<noteq> n)"
  unfolding tab_def map_of_eq_None_iff by (auto simp: in_set_conv_nth image_def)

lemma tab_SomeD:
  assumes "tab u k v xs n = Some w"
  obtains i where "i < length xs" "u (xs ! i)" "k (xs ! i) = n" "v (xs ! i) = w"
  using map_of_SomeD[OF assms[unfolded tab_def]] by (auto simp: in_set_conv_nth)

lemma tab_Some:
  assumes "rozne u k xs" "i < length xs" "u (xs ! i)"
  shows "tab u k v xs (k (xs ! i)) = Some (v (xs ! i))"
proof -
  have "tab u k v xs (k (xs ! i)) \<noteq> None"
    using assms(2,3) by (auto simp: tab_None_iff)
  then obtain w where w: "tab u k v xs (k (xs ! i)) = Some w" by blast
  then obtain j where "j < length xs" "u (xs ! j)" "k (xs ! j) = k (xs ! i)" "v (xs ! j) = w"
    by (rule tab_SomeD)
  with assms have "j = i" by (metis rozneD)
  with w \<open>v (xs ! j) = w\<close> show ?thesis by simp
qed

lemma tab_eqI:
  assumes "rozne u k xs"
    and "\<And>i. i < length xs \<Longrightarrow> u (xs ! i) \<Longrightarrow> m (k (xs ! i)) = Some (v (xs ! i))"
    and "\<And>n. (\<forall>i < length xs. u (xs ! i) \<longrightarrow> k (xs ! i) \<noteq> n) \<Longrightarrow> m n = None"
  shows "tab u k v xs = m"
proof
  fix n
  show "tab u k v xs n = m n"
  proof (cases "tab u k v xs n")
    case None
    with assms(3) show ?thesis by (simp add: tab_None_iff)
  next
    case (Some w)
    with assms(2) show ?thesis by (metis tab_SomeD)
  qed
qed

section \<open>Writing one slot\<close>

lemma rozne_upd:
  assumes "rozne u k xs" "i < length xs"
    and "u e \<Longrightarrow> \<forall>j < length xs. j \<noteq> i \<longrightarrow> u (xs ! j) \<longrightarrow> k (xs ! j) \<noteq> k e"
  shows "rozne u k (xs[i := e])"
  unfolding rozne_def
proof (intro allI impI, elim conjE)
  fix j l
  assume "j < length (xs[i := e])" "l < length (xs[i := e])"
    and "u (xs[i := e] ! j)" "u (xs[i := e] ! l)" "k (xs[i := e] ! j) = k (xs[i := e] ! l)"
  then show "j = l"
    using assms(3) rozneD[OF assms(1), of j l] assms(2)
    by (cases "j = i"; cases "l = i") (auto simp: nth_list_update)
qed

lemma tab_upd_ten_sam:
  assumes "rozne u k xs" "i < length xs" "u (xs ! i)" "u e" "k e = k (xs ! i)"
  shows "tab u k v (xs[i := e]) = (tab u k v xs)(k e \<mapsto> v e)" "rozne u k (xs[i := e])"
proof -
  show r: "rozne u k (xs[i := e])"
    using assms by (intro rozne_upd) (auto dest: rozneD)
  show "tab u k v (xs[i := e]) = (tab u k v xs)(k e \<mapsto> v e)"
  proof (rule tab_eqI[OF r], goal_cases)
    case (1 j)
    then show ?case
      using assms tab_Some[OF assms(1), of j] rozneD[OF assms(1,2), of j]
      by (cases "j = i") (auto simp: nth_list_update)
  next
    case (2 n)
    then have "n \<noteq> k e" using assms by (metis length_list_update nth_list_update_eq)
    moreover have "tab u k v xs n = None"
      unfolding tab_None_iff using 2 \<open>n \<noteq> k e\<close> assms(5)
      by (metis length_list_update nth_list_update_neq)
    ultimately show ?case by simp
  qed
qed

lemma tab_upd_nowy:
  assumes "rozne u k xs" "i < length xs" "\<not> u (xs ! i)" "u e" "tab u k v xs (k e) = None"
  shows "tab u k v (xs[i := e]) = (tab u k v xs)(k e \<mapsto> v e)" "rozne u k (xs[i := e])"
proof -
  show r: "rozne u k (xs[i := e])"
    using assms by (intro rozne_upd) (auto simp: tab_None_iff)
  show "tab u k v (xs[i := e]) = (tab u k v xs)(k e \<mapsto> v e)"
  proof (rule tab_eqI[OF r], goal_cases)
    case (1 j)
    then show ?case
      using assms(2,5) tab_Some[OF assms(1), of j v]
      by (cases "j = i") (auto simp: nth_list_update tab_None_iff)
  next
    case (2 n)
    then have "n \<noteq> k e" using assms by (metis length_list_update nth_list_update_eq)
    moreover have "tab u k v xs n = None"
      unfolding tab_None_iff using 2 assms(3)
      by (metis length_list_update nth_list_update_neq)
    ultimately show ?case by simp
  qed
qed

lemma tab_upd_wolny:
  assumes "rozne u k xs" "i < length xs" "u (xs ! i)" "\<not> u e"
  shows "tab u k v (xs[i := e]) = (tab u k v xs)(k (xs ! i) := None)" "rozne u k (xs[i := e])"
proof -
  show r: "rozne u k (xs[i := e])"
    using assms by (intro rozne_upd) auto
  show "tab u k v (xs[i := e]) = (tab u k v xs)(k (xs ! i) := None)"
  proof (rule tab_eqI[OF r], goal_cases)
    case (1 j)
    then show ?case
      using assms tab_Some[OF assms(1), of j v] rozneD[OF assms(1,2), of j]
      by (cases "j = i") (auto simp: nth_list_update)
  next
    case (2 n)
    show ?case
    proof (cases "n = k (xs ! i)")
      case False
      then have "tab u k v xs n = None"
        unfolding tab_None_iff using 2 by (metis length_list_update nth_list_update_neq)
      with False show ?thesis by simp
    qed simp
  qed
qed

lemma tab_upd_martwy:
  assumes "rozne u k xs" "i < length xs" "\<not> u (xs ! i)" "\<not> u e"
  shows "tab u k v (xs[i := e]) = tab u k v xs" "rozne u k (xs[i := e])"
proof -
  show r: "rozne u k (xs[i := e])"
    using assms by (intro rozne_upd) auto
  show "tab u k v (xs[i := e]) = tab u k v xs"
  proof (rule tab_eqI[OF r], goal_cases)
    case (1 j)
    then show ?case
      using assms tab_Some[OF assms(1), of j v] by (cases "j = i") auto
  next
    case (2 n)
    then show ?case
      unfolding tab_None_iff using assms(3) by (metis length_list_update nth_list_update_neq)
  qed
qed

section \<open>Changing every slot\<close>

text \<open>
  When every slot is replaced by a related one that keeps its number and is in use only if
  the old one was, the map changes value by value; \<open>g\<close> says how.
\<close>

lemma tab_all2:
  assumes "rozne u k xs" "list_all2 R xs ys"
    and R: "\<And>e e'. R e e' \<Longrightarrow> u e' \<Longrightarrow> u e \<and> k e' = k e"
    and g: "\<And>e e'. R e e' \<Longrightarrow> u e \<Longrightarrow> g (v e) = (if u e' then Some (v e') else None)"
  shows "tab u k v ys = (\<lambda>n. Option.bind (tab u k v xs n) g)" "rozne u k ys"
proof -
  note nth = list_all2_nthD[OF assms(2)] and len = list_all2_lengthD[OF assms(2)]
  show r: "rozne u k ys"
    unfolding rozne_def using R nth len rozneD[OF assms(1)] by metis
  show "tab u k v ys = (\<lambda>n. Option.bind (tab u k v xs n) g)"
  proof (rule tab_eqI[OF r], goal_cases)
    case (1 i)
    then have i: "i < length xs" "R (xs ! i) (ys ! i)" using nth len by auto
    with 1 R have "u (xs ! i)" "k (ys ! i) = k (xs ! i)" by blast+
    with i 1 g tab_Some[OF assms(1), of i v] show ?case by simp
  next
    case (2 n)
    show ?case
    proof (cases "tab u k v xs n")
      case (Some w)
      then obtain i where i: "i < length xs" "u (xs ! i)" "k (xs ! i) = n" "v (xs ! i) = w"
        by (rule tab_SomeD)
      then have "\<not> u (ys ! i)" using 2 nth R len by metis
      with i g[OF nth[OF i(1)]] Some show ?thesis by auto
    qed simp
  qed
qed

text \<open>A loop over all slots whose \<open>i\<close>-th round writes no other slot than the \<open>i\<close>-th.\<close>

lemma FOR_sloty:
  assumes "J 0 s" "length (tbl s) = n"
    and step: "\<And>i t. i < n \<Longrightarrow> J i t \<Longrightarrow> length (tbl t) = n \<Longrightarrow> tbl t ! i = tbl s ! i \<Longrightarrow>
      \<exists>t' e'. body i t = Some t' \<and> tbl t' = (tbl t)[i := e'] \<and> R (tbl s ! i) e' \<and> J (Suc i) t'"
  shows "\<exists>s'. FOR 0 n body s = Some s' \<and> list_all2 R (tbl s) (tbl s') \<and> J n s'"
proof -
  define I where "I i t \<longleftrightarrow> J i t \<and> length (tbl t) = n \<and>
    (\<forall>j < i. R (tbl s ! j) (tbl t ! j)) \<and> (\<forall>j < n. i \<le> j \<longrightarrow> tbl t ! j = tbl s ! j)" for i t
  have "\<exists>s'. FOR 0 n body s = Some s' \<and> I n s'"
  proof (rule FOR_rule)
    fix i t assume i: "i < n" and I: "I i t"
    from step[of i t] i I obtain t' e' where t': "body i t = Some t'" "tbl t' = (tbl t)[i := e']"
      "R (tbl s ! i) e'" "J (Suc i) t'" by (auto simp: I_def)
    then have "I (Suc i) t'"
      using i I unfolding I_def by (auto simp: less_Suc_eq nth_list_update)
    with t' show "\<exists>t'. body i t = Some t' \<and> I (Suc i) t'" by blast
  qed (use assms(1,2) in \<open>auto simp: I_def\<close>)
  then show ?thesis
    using assms(2) by (auto simp: I_def list_all2_conv_all_nth)
qed

section \<open>How many slots are in use\<close>

lemma dom_tab: "dom (tab u k v xs) = k ` set (filter u xs)"
  by (auto simp: tab_def dom_map_of_conv_image_fst image_image)

lemma finite_dom_tab: "finite (dom (tab u k v xs))"
  by (simp add: dom_tab)

lemma rozne_ConsD: "rozne u k (x # xs) \<Longrightarrow> rozne u k xs \<and> (u x \<longrightarrow> k x \<notin> k ` set (filter u xs))"
proof
  assume r: "rozne u k (x # xs)"
  show "rozne u k xs"
    unfolding rozne_def using rozneD[OF r, of "Suc i" "Suc j" for i j] by auto
  show "u x \<longrightarrow> k x \<notin> k ` set (filter u xs)"
    using rozneD[OF r, of 0 "Suc j" for j] by (auto simp: in_set_conv_nth)
qed

lemma card_dom_tab: "rozne u k xs \<Longrightarrow> card (dom (tab u k v xs)) = length (filter u xs)"
  unfolding dom_tab by (induction xs) (auto dest: rozne_ConsD)

section \<open>The interface of a table searched by number\<close>

text \<open>
  \<open>tbl\<close> is the array of a state, \<open>rozmiar\<close> its size, \<open>szukaj\<close> the search for a slot in use with
  a given number (\<open>-1\<close> when there is none) and \<open>wolne\<close> the search for a slot not in use
  (\<open>rozmiar\<close> when there is none).
\<close>

locale tablica =
  fixes tbl :: "'s \<Rightarrow> 'e list"
    and rozmiar :: nat
    and uzyw :: "'e \<Rightarrow> bool"
    and klucz :: "'e \<Rightarrow> int"
    and wart :: "'e \<Rightarrow> 'v"
    and szukaj :: "'s \<Rightarrow> int \<Rightarrow> int"
    and wolne :: "'s \<Rightarrow> nat"
  assumes szukaj_brak:
      "szukaj s n = -1 \<Longrightarrow> i < rozmiar \<Longrightarrow> uzyw (tbl s ! i) \<Longrightarrow> klucz (tbl s ! i) \<noteq> n"
    and szukaj_jest:
      "szukaj s n \<noteq> -1 \<Longrightarrow> \<exists>i < rozmiar. szukaj s n = int i \<and> uzyw (tbl s ! i) \<and> klucz (tbl s ! i) = n"
    and wolne_jest: "wolne s < rozmiar \<Longrightarrow> \<not> uzyw (tbl s ! wolne s)"
    and wolne_brak: "\<not> wolne s < rozmiar \<Longrightarrow> i < rozmiar \<Longrightarrow> uzyw (tbl s ! i)"
begin

lemma szukaj_None_iff:
  "length (tbl s) = rozmiar \<Longrightarrow> szukaj s n = -1 \<longleftrightarrow> tab uzyw klucz wart (tbl s) n = None"
  unfolding tab_None_iff using szukaj_brak szukaj_jest by metis

lemma szukaj_Some:
  assumes "length (tbl s) = rozmiar" "rozne uzyw klucz (tbl s)" "szukaj s n \<noteq> -1"
  obtains i where "i < rozmiar" "szukaj s n = int i" "uzyw (tbl s ! i)" "klucz (tbl s ! i) = n"
    "tab uzyw klucz wart (tbl s) n = Some (wart (tbl s ! i))"
  using szukaj_jest[OF assms(3)] tab_Some[OF assms(2)] assms(1) that by metis

lemma szukaj_slot:
  assumes "length (tbl s) = rozmiar" "rozne uzyw klucz (tbl s)" "i < rozmiar" "uzyw (tbl s ! i)"
  shows "szukaj s (klucz (tbl s ! i)) = int i"
proof -
  have "szukaj s (klucz (tbl s ! i)) \<noteq> -1"
    using szukaj_brak assms(3,4) by blast
  from szukaj_jest[OF this] obtain j where "j < rozmiar" "szukaj s (klucz (tbl s ! i)) = int j"
    "uzyw (tbl s ! j)" "klucz (tbl s ! j) = klucz (tbl s ! i)" by auto
  with assms show ?thesis by (metis rozneD)
qed

lemma wolne_istnieje:
  assumes "length (tbl s) = rozmiar"
  shows "wolne s < rozmiar \<longleftrightarrow> length (filter uzyw (tbl s)) < rozmiar"
proof
  assume "wolne s < rozmiar"
  with wolne_jest[of s] assms have "tbl s ! wolne s \<in> set (tbl s)" "\<not> uzyw (tbl s ! wolne s)"
    by auto
  then show "length (filter uzyw (tbl s)) < rozmiar"
    using assms length_filter_less by metis
next
  assume *: "length (filter uzyw (tbl s)) < rozmiar"
  show "wolne s < rozmiar"
  proof (rule ccontr)
    assume "\<not> wolne s < rozmiar"
    then have "\<forall>e \<in> set (tbl s). uzyw e"
      using wolne_brak[of s] assms by (auto simp: in_set_conv_nth)
    then have "filter uzyw (tbl s) = tbl s" by simp
    with * assms show False by simp
  qed
qed

end

end
