(* ===== verification/Komunikaty.thy ===== *)
theory Komunikaty
  imports Prelude
begin

text \<open>
  What the programs of the repository exchange: MINIX messages with the fields that the cv
  server, its client library and the process manager use, the request codes of
  \<^verbatim>\<open>include/cv.h\<close> and \<^verbatim>\<open>servers/cv/includes.h\<close>, and the result codes of \<^verbatim>\<open>errno.h\<close>. Both
  servers are compiled with \<^verbatim>\<open>_SYSTEM\<close>, which makes the error codes of \<^verbatim>\<open>errno.h\<close> negative;
  the client library is not, and sees them positive in \<^verbatim>\<open>errno\<close>.
\<close>

record message =
  m_source :: int
  m_type :: int
  m1_i1 :: int
  m1_i2 :: int
  PM_PROC :: int

definition OK :: int where "OK = 0"

definition EPERM :: int where "EPERM = - 1"

definition EINTR :: int where "EINTR = - 4"

definition EINVAL :: int where "EINVAL = - 22"

definition EDONTREPLY :: int where "EDONTREPLY = - 201"

lemmas errno_defs = OK_def EPERM_def EINTR_def EINVAL_def EDONTREPLY_def

definition CS_LOCK :: int where "CS_LOCK = 1"

definition CS_UNLOCK :: int where "CS_UNLOCK = 2"

definition CS_WAIT :: int where "CS_WAIT = 3"

definition CS_BROADCAST :: int where "CS_BROADCAST = 4"

definition CS_EINTR :: int where "CS_EINTR = 5"

definition CS_EXIT :: int where "CS_EXIT = 6"

lemmas cs_defs = CS_LOCK_def CS_UNLOCK_def CS_WAIT_def CS_BROADCAST_def CS_EINTR_def CS_EXIT_def

lemma errno_rozne [simp]:
  "OK \<noteq> EDONTREPLY" "EPERM \<noteq> EDONTREPLY" "- EINVAL \<noteq> EDONTREPLY" "EINVAL \<noteq> EDONTREPLY"
  "EDONTREPLY \<noteq> OK" "OK \<noteq> EPERM" "EPERM \<noteq> OK" "EINTR \<noteq> OK"
  by (simp_all add: errno_defs)

end
