(* ===== verification/Serwer.thy ===== *)
theory Serwer
  imports Kolejka Tablica Komunikaty
begin

text \<open>
  The server of mutexes and condition variables, \<^verbatim>\<open>servers/cv/main.c\<close>: its state, one
  definition per function, in the order in which they call each other, and the
  initialisation and the message loop of \<^verbatim>\<open>main\<close>.

  The global arrays \<^verbatim>\<open>M\<close> and \<^verbatim>\<open>CV\<close> are lists of fixed length. A write outside an array is
  undefined behaviour and the outcome \<^term>\<open>None\<close>. What the server sends and prints is
  recorded in order in the field \<open>wyjscie\<close>. The parts of the world outside the sources are
  arguments: the contents of fresh memory for every queue and the kernel's answer to a
  \<^verbatim>\<open>send\<close>, which may depend on everything the server did before.
\<close>

section \<open>State\<close>

definition MAX_MUTEX :: nat where "MAX_MUTEX = 1024"

definition MAX_CV :: nat where "MAX_CV = 512"

definition MAX_CZEKA :: nat where "MAX_CZEKA = 512"

record muteks =
  uzywany :: int
  numer :: int
  wlasciciel :: int
  kolejka :: kolejka

record conditionVariable =
  cv_uzywany :: int
  cv_numer :: int
  procesy :: "int list"
  muteksy :: "int list"
  size_cv :: int

datatype zdarzenie =
    Wyslano (adresat: int) (tresc: int)
  | Wypisano string "int list"

record serwer =
  M :: "muteks list"
  CV :: "conditionVariable list"
  aktualnyProces :: int
  wyjscie :: "zdarzenie list"

record srodowisko =
  smiec :: "nat \<Rightarrow> addr \<Rightarrow> element"
  send :: "zdarzenie list \<Rightarrow> int \<Rightarrow> int \<Rightarrow> int"

section \<open>Operations\<close>

definition wypisz :: "string \<Rightarrow> int list \<Rightarrow> serwer \<Rightarrow> serwer" where
  "wypisz t xs s = s\<lparr>wyjscie := wyjscie s @ [Wypisano t xs]\<rparr>"

definition wyslijWiadomosc :: "srodowisko \<Rightarrow> int \<Rightarrow> int \<Rightarrow> serwer \<Rightarrow> serwer" where
  "wyslijWiadomosc E typ dokad s =
     (let response = send E (wyjscie s) dokad typ;
          s = s\<lparr>wyjscie := wyjscie s @ [Wyslano dokad typ]\<rparr>
      in if response \<noteq> OK
         then wypisz (''CV: so'' @ ''rry, couldn't send to %d'') [aktualnyProces s] s
         else s)"

definition indeksUzywanegoMutexa :: "serwer \<Rightarrow> int \<Rightarrow> int" where
  "indeksUzywanegoMutexa s numerMutexu =
     (let i = FOR_szukaj 0 MAX_MUTEX (\<lambda>i. uzywany (M s ! i) \<noteq> 0 \<and> numer (M s ! i) = numerMutexu)
      in if i < MAX_MUTEX then int i else - 1)"

definition indeksUzywanegoCv :: "serwer \<Rightarrow> int \<Rightarrow> int" where
  "indeksUzywanegoCv s numerCv =
     (let i = FOR_szukaj 0 MAX_CV (\<lambda>i. cv_uzywany (CV s ! i) \<noteq> 0 \<and> cv_numer (CV s ! i) = numerCv)
      in if i < MAX_CV then int i else - 1)"

text \<open>The searches for a free slot inside \<^verbatim>\<open>cs_lock\<close> and \<^verbatim>\<open>cs_wait\<close>.\<close>

definition wolnyMutex :: "serwer \<Rightarrow> nat" where
  "wolnyMutex s = FOR_szukaj 0 MAX_MUTEX (\<lambda>i. uzywany (M s ! i) = 0)"

definition wolneCv :: "serwer \<Rightarrow> nat" where
  "wolneCv s = FOR_szukaj 0 MAX_CV (\<lambda>i. cv_uzywany (CV s ! i) = 0)"

definition cs_lock :: "srodowisko \<Rightarrow> int \<Rightarrow> serwer \<Rightarrow> (int \<times> serwer) option" where
  "cs_lock E numerMutexu s =
     (let i = indeksUzywanegoMutexa s numerMutexu in
      if i = - 1 then
        let i = wolnyMutex s in
        if i < MAX_MUTEX then
          Some (OK, s\<lparr>M := (M s)[i := (M s ! i)\<lparr>numer := numerMutexu,
                       wlasciciel := aktualnyProces s, uzywany := 1\<rparr>]\<rparr>)
        else None
      else
        let i = nat i; m = M s ! i in
        if wlasciciel m = aktualnyProces s then Some (EPERM, s)
        else do {
          q \<leftarrow> wstaw (smiec E i) (kolejka m) (aktualnyProces s);
          Some (EDONTREPLY, s\<lparr>M := (M s)[i := m\<lparr>kolejka := q\<rparr>]\<rparr>)
        })"

definition cs_unlock :: "srodowisko \<Rightarrow> int \<Rightarrow> serwer \<Rightarrow> (int \<times> serwer) option" where
  "cs_unlock E numerMutexu s =
     (let i = indeksUzywanegoMutexa s numerMutexu in
      if i = - 1 \<or> wlasciciel (M s ! nat i) \<noteq> aktualnyProces s then Some (EPERM, s)
      else do {
        let i = nat i;
        let m = M s ! i;
        pusto \<leftarrow> czyPusto (kolejka m);
        if pusto = 1 then Some (OK, s\<lparr>M := (M s)[i := m\<lparr>uzywany := 0\<rparr>]\<rparr>)
        else do {
          (new_wlasciciel, q) \<leftarrow> pierwszyKolejka (kolejka m);
          let s = s\<lparr>M := (M s)[i := m\<lparr>kolejka := q, wlasciciel := new_wlasciciel\<rparr>]\<rparr>;
          Some (OK, wyslijWiadomosc E 0 new_wlasciciel s)
        }
      })"

text \<open>The last three assignments of \<^verbatim>\<open>cs_wait\<close>: append to the slot \<open>i\<close>, if there is room.\<close>

definition dopiszCv :: "nat \<Rightarrow> int \<Rightarrow> serwer \<Rightarrow> serwer option" where
  "dopiszCv i numerMutexu s =
     (let c = CV s ! i; k = size_cv c in
      if 0 \<le> k \<and> k < int MAX_CZEKA then
        Some (s\<lparr>CV := (CV s)[i := c\<lparr>procesy := (procesy c)[nat k := aktualnyProces s],
                muteksy := (muteksy c)[nat k := numerMutexu], size_cv := k + 1\<rparr>]\<rparr>)
      else None)"

definition cs_wait :: "srodowisko \<Rightarrow> int \<Rightarrow> int \<Rightarrow> serwer \<Rightarrow> (int \<times> serwer) option" where
  "cs_wait E numerCv numerMutexu s =
     (let i = indeksUzywanegoMutexa s numerMutexu in
      if i = - 1 \<or> wlasciciel (M s ! nat i) \<noteq> aktualnyProces s then Some (- EINVAL, s)
      else do {
        (_, s) \<leftarrow> cs_unlock E numerMutexu s;
        let i = indeksUzywanegoCv s numerCv;
        (i, s) \<leftarrow>
          (if i = - 1 then
             let i = wolneCv s in
             if i < MAX_CV then
               Some (i, s\<lparr>CV := (CV s)[i := (CV s ! i)\<lparr>size_cv := 0, cv_uzywany := 1, cv_numer := numerCv\<rparr>]\<rparr>)
             else None
           else Some (nat i, s));
        s \<leftarrow> dopiszCv i numerMutexu s;
        Some (EDONTREPLY, s)
      })"

text \<open>One round of the loop of \<^verbatim>\<open>cs_broadcast\<close>.\<close>

definition obudz :: "srodowisko \<Rightarrow> nat \<Rightarrow> nat \<Rightarrow> serwer \<Rightarrow> serwer option" where
  "obudz E i j s = do {
     let s = s\<lparr>aktualnyProces := procesy (CV s ! i) ! j\<rparr>;
     (response, s) \<leftarrow> cs_lock E (muteksy (CV s ! i) ! j) s;
     let s = (if response \<noteq> EDONTREPLY then wyslijWiadomosc E 0 (aktualnyProces s) s else s);
     let c = CV s ! i;
     Some (s\<lparr>CV := (CV s)[i := c\<lparr>procesy := (procesy c)[j := 0], muteksy := (muteksy c)[j := 0]\<rparr>]\<rparr>)
   }"

definition cs_broadcast :: "srodowisko \<Rightarrow> int \<Rightarrow> serwer \<Rightarrow> (int \<times> serwer) option" where
  "cs_broadcast E numerCv s =
     (let i = indeksUzywanegoCv s numerCv in
      if i \<noteq> - 1 then do {
        let i = nat i;
        let original = aktualnyProces s;
        s \<leftarrow> FOR 0 (nat (size_cv (CV s ! i))) (obudz E i) s;
        let s = s\<lparr>aktualnyProces := original\<rparr>;
        Some (OK, s\<lparr>CV := (CV s)[i := (CV s ! i)\<lparr>cv_uzywany := 0, size_cv := 0, cv_numer := 0\<rparr>]\<rparr>)
      }
      else Some (OK, s))"

definition przesun :: "nat \<Rightarrow> nat \<Rightarrow> serwer \<Rightarrow> serwer option" where
  "przesun i j s =
     (let c = CV s ! i in
      Some (s\<lparr>CV := (CV s)[i := c\<lparr>procesy := (procesy c)[j - 1 := procesy c ! j],
              muteksy := (muteksy c)[j - 1 := muteksy c ! j]\<rparr>]\<rparr>))"

definition usunZakonczonyProcesCV :: "nat \<Rightarrow> nat \<Rightarrow> serwer \<Rightarrow> serwer option" where
  "usunZakonczonyProcesCV i proces_i s =
     (if size_cv (CV s ! i) = 1 then
        Some (s\<lparr>CV := (CV s)[i := (CV s ! i)\<lparr>cv_uzywany := 0\<rparr>]\<rparr>)
      else do {
        s \<leftarrow> FOR (proces_i + 1) (nat (size_cv (CV s ! i))) (przesun i) s;
        Some (s\<lparr>CV := (CV s)[i := (CV s ! i)\<lparr>size_cv := size_cv (CV s ! i) - 1\<rparr>]\<rparr>)
      })"

text \<open>The bodies of the two loops of \<^verbatim>\<open>wyslijEINTR\<close>.\<close>

definition eintrMutex :: "srodowisko \<Rightarrow> int \<Rightarrow> nat \<Rightarrow> serwer \<Rightarrow> serwer option" where
  "eintrMutex E p i s = do {
     pusto \<leftarrow> czyPusto (kolejka (M s ! i));
     if pusto = 0 then do {
       item \<leftarrow> znajdz (kolejka (M s ! i)) p;
       case item of
         None \<Rightarrow> Some s
       | Some a \<Rightarrow> do {
           let s = wyslijWiadomosc E EINTR p s;
           q \<leftarrow> usunElement (kolejka (M s ! i)) a;
           Some (s\<lparr>M := (M s)[i := (M s ! i)\<lparr>kolejka := q\<rparr>]\<rparr>)
         }
     }
     else Some s
   }"

definition eintrCv :: "srodowisko \<Rightarrow> int \<Rightarrow> nat \<Rightarrow> serwer \<Rightarrow> serwer option" where
  "eintrCv E p i s =
     (if cv_uzywany (CV s ! i) = 1 then
        let n = nat (size_cv (CV s ! i));
            j = FOR_szukaj 0 n (\<lambda>j. procesy (CV s ! i) ! j = p)
        in if j < n then usunZakonczonyProcesCV i j (wyslijWiadomosc E EINTR p s) else Some s
      else Some s)"

definition wyslijEINTR :: "srodowisko \<Rightarrow> int \<Rightarrow> serwer \<Rightarrow> serwer option" where
  "wyslijEINTR E p s = do {
     s \<leftarrow> FOR 0 MAX_MUTEX (eintrMutex E p) s;
     FOR 0 MAX_CV (eintrCv E p) s
   }"

text \<open>The bodies of the three loops of \<^verbatim>\<open>usunZakonczonyProces\<close>.\<close>

definition zwolnijMutex :: "srodowisko \<Rightarrow> int \<Rightarrow> nat \<Rightarrow> serwer \<Rightarrow> serwer option" where
  "zwolnijMutex E p i s =
     (if uzywany (M s ! i) \<noteq> 0 \<and> wlasciciel (M s ! i) = p then do {
        (_, s) \<leftarrow> cs_unlock E (numer (M s ! i)) s;
        Some s
      }
      else Some s)"

definition usunZMutexu :: "int \<Rightarrow> nat \<Rightarrow> serwer \<Rightarrow> serwer option" where
  "usunZMutexu p i s = do {
     pusto \<leftarrow> czyPusto (kolejka (M s ! i));
     if pusto = 0 then do {
       item \<leftarrow> znajdz (kolejka (M s ! i)) p;
       case item of
         None \<Rightarrow> Some s
       | Some a \<Rightarrow> do {
           q \<leftarrow> usunElement (kolejka (M s ! i)) a;
           Some (s\<lparr>M := (M s)[i := (M s ! i)\<lparr>kolejka := q\<rparr>]\<rparr>)
         }
     }
     else Some s
   }"

definition usunZCv :: "int \<Rightarrow> nat \<Rightarrow> serwer \<Rightarrow> serwer option" where
  "usunZCv p i s =
     (if cv_uzywany (CV s ! i) = 1 then
        let n = nat (size_cv (CV s ! i));
            j = FOR_szukaj 0 n (\<lambda>j. procesy (CV s ! i) ! j = p)
        in if j < n then usunZakonczonyProcesCV i j s else Some s
      else Some s)"

definition usunZakonczonyProces :: "srodowisko \<Rightarrow> int \<Rightarrow> serwer \<Rightarrow> serwer option" where
  "usunZakonczonyProces E p s = do {
     let original = aktualnyProces s;
     let s = s\<lparr>aktualnyProces := p\<rparr>;
     s \<leftarrow> FOR 0 MAX_MUTEX (zwolnijMutex E p) s;
     s \<leftarrow> FOR 0 MAX_MUTEX (usunZMutexu p) s;
     s \<leftarrow> FOR 0 MAX_CV (usunZCv p) s;
     Some (s\<lparr>aktualnyProces := original\<rparr>)
   }"

section \<open>The message loop\<close>

text \<open>
  The \<^verbatim>\<open>switch\<close> of \<^verbatim>\<open>obslugaWiadomosci\<close>; its result is only read when the request is one of
  the first four, so the two other cases leave it undetermined, here \<^term>\<open>OK\<close>.
\<close>

definition wykonaj :: "srodowisko \<Rightarrow> message \<Rightarrow> serwer \<Rightarrow> (int \<times> serwer) option" where
  "wykonaj E m s =
     (let typ = m_type m; numerMutexu = m1_i1 m; numerCv = m1_i2 m; p = PM_PROC m in
      if typ = CS_LOCK then cs_lock E numerMutexu s
      else if typ = CS_UNLOCK then cs_unlock E numerMutexu s
      else if typ = CS_WAIT then cs_wait E numerCv numerMutexu s
      else if typ = CS_BROADCAST then cs_broadcast E numerCv s
      else if typ = CS_EINTR then map_option (\<lambda>s. (OK, s)) (wyslijEINTR E p s)
      else map_option (\<lambda>s. (OK, s)) (usunZakonczonyProces E p s))"

definition obslugaWiadomosci :: "srodowisko \<Rightarrow> message \<Rightarrow> serwer \<Rightarrow> serwer option" where
  "obslugaWiadomosci E m s = do {
     let s = s\<lparr>aktualnyProces := m_source m\<rparr>;
     if m_type m < 1 \<or> m_type m > 6 then
       let s = wypisz ''CV: %d sent bad message typ'' [aktualnyProces s] s
       in Some (wyslijWiadomosc E EINVAL (aktualnyProces s) s)
     else do {
       (result, s) \<leftarrow> wykonaj E m s;
       Some (if m_type m < 5 \<and> result \<noteq> EDONTREPLY
             then wyslijWiadomosc E result (aktualnyProces s) s else s)
     }
   }"

text \<open>
  \<^verbatim>\<open>main\<close>: the globals start out zeroed, the two loops prepare the tables, then every
  received message is handled; a failed \<^verbatim>\<open>sef_receive\<close> (\<^term>\<open>None\<close>) is only reported.
\<close>

definition pamiec0 :: serwer where
  "pamiec0 = \<lparr>M = replicate MAX_MUTEX \<lparr>uzywany = 0, numer = 0, wlasciciel = 0,
                kolejka = \<lparr>start = NULL, koniec = NULL, sterta = Map.empty, wolny = 0\<rparr>\<rparr>,
              CV = replicate MAX_CV \<lparr>cv_uzywany = 0, cv_numer = 0, procesy = replicate MAX_CZEKA 0,
                muteksy = replicate MAX_CZEKA 0, size_cv = 0\<rparr>,
              aktualnyProces = 0, wyjscie = []\<rparr>"

definition zalozMutex :: "srodowisko \<Rightarrow> nat \<Rightarrow> serwer \<Rightarrow> serwer option" where
  "zalozMutex E i s = do {
     q \<leftarrow> utworzKolejke (smiec E i);
     Some (s\<lparr>M := (M s)[i := (M s ! i)\<lparr>uzywany := 0, kolejka := q\<rparr>]\<rparr>)
   }"

definition zalozCv :: "nat \<Rightarrow> serwer \<Rightarrow> serwer option" where
  "zalozCv i s = Some (s\<lparr>CV := (CV s)[i := (CV s ! i)\<lparr>cv_uzywany := 0, size_cv := 0\<rparr>]\<rparr>)"

definition main_start :: "srodowisko \<Rightarrow> serwer option" where
  "main_start E = do {
     s \<leftarrow> FOR 0 MAX_MUTEX (zalozMutex E) pamiec0;
     FOR 0 MAX_CV zalozCv s
   }"

definition main_krok :: "srodowisko \<Rightarrow> message option \<Rightarrow> serwer \<Rightarrow> serwer option" where
  "main_krok E r s =
     (case r of
        Some m \<Rightarrow> obslugaWiadomosci E m s
      | None \<Rightarrow> Some (wypisz ''CV: sef_receive failed'' [] s))"

fun main_petla :: "srodowisko \<Rightarrow> message option list \<Rightarrow> serwer \<Rightarrow> serwer option" where
  "main_petla E [] s = Some s"
| "main_petla E (r # rs) s = do { s' \<leftarrow> main_krok E r s; main_petla E rs s' }"

definition main_serwer :: "srodowisko \<Rightarrow> message option list \<Rightarrow> serwer option" where
  "main_serwer E rs = do { s \<leftarrow> main_start E; main_petla E rs s }"

end
