(* ===== verification/Monitor.thy ===== *)
theory Monitor
  imports Komunikaty
begin

text \<open>
  What the server promises, without arrays, slots and linked lists: which process owns which
  mutex, who waits for it and in which order, who waits for which event and with which
  mutex. The operations follow the description of the interface in the comments of
  \<^verbatim>\<open>lib/libc/sys-minix/cv.c\<close> and of the server; each gives the result for the caller, the
  messages to other processes as pairs of receiver and content, and the new state.
\<close>

section \<open>State and operations\<close>

record monitor =
  mut :: "int \<rightharpoonup> int \<times> int list"
  zdarz :: "int \<rightharpoonup> (int \<times> int) list"

definition a_lock :: "int \<Rightarrow> int \<Rightarrow> monitor \<Rightarrow> int \<times> monitor" where
  "a_lock p n \<sigma> =
     (case mut \<sigma> n of
        None \<Rightarrow> (OK, \<sigma>\<lparr>mut := (mut \<sigma>)(n \<mapsto> (p, []))\<rparr>)
      | Some (w, q) \<Rightarrow>
          if w = p then (EPERM, \<sigma>) else (EDONTREPLY, \<sigma>\<lparr>mut := (mut \<sigma>)(n \<mapsto> (w, q @ [p]))\<rparr>))"

definition a_unlock :: "int \<Rightarrow> int \<Rightarrow> monitor \<Rightarrow> int \<times> (int \<times> int) list \<times> monitor" where
  "a_unlock p n \<sigma> =
     (case mut \<sigma> n of
        None \<Rightarrow> (EPERM, [], \<sigma>)
      | Some (w, q) \<Rightarrow>
          if w \<noteq> p then (EPERM, [], \<sigma>)
          else case q of
              [] \<Rightarrow> (OK, [], \<sigma>\<lparr>mut := (mut \<sigma>)(n := None)\<rparr>)
            | x # xs \<Rightarrow> (OK, [(x, OK)], \<sigma>\<lparr>mut := (mut \<sigma>)(n \<mapsto> (x, xs))\<rparr>))"

definition ma_mutex :: "int \<Rightarrow> int \<Rightarrow> monitor \<Rightarrow> bool" where
  "ma_mutex p n \<sigma> \<longleftrightarrow> (case mut \<sigma> n of None \<Rightarrow> False | Some (w, q) \<Rightarrow> w = p)"

definition czekajacy_na :: "int \<Rightarrow> monitor \<Rightarrow> (int \<times> int) list" where
  "czekajacy_na c \<sigma> = (case zdarz \<sigma> c of None \<Rightarrow> [] | Some ws \<Rightarrow> ws)"

definition a_wait :: "int \<Rightarrow> int \<Rightarrow> int \<Rightarrow> monitor \<Rightarrow> int \<times> (int \<times> int) list \<times> monitor" where
  "a_wait p c n \<sigma> =
     (if ma_mutex p n \<sigma> then
        let (_, out, \<sigma>) = a_unlock p n \<sigma>
        in (EDONTREPLY, out, \<sigma>\<lparr>zdarz := (zdarz \<sigma>)(c \<mapsto> czekajacy_na c \<sigma> @ [(p, n)])\<rparr>)
      else (- EINVAL, [], \<sigma>))"

fun a_budz :: "(int \<times> int) list \<Rightarrow> monitor \<Rightarrow> (int \<times> int) list \<times> monitor" where
  "a_budz [] \<sigma> = ([], \<sigma>)"
| "a_budz ((p, n) # ws) \<sigma> =
     (let (r, \<sigma>1) = a_lock p n \<sigma>; (out, \<sigma>2) = a_budz ws \<sigma>1
      in ((if r \<noteq> EDONTREPLY then (p, OK) # out else out), \<sigma>2))"

definition a_broadcast :: "int \<Rightarrow> monitor \<Rightarrow> int \<times> (int \<times> int) list \<times> monitor" where
  "a_broadcast c \<sigma> =
     (let (out, \<sigma>) = a_budz (czekajacy_na c \<sigma>) \<sigma>
      in (OK, out, \<sigma>\<lparr>zdarz := (zdarz \<sigma>)(c := None)\<rparr>))"

text \<open>Taking a process out of a list of waiting processes.\<close>

fun usun_pare :: "int \<Rightarrow> (int \<times> int) list \<Rightarrow> (int \<times> int) list" where
  "usun_pare p [] = []"
| "usun_pare p ((r, n) # ws) = (if r = p then ws else (r, n) # usun_pare p ws)"

definition bez_zdarzen :: "int \<Rightarrow> (int \<rightharpoonup> (int \<times> int) list) \<Rightarrow> int \<rightharpoonup> (int \<times> int) list" where
  "bez_zdarzen p z = (\<lambda>c. Option.bind (z c)
     (\<lambda>ws. if usun_pare p ws = [] then None else Some (usun_pare p ws)))"

definition a_eintr :: "int \<Rightarrow> monitor \<Rightarrow> monitor" where
  "a_eintr p \<sigma> =
     \<lparr>mut = (\<lambda>n. map_option (\<lambda>(w, q). (w, remove1 p q)) (mut \<sigma> n)),
      zdarz = bez_zdarzen p (zdarz \<sigma>)\<rparr>"

text \<open>A mutex of a process that ended passes to the first in its queue, or is free.\<close>

definition przekaz :: "int \<Rightarrow> int \<times> int list \<Rightarrow> (int \<times> int list) option" where
  "przekaz p = (\<lambda>(w, q). if w = p then (case q of [] \<Rightarrow> None | x # xs \<Rightarrow> Some (x, xs)) else Some (w, q))"

definition a_exit :: "int \<Rightarrow> monitor \<Rightarrow> monitor" where
  "a_exit p \<sigma> =
     \<lparr>mut = (\<lambda>n. map_option (\<lambda>(w, q). (w, remove1 p q)) (Option.bind (mut \<sigma> n) (przekaz p))),
      zdarz = bez_zdarzen p (zdarz \<sigma>)\<rparr>"

definition monitor0 :: monitor where
  "monitor0 = \<lparr>mut = Map.empty, zdarz = Map.empty\<rparr>"

section \<open>Waking a list of processes\<close>

lemma a_lock_mut:
  assumes "mut \<sigma>1 = mut \<sigma>2"
  shows "fst (a_lock p n \<sigma>1) = fst (a_lock p n \<sigma>2)"
    "mut (snd (a_lock p n \<sigma>1)) = mut (snd (a_lock p n \<sigma>2))"
  using assms by (auto simp: a_lock_def split: option.splits)

lemma a_lock_zdarz [simp]: "zdarz (snd (a_lock p n \<sigma>)) = zdarz \<sigma>"
  by (auto simp: a_lock_def split: option.splits)

lemma a_budz_Cons:
  "a_budz (w # ws) \<sigma> =
     ((if fst (a_lock (fst w) (snd w) \<sigma>) \<noteq> EDONTREPLY then [(fst w, OK)] else []) @
        fst (a_budz ws (snd (a_lock (fst w) (snd w) \<sigma>))),
      snd (a_budz ws (snd (a_lock (fst w) (snd w) \<sigma>))))"
  by (cases w) (simp add: split_def Let_def)

declare a_budz.simps(2) [simp del]

lemma a_budz_append:
  "a_budz (xs @ ys) \<sigma> =
     (fst (a_budz xs \<sigma>) @ fst (a_budz ys (snd (a_budz xs \<sigma>))), snd (a_budz ys (snd (a_budz xs \<sigma>))))"
  by (induction xs arbitrary: \<sigma>) (simp_all add: a_budz_Cons)

lemma a_budz_zdarz [simp]: "zdarz (snd (a_budz ws \<sigma>)) = zdarz \<sigma>"
  by (induction ws arbitrary: \<sigma>) (simp_all add: a_budz_Cons)

lemma dom_a_lock: "dom (mut \<sigma>) \<subseteq> dom (mut (snd (a_lock p n \<sigma>)))"
  by (auto simp: a_lock_def split: option.splits)

lemma dom_a_budz: "dom (mut \<sigma>) \<subseteq> dom (mut (snd (a_budz ws \<sigma>)))"
proof (induction ws arbitrary: \<sigma>)
  case (Cons w ws)
  from dom_a_lock Cons.IH show ?case by (simp add: a_budz_Cons) (rule order_trans)
qed simp

lemma finite_dom_a_lock: "finite (dom (mut \<sigma>)) \<Longrightarrow> finite (dom (mut (snd (a_lock p n \<sigma>))))"
  by (auto simp: a_lock_def split: option.splits)

lemma finite_dom_a_budz: "finite (dom (mut \<sigma>)) \<Longrightarrow> finite (dom (mut (snd (a_budz ws \<sigma>))))"
  by (induction ws arbitrary: \<sigma>) (simp_all add: a_budz_Cons finite_dom_a_lock)

end
