(* ===== verification/Zgodnosc.thy ===== *)
theory Zgodnosc
  imports Serwer Monitor
begin

text \<open>
  The server implements the abstract monitor: the well-formedness invariant of the server's
  tables, the monitor a server state stands for, and for every operation of the server the
  lemma that it runs without undefined behaviour, keeps the invariant and acts on the
  abstract state as the operation of the monitor does, with the same result and the same
  messages.
\<close>

section \<open>Invariant and abstraction\<close>

definition dobry_mutex :: "muteks \<Rightarrow> bool" where
  "dobry_mutex m \<longleftrightarrow> poprawna (kolejka m) \<and> (uzywany m = 0 \<or> uzywany m = 1) \<and>
     (uzywany m = 0 \<longrightarrow> zawartosc (kolejka m) = [])"

definition dobre_cv :: "conditionVariable \<Rightarrow> bool" where
  "dobre_cv c \<longleftrightarrow> length (procesy c) = MAX_CZEKA \<and> length (muteksy c) = MAX_CZEKA \<and>
     0 \<le> size_cv c \<and> size_cv c \<le> int MAX_CZEKA \<and> (cv_uzywany c = 0 \<or> cv_uzywany c = 1) \<and>
     (cv_uzywany c = 1 \<longrightarrow> 0 < size_cv c)"

definition mutex_w_uzyciu :: "muteks \<Rightarrow> bool" where
  "mutex_w_uzyciu m \<longleftrightarrow> uzywany m \<noteq> 0"

definition cv_w_uzyciu :: "conditionVariable \<Rightarrow> bool" where
  "cv_w_uzyciu c \<longleftrightarrow> cv_uzywany c \<noteq> 0"

definition stan_mutexu :: "muteks \<Rightarrow> int \<times> int list" where
  "stan_mutexu m = (wlasciciel m, zawartosc (kolejka m))"

definition czekajacy :: "conditionVariable \<Rightarrow> (int \<times> int) list" where
  "czekajacy c = take (nat (size_cv c)) (zip (procesy c) (muteksy c))"

definition niezmiennik :: "serwer \<Rightarrow> bool" where
  "niezmiennik s \<longleftrightarrow> length (M s) = MAX_MUTEX \<and> length (CV s) = MAX_CV \<and>
     list_all dobry_mutex (M s) \<and> list_all dobre_cv (CV s) \<and>
     rozne mutex_w_uzyciu numer (M s) \<and> rozne cv_w_uzyciu cv_numer (CV s)"

definition abstr :: "serwer \<Rightarrow> monitor" where
  "abstr s = \<lparr>mut = tab mutex_w_uzyciu numer stan_mutexu (M s),
            zdarz = tab cv_w_uzyciu cv_numer czekajacy (CV s)\<rparr>"

text \<open>What the server sent, and the indeterminate values in the sentinels of its queues.\<close>

fun wyslane_z :: "zdarzenie list \<Rightarrow> (int \<times> int) list" where
  "wyslane_z [] = []"
| "wyslane_z (Wyslano d t # zs) = (d, t) # wyslane_z zs"
| "wyslane_z (Wypisano _ _ # zs) = wyslane_z zs"

definition wyslane :: "serwer \<Rightarrow> (int \<times> int) list" where
  "wyslane s = wyslane_z (wyjscie s)"

definition straznicy :: "serwer \<Rightarrow> int list" where
  "straznicy s = map (\<lambda>m. straznik (kolejka m)) (M s)"

lemma wyslane_z_append [simp]: "wyslane_z (xs @ ys) = wyslane_z xs @ wyslane_z ys"
  by (induction xs rule: wyslane_z.induct) auto

lemma wyslij_pola [simp]:
  "M (wyslijWiadomosc E t d s) = M s" "CV (wyslijWiadomosc E t d s) = CV s"
  "aktualnyProces (wyslijWiadomosc E t d s) = aktualnyProces s"
  "wyslane (wyslijWiadomosc E t d s) = wyslane s @ [(d, t)]"
  by (simp_all add: wyslijWiadomosc_def wypisz_def wyslane_def Let_def)

lemma wypisz_pola [simp]:
  "M (wypisz t xs s) = M s" "CV (wypisz t xs s) = CV s"
  "aktualnyProces (wypisz t xs s) = aktualnyProces s" "wyslane (wypisz t xs s) = wyslane s"
  by (simp_all add: wypisz_def wyslane_def)

lemma abstr_cong: "M s' = M s \<Longrightarrow> CV s' = CV s \<Longrightarrow> abstr s' = abstr s"
  by (simp add: abstr_def)

lemma niezmiennik_cong: "M s' = M s \<Longrightarrow> CV s' = CV s \<Longrightarrow> niezmiennik s' = niezmiennik s"
  by (simp add: niezmiennik_def)

lemma straznicy_cong: "M s' = M s \<Longrightarrow> straznicy s' = straznicy s"
  by (simp add: straznicy_def)

lemma wyslane_cong: "wyjscie s' = wyjscie s \<Longrightarrow> wyslane s' = wyslane s"
  by (simp add: wyslane_def)

lemma pola_bez_zmian [simp]:
  "abstr (s\<lparr>aktualnyProces := p\<rparr>) = abstr s" "niezmiennik (s\<lparr>aktualnyProces := p\<rparr>) = niezmiennik s"
  "abstr (wyslijWiadomosc E t d s) = abstr s" "niezmiennik (wyslijWiadomosc E t d s) = niezmiennik s"
  "abstr (wypisz x y s) = abstr s" "niezmiennik (wypisz x y s) = niezmiennik s"
  "straznicy (s\<lparr>aktualnyProces := p\<rparr>) = straznicy s"
  "straznicy (wyslijWiadomosc E t d s) = straznicy s" "straznicy (wypisz x y s) = straznicy s"
  "straznicy (s\<lparr>CV := cs\<rparr>) = straznicy s"
  "wyslane (s\<lparr>aktualnyProces := p\<rparr>) = wyslane s"
  "wyslane (s\<lparr>M := ms\<rparr>) = wyslane s" "wyslane (s\<lparr>CV := cs\<rparr>) = wyslane s"
  by (simp_all add: abstr_def niezmiennik_def straznicy_def wyslane_def wyslijWiadomosc_def
      wypisz_def Let_def)

section \<open>The two tables\<close>

interpretation tm: tablica M MAX_MUTEX mutex_w_uzyciu numer stan_mutexu indeksUzywanegoMutexa wolnyMutex
proof
  fix s n i
  assume "indeksUzywanegoMutexa s n = - 1" "i < MAX_MUTEX" "mutex_w_uzyciu (M s ! i)"
  then show "numer (M s ! i) \<noteq> n"
    using FOR_szukaj_brak[of 0 MAX_MUTEX _ i]
    unfolding indeksUzywanegoMutexa_def mutex_w_uzyciu_def Let_def by (fastforce split: if_splits)
next
  fix s n assume "indeksUzywanegoMutexa s n \<noteq> - 1"
  then show "\<exists>i < MAX_MUTEX. indeksUzywanegoMutexa s n = int i \<and> mutex_w_uzyciu (M s ! i) \<and> numer (M s ! i) = n"
    using FOR_szukaj_found[of 0 MAX_MUTEX "\<lambda>i. uzywany (M s ! i) \<noteq> 0 \<and> numer (M s ! i) = n"]
    by (auto simp: indeksUzywanegoMutexa_def mutex_w_uzyciu_def Let_def split: if_splits)
next
  fix s assume "wolnyMutex s < MAX_MUTEX"
  then show "\<not> mutex_w_uzyciu (M s ! wolnyMutex s)"
    using FOR_szukaj_found unfolding wolnyMutex_def mutex_w_uzyciu_def by fastforce
next
  fix s i assume "\<not> wolnyMutex s < MAX_MUTEX" "i < MAX_MUTEX"
  then show "mutex_w_uzyciu (M s ! i)"
    using FOR_szukaj_brak[of 0 MAX_MUTEX _ i] by (auto simp: wolnyMutex_def mutex_w_uzyciu_def)
qed

interpretation tc: tablica CV MAX_CV cv_w_uzyciu cv_numer czekajacy indeksUzywanegoCv wolneCv
proof
  fix s n i
  assume "indeksUzywanegoCv s n = - 1" "i < MAX_CV" "cv_w_uzyciu (CV s ! i)"
  then show "cv_numer (CV s ! i) \<noteq> n"
    using FOR_szukaj_brak[of 0 MAX_CV _ i]
    unfolding indeksUzywanegoCv_def cv_w_uzyciu_def Let_def by (fastforce split: if_splits)
next
  fix s n assume "indeksUzywanegoCv s n \<noteq> - 1"
  then show "\<exists>i < MAX_CV. indeksUzywanegoCv s n = int i \<and> cv_w_uzyciu (CV s ! i) \<and> cv_numer (CV s ! i) = n"
    using FOR_szukaj_found[of 0 MAX_CV "\<lambda>i. cv_uzywany (CV s ! i) \<noteq> 0 \<and> cv_numer (CV s ! i) = n"]
    by (auto simp: indeksUzywanegoCv_def cv_w_uzyciu_def Let_def split: if_splits)
next
  fix s assume "wolneCv s < MAX_CV"
  then show "\<not> cv_w_uzyciu (CV s ! wolneCv s)"
    using FOR_szukaj_found unfolding wolneCv_def cv_w_uzyciu_def by fastforce
next
  fix s i assume "\<not> wolneCv s < MAX_CV" "i < MAX_CV"
  then show "cv_w_uzyciu (CV s ! i)"
    using FOR_szukaj_brak[of 0 MAX_CV _ i] by (auto simp: wolneCv_def cv_w_uzyciu_def)
qed

lemma niezmiennikD:
  assumes "niezmiennik s"
  shows "length (M s) = MAX_MUTEX" "length (CV s) = MAX_CV"
    "rozne mutex_w_uzyciu numer (M s)" "rozne cv_w_uzyciu cv_numer (CV s)"
    "i < MAX_MUTEX \<Longrightarrow> dobry_mutex (M s ! i)" "j < MAX_CV \<Longrightarrow> dobre_cv (CV s ! j)"
  using assms by (auto simp: niezmiennik_def list_all_length)

lemma list_all_update: "list_all P xs \<Longrightarrow> P x \<Longrightarrow> list_all P (xs[i := x])"
  by (cases "i < length xs") (auto simp: list_all_length nth_list_update)

text \<open>Writing one slot of the table of mutexes, as a step of the monitor.\<close>

lemma zapis_mutex_ten_sam:
  assumes "niezmiennik s" "i < MAX_MUTEX" "dobry_mutex m"
    "mutex_w_uzyciu (M s ! i)" "mutex_w_uzyciu m" "numer m = numer (M s ! i)"
  shows "niezmiennik (s\<lparr>M := (M s)[i := m]\<rparr>)"
    "abstr (s\<lparr>M := (M s)[i := m]\<rparr>) = (abstr s)\<lparr>mut := (mut (abstr s))(numer m \<mapsto> stan_mutexu m)\<rparr>"
  using assms tab_upd_ten_sam(1)[of mutex_w_uzyciu numer "M s" i m stan_mutexu]
    tab_upd_ten_sam(2)[of mutex_w_uzyciu numer "M s" i m]
  by (auto simp: niezmiennik_def abstr_def list_all_update)

lemma zapis_mutex_nowy:
  assumes "niezmiennik s" "i < MAX_MUTEX" "dobry_mutex m"
    "\<not> mutex_w_uzyciu (M s ! i)" "mutex_w_uzyciu m" "mut (abstr s) (numer m) = None"
  shows "niezmiennik (s\<lparr>M := (M s)[i := m]\<rparr>)"
    "abstr (s\<lparr>M := (M s)[i := m]\<rparr>) = (abstr s)\<lparr>mut := (mut (abstr s))(numer m \<mapsto> stan_mutexu m)\<rparr>"
  using assms tab_upd_nowy[of mutex_w_uzyciu numer "M s" i m stan_mutexu]
  by (auto simp: niezmiennik_def abstr_def list_all_update)

lemma zapis_mutex_wolny:
  assumes "niezmiennik s" "i < MAX_MUTEX" "dobry_mutex m"
    "mutex_w_uzyciu (M s ! i)" "\<not> mutex_w_uzyciu m"
  shows "niezmiennik (s\<lparr>M := (M s)[i := m]\<rparr>)"
    "abstr (s\<lparr>M := (M s)[i := m]\<rparr>) = (abstr s)\<lparr>mut := (mut (abstr s))(numer (M s ! i) := None)\<rparr>"
  using assms tab_upd_wolny(1)[of mutex_w_uzyciu numer "M s" i m stan_mutexu]
    tab_upd_wolny(2)[of mutex_w_uzyciu numer "M s" i m]
  by (auto simp: niezmiennik_def abstr_def list_all_update)

lemma straznicy_upd:
  "niezmiennik s \<Longrightarrow> i < MAX_MUTEX \<Longrightarrow> straznik (kolejka m) = straznik (kolejka (M s ! i)) \<Longrightarrow>
    straznicy (s\<lparr>M := (M s)[i := m]\<rparr>) = straznicy s"
  by (auto simp: straznicy_def map_update niezmiennik_def intro: list_update_same_conv[THEN iffD2])

text \<open>A lookup through the abstraction.\<close>

lemma indeks_brak_iff:
  "niezmiennik s \<Longrightarrow> indeksUzywanegoMutexa s n = - 1 \<longleftrightarrow> mut (abstr s) n = None"
  using tm.szukaj_None_iff by (simp add: abstr_def niezmiennik_def)

lemma indeks_jest:
  assumes "niezmiennik s" "mut (abstr s) n = Some (w, q)"
  obtains i where "i < MAX_MUTEX" "indeksUzywanegoMutexa s n = int i" "mutex_w_uzyciu (M s ! i)"
    "numer (M s ! i) = n" "wlasciciel (M s ! i) = w" "zawartosc (kolejka (M s ! i)) = q"
    "dobry_mutex (M s ! i)"
proof -
  have "indeksUzywanegoMutexa s n \<noteq> - 1"
    using assms by (simp add: indeks_brak_iff)
  then obtain i where i: "i < MAX_MUTEX" "indeksUzywanegoMutexa s n = int i" "mutex_w_uzyciu (M s ! i)"
    "numer (M s ! i) = n" "tab mutex_w_uzyciu numer stan_mutexu (M s) n = Some (stan_mutexu (M s ! i))"
    using tm.szukaj_Some niezmiennikD(1,3)[OF assms(1)] by metis
  with assms show thesis
    using that niezmiennikD(5)[OF assms(1)] by (simp add: abstr_def stan_mutexu_def)
qed

section \<open>Locking and unlocking\<close>

definition reszta :: "serwer \<Rightarrow> serwer \<Rightarrow> bool" where
  "reszta s s' \<longleftrightarrow> aktualnyProces s' = aktualnyProces s \<and> straznicy s' = straznicy s"

lemma cs_lock_zgodne:
  assumes I: "niezmiennik s" and "mut (abstr s) n = None \<Longrightarrow> wolnyMutex s < MAX_MUTEX"
    and a: "a_lock (aktualnyProces s) n (abstr s) = (r, \<sigma>)"
  shows "\<exists>s'. cs_lock E n s = Some (r, s') \<and> abstr s' = \<sigma> \<and> niezmiennik s' \<and> reszta s s' \<and>
    wyslane s' = wyslane s \<and> CV s' = CV s"
proof (cases "mut (abstr s) n")
  case None
  let ?i = "wolnyMutex s"
  let ?m = "(M s ! ?i)\<lparr>numer := n, wlasciciel := aktualnyProces s, uzywany := 1\<rparr>"
  from None assms(2) have i: "?i < MAX_MUTEX" by simp
  then have free: "\<not> mutex_w_uzyciu (M s ! ?i)" by (rule tm.wolne_jest)
  with niezmiennikD(5)[OF I i] have d: "dobry_mutex ?m" "stan_mutexu ?m = (aktualnyProces s, [])"
    by (auto simp: dobry_mutex_def mutex_w_uzyciu_def stan_mutexu_def)
  have "cs_lock E n s = Some (OK, s\<lparr>M := (M s)[?i := ?m]\<rparr>)"
    using None i I by (simp add: cs_lock_def indeks_brak_iff Let_def)
  moreover note zapis_mutex_nowy[OF I i d(1) free]
  moreover have "(r, \<sigma>) = (OK, (abstr s)\<lparr>mut := (mut (abstr s))(n \<mapsto> (aktualnyProces s, []))\<rparr>)"
    using a None by (simp add: a_lock_def)
  ultimately show ?thesis
    using None d(2) straznicy_upd[OF I i, of ?m] by (simp add: mutex_w_uzyciu_def reszta_def)
next
  case (Some wq)
  then obtain w q where wq: "mut (abstr s) n = Some (w, q)" by (cases wq) auto
  then obtain i where i: "i < MAX_MUTEX" "indeksUzywanegoMutexa s n = int i" "mutex_w_uzyciu (M s ! i)"
    "numer (M s ! i) = n" "wlasciciel (M s ! i) = w" "zawartosc (kolejka (M s ! i)) = q"
    "dobry_mutex (M s ! i)"
    by (rule indeks_jest[OF I])
  show ?thesis
  proof (cases "w = aktualnyProces s")
    case True
    with a wq i I show ?thesis
      by (auto simp: cs_lock_def a_lock_def Let_def reszta_def)
  next
    case False
    from i(7) obtain q' where q': "wstaw (smiec E i) (kolejka (M s ! i)) (aktualnyProces s) = Some q'"
      "poprawna q'" "zawartosc q' = q @ [aktualnyProces s]" "straznik q' = straznik (kolejka (M s ! i))"
      using kq.wst_ok i(6) unfolding dobry_mutex_def by metis
    let ?m = "(M s ! i)\<lparr>kolejka := q'\<rparr>"
    have d: "dobry_mutex ?m" "mutex_w_uzyciu ?m" "numer ?m = numer (M s ! i)"
      "stan_mutexu ?m = (w, q @ [aktualnyProces s])"
      using i q' by (auto simp: dobry_mutex_def mutex_w_uzyciu_def stan_mutexu_def)
    have "cs_lock E n s = Some (EDONTREPLY, s\<lparr>M := (M s)[i := ?m]\<rparr>)"
      using False i q'(1) by (simp add: cs_lock_def Let_def)
    moreover have "(r, \<sigma>) = (EDONTREPLY, (abstr s)\<lparr>mut := (mut (abstr s))(n \<mapsto> (w, q @ [aktualnyProces s]))\<rparr>)"
      using a wq False by (simp add: a_lock_def)
    ultimately show ?thesis
      using zapis_mutex_ten_sam[OF I i(1) d(1) i(3) d(2,3)] straznicy_upd[OF I i(1), of ?m] d(4) q'(4) i(4)
      by (simp add: reszta_def)
  qed
qed

lemma cs_lock_bez_miejsca:
  "niezmiennik s \<Longrightarrow> mut (abstr s) n = None \<Longrightarrow> \<not> wolnyMutex s < MAX_MUTEX \<Longrightarrow> cs_lock E n s = None"
  by (simp add: cs_lock_def indeks_brak_iff Let_def)

lemma nie_ma_mutexu_iff:
  assumes "niezmiennik s"
  shows "(indeksUzywanegoMutexa s n = - 1 \<or>
      wlasciciel (M s ! nat (indeksUzywanegoMutexa s n)) \<noteq> aktualnyProces s) \<longleftrightarrow>
    \<not> ma_mutex (aktualnyProces s) n (abstr s)"
proof (cases "mut (abstr s) n")
  case None
  then show ?thesis by (simp add: indeks_brak_iff[OF assms] ma_mutex_def)
next
  case (Some wq)
  then obtain w q where wq: "mut (abstr s) n = Some (w, q)" by (cases wq) auto
  then obtain i where "indeksUzywanegoMutexa s n = int i" "wlasciciel (M s ! i) = w"
    by (rule indeks_jest[OF assms])
  with wq show ?thesis by (simp add: ma_mutex_def)
qed

lemma cs_unlock_zgodne:
  assumes I: "niezmiennik s" and a: "a_unlock (aktualnyProces s) n (abstr s) = (r, out, \<sigma>)"
  shows "\<exists>s'. cs_unlock E n s = Some (r, s') \<and> abstr s' = \<sigma> \<and> niezmiennik s' \<and> reszta s s' \<and>
    wyslane s' = wyslane s @ out \<and> CV s' = CV s"
proof (cases "ma_mutex (aktualnyProces s) n (abstr s)")
  case False
  then have "cs_unlock E n s = Some (EPERM, s)"
    using nie_ma_mutexu_iff[OF I, of n] by (simp add: cs_unlock_def Let_def)
  with False a I show ?thesis
    by (auto simp: a_unlock_def ma_mutex_def reszta_def split: option.splits prod.splits if_splits)
next
  case True
  then obtain q where wq: "mut (abstr s) n = Some (aktualnyProces s, q)"
    by (auto simp: ma_mutex_def split: option.splits)
  then obtain i where i: "i < MAX_MUTEX" "indeksUzywanegoMutexa s n = int i" "mutex_w_uzyciu (M s ! i)"
    "numer (M s ! i) = n" "wlasciciel (M s ! i) = aktualnyProces s" "zawartosc (kolejka (M s ! i)) = q"
    "dobry_mutex (M s ! i)"
    by (rule indeks_jest[OF I])
  then have pq: "poprawna (kolejka (M s ! i))" by (simp add: dobry_mutex_def)
  show ?thesis
  proof (cases q)
    case Nil
    let ?m = "(M s ! i)\<lparr>uzywany := 0\<rparr>"
    have d: "dobry_mutex ?m" "\<not> mutex_w_uzyciu ?m"
      using i Nil by (auto simp: dobry_mutex_def mutex_w_uzyciu_def)
    have "cs_unlock E n s = Some (OK, s\<lparr>M := (M s)[i := ?m]\<rparr>)"
      using i Nil kq.pusta_ok[OF pq] by (simp add: cs_unlock_def Let_def)
    moreover have "(r, out, \<sigma>) = (OK, [], (abstr s)\<lparr>mut := (mut (abstr s))(n := None)\<rparr>)"
      using a wq Nil by (simp add: a_unlock_def)
    ultimately show ?thesis
      using zapis_mutex_wolny[OF I i(1) d(1) i(3) d(2)] straznicy_upd[OF I i(1), of ?m] i(4)
      by (simp add: reszta_def)
  next
    case (Cons x xs)
    with kq.zdejm_ok[OF pq] i(6) obtain q' where q': "pierwszyKolejka (kolejka (M s ! i)) = Some (x, q')"
      "poprawna q'" "zawartosc q' = xs" "straznik q' = straznik (kolejka (M s ! i))" by blast
    let ?m = "(M s ! i)\<lparr>kolejka := q', wlasciciel := x\<rparr>"
    have d: "dobry_mutex ?m" "mutex_w_uzyciu ?m" "numer ?m = numer (M s ! i)" "stan_mutexu ?m = (x, xs)"
      using i q' by (auto simp: dobry_mutex_def mutex_w_uzyciu_def stan_mutexu_def)
    have "cs_unlock E n s = Some (OK, wyslijWiadomosc E 0 x (s\<lparr>M := (M s)[i := ?m]\<rparr>))"
      using i Cons kq.pusta_ok[OF pq] q'(1) by (simp add: cs_unlock_def Let_def)
    moreover have "(r, out, \<sigma>) = (OK, [(x, OK)], (abstr s)\<lparr>mut := (mut (abstr s))(n \<mapsto> (x, xs))\<rparr>)"
      using a wq Cons by (simp add: a_unlock_def)
    ultimately show ?thesis
      using zapis_mutex_ten_sam[OF I i(1) d(1) i(3) d(2,3)] straznicy_upd[OF I i(1), of ?m] d(4) q'(4) i(4)
      by (simp add: reszta_def OK_def)
  qed
qed

section \<open>Waiting for an event\<close>

lemma zapis_cv_ten_sam:
  assumes "niezmiennik s" "i < MAX_CV" "dobre_cv c"
    "cv_w_uzyciu (CV s ! i)" "cv_w_uzyciu c" "cv_numer c = cv_numer (CV s ! i)"
  shows "niezmiennik (s\<lparr>CV := (CV s)[i := c]\<rparr>)"
    "abstr (s\<lparr>CV := (CV s)[i := c]\<rparr>) = (abstr s)\<lparr>zdarz := (zdarz (abstr s))(cv_numer c \<mapsto> czekajacy c)\<rparr>"
  using assms tab_upd_ten_sam(1)[of cv_w_uzyciu cv_numer "CV s" i c czekajacy]
    tab_upd_ten_sam(2)[of cv_w_uzyciu cv_numer "CV s" i c]
  by (auto simp: niezmiennik_def abstr_def list_all_update)

lemma zapis_cv_nowy:
  assumes "niezmiennik s" "i < MAX_CV" "dobre_cv c"
    "\<not> cv_w_uzyciu (CV s ! i)" "cv_w_uzyciu c" "zdarz (abstr s) (cv_numer c) = None"
  shows "niezmiennik (s\<lparr>CV := (CV s)[i := c]\<rparr>)"
    "abstr (s\<lparr>CV := (CV s)[i := c]\<rparr>) = (abstr s)\<lparr>zdarz := (zdarz (abstr s))(cv_numer c \<mapsto> czekajacy c)\<rparr>"
  using assms tab_upd_nowy[of cv_w_uzyciu cv_numer "CV s" i c czekajacy]
  by (auto simp: niezmiennik_def abstr_def list_all_update)

lemma zapis_cv_wolny:
  assumes "niezmiennik s" "i < MAX_CV" "dobre_cv c" "cv_w_uzyciu (CV s ! i)" "\<not> cv_w_uzyciu c"
  shows "niezmiennik (s\<lparr>CV := (CV s)[i := c]\<rparr>)"
    "abstr (s\<lparr>CV := (CV s)[i := c]\<rparr>) = (abstr s)\<lparr>zdarz := (zdarz (abstr s))(cv_numer (CV s ! i) := None)\<rparr>"
  using assms tab_upd_wolny(1)[of cv_w_uzyciu cv_numer "CV s" i c czekajacy]
    tab_upd_wolny(2)[of cv_w_uzyciu cv_numer "CV s" i c]
  by (auto simp: niezmiennik_def abstr_def list_all_update)

lemma indeks_cv_brak_iff:
  "niezmiennik s \<Longrightarrow> indeksUzywanegoCv s n = - 1 \<longleftrightarrow> zdarz (abstr s) n = None"
  using tc.szukaj_None_iff by (simp add: abstr_def niezmiennik_def)

lemma indeks_cv_jest:
  assumes "niezmiennik s" "zdarz (abstr s) n = Some ws"
  obtains i where "i < MAX_CV" "indeksUzywanegoCv s n = int i" "cv_w_uzyciu (CV s ! i)"
    "cv_numer (CV s ! i) = n" "czekajacy (CV s ! i) = ws" "dobre_cv (CV s ! i)"
proof -
  have "indeksUzywanegoCv s n \<noteq> - 1"
    using assms by (simp add: indeks_cv_brak_iff)
  then obtain i where i: "i < MAX_CV" "indeksUzywanegoCv s n = int i" "cv_w_uzyciu (CV s ! i)"
    "cv_numer (CV s ! i) = n" "tab cv_w_uzyciu cv_numer czekajacy (CV s) n = Some (czekajacy (CV s ! i))"
    using tc.szukaj_Some niezmiennikD(2,4)[OF assms(1)] by metis
  with assms show thesis
    using that niezmiennikD(6)[OF assms(1)] by (simp add: abstr_def)
qed

lemma dlugosc_czekajacych: "dobre_cv c \<Longrightarrow> length (czekajacy c) = nat (size_cv c)"
  by (auto simp: dobre_cv_def czekajacy_def)

definition dopisane :: "int \<Rightarrow> int \<Rightarrow> conditionVariable \<Rightarrow> conditionVariable" where
  "dopisane p n c = c\<lparr>procesy := (procesy c)[nat (size_cv c) := p],
     muteksy := (muteksy c)[nat (size_cv c) := n], size_cv := size_cv c + 1\<rparr>"

lemma czekajacy_dopisane:
  assumes "length (procesy c) = MAX_CZEKA" "length (muteksy c) = MAX_CZEKA"
    and "0 \<le> size_cv c" "size_cv c < int MAX_CZEKA"
  shows "czekajacy (dopisane p n c) = czekajacy c @ [(p, n)]"
proof -
  define j where "j = nat (size_cv c)"
  have j: "nat (size_cv c + 1) = Suc j" "j < length (zip (procesy c) (muteksy c))"
    using assms by (auto simp: j_def)
  have "zip ((procesy c)[j := p]) ((muteksy c)[j := n]) = (zip (procesy c) (muteksy c))[j := (p, n)]"
    by (simp add: update_zip)
  with j show ?thesis
    by (simp add: czekajacy_def dopisane_def take_Suc_conv_app_nth flip: j_def)
qed

lemma dobre_dopisane:
  assumes "length (procesy c) = MAX_CZEKA" "length (muteksy c) = MAX_CZEKA"
    and "0 \<le> size_cv c" "size_cv c < int MAX_CZEKA" "cv_uzywany c = 1"
  shows "dobre_cv (dopisane p n c)"
  using assms by (auto simp: dobre_cv_def dopisane_def)

lemma dopiszCv_dopisane:
  "0 \<le> size_cv (CV s ! i) \<Longrightarrow> size_cv (CV s ! i) < int MAX_CZEKA \<Longrightarrow>
    dopiszCv i n s = Some (s\<lparr>CV := (CV s)[i := dopisane (aktualnyProces s) n (CV s ! i)]\<rparr>)"
  by (simp add: dopiszCv_def dopisane_def Let_def)

definition miejsce_cv :: "int \<Rightarrow> serwer \<Rightarrow> bool" where
  "miejsce_cv c s \<longleftrightarrow> (zdarz (abstr s) c = None \<longrightarrow> wolneCv s < MAX_CV) \<and>
     length (czekajacy_na c (abstr s)) < MAX_CZEKA"

text \<open>The second half of \<^verbatim>\<open>cs_wait\<close>, after the mutex has been released.\<close>

definition czekaj_na_cv :: "int \<Rightarrow> int \<Rightarrow> serwer \<Rightarrow> serwer option" where
  "czekaj_na_cv c n s = do {
     let i = indeksUzywanegoCv s c;
     (i, s) \<leftarrow>
       (if i = - 1 then
          let i = wolneCv s in
          if i < MAX_CV then
            Some (i, s\<lparr>CV := (CV s)[i := (CV s ! i)\<lparr>size_cv := 0, cv_uzywany := 1, cv_numer := c\<rparr>]\<rparr>)
          else None
        else Some (nat i, s));
     dopiszCv i n s
   }"

lemma cs_wait_alt:
  "cs_wait E c n s =
     (let i = indeksUzywanegoMutexa s n in
      if i = - 1 \<or> wlasciciel (M s ! nat i) \<noteq> aktualnyProces s then Some (- EINVAL, s)
      else do {
        (_, s) \<leftarrow> cs_unlock E n s;
        s \<leftarrow> czekaj_na_cv c n s;
        Some (EDONTREPLY, s)
      })"
  by (simp add: cs_wait_def czekaj_na_cv_def Let_def split_def)

lemma czekaj_na_cv_zgodne:
  assumes I: "niezmiennik s" and miejsce: "miejsce_cv c s"
  shows "\<exists>s'. czekaj_na_cv c n s = Some s' \<and> niezmiennik s' \<and> reszta s s' \<and> wyslane s' = wyslane s \<and>
    abstr s' = (abstr s)\<lparr>zdarz := (zdarz (abstr s))
      (c \<mapsto> czekajacy_na c (abstr s) @ [(aktualnyProces s, n)])\<rparr>"
proof (cases "zdarz (abstr s) c")
  case None
  let ?i = "wolneCv s"
  let ?c = "(CV s ! ?i)\<lparr>size_cv := 0, cv_uzywany := 1, cv_numer := c\<rparr>"
  let ?d = "dopisane (aktualnyProces s) n ?c"
  from None miejsce have i: "?i < MAX_CV" by (simp add: miejsce_cv_def)
  then have free: "\<not> cv_w_uzyciu (CV s ! ?i)" by (rule tc.wolne_jest)
  have len: "length (procesy ?c) = MAX_CZEKA" "length (muteksy ?c) = MAX_CZEKA"
    using niezmiennikD(6)[OF I i] by (auto simp: dobre_cv_def)
  have d: "dobre_cv ?d" "czekajacy ?d = [(aktualnyProces s, n)]" "cv_w_uzyciu ?d" "cv_numer ?d = c"
    using dobre_dopisane[OF len] czekajacy_dopisane[OF len]
    by (auto simp: MAX_CZEKA_def czekajacy_def cv_w_uzyciu_def dopisane_def)
  have "czekaj_na_cv c n s = Some (s\<lparr>CV := (CV s)[?i := ?d]\<rparr>)"
    using None i niezmiennikD(2)[OF I]
    by (simp add: czekaj_na_cv_def indeks_cv_brak_iff[OF I] Let_def dopiszCv_dopisane MAX_CZEKA_def)
  with zapis_cv_nowy[OF I i d(1) free d(3)] None d show ?thesis
    by (simp add: reszta_def czekajacy_na_def)
next
  case (Some ws)
  then obtain i where i: "i < MAX_CV" "indeksUzywanegoCv s c = int i" "cv_w_uzyciu (CV s ! i)"
    "cv_numer (CV s ! i) = c" "czekajacy (CV s ! i) = ws" "dobre_cv (CV s ! i)"
    by (rule indeks_cv_jest[OF I])
  let ?d = "dopisane (aktualnyProces s) n (CV s ! i)"
  have b: "0 \<le> size_cv (CV s ! i)" "size_cv (CV s ! i) < int MAX_CZEKA"
    using i(6) dlugosc_czekajacych[OF i(6)] miejsce Some i(5)
    by (auto simp: dobre_cv_def miejsce_cv_def czekajacy_na_def)
  have len: "length (procesy (CV s ! i)) = MAX_CZEKA" "length (muteksy (CV s ! i)) = MAX_CZEKA"
    "cv_uzywany (CV s ! i) = 1"
    using i(3,6) by (auto simp: dobre_cv_def cv_w_uzyciu_def)
  have d: "dobre_cv ?d" "czekajacy ?d = ws @ [(aktualnyProces s, n)]" "cv_w_uzyciu ?d" "cv_numer ?d = cv_numer (CV s ! i)"
    using dobre_dopisane[OF len(1,2) b len(3)] czekajacy_dopisane[OF len(1,2) b] i(5) len(3)
    by (auto simp: cv_w_uzyciu_def dopisane_def)
  have "czekaj_na_cv c n s = Some (s\<lparr>CV := (CV s)[i := ?d]\<rparr>)"
    using i b by (simp add: czekaj_na_cv_def Let_def dopiszCv_dopisane)
  with zapis_cv_ten_sam[OF I i(1) d(1) i(3) d(3,4)] Some d i(4) show ?thesis
    by (simp add: reszta_def czekajacy_na_def)
qed

lemma cs_wait_zgodne:
  assumes I: "niezmiennik s" and miejsce: "ma_mutex (aktualnyProces s) n (abstr s) \<Longrightarrow> miejsce_cv c s"
    and a: "a_wait (aktualnyProces s) c n (abstr s) = (r, out, \<sigma>)"
  shows "\<exists>s'. cs_wait E c n s = Some (r, s') \<and> abstr s' = \<sigma> \<and> niezmiennik s' \<and> reszta s s' \<and>
    wyslane s' = wyslane s @ out"
proof (cases "ma_mutex (aktualnyProces s) n (abstr s)")
  case False
  with a I nie_ma_mutexu_iff[OF I, of n] show ?thesis
    by (simp add: cs_wait_alt a_wait_def Let_def reszta_def)
next
  case True
  obtain r1 \<sigma>1 out1 where u: "a_unlock (aktualnyProces s) n (abstr s) = (r1, out1, \<sigma>1)"
    by (rule prod_cases3)
  from cs_unlock_zgodne[OF I u] obtain s1 where s1: "cs_unlock E n s = Some (r1, s1)" "abstr s1 = \<sigma>1"
    "niezmiennik s1" "reszta s s1" "wyslane s1 = wyslane s @ out1" "CV s1 = CV s" by blast
  have z: "zdarz (abstr s1) = zdarz (abstr s)" "wolneCv s1 = wolneCv s"
    using s1(6) by (simp_all add: abstr_def wolneCv_def)
  then have "miejsce_cv c s1"
    using miejsce[OF True] by (simp add: miejsce_cv_def czekajacy_na_def)
  from czekaj_na_cv_zgodne[OF s1(3) this, of n] obtain s2 where s2: "czekaj_na_cv c n s1 = Some s2"
    "niezmiennik s2" "reszta s1 s2" "wyslane s2 = wyslane s1"
    "abstr s2 = (abstr s1)\<lparr>zdarz := (zdarz (abstr s1))(c \<mapsto> czekajacy_na c (abstr s1) @ [(aktualnyProces s1, n)])\<rparr>"
    by blast
  have "cs_wait E c n s = Some (EDONTREPLY, s2)"
    using True s1(1) s2(1) nie_ma_mutexu_iff[OF I, of n] by (simp add: cs_wait_alt Let_def)
  moreover have "(r, out, \<sigma>) = (EDONTREPLY, out1, abstr s2)"
    using a True u s1(2,4) s2(5) by (simp add: a_wait_def reszta_def)
  ultimately show ?thesis
    using s1(4,5) s2(2-4) by (simp add: reszta_def)
qed

section \<open>Announcing an event\<close>

lemma wolny_mutex_iff:
  "niezmiennik s \<Longrightarrow> wolnyMutex s < MAX_MUTEX \<longleftrightarrow> card (dom (mut (abstr s))) < MAX_MUTEX"
  by (simp add: abstr_def card_dom_tab niezmiennikD tm.wolne_istnieje)

lemma wolne_cv_iff:
  "niezmiennik s \<Longrightarrow> wolneCv s < MAX_CV \<longleftrightarrow> card (dom (zdarz (abstr s))) < MAX_CV"
  by (simp add: abstr_def card_dom_tab niezmiennikD tc.wolne_istnieje)

lemma finite_dom_abstr [simp]: "finite (dom (mut (abstr s)))" "finite (dom (zdarz (abstr s)))"
  by (simp_all add: abstr_def finite_dom_tab)

lemma miejsce_na_mutex:
  assumes "niezmiennik s" "mut (abstr s) n = None"
    and "card (dom (mut (snd (a_lock p n (abstr s))))) \<le> MAX_MUTEX"
  shows "wolnyMutex s < MAX_MUTEX"
proof -
  have "dom (mut (snd (a_lock p n (abstr s)))) = insert n (dom (mut (abstr s)))"
    using assms(2) by (simp add: a_lock_def)
  moreover have "n \<notin> dom (mut (abstr s))" using assms(2) by auto
  ultimately show ?thesis using assms(1,3) by (simp add: wolny_mutex_iff)
qed

text \<open>The slot of the event after the entry \<open>j\<close> has been cleared.\<close>

definition skasowane :: "nat \<Rightarrow> conditionVariable \<Rightarrow> conditionVariable" where
  "skasowane j c = c\<lparr>procesy := (procesy c)[j := 0], muteksy := (muteksy c)[j := 0]\<rparr>"

lemma dobre_skasowane: "dobre_cv c \<Longrightarrow> dobre_cv (skasowane j c)"
  by (simp add: dobre_cv_def skasowane_def)

lemma skasowane_pola [simp]:
  "cv_uzywany (skasowane j c) = cv_uzywany c" "cv_numer (skasowane j c) = cv_numer c"
  "size_cv (skasowane j c) = size_cv c" "cv_w_uzyciu (skasowane j c) = cv_w_uzyciu c"
  "k \<noteq> j \<Longrightarrow> procesy (skasowane j c) ! k = procesy c ! k"
  "k \<noteq> j \<Longrightarrow> muteksy (skasowane j c) ! k = muteksy c ! k"
  by (simp_all add: skasowane_def cv_w_uzyciu_def)

lemma obudz_zgodne:
  assumes I: "niezmiennik t" and i: "i < MAX_CV" "cv_w_uzyciu (CV t ! i)"
    and pn: "procesy (CV t ! i) ! j = p" "muteksy (CV t ! i) ! j = n"
    and miejsce: "card (dom (mut (snd (a_lock p n (abstr t))))) \<le> MAX_MUTEX"
  shows "\<exists>t'. obudz E i j t = Some t' \<and> niezmiennik t' \<and> straznicy t' = straznicy t \<and>
    mut (abstr t') = mut (snd (a_lock p n (abstr t))) \<and>
    wyslane t' = wyslane t @ (if fst (a_lock p n (abstr t)) \<noteq> EDONTREPLY then [(p, OK)] else []) \<and>
    CV t' = (CV t)[i := skasowane j (CV t ! i)]"
proof -
  let ?t = "t\<lparr>aktualnyProces := p\<rparr>"
  obtain r \<sigma> where a: "a_lock p n (abstr t) = (r, \<sigma>)" by fastforce
  have "\<exists>s'. cs_lock E n ?t = Some (r, s') \<and> abstr s' = \<sigma> \<and> niezmiennik s' \<and> reszta ?t s' \<and>
    wyslane s' = wyslane ?t \<and> CV s' = CV ?t"
  proof (rule cs_lock_zgodne)
    assume "mut (abstr ?t) n = None"
    with miejsce_na_mutex[of ?t n p] I miejsce show "wolnyMutex ?t < MAX_MUTEX" by simp
  qed (use I a in simp_all)
  then obtain s1 where s1: "cs_lock E n ?t = Some (r, s1)" "abstr s1 = \<sigma>" "niezmiennik s1"
    "reszta ?t s1" "wyslane s1 = wyslane t" "CV s1 = CV t" by auto
  define s2 where "s2 = (if r \<noteq> EDONTREPLY then wyslijWiadomosc E 0 (aktualnyProces s1) s1 else s1)"
  let ?c = "skasowane j (CV t ! i)"
  have s2: "niezmiennik s2" "abstr s2 = \<sigma>" "CV s2 = CV t" "straznicy s2 = straznicy t"
    "wyslane s2 = wyslane t @ (if r \<noteq> EDONTREPLY then [(p, OK)] else [])"
    using s1 by (auto simp: s2_def reszta_def OK_def)
  have run: "obudz E i j t = Some (s2\<lparr>CV := (CV s2)[i := ?c]\<rparr>)"
    using s1(1,6) s2(3) pn by (simp add: obudz_def skasowane_def s2_def Let_def)
  have "niezmiennik (s2\<lparr>CV := (CV s2)[i := ?c]\<rparr>)"
    using s2(3) i dobre_skasowane[OF niezmiennikD(6)[OF I i(1)]] zapis_cv_ten_sam(1)[OF s2(1) i(1)] by simp
  moreover have "mut (abstr (s2\<lparr>CV := (CV s2)[i := ?c]\<rparr>)) = mut \<sigma>"
    using s2(2) by (auto simp: abstr_def)
  ultimately show ?thesis
    using run s2 a by simp
qed

text \<open>Where the loop of \<^verbatim>\<open>cs_broadcast\<close> stands after \<open>j\<close> rounds.\<close>

definition w_broadcast :: "serwer \<Rightarrow> nat \<Rightarrow> nat \<Rightarrow> serwer \<Rightarrow> bool" where
  "w_broadcast s i j t \<longleftrightarrow>
     (let ws = take j (czekajacy (CV s ! i)); (out, \<sigma>) = a_budz ws (abstr s) in
      niezmiennik t \<and> straznicy t = straznicy s \<and> mut (abstr t) = mut \<sigma> \<and> wyslane t = wyslane s @ out \<and>
      (\<exists>c. CV t = (CV s)[i := c] \<and> cv_uzywany c = cv_uzywany (CV s ! i) \<and>
        size_cv c = size_cv (CV s ! i) \<and>
        (\<forall>k \<ge> j. procesy c ! k = procesy (CV s ! i) ! k \<and> muteksy c ! k = muteksy (CV s ! i) ! k)))"

lemma w_broadcast_krok:
  assumes I: "niezmiennik s" and i: "i < MAX_CV" "cv_w_uzyciu (CV s ! i)"
    and miejsce: "card (dom (mut (snd (a_budz (czekajacy (CV s ! i)) (abstr s))))) \<le> MAX_MUTEX"
    and j: "j < nat (size_cv (CV s ! i))" and w: "w_broadcast s i j t"
  shows "\<exists>t'. obudz E i j t = Some t' \<and> w_broadcast s i (Suc j) t'"
proof -
  let ?c0 = "CV s ! i" and ?ws = "czekajacy (CV s ! i)"
  let ?p = "procesy ?c0 ! j" and ?n = "muteksy ?c0 ! j"
  let ?\<sigma> = "snd (a_budz (take j ?ws) (abstr s))"
  from w obtain c where t: "niezmiennik t" "straznicy t = straznicy s" "mut (abstr t) = mut ?\<sigma>"
    "wyslane t = wyslane s @ fst (a_budz (take j ?ws) (abstr s))" and
    c: "CV t = (CV s)[i := c]" "cv_uzywany c = cv_uzywany ?c0" "size_cv c = size_cv ?c0"
    "\<forall>k \<ge> j. procesy c ! k = procesy ?c0 ! k \<and> muteksy c ! k = muteksy ?c0 ! k"
    by (auto simp: w_broadcast_def split_def Let_def)
  have ti: "CV t ! i = c" using c(1) i niezmiennikD(2)[OF I] by simp
  have d0: "dobre_cv ?c0" using niezmiennikD(6)[OF I i(1)] .
  then have jl: "j < length ?ws" using j by (simp add: dlugosc_czekajacych)
  have wj: "?ws ! j = (?p, ?n)" using jl d0 by (auto simp: czekajacy_def dobre_cv_def)
  have split: "take (Suc j) ?ws = take j ?ws @ [(?p, ?n)]"
    using jl wj by (simp add: take_Suc_conv_app_nth)
  note al = a_lock_mut[OF t(3), of ?p ?n]
  have step: "a_budz (take (Suc j) ?ws) (abstr s) =
    (fst (a_budz (take j ?ws) (abstr s)) @ (if fst (a_lock ?p ?n ?\<sigma>) \<noteq> EDONTREPLY then [(?p, OK)] else []),
     snd (a_lock ?p ?n ?\<sigma>))"
    by (simp add: split a_budz_append a_budz_Cons)
  have "dom (mut (snd (a_lock ?p ?n ?\<sigma>))) \<subseteq> dom (mut (snd (a_budz ?ws (abstr s))))"
    using dom_a_budz[of "snd (a_budz (take (Suc j) ?ws) (abstr s))" "drop (Suc j) ?ws"]
      a_budz_append[of "take (Suc j) ?ws" "drop (Suc j) ?ws" "abstr s"] step by simp
  then have "card (dom (mut (snd (a_lock ?p ?n (abstr t))))) \<le> MAX_MUTEX"
    using al miejsce card_mono[OF finite_dom_a_budz[OF finite_dom_abstr(1)]] by (metis order_trans)
  then obtain t' where t': "obudz E i j t = Some t'" "niezmiennik t'" "straznicy t' = straznicy t"
    "mut (abstr t') = mut (snd (a_lock ?p ?n (abstr t)))"
    "wyslane t' = wyslane t @ (if fst (a_lock ?p ?n (abstr t)) \<noteq> EDONTREPLY then [(?p, OK)] else [])"
    "CV t' = (CV t)[i := skasowane j (CV t ! i)]"
    using obudz_zgodne[OF t(1) i(1), of j ?p ?n E] c i ti by (auto simp: cv_w_uzyciu_def)
  have "CV t' = (CV s)[i := skasowane j c]" using t'(6) ti c(1) by simp
  moreover have "\<forall>k \<ge> Suc j. procesy (skasowane j c) ! k = procesy ?c0 ! k \<and>
      muteksy (skasowane j c) ! k = muteksy ?c0 ! k"
    using c(4) by simp
  ultimately have "w_broadcast s i (Suc j) t'"
    using t' t al c unfolding w_broadcast_def Let_def step by (auto intro!: exI[of _ "skasowane j c"])
  with t'(1) show ?thesis by blast
qed

lemma cs_broadcast_zgodne:
  assumes I: "niezmiennik s" and a: "a_broadcast c (abstr s) = (r, out, \<sigma>)"
    and miejsce: "card (dom (mut \<sigma>)) \<le> MAX_MUTEX"
  shows "\<exists>s'. cs_broadcast E c s = Some (r, s') \<and> abstr s' = \<sigma> \<and> niezmiennik s' \<and> reszta s s' \<and>
    wyslane s' = wyslane s @ out"
proof (cases "zdarz (abstr s) c")
  case None
  then have "(r, out, \<sigma>) = (OK, [], abstr s)"
    using a by (auto simp: a_broadcast_def czekajacy_na_def fun_upd_idem)
  with None I show ?thesis
    by (simp add: cs_broadcast_def indeks_cv_brak_iff reszta_def)
next
  case (Some ws)
  then obtain i where i: "i < MAX_CV" "indeksUzywanegoCv s c = int i" "cv_w_uzyciu (CV s ! i)"
    "cv_numer (CV s ! i) = c" "czekajacy (CV s ! i) = ws" "dobre_cv (CV s ! i)"
    by (rule indeks_cv_jest[OF I])
  obtain \<sigma>1 where b: "a_budz ws (abstr s) = (out, \<sigma>1)" "r = OK" "\<sigma> = \<sigma>1\<lparr>zdarz := (zdarz \<sigma>1)(c := None)\<rparr>"
    using a Some by (auto simp: a_broadcast_def czekajacy_na_def split: prod.splits)
  let ?n = "nat (size_cv (CV s ! i))"
  have "\<exists>t. FOR 0 ?n (obudz E i) s = Some t \<and> w_broadcast s i ?n t"
  proof (rule FOR_rule)
    show "w_broadcast s i 0 s"
      using I by (auto simp: w_broadcast_def intro!: exI[of _ "CV s ! i"])
  qed (use w_broadcast_krok[OF I i(1,3)] i(5) b miejsce in auto)
  then obtain t where run: "FOR 0 ?n (obudz E i) s = Some t" and w: "w_broadcast s i ?n t" by blast
  have "take ?n ws = ws"
    using dlugosc_czekajacych[OF i(6)] i(5) by simp
  with w b(1) i(5) obtain d where t: "niezmiennik t" "straznicy t = straznicy s" "mut (abstr t) = mut \<sigma>1"
    "wyslane t = wyslane s @ out" and d: "CV t = (CV s)[i := d]"
    "cv_uzywany d = cv_uzywany (CV s ! i)" "size_cv d = size_cv (CV s ! i)"
    by (auto simp: w_broadcast_def)
  have ti: "CV t ! i = d" "dobre_cv d" using d(1) i(1) niezmiennikD(2)[OF I] niezmiennikD(6)[OF t(1) i(1)] by auto
  let ?d = "d\<lparr>cv_uzywany := 0, size_cv := 0, cv_numer := 0\<rparr>"
  let ?s' = "t\<lparr>aktualnyProces := aktualnyProces s, CV := (CV s)[i := ?d]\<rparr>"
  have dd: "dobre_cv ?d" "\<not> cv_w_uzyciu ?d" "cv_w_uzyciu d"
    using ti(2) d(2) i(3) by (auto simp: dobre_cv_def cv_w_uzyciu_def)
  have "cs_broadcast E c s = Some (OK, ?s')"
    using i(2) run ti d by (simp add: cs_broadcast_def Let_def)
  moreover have "niezmiennik ?s'"
    using zapis_cv_wolny(1)[OF t(1) i(1) dd(1) _ dd(2)] ti dd(3) d(1)
    by (simp add: niezmiennik_def)
  moreover have "abstr ?s' = \<sigma>"
  proof -
    have "zdarz (abstr ?s') = (zdarz (abstr s))(c := None)"
      using zapis_cv_wolny(2)[OF I i(1) dd(1) i(3) dd(2)] i(4) by (simp add: abstr_def)
    moreover have "zdarz \<sigma>1 = zdarz (abstr s)" using b(1) by (metis a_budz_zdarz snd_conv)
    moreover have "mut (abstr ?s') = mut \<sigma>1" using t(3) by (simp add: abstr_def)
    ultimately show ?thesis using b(3) by simp
  qed
  ultimately show ?thesis
    using b(2) t by (auto simp: reszta_def straznicy_def wyslane_def)
qed

end
