(* ===== verification/Zgodnosc_Sygnaly.thy ===== *)
theory Zgodnosc_Sygnaly
  imports Zgodnosc
begin

text \<open>
  The two requests of the process manager, \<^verbatim>\<open>wyslijEINTR\<close> and \<^verbatim>\<open>usunZakonczonyProces\<close>: what
  their loops do to every slot of the two tables, and that together they act on the abstract
  state as \<open>a_eintr\<close> and \<open>a_exit\<close>.
\<close>

section \<open>Taking one process out of the slot of an event\<close>

lemma przesun_petla:
  fixes s :: serwer and i :: nat
  defines "c \<equiv> CV s ! i"
  assumes i: "i < length (CV s)" and jn: "j < n"
    and len: "n \<le> length (procesy c)" "n \<le> length (muteksy c)"
  shows "\<exists>c'. FOR (j + 1) n (przesun i) s = Some (s\<lparr>CV := (CV s)[i := c']\<rparr>) \<and>
    size_cv c' = size_cv c \<and> cv_uzywany c' = cv_uzywany c \<and> cv_numer c' = cv_numer c \<and>
    length (procesy c') = length (procesy c) \<and> length (muteksy c') = length (muteksy c) \<and>
    (\<forall>k < n - 1. procesy c' ! k = procesy c ! (if k < j then k else k + 1) \<and>
       muteksy c' ! k = muteksy c ! (if k < j then k else k + 1))"
proof -
  define J where "J k t \<longleftrightarrow> (\<exists>c'. t = s\<lparr>CV := (CV s)[i := c']\<rparr> \<and>
    size_cv c' = size_cv c \<and> cv_uzywany c' = cv_uzywany c \<and> cv_numer c' = cv_numer c \<and>
    length (procesy c') = length (procesy c) \<and> length (muteksy c') = length (muteksy c) \<and>
    (\<forall>l < n. procesy c' ! l = procesy c ! (if l < j \<or> k - 1 \<le> l then l else l + 1) \<and>
       muteksy c' ! l = muteksy c ! (if l < j \<or> k - 1 \<le> l then l else l + 1)))" for k t
  have "\<exists>t. FOR (j + 1) n (przesun i) s = Some t \<and> J n t"
  proof (rule FOR_rule)
    show "J (j + 1) s"
      unfolding J_def by (rule exI[of _ c]) (auto simp: c_def)
    show "j + 1 \<le> n" using jn by simp
    fix k t assume k: "j + 1 \<le> k" "k < n" and "J k t"
    then obtain c' where t: "t = s\<lparr>CV := (CV s)[i := c']\<rparr>" and c':
      "size_cv c' = size_cv c" "cv_uzywany c' = cv_uzywany c" "cv_numer c' = cv_numer c"
      "length (procesy c') = length (procesy c)" "length (muteksy c') = length (muteksy c)"
      "\<And>l. l < n \<Longrightarrow> procesy c' ! l = procesy c ! (if l < j \<or> k - 1 \<le> l then l else l + 1)"
      "\<And>l. l < n \<Longrightarrow> muteksy c' ! l = muteksy c ! (if l < j \<or> k - 1 \<le> l then l else l + 1)"
      by (auto simp: J_def)
    let ?c = "c'\<lparr>procesy := (procesy c')[k - 1 := procesy c' ! k], muteksy := (muteksy c')[k - 1 := muteksy c' ! k]\<rparr>"
    have "przesun i k t = Some (s\<lparr>CV := (CV s)[i := ?c]\<rparr>)"
      using i by (simp add: przesun_def t)
    moreover have "J (Suc k) (s\<lparr>CV := (CV s)[i := ?c]\<rparr>)"
      unfolding J_def
    proof (intro exI[of _ ?c] conjI allI impI)
      fix l assume l: "l < n"
      have kk: "k - 1 < length (procesy c')" "k - 1 < length (muteksy c')" using k len c' by auto
      show "procesy ?c ! l = procesy c ! (if l < j \<or> Suc k - 1 \<le> l then l else l + 1)"
        using c'(6)[OF l] c'(6)[OF k(2)] k kk l by (cases "l = k - 1") auto
      show "muteksy ?c ! l = muteksy c ! (if l < j \<or> Suc k - 1 \<le> l then l else l + 1)"
        using c'(7)[OF l] c'(7)[OF k(2)] k kk l by (cases "l = k - 1") auto
    qed (use c' in auto)
    ultimately show "\<exists>t'. przesun i k t = Some t' \<and> J (Suc k) t'" by blast
  qed
  then show ?thesis unfolding J_def by force
qed

lemma usun_pare_nth:
  assumes "j < length ws" "fst (ws ! j) = p" "\<And>k. k < j \<Longrightarrow> fst (ws ! k) \<noteq> p"
  shows "usun_pare p ws = take j ws @ drop (Suc j) ws"
  using assms
proof (induction ws arbitrary: j)
  case (Cons w ws)
  obtain r n where w: "w = (r, n)" by fastforce
  show ?case
  proof (cases j)
    case 0
    with Cons.prems w show ?thesis by simp
  next
    case (Suc k)
    then have "r \<noteq> p" using Cons.prems(3)[of 0] w by simp
    moreover have "usun_pare p ws = take k ws @ drop (Suc k) ws"
      using Cons.prems(1,2) Cons.prems(3)[of "Suc l" for l] Suc by (intro Cons.IH) auto
    ultimately show ?thesis using Suc w by simp
  qed
qed simp

lemma usun_pare_brak: "(\<And>k. k < length ws \<Longrightarrow> fst (ws ! k) \<noteq> p) \<Longrightarrow> usun_pare p ws = ws"
proof (induction ws)
  case (Cons w ws)
  obtain r n where w: "w = (r, n)" by fastforce
  with Cons.prems[of 0] have "r \<noteq> p" by simp
  moreover have "usun_pare p ws = ws"
    using Cons.prems[of "Suc k" for k] by (intro Cons.IH) auto
  ultimately show ?case using w by simp
qed simp

text \<open>How a slot of the table of events relates to what it was before a process left.\<close>

definition po_usunieciu_cv :: "int \<Rightarrow> conditionVariable \<Rightarrow> conditionVariable \<Rightarrow> bool" where
  "po_usunieciu_cv p c c' \<longleftrightarrow> dobre_cv c' \<and>
     (if cv_w_uzyciu c \<and> usun_pare p (czekajacy c) \<noteq> []
      then cv_w_uzyciu c' \<and> cv_numer c' = cv_numer c \<and> czekajacy c' = usun_pare p (czekajacy c)
      else \<not> cv_w_uzyciu c')"

lemma usunZakonczonyProcesCV_slot:
  assumes i: "i < length (CV s)" and d: "dobre_cv (CV s ! i)" and u: "cv_w_uzyciu (CV s ! i)"
    and j: "j < length (czekajacy (CV s ! i))" "fst (czekajacy (CV s ! i) ! j) = p"
      "\<And>k. k < j \<Longrightarrow> fst (czekajacy (CV s ! i) ! k) \<noteq> p"
  shows "\<exists>c'. usunZakonczonyProcesCV i j s = Some (s\<lparr>CV := (CV s)[i := c']\<rparr>) \<and>
    po_usunieciu_cv p (CV s ! i) c'"
proof -
  let ?c = "CV s ! i" and ?ws = "czekajacy (CV s ! i)"
  define n where "n = nat (size_cv ?c)"
  have n: "length ?ws = n" "j < n" "size_cv ?c = int n" "n \<le> MAX_CZEKA"
    using d dlugosc_czekajacych[OF d] j(1) by (auto simp: n_def dobre_cv_def)
  have up: "usun_pare p ?ws = take j ?ws @ drop (Suc j) ?ws"
    using j by (intro usun_pare_nth) auto
  show ?thesis
  proof (cases "n = 1")
    case True
    then have "usun_pare p ?ws = []" using up n by simp
    with True n d show ?thesis
      by (intro exI[of _ "?c\<lparr>cv_uzywany := 0\<rparr>"])
        (simp add: usunZakonczonyProcesCV_def po_usunieciu_cv_def dobre_cv_def cv_w_uzyciu_def)
  next
    case False
    have "n \<le> length (procesy ?c)" "n \<le> length (muteksy ?c)" using d n by (auto simp: dobre_cv_def)
    from przesun_petla[OF i n(2) this] obtain c' where
      run: "FOR (j + 1) n (przesun i) s = Some (s\<lparr>CV := (CV s)[i := c']\<rparr>)" and c':
      "size_cv c' = size_cv ?c" "cv_uzywany c' = cv_uzywany ?c" "cv_numer c' = cv_numer ?c"
      "length (procesy c') = length (procesy ?c)" "length (muteksy c') = length (muteksy ?c)"
      "\<forall>k < n - 1. procesy c' ! k = procesy ?c ! (if k < j then k else k + 1) \<and>
        muteksy c' ! k = muteksy ?c ! (if k < j then k else k + 1)" by blast
    let ?d = "c'\<lparr>size_cv := size_cv c' - 1\<rparr>"
    have "usunZakonczonyProcesCV i j s = Some (s\<lparr>CV := (CV s)[i := ?d]\<rparr>)"
      using run i n False by (simp add: usunZakonczonyProcesCV_def flip: n_def)
    moreover have "czekajacy ?d = usun_pare p ?ws"
    proof (rule nth_equalityI)
      have nd: "nat (size_cv ?d) = n - 1" using c' n False by simp
      show len: "length (czekajacy ?d) = length (usun_pare p ?ws)"
        using nd d c' n up False by (simp add: czekajacy_def dobre_cv_def)
      fix k assume "k < length (czekajacy ?d)"
      then have k: "k < n - 1" using len n up by simp
      then show "czekajacy ?d ! k = usun_pare p ?ws ! k"
        unfolding up using nd d n c' by (auto simp: czekajacy_def dobre_cv_def nth_append min_def)
    qed
    moreover have "dobre_cv ?d"
      using d c' n False j(1) u by (auto simp: dobre_cv_def)
    moreover have "usun_pare p ?ws \<noteq> []"
      using up n False by (auto simp: min_def)
    ultimately show ?thesis
      using c' u by (intro exI[of _ ?d]) (simp add: po_usunieciu_cv_def cv_w_uzyciu_def)
  qed
qed

text \<open>The search of the two loops over the events, through the list of waiting processes.\<close>

definition czeka_w_cv :: "int \<Rightarrow> conditionVariable \<Rightarrow> bool" where
  "czeka_w_cv p c \<longleftrightarrow> cv_w_uzyciu c \<and> p \<in> fst ` set (czekajacy c)"

lemma szukaj_w_cv:
  assumes d: "dobre_cv c"
  shows "let n = nat (size_cv c); j = FOR_szukaj 0 n (\<lambda>j. procesy c ! j = p) in
    (j < n \<longleftrightarrow> p \<in> fst ` set (czekajacy c)) \<and>
    (j < n \<longrightarrow> fst (czekajacy c ! j) = p \<and> (\<forall>k < j. fst (czekajacy c ! k) \<noteq> p))"
proof -
  define n j where "n = nat (size_cv c)" and "j = FOR_szukaj 0 n (\<lambda>j. procesy c ! j = p)"
  have eq: "fst (czekajacy c ! k) = procesy c ! k" if "k < n" for k
    using that d by (auto simp: czekajacy_def dobre_cv_def n_def)
  have len: "length (czekajacy c) = n" using dlugosc_czekajacych[OF d] by (simp add: n_def)
  have "j < n \<longleftrightarrow> p \<in> fst ` set (czekajacy c)"
  proof
    assume "j < n"
    then have "fst (czekajacy c ! j) = p" using FOR_szukaj_found[of 0 n] eq by (auto simp: j_def)
    then show "p \<in> fst ` set (czekajacy c)" using \<open>j < n\<close> len by force
  next
    assume "p \<in> fst ` set (czekajacy c)"
    then obtain k where "k < n" "fst (czekajacy c ! k) = p" using len by (auto simp: in_set_conv_nth)
    then have "k < n" "procesy c ! k = p" using eq by auto
    then show "j < n" using FOR_szukaj_brak[of 0 n "\<lambda>j. procesy c ! j = p" k] by (auto simp: j_def)
  qed
  moreover have "fst (czekajacy c ! j) = p \<and> (\<forall>k < j. fst (czekajacy c ! k) \<noteq> p)" if "j < n"
    using that eq FOR_szukaj_found[of 0 n] FOR_szukaj_before[of 0 _ n "\<lambda>j. procesy c ! j = p"]
    by (auto simp: j_def)
  ultimately show ?thesis by (simp add: Let_def flip: n_def j_def)
qed

lemma po_usunieciu_cv_bez_zmian:
  assumes "dobre_cv c" "\<not> czeka_w_cv p c"
  shows "po_usunieciu_cv p c c"
proof (cases "cv_w_uzyciu c")
  case True
  with assms(2) have "\<And>k. k < length (czekajacy c) \<Longrightarrow> fst (czekajacy c ! k) \<noteq> p"
    by (auto simp: czeka_w_cv_def)
  then have "usun_pare p (czekajacy c) = czekajacy c" by (rule usun_pare_brak)
  moreover have "czekajacy c \<noteq> []"
    using True assms(1) dlugosc_czekajacych[OF assms(1)] by (auto simp: dobre_cv_def cv_w_uzyciu_def)
  ultimately show ?thesis using True assms(1) by (simp add: po_usunieciu_cv_def)
qed (use assms in \<open>simp add: po_usunieciu_cv_def\<close>)

lemma czeka_w_cv_indeks:
  assumes "dobre_cv c" "czeka_w_cv p c"
  defines "j \<equiv> FOR_szukaj 0 (nat (size_cv c)) (\<lambda>j. procesy c ! j = p)"
  shows "cv_w_uzyciu c" "cv_uzywany c = 1" "j < nat (size_cv c)" "j < length (czekajacy c)"
    "fst (czekajacy c ! j) = p" "k < j \<Longrightarrow> fst (czekajacy c ! k) \<noteq> p"
  using szukaj_w_cv[OF assms(1), of p] assms(1,2) dlugosc_czekajacych[OF assms(1)]
  unfolding Let_def j_def[symmetric] czeka_w_cv_def by (auto simp: cv_w_uzyciu_def dobre_cv_def)

lemma nie_czeka_w_cv:
  assumes "dobre_cv c" "\<not> czeka_w_cv p c" "cv_uzywany c = 1"
  shows "\<not> FOR_szukaj 0 (nat (size_cv c)) (\<lambda>j. procesy c ! j = p) < nat (size_cv c)"
  using szukaj_w_cv[OF assms(1), of p] assms(2,3) by (auto simp: czeka_w_cv_def cv_w_uzyciu_def Let_def)

lemma usunZCv_slot:
  assumes i: "i < length (CV s)" and d: "dobre_cv (CV s ! i)"
  shows "\<exists>c'. usunZCv p i s = Some (s\<lparr>CV := (CV s)[i := c']\<rparr>) \<and> po_usunieciu_cv p (CV s ! i) c'"
proof (cases "czeka_w_cv p (CV s ! i)")
  case False
  then have "usunZCv p i s = Some s"
    using nie_czeka_w_cv[OF d] by (simp add: usunZCv_def Let_def)
  with po_usunieciu_cv_bez_zmian[OF d False] show ?thesis
    by (intro exI[of _ "CV s ! i"]) simp
next
  case True
  note j = czeka_w_cv_indeks[OF d True]
  show ?thesis
    using usunZakonczonyProcesCV_slot[OF i d j(1,4,5,6)] j(2,3) by (simp add: usunZCv_def Let_def)
qed

lemma eintrCv_slot:
  fixes E :: srodowisko and p :: int
  assumes i: "i < length (CV s)" and d: "dobre_cv (CV s ! i)"
  defines "s1 \<equiv> (if czeka_w_cv p (CV s ! i) then wyslijWiadomosc E EINTR p s else s)"
  shows "\<exists>c'. eintrCv E p i s = Some (s1\<lparr>CV := (CV s)[i := c']\<rparr>) \<and> po_usunieciu_cv p (CV s ! i) c'"
proof (cases "czeka_w_cv p (CV s ! i)")
  case False
  then have "eintrCv E p i s = Some s"
    using nie_czeka_w_cv[OF d] by (simp add: eintrCv_def Let_def)
  with po_usunieciu_cv_bez_zmian[OF d False] False show ?thesis
    by (intro exI[of _ "CV s ! i"]) (simp add: s1_def)
next
  case True
  note j = czeka_w_cv_indeks[OF d True]
  have s1: "CV s1 = CV s" "s1 = wyslijWiadomosc E EINTR p s" using True by (simp_all add: s1_def)
  show ?thesis
    using usunZakonczonyProcesCV_slot[of i s1] i d j s1 by (simp add: eintrCv_def Let_def)
qed

section \<open>Taking one process out of the queue of a mutex\<close>

text \<open>
  When the indeterminate value in the sentinel happens to be the process, the search stops at
  the sentinel and nothing is taken out.
\<close>

definition po_usunieciu_mutex :: "int \<Rightarrow> muteks \<Rightarrow> muteks \<Rightarrow> bool" where
  "po_usunieciu_mutex p m m' \<longleftrightarrow> dobry_mutex m' \<and> uzywany m' = uzywany m \<and> numer m' = numer m \<and>
     wlasciciel m' = wlasciciel m \<and> straznik (kolejka m') = straznik (kolejka m) \<and>
     zawartosc (kolejka m') = (if straznik (kolejka m) = p then zawartosc (kolejka m)
       else remove1 p (zawartosc (kolejka m)))"

definition trafiony :: "int \<Rightarrow> muteks \<Rightarrow> bool" where
  "trafiony p m \<longleftrightarrow> zawartosc (kolejka m) \<noteq> [] \<and>
     (straznik (kolejka m) = p \<or> p \<in> set (zawartosc (kolejka m)))"

lemma znajdz_slot:
  assumes d: "dobry_mutex m"
  shows "if trafiony p m
    then \<exists>a q. czyPusto (kolejka m) = Some 0 \<and> znajdz (kolejka m) p = Some (Some a) \<and>
      usunElement (kolejka m) a = Some q \<and> po_usunieciu_mutex p m (m\<lparr>kolejka := q\<rparr>)
    else (czyPusto (kolejka m) = Some 1 \<or> czyPusto (kolejka m) = Some 0 \<and> znajdz (kolejka m) p = Some None) \<and>
      po_usunieciu_mutex p m m"
proof -
  have q: "poprawna (kolejka m)" using d by (simp add: dobry_mutex_def)
  note pus = kq.pusta_ok[OF q]
  consider (pusta) "zawartosc (kolejka m) = []"
    | (straz) "zawartosc (kolejka m) \<noteq> []" "straznik (kolejka m) = p"
    | (jest) "straznik (kolejka m) \<noteq> p" "p \<in> set (zawartosc (kolejka m))"
    | (brak) "zawartosc (kolejka m) \<noteq> []" "straznik (kolejka m) \<noteq> p" "p \<notin> set (zawartosc (kolejka m))"
    by blast
  then show ?thesis
  proof cases
    case pusta
    with pus d show ?thesis by (simp add: trafiony_def po_usunieciu_mutex_def)
  next
    case straz
    with pus d znajdz_rep usunElement_straznik q show ?thesis
      by (auto simp: trafiony_def po_usunieciu_mutex_def poprawna_def)
  next
    case jest
    then have ne: "zawartosc (kolejka m) \<noteq> []" by auto
    from kq.szuk_usun[OF q jest] obtain a q' where "znajdz (kolejka m) p = Some (Some a)"
      "usunElement (kolejka m) a = Some q'" "poprawna q'"
      "zawartosc q' = remove1 p (zawartosc (kolejka m))" "straznik q' = straznik (kolejka m)" by blast
    moreover have "uzywany m \<noteq> 0" "uzywany m = 1" using d ne by (auto simp: dobry_mutex_def)
    ultimately show ?thesis using jest ne pus
      by (auto simp: trafiony_def po_usunieciu_mutex_def dobry_mutex_def)
  next
    case brak
    with pus kq.szuk_brak[OF q brak(2,3)] d show ?thesis
      by (simp add: trafiony_def po_usunieciu_mutex_def remove1_idem)
  qed
qed

lemma usunZMutexu_slot:
  assumes d: "dobry_mutex (M s ! i)"
  shows "\<exists>m'. usunZMutexu p i s = Some (s\<lparr>M := (M s)[i := m']\<rparr>) \<and> po_usunieciu_mutex p (M s ! i) m'"
  using znajdz_slot[OF d, of p]
  by (cases "trafiony p (M s ! i)") (force simp: usunZMutexu_def intro: exI[of _ "M s ! i"])+

lemma eintrMutex_slot:
  fixes E :: srodowisko and p :: int
  assumes d: "dobry_mutex (M s ! i)"
  defines "s1 \<equiv> (if trafiony p (M s ! i) then wyslijWiadomosc E EINTR p s else s)"
  shows "\<exists>m'. eintrMutex E p i s = Some (s1\<lparr>M := (M s)[i := m']\<rparr>) \<and> po_usunieciu_mutex p (M s ! i) m'"
  using znajdz_slot[OF d, of p] unfolding s1_def
  by (cases "trafiony p (M s ! i)") (force simp: eintrMutex_def intro: exI[of _ "M s ! i"])+

section \<open>The loops over the tables\<close>

lemma liczba_take_Suc:
  "i < length xs \<Longrightarrow> replicate (length (filter P (take (Suc i) xs))) x =
    replicate (length (filter P (take i xs))) x @ (if P (xs ! i) then [x] else [])"
  by (simp add: take_Suc_conv_app_nth replicate_append_same)

lemma petla_eintrMutex:
  assumes I: "niezmiennik s"
  shows "\<exists>s'. FOR 0 MAX_MUTEX (eintrMutex E p) s = Some s' \<and>
    list_all2 (po_usunieciu_mutex p) (M s) (M s') \<and> CV s' = CV s \<and> aktualnyProces s' = aktualnyProces s \<and>
    wyslane s' = wyslane s @ replicate (length (filter (trafiony p) (M s))) (p, EINTR)"
proof -
  let ?J = "\<lambda>i t. CV t = CV s \<and> aktualnyProces t = aktualnyProces s \<and>
    wyslane t = wyslane s @ replicate (length (filter (trafiony p) (take i (M s)))) (p, EINTR)"
  have "\<exists>s'. FOR 0 MAX_MUTEX (eintrMutex E p) s = Some s' \<and>
    list_all2 (po_usunieciu_mutex p) (M s) (M s') \<and> ?J MAX_MUTEX s'"
  proof (rule FOR_sloty)
    fix i t assume i: "i < MAX_MUTEX" and J: "?J i t" and l: "length (M t) = MAX_MUTEX" "M t ! i = M s ! i"
    have d: "dobry_mutex (M t ! i)" using niezmiennikD(5)[OF I i] l by simp
    from eintrMutex_slot[OF d, of E p] obtain m' where
      "eintrMutex E p i t = Some ((if trafiony p (M t ! i) then wyslijWiadomosc E EINTR p t else t)
        \<lparr>M := (M t)[i := m']\<rparr>)" "po_usunieciu_mutex p (M t ! i) m'" by blast
    with J i l niezmiennikD(1)[OF I] show "\<exists>t' e'. eintrMutex E p i t = Some t' \<and> M t' = (M t)[i := e'] \<and>
        po_usunieciu_mutex p (M s ! i) e' \<and> ?J (Suc i) t'"
      by (auto simp: liczba_take_Suc)
  qed (use niezmiennikD(1)[OF I] in simp_all)
  then show ?thesis using niezmiennikD(1)[OF I] by auto
qed

lemma petla_eintrCv:
  assumes I: "length (CV s) = MAX_CV" "list_all dobre_cv (CV s)"
  shows "\<exists>s'. FOR 0 MAX_CV (eintrCv E p) s = Some s' \<and>
    list_all2 (po_usunieciu_cv p) (CV s) (CV s') \<and> M s' = M s \<and> aktualnyProces s' = aktualnyProces s \<and>
    wyslane s' = wyslane s @ replicate (length (filter (czeka_w_cv p) (CV s))) (p, EINTR)"
proof -
  let ?J = "\<lambda>i t. M t = M s \<and> aktualnyProces t = aktualnyProces s \<and>
    wyslane t = wyslane s @ replicate (length (filter (czeka_w_cv p) (take i (CV s)))) (p, EINTR)"
  have "\<exists>s'. FOR 0 MAX_CV (eintrCv E p) s = Some s' \<and>
    list_all2 (po_usunieciu_cv p) (CV s) (CV s') \<and> ?J MAX_CV s'"
  proof (rule FOR_sloty)
    fix i t assume i: "i < MAX_CV" and J: "?J i t" and l: "length (CV t) = MAX_CV" "CV t ! i = CV s ! i"
    have d: "i < length (CV t)" "dobre_cv (CV t ! i)" using I i l by (auto simp: list_all_length)
    from eintrCv_slot[OF d, of E p] obtain c' where
      "eintrCv E p i t = Some ((if czeka_w_cv p (CV t ! i) then wyslijWiadomosc E EINTR p t else t)
        \<lparr>CV := (CV t)[i := c']\<rparr>)" "po_usunieciu_cv p (CV t ! i) c'" by blast
    with J i l I(1) show "\<exists>t' e'. eintrCv E p i t = Some t' \<and> CV t' = (CV t)[i := e'] \<and>
        po_usunieciu_cv p (CV s ! i) e' \<and> ?J (Suc i) t'"
      by (auto simp: liczba_take_Suc)
  qed (use I in simp_all)
  then show ?thesis using I by auto
qed

lemma petla_usunZMutexu:
  assumes I: "niezmiennik s"
  shows "\<exists>s'. FOR 0 MAX_MUTEX (usunZMutexu p) s = Some s' \<and>
    list_all2 (po_usunieciu_mutex p) (M s) (M s') \<and> CV s' = CV s \<and> aktualnyProces s' = aktualnyProces s \<and>
    wyslane s' = wyslane s"
proof -
  let ?J = "\<lambda>i t. CV t = CV s \<and> aktualnyProces t = aktualnyProces s \<and> wyslane t = wyslane s"
  have "\<exists>s'. FOR 0 MAX_MUTEX (usunZMutexu p) s = Some s' \<and>
    list_all2 (po_usunieciu_mutex p) (M s) (M s') \<and> ?J MAX_MUTEX s'"
  proof (rule FOR_sloty)
    fix i t assume i: "i < MAX_MUTEX" and J: "?J i t" and l: "length (M t) = MAX_MUTEX" "M t ! i = M s ! i"
    have "dobry_mutex (M t ! i)" using niezmiennikD(5)[OF I i] l by simp
    with usunZMutexu_slot[of t i p] J l show "\<exists>t' e'. usunZMutexu p i t = Some t' \<and> M t' = (M t)[i := e'] \<and>
        po_usunieciu_mutex p (M s ! i) e' \<and> ?J (Suc i) t'"
      by fastforce
  qed (use niezmiennikD(1)[OF I] in simp_all)
  then show ?thesis by auto
qed

lemma petla_usunZCv:
  assumes I: "length (CV s) = MAX_CV" "list_all dobre_cv (CV s)"
  shows "\<exists>s'. FOR 0 MAX_CV (usunZCv p) s = Some s' \<and>
    list_all2 (po_usunieciu_cv p) (CV s) (CV s') \<and> M s' = M s \<and> aktualnyProces s' = aktualnyProces s \<and>
    wyslane s' = wyslane s"
proof -
  let ?J = "\<lambda>i t. M t = M s \<and> aktualnyProces t = aktualnyProces s \<and> wyslane t = wyslane s"
  have "\<exists>s'. FOR 0 MAX_CV (usunZCv p) s = Some s' \<and>
    list_all2 (po_usunieciu_cv p) (CV s) (CV s') \<and> ?J MAX_CV s'"
  proof (rule FOR_sloty)
    fix i t assume i: "i < MAX_CV" and J: "?J i t" and l: "length (CV t) = MAX_CV" "CV t ! i = CV s ! i"
    have "i < length (CV t)" "dobre_cv (CV t ! i)" using I i l by (auto simp: list_all_length)
    with usunZCv_slot[of i t p] J l show "\<exists>t' e'. usunZCv p i t = Some t' \<and> CV t' = (CV t)[i := e'] \<and>
        po_usunieciu_cv p (CV s ! i) e' \<and> ?J (Suc i) t'"
      by fastforce
  qed (use I in simp_all)
  then show ?thesis by auto
qed

section \<open>Effect on the invariant and on the monitor\<close>

lemma po_usunieciu_cv_tab:
  assumes r: "rozne cv_w_uzyciu cv_numer xs" and R: "list_all2 (po_usunieciu_cv p) xs ys"
  shows "tab cv_w_uzyciu cv_numer czekajacy ys = bez_zdarzen p (tab cv_w_uzyciu cv_numer czekajacy xs)"
    "rozne cv_w_uzyciu cv_numer ys" "list_all dobre_cv ys"
proof -
  let ?g = "\<lambda>ws. if usun_pare p ws = [] then None else Some (usun_pare p ws)"
  have 1: "cv_w_uzyciu c \<and> cv_numer c' = cv_numer c" if "po_usunieciu_cv p c c'" "cv_w_uzyciu c'" for c c'
    using that by (auto simp: po_usunieciu_cv_def split: if_splits)
  have 2: "?g (czekajacy c) = (if cv_w_uzyciu c' then Some (czekajacy c') else None)"
    if "po_usunieciu_cv p c c'" "cv_w_uzyciu c" for c c'
    using that by (auto simp: po_usunieciu_cv_def split: if_splits)
  show "tab cv_w_uzyciu cv_numer czekajacy ys = bez_zdarzen p (tab cv_w_uzyciu cv_numer czekajacy xs)"
    unfolding bez_zdarzen_def using tab_all2(1)[where g = ?g and v = czekajacy, OF r R 1 2] by blast
  show "rozne cv_w_uzyciu cv_numer ys"
    using tab_all2(2)[where g = ?g and v = czekajacy, OF r R 1 2] by blast
  show "list_all dobre_cv ys"
    using R by (auto simp: list_all_length list_all2_conv_all_nth po_usunieciu_cv_def)
qed

lemma bind_Some_map: "Option.bind x (\<lambda>v. Some (f v)) = map_option f x"
  by (cases x) auto

lemma po_usunieciu_mutex_tab:
  assumes r: "rozne mutex_w_uzyciu numer xs" and R: "list_all2 (po_usunieciu_mutex p) xs ys"
  shows "p \<notin> set (map (\<lambda>m. straznik (kolejka m)) xs) \<Longrightarrow>
      tab mutex_w_uzyciu numer stan_mutexu ys =
      (\<lambda>n. map_option (\<lambda>(w, q). (w, remove1 p q)) (tab mutex_w_uzyciu numer stan_mutexu xs n))" (is "_ \<Longrightarrow> ?T")
    "rozne mutex_w_uzyciu numer ys" "list_all dobry_mutex ys"
    "map (\<lambda>m. straznik (kolejka m)) ys = map (\<lambda>m. straznik (kolejka m)) xs"
proof -
  have 1: "mutex_w_uzyciu c \<and> numer c' = numer c" if "po_usunieciu_mutex p c c'" "mutex_w_uzyciu c'" for c c'
    using that by (auto simp: po_usunieciu_mutex_def mutex_w_uzyciu_def)
  have 3: "Some () = (if mutex_w_uzyciu c' then Some () else None)"
    if "po_usunieciu_mutex p c c'" "mutex_w_uzyciu c" for c c'
    using that by (auto simp: po_usunieciu_mutex_def mutex_w_uzyciu_def)
  show "rozne mutex_w_uzyciu numer ys"
    by (rule tab_all2(2)[where g = Some and v = "\<lambda>_. ()", OF r R]) (use 1 3 in blast)+
  show "list_all dobry_mutex ys"
    using R by (auto simp: list_all_length list_all2_conv_all_nth po_usunieciu_mutex_def)
  show "map (\<lambda>m. straznik (kolejka m)) ys = map (\<lambda>m. straznik (kolejka m)) xs"
    using R by (auto simp: list_all2_conv_all_nth po_usunieciu_mutex_def intro: nth_equalityI)
  assume p: "p \<notin> set (map (\<lambda>m. straznik (kolejka m)) xs)"
  let ?R = "\<lambda>c c'. po_usunieciu_mutex p c c' \<and> straznik (kolejka c) \<noteq> p"
  let ?g = "\<lambda>v. Some (case v of (w, q) \<Rightarrow> (w, remove1 p q))"
  have R': "list_all2 ?R xs ys"
    using R p by (auto simp: list_all2_conv_all_nth)
  have 2: "?g (stan_mutexu c) = (if mutex_w_uzyciu c' then Some (stan_mutexu c') else None)"
    if "?R c c'" "mutex_w_uzyciu c" for c c'
    using that by (auto simp: po_usunieciu_mutex_def mutex_w_uzyciu_def stan_mutexu_def)
  have "tab mutex_w_uzyciu numer stan_mutexu ys = (\<lambda>n. Option.bind (tab mutex_w_uzyciu numer stan_mutexu xs n) ?g)"
    by (rule tab_all2(1)[where R = ?R, OF r R']) (use 1 2 in blast)+
  then show ?T by (simp add: bind_Some_map)
qed

lemma wyslijEINTR_zgodne:
  assumes I: "niezmiennik s"
  shows "\<exists>s'. wyslijEINTR E p s = Some s' \<and> niezmiennik s' \<and> reszta s s' \<and>
    (p \<notin> set (straznicy s) \<longrightarrow> abstr s' = a_eintr p (abstr s)) \<and>
    wyslane s' = wyslane s @ replicate (length (filter (trafiony p) (M s)) +
      length (filter (czeka_w_cv p) (CV s))) (p, EINTR)"
proof -
  from petla_eintrMutex[OF I, of E p] obtain s1 where s1: "FOR 0 MAX_MUTEX (eintrMutex E p) s = Some s1"
    "list_all2 (po_usunieciu_mutex p) (M s) (M s1)" "CV s1 = CV s" "aktualnyProces s1 = aktualnyProces s"
    "wyslane s1 = wyslane s @ replicate (length (filter (trafiony p) (M s))) (p, EINTR)" by blast
  have "length (CV s1) = MAX_CV" "list_all dobre_cv (CV s1)" using I s1(3) by (auto simp: niezmiennik_def)
  from petla_eintrCv[OF this, of E p] obtain s2 where s2: "FOR 0 MAX_CV (eintrCv E p) s1 = Some s2"
    "list_all2 (po_usunieciu_cv p) (CV s1) (CV s2)" "M s2 = M s1" "aktualnyProces s2 = aktualnyProces s1"
    "wyslane s2 = wyslane s1 @ replicate (length (filter (czeka_w_cv p) (CV s1))) (p, EINTR)" by blast
  note m = po_usunieciu_mutex_tab[OF niezmiennikD(3)[OF I] s1(2)]
  note c = po_usunieciu_cv_tab[OF niezmiennikD(4)[OF I] s2(2)[unfolded s1(3)]]
  have "niezmiennik s2"
    using I m(2,3) c(2,3) s1(2,3) s2(2,3) by (auto simp: niezmiennik_def dest: list_all2_lengthD)
  moreover have "reszta s s2"
    using m(4) s1 s2 by (simp add: reszta_def straznicy_def)
  moreover have "abstr s2 = a_eintr p (abstr s)" if "p \<notin> set (straznicy s)"
    using m(1) c(1) s2(3) that by (simp add: abstr_def a_eintr_def straznicy_def)
  ultimately show ?thesis
    using s1 s2 by (auto simp: wyslijEINTR_def replicate_add)
qed

section \<open>A process that ended\<close>

text \<open>What the first loop of \<^verbatim>\<open>usunZakonczonyProces\<close> does to the slot of a mutex.\<close>

definition po_zwolnieniu :: "int \<Rightarrow> muteks \<Rightarrow> muteks \<Rightarrow> bool" where
  "po_zwolnieniu p m m' \<longleftrightarrow> dobry_mutex m' \<and> numer m' = numer m \<and>
     straznik (kolejka m') = straznik (kolejka m) \<and>
     (if mutex_w_uzyciu m
      then przekaz p (stan_mutexu m) = (if mutex_w_uzyciu m' then Some (stan_mutexu m') else None)
      else \<not> mutex_w_uzyciu m')"

definition nowy_wlasciciel :: "int \<Rightarrow> muteks \<Rightarrow> (int \<times> int) list" where
  "nowy_wlasciciel p m =
     (if mutex_w_uzyciu m \<and> wlasciciel m = p then
        (case zawartosc (kolejka m) of [] \<Rightarrow> [] | x # _ \<Rightarrow> [(x, OK)])
      else [])"

lemma zwolnijMutex_slot:
  assumes I: "niezmiennik s" and i: "i < MAX_MUTEX" and p: "aktualnyProces s = p"
  shows "\<exists>s' m'. zwolnijMutex E p i s = Some s' \<and> M s' = (M s)[i := m'] \<and> po_zwolnieniu p (M s ! i) m' \<and>
    niezmiennik s' \<and> CV s' = CV s \<and> reszta s s' \<and> wyslane s' = wyslane s @ nowy_wlasciciel p (M s ! i)"
proof (cases "mutex_w_uzyciu (M s ! i) \<and> wlasciciel (M s ! i) = p")
  case False
  then have "zwolnijMutex E p i s = Some s"
    by (auto simp: zwolnijMutex_def mutex_w_uzyciu_def)
  moreover have "po_zwolnieniu p (M s ! i) (M s ! i)" "nowy_wlasciciel p (M s ! i) = []"
    using False niezmiennikD(5)[OF I i] by (auto simp: po_zwolnieniu_def przekaz_def stan_mutexu_def nowy_wlasciciel_def)
  ultimately show ?thesis using I by (force simp: reszta_def intro: exI[of _ "M s ! i"])
next
  case True
  let ?m = "M s ! i"
  have d: "dobry_mutex ?m" "poprawna (kolejka ?m)" using niezmiennikD(5)[OF I i] by (auto simp: dobry_mutex_def)
  have idx: "indeksUzywanegoMutexa s (numer ?m) = int i"
    using tm.szukaj_slot niezmiennikD(1,3)[OF I] i True by blast
  have zw: "zwolnijMutex E p i s = map_option snd (cs_unlock E (numer ?m) s)"
    using True by (cases "cs_unlock E (numer ?m) s") (auto simp: zwolnijMutex_def mutex_w_uzyciu_def)
  have nie_int: "int i \<noteq> - 1" by simp
  show ?thesis
  proof (cases "zawartosc (kolejka ?m)")
    case Nil
    let ?m' = "?m\<lparr>uzywany := 0\<rparr>"
    have m': "dobry_mutex ?m'" "\<not> mutex_w_uzyciu ?m'" "po_zwolnieniu p ?m ?m'" "nowy_wlasciciel p ?m = []"
      using True d Nil by (auto simp: po_zwolnieniu_def przekaz_def stan_mutexu_def nowy_wlasciciel_def
          dobry_mutex_def mutex_w_uzyciu_def)
    have "zwolnijMutex E p i s = Some (s\<lparr>M := (M s)[i := ?m']\<rparr>)"
      using zw idx True p kq.pusta_ok[OF d(2)] Nil nie_int by (simp add: cs_unlock_def Let_def)
    then show ?thesis
      using zapis_mutex_wolny(1)[OF I i m'(1) _ m'(2)] True m' straznicy_upd[OF I i, of ?m']
      by (auto simp: reszta_def)
  next
    case (Cons x xs)
    with kq.zdejm_ok[OF d(2)] obtain q' where q': "pierwszyKolejka (kolejka ?m) = Some (x, q')"
      "poprawna q'" "zawartosc q' = xs" "straznik q' = straznik (kolejka ?m)" by blast
    let ?m' = "?m\<lparr>kolejka := q', wlasciciel := x\<rparr>"
    have m': "dobry_mutex ?m'" "mutex_w_uzyciu ?m'" "numer ?m' = numer ?m" "po_zwolnieniu p ?m ?m'"
      "nowy_wlasciciel p ?m = [(x, OK)]"
      using True d Cons q' by (auto simp: po_zwolnieniu_def przekaz_def stan_mutexu_def nowy_wlasciciel_def
          dobry_mutex_def mutex_w_uzyciu_def)
    have "zwolnijMutex E p i s = Some (wyslijWiadomosc E 0 x (s\<lparr>M := (M s)[i := ?m']\<rparr>))"
      using zw idx True p kq.pusta_ok[OF d(2)] Cons q'(1) nie_int by (simp add: cs_unlock_def Let_def)
    then show ?thesis
      using zapis_mutex_ten_sam(1)[OF I i m'(1) _ m'(2,3)] True m' straznicy_upd[OF I i, of ?m'] q'(4)
      by (auto simp: reszta_def OK_def)
  qed
qed

lemma petla_zwolnijMutex:
  assumes I: "niezmiennik s" and p: "aktualnyProces s = p"
  shows "\<exists>s'. FOR 0 MAX_MUTEX (zwolnijMutex E p) s = Some s' \<and>
    list_all2 (po_zwolnieniu p) (M s) (M s') \<and> niezmiennik s' \<and> CV s' = CV s \<and> reszta s s' \<and>
    wyslane s' = wyslane s @ concat (map (nowy_wlasciciel p) (M s))"
proof -
  let ?J = "\<lambda>i t. niezmiennik t \<and> CV t = CV s \<and> reszta s t \<and>
    wyslane t = wyslane s @ concat (map (nowy_wlasciciel p) (take i (M s)))"
  have "\<exists>s'. FOR 0 MAX_MUTEX (zwolnijMutex E p) s = Some s' \<and>
    list_all2 (po_zwolnieniu p) (M s) (M s') \<and> ?J MAX_MUTEX s'"
  proof (rule FOR_sloty)
    fix i t assume i: "i < MAX_MUTEX" and J: "?J i t" and l: "M t ! i = M s ! i"
    then have "niezmiennik t" "aktualnyProces t = p" using p by (auto simp: reszta_def)
    from zwolnijMutex_slot[OF this(1) i this(2), of E] obtain t' m' where
      "zwolnijMutex E p i t = Some t'" "M t' = (M t)[i := m']" "po_zwolnieniu p (M s ! i) m'"
      "niezmiennik t'" "CV t' = CV t" "reszta t t'" "wyslane t' = wyslane t @ nowy_wlasciciel p (M s ! i)"
      using l by auto
    with J i niezmiennikD(1)[OF I] show "\<exists>t' e'. zwolnijMutex E p i t = Some t' \<and> M t' = (M t)[i := e'] \<and>
        po_zwolnieniu p (M s ! i) e' \<and> ?J (Suc i) t'"
      by (auto simp: take_Suc_conv_app_nth reszta_def)
  qed (use I niezmiennikD(1)[OF I] in \<open>simp_all add: reszta_def\<close>)
  then show ?thesis using niezmiennikD(1)[OF I] by auto
qed

lemma po_zwolnieniu_tab:
  assumes r: "rozne mutex_w_uzyciu numer xs" and R: "list_all2 (po_zwolnieniu p) xs ys"
  shows "tab mutex_w_uzyciu numer stan_mutexu ys =
    (\<lambda>n. Option.bind (tab mutex_w_uzyciu numer stan_mutexu xs n) (przekaz p))"
  by (rule tab_all2(1)[OF r R]) (auto simp: po_zwolnieniu_def split: if_splits)

lemma usunZakonczonyProces_zgodne:
  assumes I: "niezmiennik s"
  shows "\<exists>s'. usunZakonczonyProces E p s = Some s' \<and> niezmiennik s' \<and> reszta s s' \<and>
    (p \<notin> set (straznicy s) \<longrightarrow> abstr s' = a_exit p (abstr s)) \<and>
    wyslane s' = wyslane s @ concat (map (nowy_wlasciciel p) (M s))"
proof -
  let ?s = "s\<lparr>aktualnyProces := p\<rparr>"
  from petla_zwolnijMutex[of ?s p E] I obtain s1 where s1: "FOR 0 MAX_MUTEX (zwolnijMutex E p) ?s = Some s1"
    "list_all2 (po_zwolnieniu p) (M s) (M s1)" "niezmiennik s1" "CV s1 = CV s" "reszta ?s s1"
    "wyslane s1 = wyslane s @ concat (map (nowy_wlasciciel p) (M s))" by auto
  from petla_usunZMutexu[OF s1(3), of p] obtain s2 where s2: "FOR 0 MAX_MUTEX (usunZMutexu p) s1 = Some s2"
    "list_all2 (po_usunieciu_mutex p) (M s1) (M s2)" "CV s2 = CV s1" "wyslane s2 = wyslane s1" by blast
  have "length (CV s2) = MAX_CV" "list_all dobre_cv (CV s2)" using I s1(4) s2(3) by (auto simp: niezmiennik_def)
  from petla_usunZCv[OF this, of p] obtain s3 where s3: "FOR 0 MAX_CV (usunZCv p) s2 = Some s3"
    "list_all2 (po_usunieciu_cv p) (CV s2) (CV s3)" "M s3 = M s2" "wyslane s3 = wyslane s2" by blast
  let ?s' = "s3\<lparr>aktualnyProces := aktualnyProces s\<rparr>"
  have run: "usunZakonczonyProces E p s = Some ?s'"
    using s1(1) s2(1) s3(1) by (simp add: usunZakonczonyProces_def)
  note z = po_zwolnieniu_tab[OF niezmiennikD(3)[OF I] s1(2)]
  note m = po_usunieciu_mutex_tab[OF niezmiennikD(3)[OF s1(3)] s2(2)]
  note c = po_usunieciu_cv_tab[OF niezmiennikD(4)[OF I] s3(2)[unfolded s2(3) s1(4)]]
  have st: "straznicy s1 = straznicy s" using s1(5) by (simp add: reszta_def)
  have "niezmiennik ?s'"
    using I m(2,3) c(2,3) s1(2,4) s2(2,3) s3(2,3) by (auto simp: niezmiennik_def dest!: list_all2_lengthD)
  moreover have "reszta s ?s'"
    using m(4) st s3(3) by (simp add: reszta_def straznicy_def)
  moreover have "abstr ?s' = a_exit p (abstr s)" if "p \<notin> set (straznicy s)"
    using m(1)[folded straznicy_def] z c(1) s3(3) st that by (simp add: abstr_def a_exit_def)
  ultimately show ?thesis
    using run s1(6) s2(4) s3(4) by auto
qed

end
