(* ===== verification/Protokol.thy ===== *)
theory Protokol
  imports Monitor
begin

text \<open>
  The protocol of the monitor. A client that sent a request is blocked until it is answered,
  so a request comes only from a process that does not wait anywhere. Under that rule every
  process waits in at most one place, an owner never waits for its own mutex, and requests
  and answers balance: what the monitor does not answer at once it keeps in a waiting list.
\<close>

section \<open>Where a process waits\<close>

datatype miejsce = W_kolejce int | W_zdarzeniu int int

definition miejsca :: "monitor \<Rightarrow> int \<Rightarrow> miejsce set" where
  "miejsca \<sigma> p =
     {W_kolejce n |n. \<exists>w q. mut \<sigma> n = Some (w, q) \<and> p \<in> set q} \<union>
     {W_zdarzeniu c n |c n. \<exists>ws. zdarz \<sigma> c = Some ws \<and> (p, n) \<in> set ws}"

definition czeka :: "int \<Rightarrow> monitor \<Rightarrow> bool" where
  "czeka p \<sigma> \<longleftrightarrow> miejsca \<sigma> p \<noteq> {}"

definition prot :: "monitor \<Rightarrow> bool" where
  "prot \<sigma> \<longleftrightarrow>
     (\<forall>n w q. mut \<sigma> n = Some (w, q) \<longrightarrow> distinct q \<and> w \<notin> set q) \<and>
     (\<forall>c ws. zdarz \<sigma> c = Some ws \<longrightarrow> distinct (map fst ws)) \<and>
     (\<forall>p x y. x \<in> miejsca \<sigma> p \<longrightarrow> y \<in> miejsca \<sigma> p \<longrightarrow> x = y) \<and>
     (\<forall>c p n. W_zdarzeniu c n \<in> miejsca \<sigma> p \<longrightarrow> \<not> ma_mutex p n \<sigma>)"

lemma protI:
  assumes "\<And>n w q. mut \<sigma> n = Some (w, q) \<Longrightarrow> distinct q" "\<And>n w q. mut \<sigma> n = Some (w, q) \<Longrightarrow> w \<notin> set q"
    and "\<And>c ws. zdarz \<sigma> c = Some ws \<Longrightarrow> distinct (map fst ws)"
    and "\<And>p x y. x \<in> miejsca \<sigma> p \<Longrightarrow> y \<in> miejsca \<sigma> p \<Longrightarrow> x = y"
    and "\<And>c p n. W_zdarzeniu c n \<in> miejsca \<sigma> p \<Longrightarrow> \<not> ma_mutex p n \<sigma>"
  shows "prot \<sigma>"
  using assms by (auto simp: prot_def)

lemma protD:
  assumes "prot \<sigma>"
  shows "mut \<sigma> n = Some (w, q) \<Longrightarrow> distinct q" "mut \<sigma> n = Some (w, q) \<Longrightarrow> w \<notin> set q"
    "zdarz \<sigma> c = Some ws \<Longrightarrow> distinct (map fst ws)"
    "x \<in> miejsca \<sigma> p \<Longrightarrow> y \<in> miejsca \<sigma> p \<Longrightarrow> x = y"
    "W_zdarzeniu c n \<in> miejsca \<sigma> p \<Longrightarrow> \<not> ma_mutex p n \<sigma>"
  using assms by (auto simp: prot_def)

lemma miejsca_iff:
  "W_kolejce n \<in> miejsca \<sigma> p \<longleftrightarrow> (\<exists>w q. mut \<sigma> n = Some (w, q) \<and> p \<in> set q)"
  "W_zdarzeniu c n \<in> miejsca \<sigma> p \<longleftrightarrow> (\<exists>ws. zdarz \<sigma> c = Some ws \<and> (p, n) \<in> set ws)"
  by (auto simp: miejsca_def)

lemma miejsca_eqI:
  assumes "\<And>n. W_kolejce n \<in> miejsca \<sigma> p \<longleftrightarrow> W_kolejce n \<in> A"
    and "\<And>c n. W_zdarzeniu c n \<in> miejsca \<sigma> p \<longleftrightarrow> W_zdarzeniu c n \<in> A"
  shows "miejsca \<sigma> p = A"
  using assms by (auto intro: miejsce.exhaust set_eqI) (metis miejsce.exhaust)+

lemma prot_monitor0: "prot monitor0"
  by (auto simp: prot_def monitor0_def miejsca_def)

section \<open>Locking and unlocking\<close>

lemma miejsca_a_lock:
  "miejsca (snd (a_lock p n \<sigma>)) r =
     miejsca \<sigma> r \<union> (if r = p \<and> fst (a_lock p n \<sigma>) = EDONTREPLY then {W_kolejce n} else {})"
  by (rule miejsca_eqI) (auto simp: a_lock_def miejsca_iff split: option.splits)

lemma ma_mutex_a_lock:
  "ma_mutex r k (snd (a_lock p n \<sigma>)) \<longleftrightarrow>
     ma_mutex r k \<sigma> \<or> r = p \<and> k = n \<and> fst (a_lock p n \<sigma>) = OK"
  by (auto simp: a_lock_def ma_mutex_def split: option.splits)

lemma a_lock_wynik:
  "fst (a_lock p n \<sigma>) = (if mut \<sigma> n = None then OK else if ma_mutex p n \<sigma> then EPERM else EDONTREPLY)"
  by (auto simp: a_lock_def ma_mutex_def split: option.splits)

lemma a_lock_prot:
  assumes P: "prot \<sigma>" and c: "\<not> czeka p \<sigma>"
  shows "prot (snd (a_lock p n \<sigma>))"
proof (rule protI)
  have nq: "p \<notin> set q" if "mut \<sigma> k = Some (w, q)" for k w q
    using c that unfolding czeka_def by (metis empty_iff miejsca_iff(1))
  fix k w q assume "mut (snd (a_lock p n \<sigma>)) k = Some (w, q)"
  then show "distinct q" "w \<notin> set q"
    using protD(1,2)[OF P] nq by (auto simp: a_lock_def split: option.splits if_splits)
next
  fix c ws assume "zdarz (snd (a_lock p n \<sigma>)) c = Some ws"
  then show "distinct (map fst ws)" using protD(3)[OF P] by simp
next
  fix r x y assume "x \<in> miejsca (snd (a_lock p n \<sigma>)) r" "y \<in> miejsca (snd (a_lock p n \<sigma>)) r"
  then show "x = y"
    using protD(4)[OF P] c by (auto simp: miejsca_a_lock czeka_def split: if_splits)
next
  fix d r k assume "W_zdarzeniu d k \<in> miejsca (snd (a_lock p n \<sigma>)) r"
  then show "\<not> ma_mutex r k (snd (a_lock p n \<sigma>))"
    using protD(5)[OF P] c by (auto simp: miejsca_a_lock ma_mutex_a_lock czeka_def split: if_splits)
qed

lemma a_unlock_przypadki:
  obtains (brak) "\<not> ma_mutex p n \<sigma>" "a_unlock p n \<sigma> = (EPERM, [], \<sigma>)"
  | (ostatni) "mut \<sigma> n = Some (p, [])" "a_unlock p n \<sigma> = (OK, [], \<sigma>\<lparr>mut := (mut \<sigma>)(n := None)\<rparr>)"
  | (nastepny) x xs where "mut \<sigma> n = Some (p, x # xs)"
      "a_unlock p n \<sigma> = (OK, [(x, OK)], \<sigma>\<lparr>mut := (mut \<sigma>)(n \<mapsto> (x, xs))\<rparr>)"
proof (cases "mut \<sigma> n")
  case None
  with brak show ?thesis by (simp add: a_unlock_def ma_mutex_def)
next
  case (Some wq)
  obtain w q where "wq = (w, q)" by fastforce
  with Some brak ostatni nastepny show ?thesis
    by (cases q; cases "w = p") (simp_all add: a_unlock_def ma_mutex_def)
qed

text \<open>The head of a queue becomes the owner: it stops waiting, everything else stays.\<close>

lemma miejsca_zwolnienie:
  assumes "prot \<sigma>" "mut \<sigma> n = Some (p, x # xs)"
  shows "miejsca (\<sigma>\<lparr>mut := (mut \<sigma>)(n \<mapsto> (x, xs))\<rparr>) r = (if r = x then {} else miejsca \<sigma> r)"
proof (cases "r = x")
  case True
  have "W_kolejce n \<in> miejsca \<sigma> x" using assms(2) by (auto simp: miejsca_iff)
  then have jedno: "y = W_kolejce n" if "y \<in> miejsca \<sigma> x" for y
    using protD(4)[OF assms(1)] that by blast
  have "x \<notin> set xs" using protD(1)[OF assms] by simp
  then have "W_kolejce k \<notin> miejsca (\<sigma>\<lparr>mut := (mut \<sigma>)(n \<mapsto> (x, xs))\<rparr>) x" for k
    using jedno[of "W_kolejce k"] by (auto simp: miejsca_iff)
  moreover have "W_zdarzeniu c k \<notin> miejsca (\<sigma>\<lparr>mut := (mut \<sigma>)(n \<mapsto> (x, xs))\<rparr>) x" for c k
    using jedno[of "W_zdarzeniu c k"] by (auto simp: miejsca_iff)
  ultimately have "miejsca (\<sigma>\<lparr>mut := (mut \<sigma>)(n \<mapsto> (x, xs))\<rparr>) x = {}"
    by (intro miejsca_eqI) auto
  with True show ?thesis by simp
next
  case False
  then show ?thesis
    using assms(2) by (simp, intro miejsca_eqI) (auto simp: miejsca_iff)
qed

lemma miejsca_oddany:
  assumes "mut \<sigma> n = Some (p, [])"
  shows "miejsca (\<sigma>\<lparr>mut := (mut \<sigma>)(n := None)\<rparr>) r = miejsca \<sigma> r"
  using assms by (intro miejsca_eqI) (auto simp: miejsca_iff)

lemma a_unlock_prot:
  assumes P: "prot \<sigma>"
  shows "prot (snd (snd (a_unlock p n \<sigma>)))"
proof (cases rule: a_unlock_przypadki[of p n \<sigma>])
  case brak
  with P show ?thesis by simp
next
  case ostatni
  note m = miejsca_oddany[OF ostatni(1)]
  show ?thesis
    unfolding ostatni(2) by (rule protI; unfold snd_conv)
      (use protD[OF P] m in \<open>auto simp: ma_mutex_def split: if_splits\<close>)
next
  case (nastepny x xs)
  note m = miejsca_zwolnienie[OF P nastepny(1)]
  show ?thesis
    unfolding nastepny(2)
  proof (rule protI; unfold snd_conv)
    let ?\<sigma> = "\<sigma>\<lparr>mut := (mut \<sigma>)(n \<mapsto> (x, xs))\<rparr>"
    fix d r k assume "W_zdarzeniu d k \<in> miejsca ?\<sigma> r"
    then have "r \<noteq> x" "W_zdarzeniu d k \<in> miejsca \<sigma> r" by (auto simp: m split: if_splits)
    then show "\<not> ma_mutex r k ?\<sigma>" using protD(5)[OF P, of d k r] by (auto simp: ma_mutex_def)
  qed (use protD[OF P] protD(1)[OF P nastepny(1)] m in \<open>auto split: if_splits\<close>)
qed

lemma a_unlock_pola:
  "zdarz (snd (snd (a_unlock p n \<sigma>))) = zdarz \<sigma>"
  by (cases rule: a_unlock_przypadki[of p n \<sigma>]) auto

lemma a_unlock_miejsca_wlasciciela:
  "prot \<sigma> \<Longrightarrow> \<not> czeka p \<sigma> \<Longrightarrow> \<not> czeka p (snd (snd (a_unlock p n \<sigma>)))"
  by (cases rule: a_unlock_przypadki[of p n \<sigma>])
    (auto simp: czeka_def miejsca_oddany miejsca_zwolnienie)

lemma a_unlock_oddaje:
  "prot \<sigma> \<Longrightarrow> ma_mutex p n \<sigma> \<Longrightarrow> \<not> ma_mutex p n (snd (snd (a_unlock p n \<sigma>)))"
proof (cases rule: a_unlock_przypadki[of p n \<sigma>])
  case (nastepny x xs)
  assume "prot \<sigma>"
  with protD(2)[OF _ nastepny(1)] nastepny show ?thesis by (auto simp: ma_mutex_def)
qed (auto simp: ma_mutex_def)

section \<open>Waiting for an event\<close>

lemma miejsca_dopisz:
  "miejsca (\<sigma>\<lparr>zdarz := (zdarz \<sigma>)(c \<mapsto> czekajacy_na c \<sigma> @ [(p, n)])\<rparr>) r =
     miejsca \<sigma> r \<union> (if r = p then {W_zdarzeniu c n} else {})"
  by (rule miejsca_eqI; cases "zdarz \<sigma> c") (auto simp: miejsca_iff czekajacy_na_def)

lemma czekajacy_na_miejsce: "(r, n) \<in> set (czekajacy_na c \<sigma>) \<Longrightarrow> W_zdarzeniu c n \<in> miejsca \<sigma> r"
  by (cases "zdarz \<sigma> c") (auto simp: czekajacy_na_def miejsca_iff)

lemma dopisz_prot:
  assumes P: "prot \<sigma>" and c: "\<not> czeka p \<sigma>" and n: "\<not> ma_mutex p n \<sigma>"
  shows "prot (\<sigma>\<lparr>zdarz := (zdarz \<sigma>)(c \<mapsto> czekajacy_na c \<sigma> @ [(p, n)])\<rparr>)" (is "prot ?\<sigma>")
proof (rule protI)
  have "distinct (map fst (czekajacy_na c \<sigma>))"
    using protD(3)[OF P] by (auto simp: czekajacy_na_def split: option.splits)
  moreover have "p \<notin> fst ` set (czekajacy_na c \<sigma>)"
    using c czekajacy_na_miejsce[of p _ c \<sigma>] by (auto simp: czeka_def)
  ultimately show "distinct (map fst ws)" if "zdarz ?\<sigma> d = Some ws" for d ws
    using that protD(3)[OF P] by (auto split: if_splits)
next
  fix r x y assume "x \<in> miejsca ?\<sigma> r" "y \<in> miejsca ?\<sigma> r"
  then show "x = y"
    using protD(4)[OF P] c by (auto simp: miejsca_dopisz czeka_def split: if_splits)
next
  fix d r k assume "W_zdarzeniu d k \<in> miejsca ?\<sigma> r"
  then show "\<not> ma_mutex r k ?\<sigma>"
    using protD(5)[OF P] n by (auto simp: miejsca_dopisz ma_mutex_def split: if_splits)
qed (use protD(1,2)[OF P] in auto)

lemma a_wait_prot:
  assumes P: "prot \<sigma>" and c: "\<not> czeka p \<sigma>"
  shows "prot (snd (snd (a_wait p c n \<sigma>)))"
proof (cases "ma_mutex p n \<sigma>")
  case True
  have "prot (snd (snd (a_unlock p n \<sigma>)))" "\<not> czeka p (snd (snd (a_unlock p n \<sigma>)))"
    "\<not> ma_mutex p n (snd (snd (a_unlock p n \<sigma>)))"
    using a_unlock_prot[OF P] a_unlock_miejsca_wlasciciela[OF P c] a_unlock_oddaje[OF P True] by auto
  with True dopisz_prot show ?thesis by (simp add: a_wait_def split_def Let_def)
next
  case False
  with P show ?thesis by (simp add: a_wait_def)
qed

section \<open>Announcing an event\<close>

text \<open>The processes that are woken wait nowhere else and do not own their mutexes.\<close>

definition do_obudzenia :: "(int \<times> int) list \<Rightarrow> monitor \<Rightarrow> bool" where
  "do_obudzenia ws \<sigma> \<longleftrightarrow> distinct (map fst ws) \<and>
     (\<forall>(p, n) \<in> set ws. \<not> czeka p \<sigma> \<and> \<not> ma_mutex p n \<sigma>)"

lemma do_obudzenia_Cons:
  assumes "do_obudzenia ((p, n) # ws) \<sigma>"
  shows "do_obudzenia ws (snd (a_lock p n \<sigma>))" "\<not> czeka p \<sigma>" "\<not> ma_mutex p n \<sigma>"
proof -
  from assms show "\<not> czeka p \<sigma>" "\<not> ma_mutex p n \<sigma>" by (auto simp: do_obudzenia_def)
  have "\<not> czeka r (snd (a_lock p n \<sigma>)) \<and> \<not> ma_mutex r k (snd (a_lock p n \<sigma>))"
    if "(r, k) \<in> set ws" for r k
  proof -
    have "r \<noteq> p" "\<not> czeka r \<sigma>" "\<not> ma_mutex r k \<sigma>"
      using that assms by (auto simp: do_obudzenia_def image_iff)
    then show ?thesis by (simp add: czeka_def miejsca_a_lock ma_mutex_a_lock)
  qed
  with assms show "do_obudzenia ws (snd (a_lock p n \<sigma>))" by (auto simp: do_obudzenia_def)
qed

lemma a_budz_prot: "prot \<sigma> \<Longrightarrow> do_obudzenia ws \<sigma> \<Longrightarrow> prot (snd (a_budz ws \<sigma>))"
proof (induction ws arbitrary: \<sigma>)
  case (Cons w ws)
  obtain p n where w: "w = (p, n)" by fastforce
  note d = do_obudzenia_Cons[OF Cons.prems(2)[unfolded w]]
  from Cons.IH[OF a_lock_prot[OF Cons.prems(1) d(2)] d(1)] w show ?case by (simp add: a_budz_Cons)
qed simp

lemma a_budz_bez_zdarzenia:
  "fst (a_budz ws (\<sigma>\<lparr>zdarz := z\<rparr>)) = fst (a_budz ws \<sigma>) \<and>
   snd (a_budz ws (\<sigma>\<lparr>zdarz := z\<rparr>)) = (snd (a_budz ws \<sigma>))\<lparr>zdarz := z\<rparr>"
proof (induction ws arbitrary: \<sigma>)
  case (Cons w ws)
  have "a_lock p n (\<sigma>\<lparr>zdarz := z\<rparr>) = (fst (a_lock p n \<sigma>), (snd (a_lock p n \<sigma>))\<lparr>zdarz := z\<rparr>)" for p n
    by (auto simp: a_lock_def split: option.splits)
  with Cons.IH show ?case by (simp add: a_budz_Cons)
qed simp

definition bez_zdarzenia :: "int \<Rightarrow> monitor \<Rightarrow> monitor" where
  "bez_zdarzenia c \<sigma> = \<sigma>\<lparr>zdarz := (zdarz \<sigma>)(c := None)\<rparr>"

lemma bez_zdarzenia_pola [simp]:
  "mut (bez_zdarzenia c \<sigma>) = mut \<sigma>" "zdarz (bez_zdarzenia c \<sigma>) = (zdarz \<sigma>)(c := None)"
  "ma_mutex p n (bez_zdarzenia c \<sigma>) = ma_mutex p n \<sigma>"
  by (simp_all add: bez_zdarzenia_def ma_mutex_def)

lemma a_broadcast_alt:
  "a_broadcast c \<sigma> = (OK, a_budz (czekajacy_na c \<sigma>) (bez_zdarzenia c \<sigma>))"
  using a_budz_bez_zdarzenia[where ws = "czekajacy_na c \<sigma>" and \<sigma> = \<sigma> and z = "(zdarz \<sigma>)(c := None)"]
  by (simp add: a_broadcast_def bez_zdarzenia_def split_def Let_def prod_eq_iff)

lemma miejsca_bez_zdarzenia: "miejsca (bez_zdarzenia c \<sigma>) p = miejsca \<sigma> p - {W_zdarzeniu c n |n. True}"
  by (rule miejsca_eqI) (auto simp: miejsca_iff split: if_splits)

lemma bez_zdarzenia_prot:
  assumes P: "prot \<sigma>"
  shows "prot (bez_zdarzenia c \<sigma>)" "do_obudzenia (czekajacy_na c \<sigma>) (bez_zdarzenia c \<sigma>)"
proof -
  show "prot (bez_zdarzenia c \<sigma>)"
    by (rule protI) (use protD[OF P] in \<open>auto simp: miejsca_bez_zdarzenia split: if_splits\<close>)
  have "\<not> czeka p (bez_zdarzenia c \<sigma>) \<and> \<not> ma_mutex p n (bez_zdarzenia c \<sigma>)"
    if "(p, n) \<in> set (czekajacy_na c \<sigma>)" for p n
    using czekajacy_na_miejsce[OF that] protD(4)[OF P, of _ p] protD(5)[OF P, of c n p]
    by (auto simp: czeka_def miejsca_bez_zdarzenia)
  moreover have "distinct (map fst (czekajacy_na c \<sigma>))"
    using protD(3)[OF P] by (auto simp: czekajacy_na_def split: option.splits)
  ultimately show "do_obudzenia (czekajacy_na c \<sigma>) (bez_zdarzenia c \<sigma>)"
    by (auto simp: do_obudzenia_def)
qed

lemma a_broadcast_prot: "prot \<sigma> \<Longrightarrow> prot (snd (snd (a_broadcast c \<sigma>)))"
  using a_budz_prot bez_zdarzenia_prot by (simp add: a_broadcast_alt)

section \<open>Signals and ended processes\<close>

lemma set_usun_pare:
  "distinct (map fst ws) \<Longrightarrow> set (usun_pare p ws) = {(r, n) \<in> set ws. r \<noteq> p}"
  by (induction p ws rule: usun_pare.induct) (auto simp: image_iff)

lemma distinct_usun_pare: "distinct (map fst ws) \<Longrightarrow> distinct (map fst (usun_pare p ws))"
proof (induction p ws rule: usun_pare.induct)
  case (2 p r n ws)
  then show ?case using set_usun_pare[of ws p] by auto
qed simp

lemma bez_zdarzen_iff:
  "bez_zdarzen p z c = Some ws' \<longleftrightarrow> (\<exists>ws. z c = Some ws \<and> ws' = usun_pare p ws \<and> ws' \<noteq> [])"
  by (cases "z c") (auto simp: bez_zdarzen_def)

text \<open>
  Removing a process from all waiting lists, and passing its mutexes on first: both are
  instances of one description of what is left.
\<close>

definition bez_procesu :: "int \<Rightarrow> monitor \<Rightarrow> monitor" where
  "bez_procesu p \<sigma> =
     \<lparr>mut = (\<lambda>n. map_option (\<lambda>(w, q). (w, remove1 p q)) (mut \<sigma> n)),
      zdarz = bez_zdarzen p (zdarz \<sigma>)\<rparr>"

lemma ma_mutex_bez_procesu [simp]: "ma_mutex r n (bez_procesu p \<sigma>) = ma_mutex r n \<sigma>"
  by (cases "mut \<sigma> n") (auto simp: ma_mutex_def bez_procesu_def)

lemma miejsca_bez_procesu:
  assumes "prot \<sigma>"
  shows "miejsca (bez_procesu p \<sigma>) r = (if r = p then {} else miejsca \<sigma> r)"
proof -
  have k: "W_kolejce n \<in> miejsca (bez_procesu p \<sigma>) r \<longleftrightarrow> r \<noteq> p \<and> W_kolejce n \<in> miejsca \<sigma> r" for n
    using protD(1)[OF assms] by (auto simp: miejsca_iff bez_procesu_def)
  have z: "W_zdarzeniu c n \<in> miejsca (bez_procesu p \<sigma>) r \<longleftrightarrow> r \<noteq> p \<and> W_zdarzeniu c n \<in> miejsca \<sigma> r" for c n
  proof (cases "zdarz \<sigma> c")
    case (Some ws)
    then have "set (usun_pare p ws) = {(r, n) \<in> set ws. r \<noteq> p}"
      using protD(3)[OF assms] set_usun_pare by blast
    then have "usun_pare p ws \<noteq> [] \<and> (r, n) \<in> set (usun_pare p ws) \<longleftrightarrow> r \<noteq> p \<and> (r, n) \<in> set ws" by auto
    with Some show ?thesis by (auto simp: miejsca_iff bez_procesu_def bez_zdarzen_def)
  qed (simp add: miejsca_iff bez_procesu_def bez_zdarzen_def)
  show ?thesis using k z by (intro miejsca_eqI) auto
qed

lemma bez_procesu_prot:
  assumes P: "prot \<sigma>"
  shows "prot (bez_procesu p \<sigma>)"
proof (rule protI)
  fix n w q assume "mut (bez_procesu p \<sigma>) n = Some (w, q)"
  then show "distinct q" "w \<notin> set q"
    using protD(1,2)[OF P] by (auto simp: bez_procesu_def notin_set_remove1)
next
  fix c ws assume "zdarz (bez_procesu p \<sigma>) c = Some ws"
  then show "distinct (map fst ws)"
    using protD(3)[OF P] by (auto simp: bez_procesu_def bez_zdarzen_iff distinct_usun_pare)
next
  fix r x y assume "x \<in> miejsca (bez_procesu p \<sigma>) r" "y \<in> miejsca (bez_procesu p \<sigma>) r"
  then show "x = y" using protD(4)[OF P] by (auto simp: miejsca_bez_procesu[OF P] split: if_splits)
next
  fix c r n assume "W_zdarzeniu c n \<in> miejsca (bez_procesu p \<sigma>) r"
  then have "W_zdarzeniu c n \<in> miejsca \<sigma> r"
    by (auto simp: miejsca_bez_procesu[OF P] split: if_splits)
  with protD(5)[OF P] show "\<not> ma_mutex r n (bez_procesu p \<sigma>)" by simp
qed

lemma a_eintr_alt: "a_eintr p \<sigma> = bez_procesu p \<sigma>"
  by (simp add: a_eintr_def bez_procesu_def)

definition po_przekazaniu :: "int \<Rightarrow> monitor \<Rightarrow> monitor" where
  "po_przekazaniu p \<sigma> = \<sigma>\<lparr>mut := (\<lambda>n. Option.bind (mut \<sigma> n) (przekaz p))\<rparr>"

lemma a_exit_alt: "a_exit p \<sigma> = bez_procesu p (po_przekazaniu p \<sigma>)"
  by (simp add: a_exit_def bez_procesu_def po_przekazaniu_def)

text \<open>The process that a mutex of \<open>p\<close> passes to.\<close>

definition nastepca :: "int \<Rightarrow> monitor \<Rightarrow> int \<Rightarrow> bool" where
  "nastepca p \<sigma> r \<longleftrightarrow> (\<exists>n xs. mut \<sigma> n = Some (p, r # xs))"

lemma po_przekazaniu_mut:
  "mut (po_przekazaniu p \<sigma>) n = Some (w, q) \<longleftrightarrow>
     w \<noteq> p \<and> mut \<sigma> n = Some (w, q) \<or> mut \<sigma> n = Some (p, w # q)"
proof (cases "mut \<sigma> n")
  case (Some wq)
  obtain w' q' where "wq = (w', q')" by fastforce
  with Some show ?thesis
    by (cases q') (auto simp: po_przekazaniu_def przekaz_def)
qed (simp add: po_przekazaniu_def)

lemma nastepca_miejsce:
  assumes "prot \<sigma>" "mut \<sigma> n = Some (p, r # xs)" "x \<in> miejsca \<sigma> r"
  shows "x = W_kolejce n"
proof -
  have "W_kolejce n \<in> miejsca \<sigma> r" using assms(2) by (auto simp: miejsca_iff)
  with protD(4)[OF assms(1,3)] show ?thesis by blast
qed

lemma miejsca_po_przekazaniu:
  assumes P: "prot \<sigma>"
  shows "miejsca (po_przekazaniu p \<sigma>) r = (if nastepca p \<sigma> r then {} else miejsca \<sigma> r)"
proof (cases "nastepca p \<sigma> r")
  case True
  then obtain n xs where n: "mut \<sigma> n = Some (p, r # xs)" by (auto simp: nastepca_def)
  have "W_kolejce k \<notin> miejsca (po_przekazaniu p \<sigma>) r" for k
  proof
    assume "W_kolejce k \<in> miejsca (po_przekazaniu p \<sigma>) r"
    then obtain w q where wq: "mut (po_przekazaniu p \<sigma>) k = Some (w, q)" "r \<in> set q"
      by (auto simp: miejsca_iff)
    then have "W_kolejce k \<in> miejsca \<sigma> r"
      by (auto simp: po_przekazaniu_mut miejsca_iff)
    then have "k = n" using nastepca_miejsce[OF P n] by blast
    then show False using wq n protD(1)[OF P n] by (auto simp: po_przekazaniu_mut)
  qed
  moreover have "W_zdarzeniu c k \<notin> miejsca (po_przekazaniu p \<sigma>) r" for c k
    using nastepca_miejsce[OF P n, of "W_zdarzeniu c k"]
    by (auto simp: miejsca_iff po_przekazaniu_def)
  ultimately show ?thesis using True by (simp, intro miejsca_eqI) auto
next
  case False
  then have "W_kolejce n \<in> miejsca (po_przekazaniu p \<sigma>) r \<longleftrightarrow> W_kolejce n \<in> miejsca \<sigma> r" for n
  proof (cases "mut \<sigma> n")
    case (Some wq)
    obtain w q where "wq = (w, q)" by fastforce
    with Some False show ?thesis
      by (cases q; cases "w = p") (auto simp: miejsca_iff po_przekazaniu_mut nastepca_def)
  qed (simp add: miejsca_iff po_przekazaniu_mut)
  moreover have "W_zdarzeniu c n \<in> miejsca (po_przekazaniu p \<sigma>) r \<longleftrightarrow> W_zdarzeniu c n \<in> miejsca \<sigma> r" for c n
    by (simp add: miejsca_iff po_przekazaniu_def)
  ultimately show ?thesis using False by (simp, intro miejsca_eqI) auto
qed

lemma po_przekazaniu_prot:
  assumes P: "prot \<sigma>"
  shows "prot (po_przekazaniu p \<sigma>)"
proof (rule protI)
  fix n w q assume "mut (po_przekazaniu p \<sigma>) n = Some (w, q)"
  then show "distinct q" "w \<notin> set q"
    using protD(1,2)[OF P] by (auto simp: po_przekazaniu_mut) (metis distinct.simps(2))+
next
  fix c ws assume "zdarz (po_przekazaniu p \<sigma>) c = Some ws"
  then show "distinct (map fst ws)" using protD(3)[OF P] by (auto simp: po_przekazaniu_def)
next
  fix r x y assume "x \<in> miejsca (po_przekazaniu p \<sigma>) r" "y \<in> miejsca (po_przekazaniu p \<sigma>) r"
  then show "x = y" using protD(4)[OF P] by (auto simp: miejsca_po_przekazaniu[OF P] split: if_splits)
next
  fix c r n assume "W_zdarzeniu c n \<in> miejsca (po_przekazaniu p \<sigma>) r"
  then have "\<not> nastepca p \<sigma> r" "W_zdarzeniu c n \<in> miejsca \<sigma> r"
    by (auto simp: miejsca_po_przekazaniu[OF P] split: if_splits)
  then show "\<not> ma_mutex r n (po_przekazaniu p \<sigma>)"
    using protD(5)[OF P, of c n r]
    by (auto simp: ma_mutex_def po_przekazaniu_mut nastepca_def split: option.splits)
qed

lemma a_eintr_prot: "prot \<sigma> \<Longrightarrow> prot (a_eintr p \<sigma>)"
  by (simp add: a_eintr_alt bez_procesu_prot)

lemma a_exit_prot: "prot \<sigma> \<Longrightarrow> prot (a_exit p \<sigma>)"
  by (simp add: a_exit_alt bez_procesu_prot po_przekazaniu_prot)

section \<open>Requests and answers balance\<close>

definition odpowiedzi :: "int \<Rightarrow> (int \<times> int) list \<Rightarrow> nat" where
  "odpowiedzi r out = length (filter (\<lambda>w. fst w = r) out)"

definition oczekuje :: "int \<Rightarrow> monitor \<Rightarrow> nat" where
  "oczekuje r \<sigma> = (if czeka r \<sigma> then 1 else 0)"

lemma odpowiedzi_simps [simp]:
  "odpowiedzi r [] = 0" "odpowiedzi r (w # ws) = (if fst w = r then 1 else 0) + odpowiedzi r ws"
  "odpowiedzi r (xs @ ys) = odpowiedzi r xs + odpowiedzi r ys"
  by (simp_all add: odpowiedzi_def)

lemma bilans_lock:
  "\<not> czeka p \<sigma> \<Longrightarrow> oczekuje r (snd (a_lock p n \<sigma>)) =
     oczekuje r \<sigma> + (if r = p \<and> fst (a_lock p n \<sigma>) = EDONTREPLY then 1 else 0)"
  by (auto simp: oczekuje_def czeka_def miejsca_a_lock)

lemma bilans_unlock:
  assumes "prot \<sigma>"
  shows "odpowiedzi r (fst (snd (a_unlock p n \<sigma>))) + oczekuje r (snd (snd (a_unlock p n \<sigma>))) = oczekuje r \<sigma>"
proof (cases rule: a_unlock_przypadki[of p n \<sigma>])
  case ostatni
  then show ?thesis by (simp add: oczekuje_def czeka_def miejsca_oddany)
next
  case (nastepny x xs)
  have "W_kolejce n \<in> miejsca \<sigma> x" using nastepny(1) by (auto simp: miejsca_iff)
  with nastepny miejsca_zwolnienie[OF assms nastepny(1)] show ?thesis
    by (auto simp: oczekuje_def czeka_def)
qed simp

lemma bilans_wait:
  assumes P: "prot \<sigma>" and c: "\<not> czeka p \<sigma>" and n: "ma_mutex p n \<sigma>"
  shows "odpowiedzi r (fst (snd (a_wait p c n \<sigma>))) + oczekuje r (snd (snd (a_wait p c n \<sigma>))) =
    oczekuje r \<sigma> + (if r = p then 1 else 0)"
proof -
  let ?\<sigma> = "snd (snd (a_unlock p n \<sigma>))"
  have "\<not> czeka p ?\<sigma>" using a_unlock_miejsca_wlasciciela[OF P c] .
  then have "oczekuje r (?\<sigma>\<lparr>zdarz := (zdarz ?\<sigma>)(c \<mapsto> czekajacy_na c ?\<sigma> @ [(p, n)])\<rparr>) =
      oczekuje r ?\<sigma> + (if r = p then 1 else 0)"
    by (auto simp: oczekuje_def czeka_def miejsca_dopisz)
  with bilans_unlock[OF P, of r p n] n show ?thesis
    by (simp add: a_wait_def split_def Let_def)
qed

lemma bilans_budz:
  "do_obudzenia ws \<sigma> \<Longrightarrow> odpowiedzi r (fst (a_budz ws \<sigma>)) + oczekuje r (snd (a_budz ws \<sigma>)) =
     oczekuje r \<sigma> + (if r \<in> fst ` set ws then 1 else 0)"
proof (induction ws arbitrary: \<sigma>)
  case (Cons w ws)
  obtain p n where w: "w = (p, n)" by fastforce
  note d = do_obudzenia_Cons[OF Cons.prems[unfolded w]]
  have "p \<notin> fst ` set ws" using Cons.prems w by (auto simp: do_obudzenia_def)
  with Cons.IH[OF d(1)] bilans_lock[OF d(2), of r n] w show ?case
    by (auto simp: a_budz_Cons split: if_splits)
qed simp

lemma bilans_broadcast:
  assumes P: "prot \<sigma>"
  shows "odpowiedzi r (fst (snd (a_broadcast c \<sigma>))) + oczekuje r (snd (snd (a_broadcast c \<sigma>))) = oczekuje r \<sigma>"
proof -
  have "oczekuje r (bez_zdarzenia c \<sigma>) + (if r \<in> fst ` set (czekajacy_na c \<sigma>) then 1 else 0) = oczekuje r \<sigma>"
  proof (cases "r \<in> fst ` set (czekajacy_na c \<sigma>)")
    case True
    then obtain n where "(r, n) \<in> set (czekajacy_na c \<sigma>)" by auto
    then have "W_zdarzeniu c n \<in> miejsca \<sigma> r" "\<not> czeka r (bez_zdarzenia c \<sigma>)"
      using czekajacy_na_miejsce bez_zdarzenia_prot(2)[OF P, of c] by (auto simp: do_obudzenia_def)
    with True show ?thesis by (auto simp: oczekuje_def czeka_def)
  next
    case False
    then have "W_zdarzeniu c n \<notin> miejsca \<sigma> r" for n
      by (force simp: miejsca_iff czekajacy_na_def)
    then have "miejsca (bez_zdarzenia c \<sigma>) r = miejsca \<sigma> r" by (auto simp: miejsca_bez_zdarzenia)
    with False show ?thesis by (simp add: oczekuje_def czeka_def)
  qed
  with bilans_budz[OF bez_zdarzenia_prot(2)[OF P], of r c] show ?thesis
    by (simp add: a_broadcast_alt)
qed

section \<open>A whole request\<close>

text \<open>The four requests of clients, with the answer the server sends, and the step of any message.\<close>

definition a_zadanie :: "message \<Rightarrow> monitor \<Rightarrow> int \<times> (int \<times> int) list \<times> monitor" where
  "a_zadanie m \<sigma> =
     (let p = m_source m; n = m1_i1 m; c = m1_i2 m in
      if m_type m = CS_LOCK then (fst (a_lock p n \<sigma>), [], snd (a_lock p n \<sigma>))
      else if m_type m = CS_UNLOCK then a_unlock p n \<sigma>
      else if m_type m = CS_WAIT then a_wait p c n \<sigma>
      else a_broadcast c \<sigma>)"

definition a_klient :: "message \<Rightarrow> monitor \<Rightarrow> (int \<times> int) list \<times> monitor" where
  "a_klient m \<sigma> =
     (let (r, out, \<sigma>') = a_zadanie m \<sigma>
      in (out @ (if r \<noteq> EDONTREPLY then [(m_source m, r)] else []), \<sigma>'))"

definition zadanie_klienta :: "message \<Rightarrow> bool" where
  "zadanie_klienta m \<longleftrightarrow> 1 \<le> m_type m \<and> m_type m \<le> 4"

definition a_krok :: "message \<Rightarrow> monitor \<Rightarrow> monitor" where
  "a_krok m \<sigma> =
     (if m_type m < 1 \<or> m_type m > 6 then \<sigma>
      else if m_type m < 5 then snd (a_klient m \<sigma>)
      else if m_type m = CS_EINTR then a_eintr (PM_PROC m) \<sigma>
      else a_exit (PM_PROC m) \<sigma>)"

declare a_zadanie_def [krok_monitora] a_klient_def [krok_monitora] Let_def [krok_monitora] split_def [krok_monitora]

definition dopuszczalny :: "message \<Rightarrow> monitor \<Rightarrow> bool" where
  "dopuszczalny m \<sigma> \<longleftrightarrow> (zadanie_klienta m \<longrightarrow> \<not> czeka (m_source m) \<sigma>)"

lemma a_krok_prot:
  assumes "prot \<sigma>" "dopuszczalny m \<sigma>"
  shows "prot (a_krok m \<sigma>)"
  using assms a_lock_prot a_unlock_prot a_wait_prot a_broadcast_prot a_eintr_prot a_exit_prot
  by (auto simp: a_krok_def krok_monitora dopuszczalny_def zadanie_klienta_def)

lemma bilans_klienta:
  assumes P: "prot \<sigma>" and z: "zadanie_klienta m" and c: "\<not> czeka (m_source m) \<sigma>"
  shows "odpowiedzi r (fst (a_klient m \<sigma>)) + oczekuje r (snd (a_klient m \<sigma>)) =
    oczekuje r \<sigma> + (if r = m_source m then 1 else 0)"
proof -
  let ?p = "m_source m" and ?n = "m1_i1 m" and ?c = "m1_i2 m"
  have un: "fst (a_unlock ?p ?n \<sigma>) \<noteq> EDONTREPLY"
    by (cases rule: a_unlock_przypadki[of ?p ?n \<sigma>]) auto
  have wt: "a_wait ?p ?c ?n \<sigma> = (- EINVAL, [], \<sigma>)" if "\<not> ma_mutex ?p ?n \<sigma>"
    using that by (simp add: a_wait_def)
  have wt': "fst (a_wait ?p ?c ?n \<sigma>) = EDONTREPLY" if "ma_mutex ?p ?n \<sigma>"
    using that by (simp add: a_wait_def split_def Let_def)
  consider "m_type m = CS_LOCK" | "m_type m = CS_UNLOCK" | "m_type m = CS_WAIT" | "m_type m = CS_BROADCAST"
    using z unfolding zadanie_klienta_def cs_defs by linarith
  then show ?thesis
  proof cases
    case 1
    with bilans_lock[OF c, of r ?n] show ?thesis
      by (auto simp: krok_monitora)
  next
    case 2
    with bilans_unlock[OF P, of r ?p ?n] un show ?thesis
      by (auto simp: krok_monitora cs_defs)
  next
    case 3
    with bilans_wait[OF P c, of ?n r ?c] wt wt' show ?thesis
      by (cases "ma_mutex ?p ?n \<sigma>") (auto simp: krok_monitora cs_defs)
  next
    case 4
    with bilans_broadcast[OF P, of r ?c] show ?thesis
      by (auto simp: krok_monitora cs_defs a_broadcast_alt)
  qed
qed

lemma bilans_eintr:
  "prot \<sigma> \<Longrightarrow> \<not> czeka p (a_eintr p \<sigma>) \<and> (r \<noteq> p \<longrightarrow> oczekuje r (a_eintr p \<sigma>) = oczekuje r \<sigma>)"
  by (simp add: a_eintr_alt oczekuje_def czeka_def miejsca_bez_procesu)

end
