(* ===== verification/Dzialanie.thy ===== *)
theory Dzialanie
  imports Zgodnosc_Sygnaly Protokol
begin

text \<open>
  The server as a whole: one message, the start of \<^verbatim>\<open>main\<close>, and the states the message loop
  can reach. The properties of the server are stated here over the definitions of
  \<open>Serwer\<close>; they rest on the agreement with the monitor and on its protocol.
\<close>

section \<open>One message\<close>

text \<open>The tables are large enough for a state of the monitor.\<close>

definition miesci_sie :: "monitor \<Rightarrow> bool" where
  "miesci_sie \<sigma> \<longleftrightarrow> card (dom (mut \<sigma>)) \<le> MAX_MUTEX \<and> card (dom (zdarz \<sigma>)) \<le> MAX_CV \<and>
     (\<forall>c. length (czekajacy_na c \<sigma>) \<le> MAX_CZEKA)"

lemma miejsce_na_cv:
  assumes I: "niezmiennik s" and n: "ma_mutex p n (abstr s)"
    and m: "miesci_sie (snd (snd (a_wait p c n (abstr s))))"
  shows "miejsce_cv c s"
proof -
  let ?\<sigma> = "snd (snd (a_unlock p n (abstr s)))"
  have eq: "zdarz (snd (snd (a_wait p c n (abstr s)))) =
      (zdarz (abstr s))(c \<mapsto> czekajacy_na c (abstr s) @ [(p, n)])"
    using n by (simp add: a_wait_def split_def Let_def a_unlock_pola czekajacy_na_def)
  have "length (czekajacy_na c (snd (snd (a_wait p c n (abstr s))))) = Suc (length (czekajacy_na c (abstr s)))"
    by (simp add: czekajacy_na_def[of c "snd (snd (a_wait p c n (abstr s)))"] eq)
  with m have "length (czekajacy_na c (abstr s)) < MAX_CZEKA"
    unfolding miesci_sie_def by (metis Suc_le_eq)
  moreover have "wolneCv s < MAX_CV" if "zdarz (abstr s) c = None"
  proof -
    have "c \<notin> dom (zdarz (abstr s))" using that by auto
    then have "Suc (card (dom (zdarz (abstr s)))) \<le> MAX_CV"
      using m eq by (simp add: miesci_sie_def)
    with I show ?thesis by (simp add: wolne_cv_iff)
  qed
  ultimately show ?thesis by (simp add: miejsce_cv_def)
qed

lemma wykonaj_zgodne:
  assumes I: "niezmiennik s" and z: "zadanie_klienta m" and p: "aktualnyProces s = m_source m"
    and a: "a_zadanie m (abstr s) = (r, out, \<sigma>)" and fit: "miesci_sie \<sigma>"
  shows "\<exists>s'. wykonaj E m s = Some (r, s') \<and> abstr s' = \<sigma> \<and> niezmiennik s' \<and> reszta s s' \<and>
    wyslane s' = wyslane s @ out"
proof -
  let ?p = "m_source m" and ?n = "m1_i1 m" and ?c = "m1_i2 m"
  consider "m_type m = CS_LOCK" | "m_type m = CS_UNLOCK" | "m_type m = CS_WAIT" | "m_type m = CS_BROADCAST"
    using z unfolding zadanie_klienta_def cs_defs by linarith
  then show ?thesis
  proof cases
    case 1
    have al: "a_lock ?p ?n (abstr s) = (r, \<sigma>)" "out = []"
      using a 1 by (auto simp: a_zadanie_def Let_def split: prod.splits)
    have "\<exists>s'. cs_lock E ?n s = Some (r, s') \<and> abstr s' = \<sigma> \<and> niezmiennik s' \<and> reszta s s' \<and>
      wyslane s' = wyslane s \<and> CV s' = CV s"
      using al fit p by (intro cs_lock_zgodne[OF I]) (auto intro: miejsce_na_mutex[OF I, of ?n ?p] simp: miesci_sie_def)
    with 1 al show ?thesis by (auto simp: wykonaj_def Let_def)
  next
    case 2
    with a p cs_unlock_zgodne[OF I, of ?n r out \<sigma> E] show ?thesis
      by (auto simp: a_zadanie_def wykonaj_def Let_def cs_defs)
  next
    case 3
    then have aw: "a_wait ?p ?c ?n (abstr s) = (r, out, \<sigma>)" using a by (auto simp: a_zadanie_def Let_def cs_defs)
    have "\<exists>s'. cs_wait E ?c ?n s = Some (r, s') \<and> abstr s' = \<sigma> \<and> niezmiennik s' \<and> reszta s s' \<and>
      wyslane s' = wyslane s @ out"
      using aw fit p miejsce_na_cv[OF I, of ?p ?n ?c] by (intro cs_wait_zgodne[OF I]) auto
    with 3 show ?thesis by (auto simp: wykonaj_def Let_def cs_defs)
  next
    case 4
    with a fit cs_broadcast_zgodne[OF I, of ?c r out \<sigma> E] show ?thesis
      by (auto simp: a_zadanie_def wykonaj_def Let_def cs_defs miesci_sie_def)
  qed
qed

lemma obsluga_klienta:
  assumes I: "niezmiennik s" and z: "zadanie_klienta m" and fit: "miesci_sie (snd (a_klient m (abstr s)))"
  shows "\<exists>s'. obslugaWiadomosci E m s = Some s' \<and> niezmiennik s' \<and> abstr s' = snd (a_klient m (abstr s)) \<and>
    straznicy s' = straznicy s \<and> wyslane s' = wyslane s @ fst (a_klient m (abstr s))"
proof -
  let ?s = "s\<lparr>aktualnyProces := m_source m\<rparr>"
  obtain r out \<sigma> where a: "a_zadanie m (abstr s) = (r, out, \<sigma>)" by (rule prod_cases3)
  have kod: "1 \<le> m_type m" "m_type m \<le> 4" using z by (auto simp: zadanie_klienta_def)
  from wykonaj_zgodne[of ?s m r out \<sigma> E] I z a fit obtain s1 where s1: "wykonaj E m ?s = Some (r, s1)"
    "abstr s1 = \<sigma>" "niezmiennik s1" "reszta ?s s1" "wyslane s1 = wyslane s @ out"
    by (auto simp: a_klient_def)
  let ?s' = "if r \<noteq> EDONTREPLY then wyslijWiadomosc E r (aktualnyProces s1) s1 else s1"
  have "obslugaWiadomosci E m s = Some ?s'"
    using s1(1) kod by (simp add: obslugaWiadomosci_def)
  then show ?thesis using s1 a by (auto simp: a_klient_def reszta_def)
qed

lemma obsluga_eintr:
  assumes I: "niezmiennik s" and t: "m_type m = CS_EINTR"
  shows "\<exists>s'. obslugaWiadomosci E m s = Some s' \<and> niezmiennik s' \<and> straznicy s' = straznicy s \<and>
    (PM_PROC m \<notin> set (straznicy s) \<longrightarrow> abstr s' = a_eintr (PM_PROC m) (abstr s)) \<and>
    wyslane s' = wyslane s @ replicate (length (filter (trafiony (PM_PROC m)) (M s)) +
      length (filter (czeka_w_cv (PM_PROC m)) (CV s))) (PM_PROC m, EINTR)"
  using wyslijEINTR_zgodne[of "s\<lparr>aktualnyProces := m_source m\<rparr>" E "PM_PROC m"] I t
  by (auto simp: obslugaWiadomosci_def wykonaj_def cs_defs reszta_def)

lemma obsluga_exit:
  assumes I: "niezmiennik s" and t: "m_type m = CS_EXIT"
  shows "\<exists>s'. obslugaWiadomosci E m s = Some s' \<and> niezmiennik s' \<and> straznicy s' = straznicy s \<and>
    (PM_PROC m \<notin> set (straznicy s) \<longrightarrow> abstr s' = a_exit (PM_PROC m) (abstr s)) \<and>
    wyslane s' = wyslane s @ concat (map (nowy_wlasciciel (PM_PROC m)) (M s))"
  using usunZakonczonyProces_zgodne[of "s\<lparr>aktualnyProces := m_source m\<rparr>" E "PM_PROC m"] I t
  by (auto simp: obslugaWiadomosci_def wykonaj_def cs_defs reszta_def)

lemma obsluga_zly_typ:
  assumes "m_type m < 1 \<or> m_type m > 6"
  shows "\<exists>s'. obslugaWiadomosci E m s = Some s' \<and> M s' = M s \<and> CV s' = CV s \<and>
    wyslane s' = wyslane s @ [(m_source m, EINVAL)]"
  using assms by (auto simp: obslugaWiadomosci_def Let_def)

text \<open>The kernel's contract for one message, and that the tables can hold the outcome.\<close>

definition przyjmowalna :: "message \<Rightarrow> serwer \<Rightarrow> bool" where
  "przyjmowalna m s \<longleftrightarrow> dopuszczalny m (abstr s) \<and> miesci_sie (a_krok m (abstr s)) \<and>
     (m_type m = CS_EINTR \<or> m_type m = CS_EXIT \<longrightarrow> PM_PROC m \<notin> set (straznicy s))"

lemma obsluga_zgodne:
  assumes I: "niezmiennik s" and fit: "miesci_sie (a_krok m (abstr s))"
    and g: "m_type m = CS_EINTR \<or> m_type m = CS_EXIT \<Longrightarrow> PM_PROC m \<notin> set (straznicy s)"
  shows "\<exists>s'. obslugaWiadomosci E m s = Some s' \<and> niezmiennik s' \<and> abstr s' = a_krok m (abstr s) \<and>
    straznicy s' = straznicy s"
proof -
  consider "m_type m < 1 \<or> m_type m > 6" | "zadanie_klienta m" | "m_type m = CS_EINTR" | "m_type m = CS_EXIT"
    unfolding zadanie_klienta_def cs_defs by linarith
  then show ?thesis
  proof cases
    case 1
    then obtain s' where "obslugaWiadomosci E m s = Some s'" "M s' = M s" "CV s' = CV s"
      using obsluga_zly_typ by blast
    with 1 I show ?thesis
      using abstr_cong[of s' s] niezmiennik_cong[of s' s] straznicy_cong[of s' s] by (simp add: a_krok_def)
  next
    case 2
    then have "a_krok m (abstr s) = snd (a_klient m (abstr s))"
      by (auto simp: a_krok_def zadanie_klienta_def)
    with obsluga_klienta[OF I 2, of E] fit show ?thesis by auto
  next
    case 3
    with obsluga_eintr[OF I 3, of E] g show ?thesis by (auto simp: a_krok_def cs_defs)
  next
    case 4
    with obsluga_exit[OF I 4, of E] g show ?thesis by (auto simp: a_krok_def cs_defs)
  qed
qed

section \<open>The start of the server\<close>

lemma main_start_ok:
  "\<exists>s. main_start E = Some s \<and> niezmiennik s \<and> abstr s = monitor0 \<and> wyjscie s = [] \<and>
     straznicy s = map (\<lambda>i. proces (smiec E i 1)) [0..<MAX_MUTEX]"
proof -
  let ?R = "\<lambda>i m. dobry_mutex m \<and> uzywany m = 0 \<and> straznik (kolejka m) = proces (smiec E i 1)"
  let ?I = "\<lambda>i (s::serwer). CV s = CV pamiec0 \<and> wyjscie s = [] \<and> length (M s) = MAX_MUTEX \<and> (\<forall>j < i. ?R j (M s ! j))"
  have "\<exists>s. FOR 0 MAX_MUTEX (zalozMutex E) pamiec0 = Some s \<and> ?I MAX_MUTEX s"
  proof (rule FOR_rule[where I = ?I])
    fix i s assume i: "i < MAX_MUTEX" and I: "?I i s"
    obtain q where "utworzKolejke (smiec E i) = Some q" "poprawna q" "zawartosc q = []"
      "straznik q = proces (smiec E i 1)" using utworzKolejke_ok by blast
    with i I show "\<exists>t'. zalozMutex E i s = Some t' \<and> ?I (Suc i) t'"
      by (auto simp: zalozMutex_def dobry_mutex_def nth_list_update less_Suc_eq)
  qed (auto simp: pamiec0_def)
  then obtain s1 where s1: "FOR 0 MAX_MUTEX (zalozMutex E) pamiec0 = Some s1" "?I MAX_MUTEX s1" by blast
  let ?J = "\<lambda>(i::nat) (s::serwer). M s = M s1 \<and> wyjscie s = [] \<and> length (CV s) = MAX_CV \<and>
    list_all (\<lambda>c. dobre_cv c \<and> cv_uzywany c = 0) (CV s)"
  have "\<exists>s. FOR 0 MAX_CV zalozCv s1 = Some s \<and> ?J MAX_CV s"
  proof (rule FOR_rule[where I = ?J])
    show "?J 0 s1" using s1(2) by (simp add: pamiec0_def list_all_length dobre_cv_def)
    fix i s assume i: "i < MAX_CV" and J: "?J i s"
    let ?c = "(CV s ! i)\<lparr>cv_uzywany := 0, size_cv := 0\<rparr>"
    have "dobre_cv (CV s ! i)" using i J by (simp add: list_all_length)
    then have "dobre_cv ?c \<and> cv_uzywany ?c = 0" by (simp add: dobre_cv_def)
    then have "list_all (\<lambda>c. dobre_cv c \<and> cv_uzywany c = 0) ((CV s)[i := ?c])"
      using J by (intro list_all_update) auto
    with J show "\<exists>t'. zalozCv i s = Some t' \<and> ?J (Suc i) t'"
      by (simp add: zalozCv_def)
  qed simp
  then obtain s where s: "FOR 0 MAX_CV zalozCv s1 = Some s" "?J MAX_CV s" by blast
  have m: "length (M s) = MAX_MUTEX" "\<And>j. j < MAX_MUTEX \<Longrightarrow> ?R j (M s ! j)" using s1(2) s(2) by auto
  have "niezmiennik s"
    using m s(2) by (auto simp: niezmiennik_def list_all_length rozne_def mutex_w_uzyciu_def cv_w_uzyciu_def)
  moreover have "abstr s = monitor0"
  proof -
    have "tab mutex_w_uzyciu numer stan_mutexu (M s) n = None" for n
      using m by (auto simp: tab_None_iff mutex_w_uzyciu_def)
    moreover have "tab cv_w_uzyciu cv_numer czekajacy (CV s) n = None" for n
      using s(2) by (auto simp: tab_None_iff cv_w_uzyciu_def list_all_length)
    ultimately show ?thesis by (simp add: abstr_def monitor0_def fun_eq_iff)
  qed
  moreover have "straznicy s = map (\<lambda>i. proces (smiec E i 1)) [0..<MAX_MUTEX]"
    using m by (auto simp: straznicy_def intro!: nth_equalityI)
  ultimately show ?thesis using s1(1) s by (auto simp: main_start_def)
qed

section \<open>Reachable states\<close>

inductive krok_serwera :: "srodowisko \<Rightarrow> serwer \<Rightarrow> serwer \<Rightarrow> bool" for E :: srodowisko where
  wiadomosc: "przyjmowalna m s \<Longrightarrow> main_krok E (Some m) s = Some s' \<Longrightarrow> krok_serwera E s s'"
| bez_wiadomosci: "main_krok E None s = Some s' \<Longrightarrow> krok_serwera E s s'"

definition zdrowy :: "serwer \<Rightarrow> bool" where
  "zdrowy s \<longleftrightarrow> niezmiennik s \<and> prot (abstr s)"

interpretation ms: maszyna "\<lambda>s. main_start E = Some s" "krok_serwera E" zdrowy for E
proof
  fix s assume "main_start E = Some s"
  with main_start_ok[of E] prot_monitor0 show "zdrowy s" by (auto simp: zdrowy_def)
next
  fix s t assume s: "zdrowy s" and "krok_serwera E s t"
  from this(2) show "zdrowy t"
  proof cases
    case (wiadomosc m)
    with s obsluga_zgodne[of s m E] a_krok_prot show ?thesis
      by (auto simp: zdrowy_def przyjmowalna_def main_krok_def)
  next
    case bez_wiadomosci
    with s show ?thesis by (auto simp: zdrowy_def main_krok_def)
  qed
qed

definition stan_serwera :: "srodowisko \<Rightarrow> serwer \<Rightarrow> bool" where
  "stan_serwera E = osiagalny (\<lambda>s. main_start E = Some s) (krok_serwera E)"

lemma stan_serwera_zdrowy: "stan_serwera E s \<Longrightarrow> niezmiennik s \<and> prot (abstr s)"
  using ms.osiagalny_inw by (auto simp: stan_serwera_def zdrowy_def)

lemma stan_serwera_krok:
  assumes s: "stan_serwera E s" and m: "przyjmowalna m s"
  shows "\<exists>s'. obslugaWiadomosci E m s = Some s' \<and> stan_serwera E s' \<and> abstr s' = a_krok m (abstr s) \<and>
    straznicy s' = straznicy s"
proof -
  have "niezmiennik s" using stan_serwera_zdrowy[OF s] by simp
  from obsluga_zgodne[OF this, of m E] m obtain s' where s': "obslugaWiadomosci E m s = Some s'"
    "abstr s' = a_krok m (abstr s)" "straznicy s' = straznicy s"
    by (auto simp: przyjmowalna_def)
  have "krok_serwera E s s'" using m s'(1) by (auto intro: krok_serwera.wiadomosc simp: main_krok_def)
  with s have "stan_serwera E s'" unfolding stan_serwera_def by (rule osiagalny.dalej)
  with s' show ?thesis by blast
qed

section \<open>Whole runs\<close>

text \<open>
  A run of the message loop on a sequence of received messages, \<^term>\<open>None\<close> for a failed
  receive, seen at the monitor; \<open>G\<close> are the indeterminate values in the sentinels.
\<close>

fun a_petla :: "message option list \<Rightarrow> monitor \<Rightarrow> monitor" where
  "a_petla [] \<sigma> = \<sigma>"
| "a_petla (None # rs) \<sigma> = a_petla rs \<sigma>"
| "a_petla (Some m # rs) \<sigma> = a_petla rs (a_krok m \<sigma>)"

fun ciag_ok :: "int set \<Rightarrow> message option list \<Rightarrow> monitor \<Rightarrow> bool" where
  "ciag_ok G [] \<sigma> \<longleftrightarrow> True"
| "ciag_ok G (None # rs) \<sigma> \<longleftrightarrow> ciag_ok G rs \<sigma>"
| "ciag_ok G (Some m # rs) \<sigma> \<longleftrightarrow> dopuszczalny m \<sigma> \<and> miesci_sie (a_krok m \<sigma>) \<and>
     (m_type m = CS_EINTR \<or> m_type m = CS_EXIT \<longrightarrow> PM_PROC m \<notin> G) \<and> ciag_ok G rs (a_krok m \<sigma>)"

lemma main_petla_zgodne:
  assumes "stan_serwera E s" "ciag_ok (set (straznicy s)) rs (abstr s)"
  shows "\<exists>s'. main_petla E rs s = Some s' \<and> stan_serwera E s' \<and> abstr s' = a_petla rs (abstr s) \<and>
    straznicy s' = straznicy s"
  using assms
proof (induction rs arbitrary: s)
  case (Cons r rs)
  show ?case
  proof (cases r)
    case None
    let ?s = "wypisz ''CV: sef_receive failed'' [] s"
    have "krok_serwera E s ?s" by (auto intro: krok_serwera.bez_wiadomosci simp: main_krok_def)
    with Cons.prems(1) have "stan_serwera E ?s" unfolding stan_serwera_def by (rule osiagalny.dalej)
    from Cons.IH[OF this] Cons.prems(2) None show ?thesis by (simp add: main_krok_def)
  next
    case (Some m)
    then have "przyjmowalna m s" using Cons.prems(2) by (simp add: przyjmowalna_def)
    from stan_serwera_krok[OF Cons.prems(1) this] obtain s1 where s1: "obslugaWiadomosci E m s = Some s1"
      "stan_serwera E s1" "abstr s1 = a_krok m (abstr s)" "straznicy s1 = straznicy s" by blast
    from Cons.IH[OF s1(2)] Cons.prems(2) Some s1 show ?thesis by (simp add: main_krok_def)
  qed
qed simp

lemma main_serwer_zgodne:
  assumes "ciag_ok (set (map (\<lambda>i. proces (smiec E i 1)) [0..<MAX_MUTEX])) rs monitor0"
  shows "\<exists>s. main_serwer E rs = Some s \<and> stan_serwera E s \<and> abstr s = a_petla rs monitor0 \<and>
    straznicy s = map (\<lambda>i. proces (smiec E i 1)) [0..<MAX_MUTEX]"
proof -
  obtain s0 where s0: "main_start E = Some s0" "abstr s0 = monitor0"
    "straznicy s0 = map (\<lambda>i. proces (smiec E i 1)) [0..<MAX_MUTEX]"
    using main_start_ok by blast
  have "stan_serwera E s0" unfolding stan_serwera_def using s0(1) by (rule osiagalny.start)
  from main_petla_zgodne[OF this, of rs] assms s0 show ?thesis by (auto simp: main_serwer_def)
qed

end
