(* ===== verification/Skutki.thy ===== *)
theory Skutki
  imports Dzialanie
begin

text \<open>
  Consequences of the agreement with the monitor that the properties of the server use: how
  often a process is found by the loops over the tables, the outcome of a broadcast in closed
  form, and exactly when a request runs out of its table.
\<close>

section \<open>How often a process is found\<close>

lemma trafiony_miejsce:
  assumes I: "niezmiennik s" and p: "p \<notin> set (straznicy s)" and i: "i < MAX_MUTEX"
  shows "trafiony p (M s ! i) \<longleftrightarrow> uzywany (M s ! i) \<noteq> 0 \<and> W_kolejce (numer (M s ! i)) \<in> miejsca (abstr s) p"
proof -
  let ?m = "M s ! i"
  have s: "straznik (kolejka ?m) \<noteq> p" using p i niezmiennikD(1)[OF I] by (auto simp: straznicy_def)
  have d: "dobry_mutex ?m" using niezmiennikD(5)[OF I i] .
  have m: "mut (abstr s) (numer ?m) = Some (stan_mutexu ?m)" if "uzywany ?m \<noteq> 0"
    using tab_Some[OF niezmiennikD(3)[OF I], of i stan_mutexu] that i niezmiennikD(1)[OF I]
    by (simp add: abstr_def mutex_w_uzyciu_def)
  show ?thesis
  proof (cases "uzywany ?m = 0")
    case True
    with d show ?thesis by (simp add: trafiony_def dobry_mutex_def)
  next
    case False
    with m s show ?thesis by (auto simp: trafiony_def miejsca_iff stan_mutexu_def)
  qed
qed

lemma czeka_w_cv_miejsce:
  assumes I: "niezmiennik s" and i: "i < MAX_CV"
  shows "czeka_w_cv p (CV s ! i) \<longleftrightarrow>
    cv_uzywany (CV s ! i) \<noteq> 0 \<and> (\<exists>n. W_zdarzeniu (cv_numer (CV s ! i)) n \<in> miejsca (abstr s) p)"
proof (cases "cv_uzywany (CV s ! i) = 0")
  case False
  then have "zdarz (abstr s) (cv_numer (CV s ! i)) = Some (czekajacy (CV s ! i))"
    using tab_Some[OF niezmiennikD(4)[OF I], of i czekajacy] i niezmiennikD(2)[OF I]
    by (simp add: abstr_def cv_w_uzyciu_def)
  with False show ?thesis by (force simp: czeka_w_cv_def cv_w_uzyciu_def miejsca_iff)
qed (simp add: czeka_w_cv_def cv_w_uzyciu_def)

lemma slot_mutexu:
  assumes "niezmiennik s" "W_kolejce n \<in> miejsca (abstr s) p"
  shows "\<exists>i < MAX_MUTEX. uzywany (M s ! i) \<noteq> 0 \<and> numer (M s ! i) = n"
proof -
  from assms(2) obtain wq where "tab mutex_w_uzyciu numer stan_mutexu (M s) n = Some wq"
    by (auto simp: miejsca_iff abstr_def)
  then obtain i where "i < length (M s)" "mutex_w_uzyciu (M s ! i)" "numer (M s ! i) = n"
    by (rule tab_SomeD)
  then show ?thesis using niezmiennikD(1)[OF assms(1)] by (auto simp: mutex_w_uzyciu_def)
qed

lemma slot_cv:
  assumes "niezmiennik s" "W_zdarzeniu c n \<in> miejsca (abstr s) p"
  shows "\<exists>i < MAX_CV. cv_uzywany (CV s ! i) \<noteq> 0 \<and> cv_numer (CV s ! i) = c"
proof -
  from assms(2) obtain ws where "tab cv_w_uzyciu cv_numer czekajacy (CV s) c = Some ws"
    by (auto simp: miejsca_iff abstr_def)
  then obtain i where "i < length (CV s)" "cv_w_uzyciu (CV s ! i)" "cv_numer (CV s ! i) = c"
    by (rule tab_SomeD)
  then show ?thesis using niezmiennikD(2)[OF assms(1)] by (auto simp: cv_w_uzyciu_def)
qed

lemma jeden_slot:
  assumes "i < length xs" "\<And>j. j < length xs \<Longrightarrow> P (xs ! j) \<longleftrightarrow> j = i"
  shows "length (filter P xs) = 1"
proof -
  have "{j. j < length xs \<and> P (xs ! j)} = {i}" using assms by auto
  then show ?thesis by (simp add: length_filter_conv_card)
qed

lemma zaden_slot: "(\<And>j. j < length xs \<Longrightarrow> \<not> P (xs ! j)) \<Longrightarrow> length (filter P xs) = 0"
  by (simp add: length_filter_conv_card)

lemma liczba_znalezien:
  assumes I: "niezmiennik s" and P: "prot (abstr s)" and p: "p \<notin> set (straznicy s)"
  shows "length (filter (trafiony p) (M s)) + length (filter (czeka_w_cv p) (CV s)) = oczekuje p (abstr s)"
proof -
  note tr = trafiony_miejsce[OF I p] and cz = czeka_w_cv_miejsce[OF I]
  note len = niezmiennikD(1,2)[OF I]
  consider (nie) "miejsca (abstr s) p = {}" | (kol) n where "miejsca (abstr s) p = {W_kolejce n}"
    | (zd) c n where "miejsca (abstr s) p = {W_zdarzeniu c n}"
  proof (cases "miejsca (abstr s) p = {}")
    case False
    then obtain x where "x \<in> miejsca (abstr s) p" by blast
    then have "miejsca (abstr s) p = {x}" using protD(4)[OF P] by blast
    then show thesis using kol zd by (cases x) auto
  qed (rule nie)
  then show ?thesis
  proof cases
    case nie
    have "length (filter (trafiony p) (M s)) = 0" by (rule zaden_slot) (simp add: tr nie len)
    moreover have "length (filter (czeka_w_cv p) (CV s)) = 0" by (rule zaden_slot) (simp add: cz nie len)
    ultimately show ?thesis using nie by (simp add: oczekuje_def czeka_def)
  next
    case (kol n)
    then obtain i where i: "i < MAX_MUTEX" "uzywany (M s ! i) \<noteq> 0" "numer (M s ! i) = n"
      using slot_mutexu[OF I, of n p] by auto
    have "length (filter (trafiony p) (M s)) = 1"
    proof (rule jeden_slot)
      fix j assume j: "j < length (M s)"
      then have "trafiony p (M s ! j) \<longleftrightarrow> mutex_w_uzyciu (M s ! j) \<and> numer (M s ! j) = n"
        by (simp add: tr kol len mutex_w_uzyciu_def)
      with i j show "trafiony p (M s ! j) \<longleftrightarrow> j = i"
        using rozneD[OF niezmiennikD(3)[OF I], of j i] len by (auto simp: mutex_w_uzyciu_def)
    qed (simp add: i len)
    moreover have "length (filter (czeka_w_cv p) (CV s)) = 0" by (rule zaden_slot) (simp add: cz kol len)
    ultimately show ?thesis using kol by (simp add: oczekuje_def czeka_def)
  next
    case (zd c n)
    then obtain i where i: "i < MAX_CV" "cv_uzywany (CV s ! i) \<noteq> 0" "cv_numer (CV s ! i) = c"
      using slot_cv[OF I, of c n p] by auto
    have "length (filter (czeka_w_cv p) (CV s)) = 1"
    proof (rule jeden_slot)
      fix j assume j: "j < length (CV s)"
      then have "czeka_w_cv p (CV s ! j) \<longleftrightarrow> cv_w_uzyciu (CV s ! j) \<and> cv_numer (CV s ! j) = c"
        by (simp add: cz zd len cv_w_uzyciu_def)
      with i j show "czeka_w_cv p (CV s ! j) \<longleftrightarrow> j = i"
        using rozneD[OF niezmiennikD(4)[OF I], of j i] len by (auto simp: cv_w_uzyciu_def)
    qed (simp add: i len)
    moreover have "length (filter (trafiony p) (M s)) = 0" by (rule zaden_slot) (simp add: tr zd len)
    ultimately show ?thesis using zd by (simp add: oczekuje_def czeka_def)
  qed
qed

section \<open>Who is told about a mutex of an ended process\<close>

lemma odpowiedzi_concat:
  assumes "\<And>x. x \<in> set xs \<Longrightarrow> f x = [] \<or> (\<exists>p. f x = [(p, OK)])"
  shows "odpowiedzi r (concat (map f xs)) = length (filter (\<lambda>x. f x = [(r, OK)]) xs)"
  using assms
proof (induction xs)
  case (Cons x xs)
  then have x: "f x = [] \<or> (\<exists>p. f x = [(p, OK)])"
    and IH: "odpowiedzi r (concat (map f xs)) = length (filter (\<lambda>x. f x = [(r, OK)]) xs)" by simp_all
  from x show ?case by (elim disjE exE) (simp_all add: IH)
qed simp

lemma nowy_wlasciciel_iff:
  assumes I: "niezmiennik s" and i: "i < MAX_MUTEX"
  shows "nowy_wlasciciel p (M s ! i) = [(r, OK)] \<longleftrightarrow>
    mutex_w_uzyciu (M s ! i) \<and> (\<exists>xs. mut (abstr s) (numer (M s ! i)) = Some (p, r # xs))"
proof (cases "mutex_w_uzyciu (M s ! i)")
  case True
  then have "mut (abstr s) (numer (M s ! i)) = Some (stan_mutexu (M s ! i))"
    using tab_Some[OF niezmiennikD(3)[OF I], of i stan_mutexu] i niezmiennikD(1)[OF I]
    by (simp add: abstr_def)
  with True show ?thesis
    by (cases "zawartosc (kolejka (M s ! i))") (auto simp: nowy_wlasciciel_def stan_mutexu_def)
qed (simp add: nowy_wlasciciel_def)

lemma odpowiedzi_exit:
  assumes I: "niezmiennik s" and P: "prot (abstr s)"
  shows "odpowiedzi r (concat (map (nowy_wlasciciel p) (M s))) = (if nastepca p (abstr s) r then 1 else 0)"
proof -
  note nw = nowy_wlasciciel_iff[OF I, of _ p r] and len = niezmiennikD(1)[OF I]
  have "odpowiedzi r (concat (map (nowy_wlasciciel p) (M s))) =
      length (filter (\<lambda>m. nowy_wlasciciel p m = [(r, OK)]) (M s))"
    by (rule odpowiedzi_concat) (simp add: nowy_wlasciciel_def split: list.splits)
  also have "\<dots> = (if nastepca p (abstr s) r then 1 else 0)"
  proof (cases "nastepca p (abstr s) r")
    case True
    then obtain n xs where n: "mut (abstr s) n = Some (p, r # xs)" by (auto simp: nastepca_def)
    then obtain i where i: "i < MAX_MUTEX" "mutex_w_uzyciu (M s ! i)" "numer (M s ! i) = n"
      using indeks_jest[OF I n] by metis
    have jeden: "k = n" if k: "mut (abstr s) k = Some (p, r # ys)" for k ys
    proof -
      have "W_kolejce k \<in> miejsca (abstr s) r" using k by (auto simp: miejsca_iff)
      with nastepca_miejsce[OF P n] show ?thesis by blast
    qed
    have "length (filter (\<lambda>m. nowy_wlasciciel p m = [(r, OK)]) (M s)) = 1"
    proof (rule jeden_slot)
      fix j assume j: "j < length (M s)"
      have "nowy_wlasciciel p (M s ! j) = [(r, OK)] \<longleftrightarrow> mutex_w_uzyciu (M s ! j) \<and> numer (M s ! j) = n"
        unfolding nw[OF j[unfolded len]] using n jeden by blast
      with i j show "nowy_wlasciciel p (M s ! j) = [(r, OK)] \<longleftrightarrow> j = i"
        using rozneD[OF niezmiennikD(3)[OF I], of j i] len by auto
    qed (simp add: i len)
    with True show ?thesis by simp
  next
    case False
    have "length (filter (\<lambda>m. nowy_wlasciciel p m = [(r, OK)]) (M s)) = 0"
      using False by (intro zaden_slot) (auto simp: nw len nastepca_def)
    with False show ?thesis by simp
  qed
  finally show ?thesis .
qed

lemma a_exit_skutek:
  assumes P: "prot \<sigma>"
  shows "\<not> ma_mutex p n (a_exit p \<sigma>)" "\<not> czeka p (a_exit p \<sigma>)"
    "mut \<sigma> n = Some (w, q) \<Longrightarrow> mut (a_exit p \<sigma>) n =
       (if w = p then (case q of [] \<Rightarrow> None | x # xs \<Rightarrow> Some (x, xs)) else Some (w, remove1 p q))"
    "mut \<sigma> n = None \<Longrightarrow> mut (a_exit p \<sigma>) n = None"
    "r \<noteq> p \<Longrightarrow> czeka r (a_exit p \<sigma>) \<longleftrightarrow> czeka r \<sigma> \<and> \<not> nastepca p \<sigma> r"
proof -
  have "mut (po_przekazaniu p \<sigma>) n \<noteq> Some (p, q)" for q
    using protD(2)[OF P, of n p "p # q"] by (auto simp: po_przekazaniu_mut)
  then show "\<not> ma_mutex p n (a_exit p \<sigma>)"
    by (auto simp: a_exit_alt ma_mutex_def[of _ _ "po_przekazaniu p \<sigma>"] split: option.splits)
  show "\<not> czeka p (a_exit p \<sigma>)" "r \<noteq> p \<Longrightarrow> czeka r (a_exit p \<sigma>) \<longleftrightarrow> czeka r \<sigma> \<and> \<not> nastepca p \<sigma> r"
    using miejsca_bez_procesu[OF po_przekazaniu_prot[OF P]] miejsca_po_przekazaniu[OF P]
    by (simp_all add: a_exit_alt czeka_def)
  show "mut (a_exit p \<sigma>) n =
       (if w = p then (case q of [] \<Rightarrow> None | x # xs \<Rightarrow> Some (x, xs)) else Some (w, remove1 p q))"
    if m: "mut \<sigma> n = Some (w, q)"
    using protD(2)[OF P m] m by (cases q) (auto simp: a_exit_def przekaz_def remove1_idem)
qed (simp add: a_exit_def)

section \<open>The outcome of a broadcast\<close>

text \<open>The processes of a list that wait with the mutex \<open>n\<close>, in order.\<close>

definition z_mutexem :: "int \<Rightarrow> (int \<times> int) list \<Rightarrow> int list" where
  "z_mutexem n ws = map fst (filter (\<lambda>w. snd w = n) ws)"

definition ustaw_w_kolejce :: "int list \<Rightarrow> (int \<times> int list) option \<Rightarrow> (int \<times> int list) option" where
  "ustaw_w_kolejce ps st =
     (case st of
        None \<Rightarrow> (case ps of [] \<Rightarrow> None | x # xs \<Rightarrow> Some (x, xs))
      | Some (w, q) \<Rightarrow> Some (w, q @ ps))"

lemma a_budz_mut:
  "do_obudzenia ws \<sigma> \<Longrightarrow> mut (snd (a_budz ws \<sigma>)) n = ustaw_w_kolejce (z_mutexem n ws) (mut \<sigma> n)"
proof (induction ws arbitrary: \<sigma>)
  case Nil
  then show ?case by (simp add: ustaw_w_kolejce_def z_mutexem_def split: option.splits)
next
  case (Cons w ws)
  obtain p k where w: "w = (p, k)" by fastforce
  note d = do_obudzenia_Cons[OF Cons.prems[unfolded w]]
  have "mut (snd (a_budz (w # ws) \<sigma>)) n = ustaw_w_kolejce (z_mutexem n ws) (mut (snd (a_lock p k \<sigma>)) n)"
    using Cons.IH[OF d(1)] w by (simp add: a_budz_Cons)
  also have "\<dots> = ustaw_w_kolejce (z_mutexem n (w # ws)) (mut \<sigma> n)"
    using d(3) w by (auto simp: ustaw_w_kolejce_def z_mutexem_def a_lock_def ma_mutex_def split: option.splits)
  finally show ?case .
qed

lemma a_broadcast_mut:
  assumes "prot \<sigma>"
  shows "mut (snd (snd (a_broadcast c \<sigma>))) n =
      ustaw_w_kolejce (z_mutexem n (czekajacy_na c \<sigma>)) (mut \<sigma> n)"
    "zdarz (snd (snd (a_broadcast c \<sigma>))) = (zdarz \<sigma>)(c := None)"
  using a_budz_mut[OF bez_zdarzenia_prot(2)[OF assms], of c n] by (simp_all add: a_broadcast_alt)

section \<open>When a table is too small\<close>

lemma cs_lock_None_iff:
  assumes I: "niezmiennik s"
  shows "cs_lock E n s = None \<longleftrightarrow> mut (abstr s) n = None \<and> card (dom (mut (abstr s))) = MAX_MUTEX"
proof -
  have "card (dom (mut (abstr s))) \<le> MAX_MUTEX"
    using niezmiennikD(1)[OF I] length_filter_le[of mutex_w_uzyciu "M s"] niezmiennikD(3)[OF I]
    by (simp add: abstr_def card_dom_tab)
  moreover obtain r \<sigma> where "a_lock (aktualnyProces s) n (abstr s) = (r, \<sigma>)" by fastforce
  moreover note cs_lock_zgodne[OF I _ this, of E] cs_lock_bez_miejsca[OF I, of n E] wolny_mutex_iff[OF I]
  ultimately show ?thesis by (metis le_neq_implies_less less_irrefl option.distinct(1))
qed

lemma czekaj_na_cv_None_iff:
  assumes I: "niezmiennik s"
  shows "czekaj_na_cv c n s = None \<longleftrightarrow> \<not> miejsce_cv c s"
proof (cases "miejsce_cv c s")
  case True
  with czekaj_na_cv_zgodne[OF I, of c n] show ?thesis by auto
next
  case False
  have "czekaj_na_cv c n s = None"
  proof (cases "zdarz (abstr s) c")
    case None
    with False have "\<not> wolneCv s < MAX_CV" by (simp add: miejsce_cv_def czekajacy_na_def MAX_CZEKA_def)
    with None show ?thesis by (simp add: czekaj_na_cv_def indeks_cv_brak_iff[OF I])
  next
    case (Some ws)
    then obtain i where i: "i < MAX_CV" "indeksUzywanegoCv s c = int i" "cv_w_uzyciu (CV s ! i)"
      "cv_numer (CV s ! i) = c" "czekajacy (CV s ! i) = ws" "dobre_cv (CV s ! i)"
      by (rule indeks_cv_jest[OF I])
    have "MAX_CZEKA \<le> nat (size_cv (CV s ! i))"
      using False Some dlugosc_czekajacych[OF i(6)] i(5) by (simp add: miejsce_cv_def czekajacy_na_def)
    with i(2) show ?thesis by (auto simp: czekaj_na_cv_def dopiszCv_def Let_def)
  qed
  with False show ?thesis by simp
qed

lemma cs_wait_None_iff:
  assumes I: "niezmiennik s"
  shows "cs_wait E c n s = None \<longleftrightarrow> ma_mutex (aktualnyProces s) n (abstr s) \<and> \<not> miejsce_cv c s"
proof (cases "ma_mutex (aktualnyProces s) n (abstr s)")
  case True
  obtain r1 \<sigma>1 out1 where u: "a_unlock (aktualnyProces s) n (abstr s) = (r1, out1, \<sigma>1)"
    by (rule prod_cases3)
  from cs_unlock_zgodne[OF I u] obtain s1 where s1: "cs_unlock E n s = Some (r1, s1)"
    "niezmiennik s1" "CV s1 = CV s" by blast
  have "miejsce_cv c s1 = miejsce_cv c s"
    using s1(3) by (simp add: miejsce_cv_def abstr_def wolneCv_def czekajacy_na_def)
  with czekaj_na_cv_None_iff[OF s1(2), of c n] True s1(1) nie_ma_mutexu_iff[OF I, of n] show ?thesis
    by (auto simp: cs_wait_alt Let_def split: bind_splits)
next
  case False
  with nie_ma_mutexu_iff[OF I, of n] show ?thesis by (simp add: cs_wait_alt Let_def)
qed

section \<open>Locks and refusals\<close>

lemma lock_wynik:
  assumes "niezmiennik s" and "m_type m = CS_LOCK"
    and "mut (abstr s) (m1_i1 m) = None \<Longrightarrow> card (dom (mut (abstr s))) < MAX_MUTEX"
  shows "\<exists>s'. obslugaWiadomosci E m s = Some s' \<and> zdarz (abstr s') = zdarz (abstr s) \<and>
    (case mut (abstr s) (m1_i1 m) of
       None \<Rightarrow> mut (abstr s') = (mut (abstr s))(m1_i1 m \<mapsto> (m_source m, [])) \<and>
         wyslane s' = wyslane s @ [(m_source m, OK)]
     | Some (w, q) \<Rightarrow>
         if w = m_source m then mut (abstr s') = mut (abstr s) \<and> wyslane s' = wyslane s @ [(m_source m, EPERM)]
         else mut (abstr s') = (mut (abstr s))(m1_i1 m \<mapsto> (w, q @ [m_source m])) \<and> wyslane s' = wyslane s)"
proof -
  let ?s = "s\<lparr>aktualnyProces := m_source m\<rparr>"
  obtain r \<sigma> where a: "a_lock (m_source m) (m1_i1 m) (abstr s) = (r, \<sigma>)" by fastforce
  have w: "wolnyMutex ?s < MAX_MUTEX" if "mut (abstr s) (m1_i1 m) = None"
    using wolny_mutex_iff[of ?s] assms(1) assms(3)[OF that] by simp
  from cs_lock_zgodne[of ?s "m1_i1 m" r \<sigma> E] w a assms(1) obtain s1 where s1:
    "cs_lock E (m1_i1 m) ?s = Some (r, s1)" "abstr s1 = \<sigma>" "reszta ?s s1" "wyslane s1 = wyslane s"
    by auto
  with assms(2) have "obslugaWiadomosci E m s =
      Some (if r = EDONTREPLY then s1 else wyslijWiadomosc E r (m_source m) s1)"
    by (simp add: obslugaWiadomosci_def wykonaj_def Let_def cs_defs reszta_def)
  moreover have "r = fst (a_lock (m_source m) (m1_i1 m) (abstr s))"
    "abstr s1 = snd (a_lock (m_source m) (m1_i1 m) (abstr s))" using a s1(2) by simp_all
  ultimately show ?thesis using s1(4) by (auto simp: a_lock_def split: option.splits)
qed

lemma odmowa:
  assumes "niezmiennik s"
    and "m_type m = CS_UNLOCK \<and> \<not> ma_mutex (m_source m) (m1_i1 m) (abstr s) \<and> r = EPERM \<or>
      m_type m = CS_WAIT \<and> \<not> ma_mutex (m_source m) (m1_i1 m) (abstr s) \<and> r = - EINVAL \<or>
      (m_type m < 1 \<or> m_type m > 6) \<and> r = EINVAL"
  shows "\<exists>s'. obslugaWiadomosci E m s = Some s' \<and> M s' = M s \<and> CV s' = CV s \<and>
    wyslane s' = wyslane s @ [(m_source m, r)]"
proof -
  let ?s = "s\<lparr>aktualnyProces := m_source m\<rparr>"
  have nie: "indeksUzywanegoMutexa ?s (m1_i1 m) = - 1 \<or>
      wlasciciel (M ?s ! nat (indeksUzywanegoMutexa ?s (m1_i1 m))) \<noteq> m_source m"
    if "\<not> ma_mutex (m_source m) (m1_i1 m) (abstr s)"
    using nie_ma_mutexu_iff[of ?s "m1_i1 m"] assms(1) that by simp
  from assms(2) show ?thesis
  proof (elim disjE conjE)
    assume "m_type m = CS_UNLOCK" "\<not> ma_mutex (m_source m) (m1_i1 m) (abstr s)" "r = EPERM"
    with nie show ?thesis by (auto simp: obslugaWiadomosci_def wykonaj_def cs_defs cs_unlock_def Let_def)
  next
    assume "m_type m = CS_WAIT" "\<not> ma_mutex (m_source m) (m1_i1 m) (abstr s)" "r = - EINVAL"
    with nie show ?thesis by (auto simp: obslugaWiadomosci_def wykonaj_def cs_defs cs_wait_def Let_def)
  qed (use obsluga_zly_typ[of m E s] in auto)
qed

end
