(* ===== verification/Wlasnosci.thy ===== *)
theory Wlasnosci
  imports Skutki
begin

text \<open>
  The properties of the server. They are stated over the definitions of \<open>Serwer\<close>; \<open>abstr\<close>
  reads the owner and the waiting processes of every mutex and event out of the tables.
  Where a property is about the states the server can be in, the hypothesis is
  \<open>stan_serwera\<close>; the examples run the server on a short sequence of requests.
\<close>

section \<open>An example run\<close>

definition zadanie :: "int \<Rightarrow> int \<Rightarrow> int \<Rightarrow> int \<Rightarrow> message" where
  "zadanie p t n c = \<lparr>m_source = p, m_type = t, m1_i1 = n, m1_i2 = c, PM_PROC = 0\<rparr>"

definition od_pm :: "int \<Rightarrow> int \<Rightarrow> message" where
  "od_pm t p = \<lparr>m_source = 0, m_type = t, m1_i1 = 0, m1_i2 = 0, PM_PROC = p\<rparr>"

definition srod0 :: srodowisko where
  "srod0 = \<lparr>smiec = (\<lambda>i a. \<lparr>nastepny = NULL, proces = 0\<rparr>), send = (\<lambda>w d t. OK)\<rparr>"

text \<open>
  The process 40 waits for the event 7 with the mutex 5, then 10 takes the mutex and 20 and
  30 queue up for it.
\<close>

definition przebieg :: "message option list" where
  "przebieg = map Some [zadanie 40 CS_LOCK 5 0, zadanie 40 CS_WAIT 5 7, zadanie 10 CS_LOCK 5 0,
     zadanie 20 CS_LOCK 5 0, zadanie 30 CS_LOCK 5 0]"

definition monitor1 :: monitor where
  "monitor1 = \<lparr>mut = [5 \<mapsto> (10, [20, 30])], zdarz = [7 \<mapsto> [(40, 5)]]\<rparr>"

lemmas zadanie_defs = zadanie_def od_pm_def

lemmas a_defs = a_krok_def a_klient_def a_zadanie_def a_lock_def a_unlock_def a_wait_def a_broadcast_def
  ma_mutex_def czekajacy_na_def Let_def

lemma miesci_sie_map:
  "card (dom (mut \<sigma>)) \<le> MAX_MUTEX \<Longrightarrow> card (dom (zdarz \<sigma>)) \<le> MAX_CV \<Longrightarrow>
    (\<And>c ws. zdarz \<sigma> c = Some ws \<Longrightarrow> length ws \<le> MAX_CZEKA) \<Longrightarrow> miesci_sie \<sigma>"
  by (auto simp: miesci_sie_def czekajacy_na_def split: option.splits)

lemma a_petla_przebieg: "a_petla przebieg monitor0 = monitor1"
  by (simp add: przebieg_def zadanie_defs a_defs monitor0_def monitor1_def cs_defs errno_defs)

lemma ciag_przebieg: "ciag_ok {0} przebieg monitor0"
  by (auto simp: przebieg_def zadanie_defs a_defs monitor0_def cs_defs errno_defs dopuszczalny_def
      zadanie_klienta_def czeka_def miejsca_def miesci_sie_def MAX_MUTEX_def MAX_CV_def MAX_CZEKA_def)

lemma straznicy0: "set (map (\<lambda>i. proces (smiec srod0 i 1)) [0..<MAX_MUTEX]) = {0}"
  by (auto simp: srod0_def MAX_MUTEX_def image_iff) (rule exI[of _ 0], simp)

lemma przyklad_smiec:
  obtains s where "stan_serwera E s" "niezmiennik s" "abstr s = monitor1"
    "straznicy s = map (\<lambda>i. proces (smiec E i 1)) [0..<MAX_MUTEX]"
proof -
  have "ciag_ok G przebieg monitor0" for G
    using ciag_przebieg by (simp add: przebieg_def zadanie_defs cs_defs)
  from main_serwer_zgodne[of E przebieg, OF this] stan_serwera_zdrowy that show thesis
    by (metis a_petla_przebieg)
qed

lemma przyklad:
  obtains s where "stan_serwera srod0 s" "niezmiennik s" "abstr s = monitor1" "set (straznicy s) = {0}"
proof -
  obtain s where "stan_serwera srod0 s" "niezmiennik s" "abstr s = monitor1"
    "straznicy s = map (\<lambda>i. proces (smiec srod0 i 1)) [0..<MAX_MUTEX]" by (rule przyklad_smiec)
  with that straznicy0 show thesis by simp
qed

lemma przyklad_miejsca [simp]:
  "czeka p monitor1 \<longleftrightarrow> p = 20 \<or> p = 30 \<or> p = 40" "oczekuje p monitor1 = (if p = 20 \<or> p = 30 \<or> p = 40 then 1 else 0)"
  "mut monitor1 n = (if n = 5 then Some (10, [20, 30]) else None)"
  "zdarz monitor1 c = (if c = 7 then Some [(40, 5)] else None)"
  by (auto simp: oczekuje_def czeka_def miejsca_def monitor1_def)

lemma zadanie_pola [simp]:
  "m_source (zadanie p t n c) = p" "m_type (zadanie p t n c) = t" "m1_i1 (zadanie p t n c) = n"
  "m1_i2 (zadanie p t n c) = c" "m_type (od_pm t p) = t" "PM_PROC (od_pm t p) = p"
  by (simp_all add: zadanie_defs)

lemma miesci_sie_przyklad:
  "miesci_sie (a_krok (zadanie 10 CS_UNLOCK 5 0) monitor1)"
  "miesci_sie (a_krok (zadanie 10 CS_WAIT 5 7) monitor1)"
  "miesci_sie (a_krok (zadanie 10 CS_BROADCAST 0 7) monitor1)"
  by (auto simp: a_defs monitor1_def cs_defs errno_defs miesci_sie_def MAX_MUTEX_def MAX_CV_def MAX_CZEKA_def
      a_budz_Cons)

section \<open>The server implements the monitor\<close>

text \<open>
  C1. Every message is handled without undefined behaviour, keeps the invariant of the tables
  and acts as the step of the monitor, when the tables can hold the outcome and the process
  named by a message of the process manager is not the indeterminate value of a sentinel.
\<close>

theorem serwer_realizuje_monitor:
  assumes "niezmiennik s" and "miesci_sie (a_krok m (abstr s))"
    and "m_type m = CS_EINTR \<or> m_type m = CS_EXIT \<Longrightarrow> PM_PROC m \<notin> set (straznicy s)"
  shows "\<exists>s'. obslugaWiadomosci E m s = Some s' \<and> niezmiennik s' \<and> abstr s' = a_krok m (abstr s)"
  using obsluga_zgodne[OF assms, of E] by auto

theorem serwer_realizuje_monitor_przyklad:
  "\<exists>s s'. stan_serwera srod0 s \<and> abstr s = monitor1 \<and>
     obslugaWiadomosci srod0 (zadanie 10 CS_UNLOCK 5 0) s = Some s' \<and> mut (abstr s') 5 = Some (20, [30])"
proof -
  obtain s where s: "stan_serwera srod0 s" "niezmiennik s" "abstr s = monitor1" by (rule przyklad)
  with serwer_realizuje_monitor[of s "zadanie 10 CS_UNLOCK 5 0" srod0] miesci_sie_przyklad(1) obtain s' where
    "obslugaWiadomosci srod0 (zadanie 10 CS_UNLOCK 5 0) s = Some s'"
    "abstr s' = a_krok (zadanie 10 CS_UNLOCK 5 0) monitor1"
    by (auto simp: cs_defs)
  with s show ?thesis by (force simp: a_defs cs_defs)
qed

text \<open>
  C2. A whole run: from the start of \<^verbatim>\<open>main\<close>, every sequence of received messages that
  respects the protocol of the clients and fits the tables is processed to its end, and the
  tables then describe the monitor after the same messages. The processes named by the messages
  of the process manager are not the indeterminate value of a sentinel.
\<close>

theorem main_realizuje_monitor:
  assumes "ciag_ok (set (map (\<lambda>i. proces (smiec E i 1)) [0..<MAX_MUTEX])) rs monitor0"
  shows "\<exists>s. main_serwer E rs = Some s \<and> niezmiennik s \<and> abstr s = a_petla rs monitor0"
  using main_serwer_zgodne[OF assms] stan_serwera_zdrowy by blast

theorem main_realizuje_monitor_przyklad:
  "\<exists>s. main_serwer srod0 przebieg = Some s \<and> abstr s = monitor1"
  using main_realizuje_monitor[of srod0 przebieg] ciag_przebieg straznicy0
  by (auto simp: a_petla_przebieg simp del: set_map)

section \<open>Reachable states\<close>

lemma slot_z_numerem:
  assumes "niezmiennik s" "mut (abstr s) n = Some (w, q)"
  obtains i where "i < MAX_MUTEX" "uzywany (M s ! i) \<noteq> 0" "numer (M s ! i) = n"
    "wlasciciel (M s ! i) = w" "zawartosc (kolejka (M s ! i)) = q"
  using indeks_jest[OF assms] unfolding mutex_w_uzyciu_def by metis

lemma slot_w_tablicy:
  assumes "niezmiennik s" "i < MAX_MUTEX" "uzywany (M s ! i) \<noteq> 0"
  shows "mut (abstr s) (numer (M s ! i)) = Some (wlasciciel (M s ! i), zawartosc (kolejka (M s ! i)))"
  using tab_Some[OF niezmiennikD(3)[OF assms(1)], of i stan_mutexu] assms(2,3) niezmiennikD(1)[OF assms(1)]
  by (simp add: abstr_def mutex_w_uzyciu_def stan_mutexu_def)

text \<open>
  C3. Mutual exclusion and fair queues: in every reachable state a mutex has at most one slot
  and hence one owner, the owner is not in the queue of the mutex, no process is in the queue
  twice, and a process in a queue is in no other queue and waits for no event.
\<close>

theorem wzajemne_wykluczanie:
  assumes "stan_serwera E s" and "i < MAX_MUTEX" and "uzywany (M s ! i) \<noteq> 0"
  shows "distinct (zawartosc (kolejka (M s ! i))) \<and>
    wlasciciel (M s ! i) \<notin> set (zawartosc (kolejka (M s ! i))) \<and>
    (\<forall>j < MAX_MUTEX. uzywany (M s ! j) \<noteq> 0 \<and> numer (M s ! j) = numer (M s ! i) \<longrightarrow> j = i) \<and>
    (\<forall>p \<in> set (zawartosc (kolejka (M s ! i))). miejsca (abstr s) p = {W_kolejce (numer (M s ! i))})"
proof (intro conjI ballI)
  have I: "niezmiennik s" and P: "prot (abstr s)" using stan_serwera_zdrowy[OF assms(1)] by auto
  have m: "mut (abstr s) (numer (M s ! i)) = Some (wlasciciel (M s ! i), zawartosc (kolejka (M s ! i)))"
    using slot_w_tablicy[OF I assms(2,3)] .
  show "distinct (zawartosc (kolejka (M s ! i)))"
    "wlasciciel (M s ! i) \<notin> set (zawartosc (kolejka (M s ! i)))" using protD(1,2)[OF P m] .
  show "\<forall>j < MAX_MUTEX. uzywany (M s ! j) \<noteq> 0 \<and> numer (M s ! j) = numer (M s ! i) \<longrightarrow> j = i"
    using rozneD[OF niezmiennikD(3)[OF I], of _ i] assms(2,3) niezmiennikD(1)[OF I]
    by (auto simp: mutex_w_uzyciu_def)
  fix p assume "p \<in> set (zawartosc (kolejka (M s ! i)))"
  with m have "W_kolejce (numer (M s ! i)) \<in> miejsca (abstr s) p" by (auto simp: miejsca_iff)
  with protD(4)[OF P] show "miejsca (abstr s) p = {W_kolejce (numer (M s ! i))}" by blast
qed

theorem wzajemne_wykluczanie_przyklad:
  "\<exists>s i. stan_serwera srod0 s \<and> i < MAX_MUTEX \<and> numer (M s ! i) = 5 \<and> wlasciciel (M s ! i) = 10 \<and>
     zawartosc (kolejka (M s ! i)) = [20, 30] \<and> miejsca (abstr s) 20 = {W_kolejce 5}"
proof -
  obtain s where s: "stan_serwera srod0 s" "niezmiennik s" "abstr s = monitor1" by (rule przyklad)
  then obtain i where i: "i < MAX_MUTEX" "uzywany (M s ! i) \<noteq> 0" "numer (M s ! i) = 5"
    "wlasciciel (M s ! i) = 10" "zawartosc (kolejka (M s ! i)) = [20, 30]"
    using slot_z_numerem[of s 5 10 "[20, 30]"] by (metis przyklad_miejsca(3))
  have "miejsca (abstr s) 20 = {W_kolejce 5}"
    using wzajemne_wykluczanie[OF s(1) i(1,2)] i(3,5) by simp
  with s(1) i show ?thesis by blast
qed

section \<open>Requests of clients\<close>

lemma obsluga_klienta_stan:
  assumes "stan_serwera E s" "zadanie_klienta m" "miesci_sie (a_krok m (abstr s))"
  obtains s' where "obslugaWiadomosci E m s = Some s'" "abstr s' = a_krok m (abstr s)"
    "a_krok m (abstr s) = snd (a_klient m (abstr s))" "wyslane s' = wyslane s @ fst (a_klient m (abstr s))"
proof -
  have "niezmiennik s" using stan_serwera_zdrowy[OF assms(1)] by simp
  moreover have k: "a_krok m (abstr s) = snd (a_klient m (abstr s))"
    using assms(2) by (simp add: a_krok_def zadanie_klienta_def)
  ultimately show thesis using obsluga_klienta[of s m E] assms(2,3) that by auto
qed

text \<open>
  C4. No answer is lost and none is sent twice: a request adds one to what its sender is owed,
  and for every process the answers sent in the step and what it still waits for afterwards
  make up what it waited for before, plus one for the sender.
\<close>

theorem bilans_odpowiedzi:
  assumes "stan_serwera E s" and "zadanie_klienta m" and "\<not> czeka (m_source m) (abstr s)"
    and "miesci_sie (a_krok m (abstr s))"
  shows "\<exists>s' out. obslugaWiadomosci E m s = Some s' \<and> wyslane s' = wyslane s @ out \<and>
    (\<forall>r. odpowiedzi r out + oczekuje r (abstr s') = oczekuje r (abstr s) + (if r = m_source m then 1 else 0))"
proof -
  have P: "prot (abstr s)" using stan_serwera_zdrowy[OF assms(1)] by simp
  obtain s' where "obslugaWiadomosci E m s = Some s'" "abstr s' = snd (a_klient m (abstr s))"
    "wyslane s' = wyslane s @ fst (a_klient m (abstr s))"
    using obsluga_klienta_stan[OF assms(1,2,4)] by metis
  with bilans_klienta[OF P assms(2,3)] show ?thesis by auto
qed

theorem bilans_odpowiedzi_przyklad:
  "\<exists>s s' out. stan_serwera srod0 s \<and> obslugaWiadomosci srod0 (zadanie 10 CS_WAIT 5 7) s = Some s' \<and>
     wyslane s' = wyslane s @ out \<and> odpowiedzi 20 out + oczekuje 20 (abstr s') = 1 \<and>
     odpowiedzi 10 out + oczekuje 10 (abstr s') = 1"
proof -
  obtain s where s: "stan_serwera srod0 s" "niezmiennik s" "abstr s = monitor1" by (rule przyklad)
  from bilans_odpowiedzi[of srod0 s "zadanie 10 CS_WAIT 5 7"] s miesci_sie_przyklad(2) obtain s' out where
    "obslugaWiadomosci srod0 (zadanie 10 CS_WAIT 5 7) s = Some s'" "wyslane s' = wyslane s @ out"
    "\<forall>r. odpowiedzi r out + oczekuje r (abstr s') = oczekuje r monitor1 + (if r = 10 then 1 else 0)"
    by (auto simp: zadanie_klienta_def cs_defs)
  with s(1) show ?thesis by (intro exI[of _ s] exI[of _ s'] exI[of _ out]) simp
qed

text \<open>
  C7. A mutex is handed over in the order of its queue: when the owner unlocks it and
  processes wait, the first of them becomes the owner and is told so, the others keep their
  order, and the former owner gets \<^verbatim>\<open>OK\<close>; with an empty queue the mutex becomes free. All
  other mutexes and all events stay as they are.
\<close>

theorem unlock_przekazuje:
  assumes "niezmiennik s" and "m_type m = CS_UNLOCK" and "mut (abstr s) (m1_i1 m) = Some (m_source m, q)"
  shows "\<exists>s'. obslugaWiadomosci E m s = Some s' \<and>
    mut (abstr s') = (mut (abstr s))(m1_i1 m := (if q = [] then None else Some (hd q, tl q))) \<and>
    zdarz (abstr s') = zdarz (abstr s) \<and>
    wyslane s' = wyslane s @ (if q = [] then [] else [(hd q, OK)]) @ [(m_source m, OK)]"
proof -
  let ?s = "s\<lparr>aktualnyProces := m_source m\<rparr>"
  obtain r out \<sigma> where a: "a_unlock (m_source m) (m1_i1 m) (abstr s) = (r, out, \<sigma>)" by (rule prod_cases3)
  from cs_unlock_zgodne[of ?s "m1_i1 m" r out \<sigma> E] a assms(1) obtain s1 where s1:
    "cs_unlock E (m1_i1 m) ?s = Some (r, s1)" "abstr s1 = \<sigma>" "reszta ?s s1" "wyslane s1 = wyslane s @ out"
    by auto
  from a assms(3) have "r = OK" "out = (if q = [] then [] else [(hd q, OK)])"
    "mut \<sigma> = (mut (abstr s))(m1_i1 m := (if q = [] then None else Some (hd q, tl q)))"
    "zdarz \<sigma> = zdarz (abstr s)"
    by (cases q; auto simp: a_unlock_def)+
  with s1 assms(2) show ?thesis
    by (simp add: obslugaWiadomosci_def wykonaj_def Let_def cs_defs reszta_def)
qed

theorem unlock_przekazuje_przyklad:
  "\<exists>s s'. stan_serwera srod0 s \<and> obslugaWiadomosci srod0 (zadanie 10 CS_UNLOCK 5 0) s = Some s' \<and>
     mut (abstr s') 5 = Some (20, [30]) \<and> wyslane s' = wyslane s @ [(20, OK), (10, OK)]"
proof -
  obtain s where s: "stan_serwera srod0 s" "niezmiennik s" "abstr s = monitor1" by (rule przyklad)
  from unlock_przekazuje[OF s(2), of "zadanie 10 CS_UNLOCK 5 0" "[20, 30]" srod0] s(1,3) show ?thesis
    by auto
qed

text \<open>
  C8. Waiting is atomic: the owner of the mutex gives it up, the first in the queue of the
  mutex becomes its owner and is told so, and the caller is appended to the waiting list of
  the event with the number of the mutex; it gets no answer yet.
\<close>

theorem wait_oddaje_i_czeka:
  assumes "niezmiennik s" and "m_type m = CS_WAIT" and "mut (abstr s) (m1_i1 m) = Some (m_source m, q)"
    and "miejsce_cv (m1_i2 m) s"
  shows "\<exists>s'. obslugaWiadomosci E m s = Some s' \<and>
    mut (abstr s') = (mut (abstr s))(m1_i1 m := (if q = [] then None else Some (hd q, tl q))) \<and>
    zdarz (abstr s') = (zdarz (abstr s))
      (m1_i2 m \<mapsto> czekajacy_na (m1_i2 m) (abstr s) @ [(m_source m, m1_i1 m)]) \<and>
    wyslane s' = wyslane s @ (if q = [] then [] else [(hd q, OK)])"
proof -
  let ?s = "s\<lparr>aktualnyProces := m_source m\<rparr>"
  obtain r out \<sigma> where a: "a_wait (m_source m) (m1_i2 m) (m1_i1 m) (abstr s) = (r, out, \<sigma>)" by (rule prod_cases3)
  from assms(4) have mj: "miejsce_cv (m1_i2 m) ?s"
    by (simp add: miejsce_cv_def wolneCv_def)
  from cs_wait_zgodne[of ?s "m1_i1 m" "m1_i2 m" r out \<sigma> E] a mj assms(1) obtain s1 where s1:
    "cs_wait E (m1_i2 m) (m1_i1 m) ?s = Some (r, s1)" "abstr s1 = \<sigma>" "reszta ?s s1" "wyslane s1 = wyslane s @ out"
    by auto
  from a assms(3) have "r = EDONTREPLY" "out = (if q = [] then [] else [(hd q, OK)])"
    "mut \<sigma> = (mut (abstr s))(m1_i1 m := (if q = [] then None else Some (hd q, tl q)))"
    "zdarz \<sigma> = (zdarz (abstr s))(m1_i2 m \<mapsto> czekajacy_na (m1_i2 m) (abstr s) @ [(m_source m, m1_i1 m)])"
    by (cases q; auto simp: a_unlock_def a_wait_def ma_mutex_def czekajacy_na_def)+
  with s1 assms(2) show ?thesis
    by (simp add: obslugaWiadomosci_def wykonaj_def Let_def cs_defs)
qed

lemma miejsce_przyklad: "niezmiennik s \<Longrightarrow> abstr s = monitor1 \<Longrightarrow> miejsce_cv 7 s"
  by (simp add: miejsce_cv_def wolne_cv_iff czekajacy_na_def MAX_CZEKA_def)

theorem wait_oddaje_i_czeka_przyklad:
  "\<exists>s s'. stan_serwera srod0 s \<and> obslugaWiadomosci srod0 (zadanie 10 CS_WAIT 5 7) s = Some s' \<and>
     mut (abstr s') 5 = Some (20, [30]) \<and> zdarz (abstr s') 7 = Some [(40, 5), (10, 5)] \<and>
     wyslane s' = wyslane s @ [(20, OK)]"
proof -
  obtain s where s: "stan_serwera srod0 s" "niezmiennik s" "abstr s = monitor1" by (rule przyklad)
  from wait_oddaje_i_czeka[OF s(2), of "zadanie 10 CS_WAIT 5 7" "[20, 30]" srod0] s(1,3) miejsce_przyklad[OF s(2,3)]
  show ?thesis by (auto simp: czekajacy_na_def)
qed

text \<open>
  C25. Locking, on every branch: a free mutex goes to the caller, who gets \<^verbatim>\<open>OK\<close>; a caller that
  owns it already gets \<^verbatim>\<open>EPERM\<close> and nothing changes; any other caller is appended to the
  queue and gets no answer yet.
\<close>

theorem lock_zajmuje:
  assumes "niezmiennik s" and "m_type m = CS_LOCK"
    and "mut (abstr s) (m1_i1 m) = None \<Longrightarrow> card (dom (mut (abstr s))) < MAX_MUTEX"
  shows "\<exists>s'. obslugaWiadomosci E m s = Some s' \<and> zdarz (abstr s') = zdarz (abstr s) \<and>
    (case mut (abstr s) (m1_i1 m) of
       None \<Rightarrow> mut (abstr s') = (mut (abstr s))(m1_i1 m \<mapsto> (m_source m, [])) \<and>
         wyslane s' = wyslane s @ [(m_source m, OK)]
     | Some (w, q) \<Rightarrow>
         if w = m_source m then mut (abstr s') = mut (abstr s) \<and> wyslane s' = wyslane s @ [(m_source m, EPERM)]
         else mut (abstr s') = (mut (abstr s))(m1_i1 m \<mapsto> (w, q @ [m_source m])) \<and> wyslane s' = wyslane s)"
  using lock_wynik[OF assms] .

theorem lock_zajmuje_przyklad:
  "\<exists>s s'. stan_serwera srod0 s \<and> obslugaWiadomosci srod0 (zadanie 50 CS_LOCK 5 0) s = Some s' \<and>
     mut (abstr s') 5 = Some (10, [20, 30, 50]) \<and> wyslane s' = wyslane s"
proof -
  obtain s where s: "stan_serwera srod0 s" "niezmiennik s" "abstr s = monitor1" by (rule przyklad)
  from lock_zajmuje[OF s(2), of "zadanie 50 CS_LOCK 5 0" srod0] s(1,3) show ?thesis by auto
qed

text \<open>
  C9. A broadcast wakes every process that waits for the event, and each has to get its mutex
  back first: for every mutex the processes that wait with it join its queue in the order in
  which they began to wait, the first of them as the owner when the mutex is free. No process
  waits for the event afterwards, and the caller gets \<^verbatim>\<open>OK\<close>.
\<close>

theorem broadcast_budzi:
  assumes "stan_serwera E s" and "m_type m = CS_BROADCAST" and "miesci_sie (a_krok m (abstr s))"
  shows "\<exists>s' out. obslugaWiadomosci E m s = Some s' \<and>
    (\<forall>n. mut (abstr s') n =
       ustaw_w_kolejce (z_mutexem n (czekajacy_na (m1_i2 m) (abstr s))) (mut (abstr s) n)) \<and>
    zdarz (abstr s') = (zdarz (abstr s))(m1_i2 m := None) \<and>
    wyslane s' = wyslane s @ out @ [(m_source m, OK)]"
proof -
  have P: "prot (abstr s)" using stan_serwera_zdrowy[OF assms(1)] by simp
  have z: "zadanie_klienta m" using assms(2) by (simp add: zadanie_klienta_def cs_defs)
  obtain s' where s': "obslugaWiadomosci E m s = Some s'" "abstr s' = snd (a_klient m (abstr s))"
    "wyslane s' = wyslane s @ fst (a_klient m (abstr s))"
    using obsluga_klienta_stan[OF assms(1) z assms(3)] by metis
  have "a_klient m (abstr s) = (fst (snd (a_broadcast (m1_i2 m) (abstr s))) @ [(m_source m, OK)],
      snd (snd (a_broadcast (m1_i2 m) (abstr s))))"
    using assms(2) by (simp add: krok_monitora a_broadcast_alt cs_defs)
  with s' a_broadcast_mut[OF P, of "m1_i2 m"] show ?thesis by auto
qed

theorem broadcast_budzi_przyklad:
  "\<exists>s s'. stan_serwera srod0 s \<and> obslugaWiadomosci srod0 (zadanie 10 CS_BROADCAST 0 7) s = Some s' \<and>
     mut (abstr s') 5 = Some (10, [20, 30, 40]) \<and> zdarz (abstr s') 7 = None"
proof -
  obtain s where s: "stan_serwera srod0 s" "niezmiennik s" "abstr s = monitor1" by (rule przyklad)
  from broadcast_budzi[OF s(1), of "zadanie 10 CS_BROADCAST 0 7"] s(1,3) miesci_sie_przyklad(3) obtain s' where
    "obslugaWiadomosci srod0 (zadanie 10 CS_BROADCAST 0 7) s = Some s'"
    "mut (abstr s') 5 = ustaw_w_kolejce (z_mutexem 5 (czekajacy_na 7 monitor1)) (mut monitor1 5)"
    "zdarz (abstr s') = (zdarz monitor1)(7 := None)" by auto
  with s(1) show ?thesis by (auto simp: ustaw_w_kolejce_def z_mutexem_def czekajacy_na_def)
qed

text \<open>
  C27. A client that asks for something it may not do changes nothing and gets one answer. Unlocking a mutex it does not own is
  answered with \<^verbatim>\<open>EPERM\<close> and an unknown request with \<^verbatim>\<open>EINVAL\<close>, which are negative, so that the library gives \<open>-1\<close> and sets \<^verbatim>\<open>errno\<close>. Waiting
  with a mutex it does not own is answered with \<^verbatim>\<open>-EINVAL\<close>, which in the server is the positive number 22 and no error for the library, against the
  comment of \<^verbatim>\<open>cs_wait\<close> in \<^verbatim>\<open>cv.c\<close>, which promises \<open>-1\<close> and \<^verbatim>\<open>EINVAL\<close>.
\<close>

theorem odmowa_bez_zmian:
  assumes "niezmiennik s"
    and "m_type m = CS_UNLOCK \<and> \<not> ma_mutex (m_source m) (m1_i1 m) (abstr s) \<and> r = EPERM \<or>
      m_type m = CS_WAIT \<and> \<not> ma_mutex (m_source m) (m1_i1 m) (abstr s) \<and> r = 22 \<or>
      (m_type m < 1 \<or> m_type m > 6) \<and> r = EINVAL"
  shows "\<exists>s'. obslugaWiadomosci E m s = Some s' \<and> M s' = M s \<and> CV s' = CV s \<and>
    wyslane s' = wyslane s @ [(m_source m, r)] \<and> (r < 0 \<longleftrightarrow> m_type m \<noteq> CS_WAIT)"
proof -
  have "(r < 0) = (m_type m \<noteq> CS_WAIT)" using assms(2) by (auto simp: EPERM_def EINVAL_def cs_defs)
  with odmowa[of s m r E] assms show ?thesis by (simp add: EINVAL_def)
qed

theorem odmowa_bez_zmian_przyklad:
  "\<exists>s s' s''. stan_serwera srod0 s \<and> obslugaWiadomosci srod0 (zadanie 50 CS_WAIT 5 7) s = Some s' \<and>
     M s' = M s \<and> CV s' = CV s \<and> wyslane s' = wyslane s @ [(50, 22)] \<and>
     obslugaWiadomosci srod0 (zadanie 50 CS_UNLOCK 5 0) s = Some s'' \<and> M s'' = M s \<and> wyslane s'' = wyslane s @ [(50, EPERM)]"
proof -
  obtain s where s: "stan_serwera srod0 s" "niezmiennik s" "abstr s = monitor1" by (rule przyklad)
  from odmowa_bez_zmian[OF s(2), of "zadanie 50 CS_WAIT 5 7" 22 srod0] odmowa_bez_zmian[OF s(2), of "zadanie 50 CS_UNLOCK 5 0" EPERM srod0] s(1,3)
  show ?thesis by (auto simp: ma_mutex_def cs_defs)
qed

section \<open>Requests of the process manager\<close>

lemma usun_pare_filter: "distinct (map fst ws) \<Longrightarrow> usun_pare p ws = filter (\<lambda>(r, n). r \<noteq> p) ws"
proof (induction p ws rule: usun_pare.induct)
  case (2 p r n ws)
  moreover have "filter (\<lambda>(r', n). r' \<noteq> r) ws = ws" if "r \<notin> fst ` set ws"
    using that by (intro filter_True) force
  ultimately show ?case by auto
qed simp

text \<open>Taking a process out of the waiting lists keeps the order of the others.\<close>

lemma bez_procesu_kolejki:
  assumes "prot \<sigma>"
  shows "mut (bez_procesu p \<sigma>) n = map_option (\<lambda>(w, q). (w, filter (\<lambda>r. r \<noteq> p) q)) (mut \<sigma> n)"
    "czekajacy_na c (bez_procesu p \<sigma>) = filter (\<lambda>(r, n). r \<noteq> p) (czekajacy_na c \<sigma>)"
proof -
  show "mut (bez_procesu p \<sigma>) n = map_option (\<lambda>(w, q). (w, filter (\<lambda>r. r \<noteq> p) q)) (mut \<sigma> n)"
    using protD(1)[OF assms, of n] by (cases "mut \<sigma> n") (auto simp: bez_procesu_def distinct_remove1_removeAll removeAll_filter_not_eq intro: filter_cong)
  show "czekajacy_na c (bez_procesu p \<sigma>) = filter (\<lambda>(r, n). r \<noteq> p) (czekajacy_na c \<sigma>)"
    using protD(3)[OF assms, of c] by (cases "zdarz \<sigma> c") (auto simp: czekajacy_na_def bez_procesu_def bez_zdarzen_def usun_pare_filter)
qed

text \<open>
  C6. A process that got a signal is told \<^verbatim>\<open>EINTR\<close> exactly once when it waits and not at all
  when it does not; afterwards it waits nowhere, and nothing else changes: every mutex has its
  owner, every queue of a mutex and every list of an event has lost only this process, and the others stand there in the same
  order. The process is not the indeterminate value of a sentinel of a queue.
\<close>

theorem eintr_przerywa_czekanie:
  assumes "stan_serwera E s" and "m_type m = CS_EINTR" and "PM_PROC m \<notin> set (straznicy s)"
  shows "\<exists>s'. obslugaWiadomosci E m s = Some s' \<and>
    wyslane s' = wyslane s @ (if czeka (PM_PROC m) (abstr s) then [(PM_PROC m, EINTR)] else []) \<and>
    (\<forall>n. mut (abstr s') n = map_option (\<lambda>(w, q). (w, filter (\<lambda>r. r \<noteq> PM_PROC m) q)) (mut (abstr s) n)) \<and>
    (\<forall>c. czekajacy_na c (abstr s') = filter (\<lambda>(r, n). r \<noteq> PM_PROC m) (czekajacy_na c (abstr s))) \<and>
    (\<forall>r. miejsca (abstr s') r = (if r = PM_PROC m then {} else miejsca (abstr s) r)) \<and>
    (\<forall>r n. ma_mutex r n (abstr s') = ma_mutex r n (abstr s))"
proof -
  have I: "niezmiennik s" and P: "prot (abstr s)" using stan_serwera_zdrowy[OF assms(1)] by auto
  from obsluga_eintr[OF I assms(2), of E] assms(3) obtain s' where s': "obslugaWiadomosci E m s = Some s'"
    "abstr s' = bez_procesu (PM_PROC m) (abstr s)"
    "wyslane s' = wyslane s @ replicate (oczekuje (PM_PROC m) (abstr s)) (PM_PROC m, EINTR)"
    by (auto simp: liczba_znalezien[OF I P] a_eintr_alt)
  then show ?thesis by (simp add: miejsca_bez_procesu[OF P] bez_procesu_kolejki[OF P] oczekuje_def)
qed

theorem eintr_przerywa_czekanie_przyklad:
  "\<exists>s s'. stan_serwera srod0 s \<and> obslugaWiadomosci srod0 (od_pm CS_EINTR 40) s = Some s' \<and>
     wyslane s' = wyslane s @ [(40, EINTR)] \<and> miejsca (abstr s') 40 = {}"
proof -
  obtain s where s: "stan_serwera srod0 s" "abstr s = monitor1" "set (straznicy s) = {0}" by (rule przyklad)
  with eintr_przerywa_czekanie[of srod0 s "od_pm CS_EINTR 40"] show ?thesis by auto
qed

text \<open>
  C5. When a process ends, it owns no mutex and waits nowhere; each of its mutexes passes to
  the first process in the queue, which is told so once, or becomes free; all others lose only
  the ended process from their queues, and every other process waits as before unless it got a
  mutex. The process is not the indeterminate value of a sentinel.
\<close>

theorem exit_zwalnia:
  assumes "stan_serwera E s" and "m_type m = CS_EXIT" and "p = PM_PROC m" and "p \<notin> set (straznicy s)"
  shows "\<exists>s' out. obslugaWiadomosci E m s = Some s' \<and> wyslane s' = wyslane s @ out \<and>
    \<not> czeka p (abstr s') \<and> (\<forall>n. \<not> ma_mutex p n (abstr s')) \<and>
    (\<forall>n. mut (abstr s') n =
       (case mut (abstr s) n of
          None \<Rightarrow> None
        | Some (w, q) \<Rightarrow> if w = p then (case q of [] \<Rightarrow> None | x # xs \<Rightarrow> Some (x, xs)) else Some (w, remove1 p q))) \<and>
    (\<forall>r. odpowiedzi r out = (if nastepca p (abstr s) r then 1 else 0)) \<and>
    (\<forall>r. r \<noteq> p \<longrightarrow> czeka r (abstr s') = (czeka r (abstr s) \<and> \<not> nastepca p (abstr s) r))"
proof -
  have I: "niezmiennik s" and P: "prot (abstr s)" using stan_serwera_zdrowy[OF assms(1)] by auto
  let ?out = "concat (map (nowy_wlasciciel p) (M s))"
  from obsluga_exit[OF I assms(2), of E] assms(3,4) obtain s' where s': "obslugaWiadomosci E m s = Some s'"
    "abstr s' = a_exit p (abstr s)" "wyslane s' = wyslane s @ ?out" by auto
  have mut: "mut (abstr s') n = (case mut (abstr s) n of None \<Rightarrow> None
      | Some (w, q) \<Rightarrow> if w = p then (case q of [] \<Rightarrow> None | x # xs \<Rightarrow> Some (x, xs)) else Some (w, remove1 p q))" for n
    using a_exit_skutek(3,4)[OF P, where n = n and p = p] s'(2) by (cases "mut (abstr s) n") auto
  show ?thesis
    by (rule exI[of _ s'], rule exI[of _ ?out], intro conjI)
      (use s' mut a_exit_skutek(1,2,5)[OF P] odpowiedzi_exit[OF I P] in simp_all)
qed

theorem exit_zwalnia_przyklad:
  "\<exists>s s'. stan_serwera srod0 s \<and> obslugaWiadomosci srod0 (od_pm CS_EXIT 10) s = Some s' \<and>
     mut (abstr s') 5 = Some (20, [30]) \<and> \<not> czeka 20 (abstr s') \<and> czeka 30 (abstr s')"
proof -
  obtain s where s: "stan_serwera srod0 s" "abstr s = monitor1" "set (straznicy s) = {0}" by (rule przyklad)
  with exit_zwalnia[of srod0 s "od_pm CS_EXIT 10" 10] obtain s' out where
    s': "obslugaWiadomosci srod0 (od_pm CS_EXIT 10) s = Some s'"
    "\<And>n. mut (abstr s') n = (case mut monitor1 n of None \<Rightarrow> None
        | Some (w, q) \<Rightarrow> if w = 10 then (case q of [] \<Rightarrow> None | x # xs \<Rightarrow> Some (x, xs)) else Some (w, remove1 10 q))"
    "\<And>r. r \<noteq> 10 \<Longrightarrow> czeka r (abstr s') = (czeka r monitor1 \<and> \<not> nastepca 10 monitor1 r)" by auto
  have "nastepca 10 monitor1 20" "\<not> nastepca 10 monitor1 30" by (simp_all add: nastepca_def)
  with s(1) s'(1) s'(2)[of 5] s'(3)[of 20] s'(3)[of 30] show ?thesis by auto
qed

text \<open>
  The server acts on \<^verbatim>\<open>CS_EXIT\<close> from any process: the sender of the message has no effect
  on the outcome, so a client can release the mutexes of another process.
\<close>

lemma exit_od_kogokolwiek:
  assumes "m_type m = CS_EXIT"
  shows "obslugaWiadomosci E (m\<lparr>m_source := q\<rparr>) s =
    map_option (\<lambda>s'. s'\<lparr>aktualnyProces := q\<rparr>) (obslugaWiadomosci E m s)"
proof -
  have "usunZakonczonyProces E p (s\<lparr>aktualnyProces := a\<rparr>) =
      map_option (\<lambda>s'. s'\<lparr>aktualnyProces := a\<rparr>) (usunZakonczonyProces E p s)" for p a
    by (auto simp: usunZakonczonyProces_def Let_def split: bind_splits)
  with assms show ?thesis
    by (cases "usunZakonczonyProces E (PM_PROC m) s") (simp_all add: obslugaWiadomosci_def wykonaj_def cs_defs)
qed

lemma exit_od_kogokolwiek_przyklad:
  "\<exists>s s'. stan_serwera srod0 s \<and> ma_mutex 10 5 (abstr s) \<and>
     obslugaWiadomosci srod0 (od_pm CS_EXIT 10\<lparr>m_source := 99\<rparr>) s = Some s' \<and> ma_mutex 20 5 (abstr s')"
proof -
  obtain s where s: "stan_serwera srod0 s" "niezmiennik s" "abstr s = monitor1" "set (straznicy s) = {0}"
    by (rule przyklad)
  have "m_type (od_pm CS_EXIT 10) = CS_EXIT" by simp
  from obsluga_exit[OF s(2) this, of srod0] s(3,4) obtain s' where
    "obslugaWiadomosci srod0 (od_pm CS_EXIT 10) s = Some s'" "abstr s' = a_exit 10 monitor1" by auto
  then have "obslugaWiadomosci srod0 (od_pm CS_EXIT 10\<lparr>m_source := 99\<rparr>) s = Some (s'\<lparr>aktualnyProces := 99\<rparr>)"
    "ma_mutex 20 5 (abstr (s'\<lparr>aktualnyProces := 99\<rparr>))"
    by (simp_all add: exit_od_kogokolwiek a_exit_def przekaz_def ma_mutex_def)
  with s(1,3) show ?thesis by (force simp: ma_mutex_def)
qed

section \<open>The limits of the tables\<close>

text \<open>
  C32. The requests that run out of a table: locking writes past the end of \<^verbatim>\<open>M\<close> exactly when
  the mutex is new and all \<^term>\<open>MAX_MUTEX\<close> slots are in use, and waiting writes past the end of \<^verbatim>\<open>CV\<close>
  or of its lists exactly when the caller owns the mutex and there is neither a slot for the
  event nor room in it.
\<close>

theorem poza_tablica:
  assumes "niezmiennik s" and "aktualnyProces s = p"
  shows "(cs_lock E n s = None \<longleftrightarrow> mut (abstr s) n = None \<and> card (dom (mut (abstr s))) = MAX_MUTEX) \<and>
    (cs_wait E c n s = None \<longleftrightarrow> ma_mutex p n (abstr s) \<and>
       (zdarz (abstr s) c = None \<and> card (dom (zdarz (abstr s))) = MAX_CV \<or>
        length (czekajacy_na c (abstr s)) = MAX_CZEKA))"
proof -
  have "card (dom (zdarz (abstr s))) \<le> MAX_CV"
    using niezmiennikD(2,4)[OF assms(1)] length_filter_le[of cv_w_uzyciu "CV s"]
    by (simp add: abstr_def card_dom_tab)
  moreover have "length (czekajacy_na c (abstr s)) \<le> MAX_CZEKA"
  proof (cases "zdarz (abstr s) c")
    case (Some ws)
    then obtain i where "dobre_cv (CV s ! i)" "czekajacy (CV s ! i) = ws"
      by (rule indeks_cv_jest[OF assms(1)])
    with Some dlugosc_czekajacych[of "CV s ! i"] show ?thesis
      by (auto simp: czekajacy_na_def dobre_cv_def)
  qed (simp add: czekajacy_na_def)
  ultimately have "\<not> miejsce_cv c s \<longleftrightarrow> zdarz (abstr s) c = None \<and> card (dom (zdarz (abstr s))) = MAX_CV \<or>
      length (czekajacy_na c (abstr s)) = MAX_CZEKA"
    by (auto simp: miejsce_cv_def wolne_cv_iff[OF assms(1)])
  with cs_lock_None_iff[OF assms(1), of E n] cs_wait_None_iff[OF assms(1), of E c n] assms(2) show ?thesis
    by simp
qed

theorem poza_tablica_przyklad: "\<exists>s. stan_serwera srod0 s \<and> cs_lock srod0 6 s \<noteq> None"
proof -
  obtain s where s: "stan_serwera srod0 s" "niezmiennik s" "abstr s = monitor1" by (rule przyklad)
  have "dom (mut monitor1) = {5}" by (auto split: if_splits)
  with s poza_tablica[OF s(2) refl, of srod0 6] show ?thesis by (auto simp: MAX_MUTEX_def)
qed

section \<open>The start of the server\<close>

text \<open>
  The initialisation in \<^verbatim>\<open>main\<close> succeeds and leaves well-formed tables in which no mutex is
  owned, nobody waits and nothing has been sent.
\<close>

lemma start_pusty:
  "\<exists>s. main_start E = Some s \<and> niezmiennik s \<and> abstr s = monitor0 \<and> wyslane s = [] \<and>
     list_all (\<lambda>m. uzywany m = 0 \<and> zawartosc (kolejka m) = []) (M s) \<and>
     list_all (\<lambda>c. cv_uzywany c = 0) (CV s)"
proof -
  from main_start_ok[of E] obtain s where s: "main_start E = Some s" "niezmiennik s" "abstr s = monitor0"
    "wyjscie s = []" by blast
  have "\<not> mutex_w_uzyciu (M s ! i)" if "i < MAX_MUTEX" for i
    using s(3) that niezmiennikD(1)[OF s(2)] tab_Some[OF niezmiennikD(3)[OF s(2)], of i stan_mutexu]
    by (auto simp: abstr_def monitor0_def)
  moreover have "\<not> cv_w_uzyciu (CV s ! i)" if "i < MAX_CV" for i
    using s(3) that niezmiennikD(2)[OF s(2)] tab_Some[OF niezmiennikD(4)[OF s(2)], of i czekajacy]
    by (auto simp: abstr_def monitor0_def)
  ultimately show ?thesis
    using s niezmiennikD(1,2,5)[OF s(2)]
    by (auto simp: list_all_length wyslane_def mutex_w_uzyciu_def cv_w_uzyciu_def dobry_mutex_def)
qed

section \<open>The sentinel of a queue\<close>

text \<open>
  C36. The loops over a queue start at its sentinel, whose process field is never written. When
  the indeterminate value there is the process that got a signal, the process is told \<^verbatim>\<open>EINTR\<close>
  but stays in the queue: the mutex will be handed to a process that gave up waiting.
\<close>

theorem straznik_zostawia_w_kolejce:
  assumes "niezmiennik s" and "m_type m = CS_EINTR" and "i < MAX_MUTEX"
    and "PM_PROC m \<in> set (zawartosc (kolejka (M s ! i)))" and "straznik (kolejka (M s ! i)) = PM_PROC m"
  shows "\<exists>s'. obslugaWiadomosci E m s = Some s' \<and> (PM_PROC m, EINTR) \<in> set (wyslane s') \<and>
    PM_PROC m \<in> set (zawartosc (kolejka (M s' ! i)))"
proof -
  let ?p = "PM_PROC m" and ?s = "s\<lparr>aktualnyProces := m_source m\<rparr>"
  from petla_eintrMutex[of ?s E ?p] assms(1) obtain s1 where s1: "FOR 0 MAX_MUTEX (eintrMutex E ?p) ?s = Some s1"
    "list_all2 (po_usunieciu_mutex ?p) (M s) (M s1)" "CV s1 = CV s"
    "wyslane s1 = wyslane s @ replicate (length (filter (trafiony ?p) (M s))) (?p, EINTR)" by auto
  have "length (CV s1) = MAX_CV" "list_all dobre_cv (CV s1)" using assms(1) s1(3) by (auto simp: niezmiennik_def)
  from petla_eintrCv[OF this, of E ?p] obtain s2 k where s2: "FOR 0 MAX_CV (eintrCv E ?p) s1 = Some s2"
    "M s2 = M s1" "wyslane s2 = wyslane s1 @ replicate k (?p, EINTR)" by blast
  have i: "i < length (M s)" using assms(1,3) by (simp add: niezmiennik_def)
  have "trafiony ?p (M s ! i)" using assms(4,5) by (auto simp: trafiony_def)
  with i have "M s ! i \<in> set (filter (trafiony ?p) (M s))" by simp
  then have "0 < length (filter (trafiony ?p) (M s))" using length_pos_if_in_set by fast
  moreover have "zawartosc (kolejka (M s1 ! i)) = zawartosc (kolejka (M s ! i))"
    using list_all2_nthD[OF s1(2) i] assms(5) by (simp add: po_usunieciu_mutex_def)
  moreover have "obslugaWiadomosci E m s = Some s2"
    using s1(1) s2(1) assms(2) by (simp add: obslugaWiadomosci_def wykonaj_def wyslijEINTR_def cs_defs)
  ultimately show ?thesis using s1(4) s2(2,3) assms(4) by auto
qed

theorem straznik_zostawia_w_kolejce_przyklad:
  "\<exists>E s s' i. stan_serwera E s \<and> obslugaWiadomosci E (od_pm CS_EINTR 20) s = Some s' \<and>
     (20, EINTR) \<in> set (wyslane s') \<and> 20 \<in> set (zawartosc (kolejka (M s' ! i)))"
proof -
  let ?E = "srod0\<lparr>smiec := (\<lambda>i a. \<lparr>nastepny = NULL, proces = 20\<rparr>)\<rparr>"
  obtain s where s: "stan_serwera ?E s" "niezmiennik s" "abstr s = monitor1"
    "straznicy s = map (\<lambda>i. proces (smiec ?E i 1)) [0..<MAX_MUTEX]" by (rule przyklad_smiec)
  obtain i where i: "i < MAX_MUTEX" "zawartosc (kolejka (M s ! i)) = [20, 30]"
    using slot_z_numerem[of s 5 10 "[20, 30]"] s by (metis przyklad_miejsca(3))
  have "straznik (kolejka (M s ! i)) = straznicy s ! i"
    using i niezmiennikD(1)[OF s(2)] by (simp add: straznicy_def)
  also have "\<dots> = 20" using s(4) i by simp
  finally show ?thesis
    using straznik_zostawia_w_kolejce[OF s(2) _ i(1), of "od_pm CS_EINTR 20" ?E] i s(1) by auto
qed

end
