(* ===== verification/Libc.thy ===== *)
theory Libc
  imports Komunikaty
begin

text \<open>
  The client library, \<^verbatim>\<open>lib/libc/sys-minix/cv.c\<close>. The calls it makes, \<^verbatim>\<open>minix_rs_lookup\<close> and
  \<^verbatim>\<open>_syscall\<close>, are not part of the sources and are fields of a record: functions of the state
  of the calling process, which holds \<^verbatim>\<open>errno\<close> and the rest of the world. A function of the
  library that may wait for ever has the result \<^term>\<open>None\<close> when it does not return.
\<close>

section \<open>Calls of the library\<close>

record 'w klient =
  errno :: int
  swiat :: 'w

record 'w system =
  minix_rs_lookup :: "string \<Rightarrow> 'w klient \<Rightarrow> int \<times> 'w klient"
  syscall :: "int \<Rightarrow> int \<Rightarrow> message \<Rightarrow> 'w klient \<Rightarrow> int \<times> 'w klient"

definition EINTR_klienta :: int where "EINTR_klienta = 4"

text \<open>The endpoint that the lookup stores in its argument; its result code is not read.\<close>

definition get_cv :: "'w system \<Rightarrow> 'w klient \<Rightarrow> int \<times> 'w klient" where
  "get_cv S k = minix_rs_lookup S ''cv'' k"

definition send_message :: "'w system \<Rightarrow> int \<Rightarrow> int \<Rightarrow> int \<Rightarrow> 'w klient \<Rightarrow> int \<times> 'w klient" where
  "send_message S type mutex_id cv_id k =
     (let (cv, k) = get_cv S k;
          m = \<lparr>m_source = 0, m_type = 0, m1_i1 = mutex_id, m1_i2 = cv_id, PM_PROC = 0\<rparr>
      in syscall S cv type m k)"

partial_function (option) libc_cs_lock :: "'w system \<Rightarrow> int \<Rightarrow> 'w klient \<Rightarrow> (int \<times> 'w klient) option" where
  "libc_cs_lock S mutex_id k =
     (let (result, k) = send_message S CS_LOCK mutex_id 0 k in
      if - 1 = result then
        (if EINTR_klienta = errno k then libc_cs_lock S mutex_id k else Some (- 1, k))
      else Some (result, k))"

definition libc_cs_unlock :: "'w system \<Rightarrow> int \<Rightarrow> 'w klient \<Rightarrow> int \<times> 'w klient" where
  "libc_cs_unlock S mutex_id k = send_message S CS_UNLOCK mutex_id 0 k"

definition libc_cs_wait :: "'w system \<Rightarrow> int \<Rightarrow> int \<Rightarrow> 'w klient \<Rightarrow> (int \<times> 'w klient) option" where
  "libc_cs_wait S cv_id mutex_id k =
     (let (result, k) = send_message S CS_WAIT mutex_id cv_id k in
      if - 1 = result then
        (if EINTR_klienta = errno k then
           do { (r, k) \<leftarrow> libc_cs_lock S mutex_id k; Some (if - 1 = r then - 1 else 0, k) }
         else Some (- 1, k))
      else Some (result, k))"

definition libc_cs_broadcast :: "'w system \<Rightarrow> int \<Rightarrow> 'w klient \<Rightarrow> int \<times> 'w klient" where
  "libc_cs_broadcast S cv_id k = send_message S CS_BROADCAST 0 cv_id k"

section \<open>The loop of \<^verbatim>\<open>cs_lock\<close>\<close>

definition przerwane :: "int \<times> 'w klient \<Rightarrow> bool" where
  "przerwane rk \<longleftrightarrow> fst rk = - 1 \<and> errno (snd rk) = EINTR_klienta"

text \<open>The outcome of the attempt number \<open>j\<close>, counted from zero, of the loop.\<close>

fun proba :: "'w system \<Rightarrow> int \<Rightarrow> 'w klient \<Rightarrow> nat \<Rightarrow> int \<times> 'w klient" where
  "proba S n k 0 = send_message S CS_LOCK n 0 k"
| "proba S n k (Suc j) = send_message S CS_LOCK n 0 (snd (proba S n k j))"

lemma proba_dalej: "proba S n (snd (send_message S CS_LOCK n 0 k)) j = proba S n k (Suc j)"
  by (induction j) auto

lemma libc_cs_lock_krok:
  "libc_cs_lock S n k =
     (if przerwane (proba S n k 0) then libc_cs_lock S n (snd (proba S n k 0)) else Some (proba S n k 0))"
  by (subst libc_cs_lock.simps) (auto simp: przerwane_def split_def Let_def prod_eq_iff)

lemma libc_cs_lock_po_przerwaniach:
  "(\<forall>i < j. przerwane (proba S n k i)) \<Longrightarrow> \<not> przerwane (proba S n k j) \<Longrightarrow>
    libc_cs_lock S n k = Some (proba S n k j)"
proof (induction j arbitrary: k)
  case 0
  then show ?case by (subst libc_cs_lock_krok) simp
next
  case (Suc j)
  let ?k = "snd (proba S n k 0)"
  have eq: "proba S n ?k i = proba S n k (Suc i)" for i using proba_dalej[of S n k i] by simp
  have pr: "\<forall>i < j. przerwane (proba S n ?k i)" using Suc.prems(1) eq by (metis Suc_mono)
  have "przerwane (proba S n k 0)" using Suc.prems(1) by blast
  then have "libc_cs_lock S n k = libc_cs_lock S n ?k" by (subst libc_cs_lock_krok) simp
  also have "\<dots> = Some (proba S n k (Suc j))"
    using Suc.IH[OF pr] Suc.prems(2) unfolding eq .
  finally show ?case .
qed

text \<open>By induction over the rounds of the loop: a call that returns made finitely many attempts.\<close>

lemma libc_cs_lock_wynik:
  assumes "libc_cs_lock S n k = Some rk"
  shows "\<exists>j. (\<forall>i < j. przerwane (proba S n k i)) \<and> \<not> przerwane (proba S n k j) \<and> rk = proba S n k j"
proof (rule libc_cs_lock.raw_induct[OF _ assms])
  fix f :: "'a system \<Rightarrow> int \<Rightarrow> 'a klient \<Rightarrow> (int \<times> 'a klient) option" and S n k rk
  assume IH: "\<And>S n k rk. f S n k = Some rk \<Longrightarrow>
      \<exists>j. (\<forall>i < j. przerwane (proba S n k i)) \<and> \<not> przerwane (proba S n k j) \<and> rk = proba S n k j"
    and run: "(let (result, k) = send_message S CS_LOCK n 0 k in
      if - 1 = result then (if EINTR_klienta = errno k then f S n k else Some (- 1, k))
      else Some (result, k)) = Some rk"
  show "\<exists>j. (\<forall>i < j. przerwane (proba S n k i)) \<and> \<not> przerwane (proba S n k j) \<and> rk = proba S n k j"
  proof (cases "przerwane (proba S n k 0)")
    case True
    let ?k = "snd (proba S n k 0)"
    have eq: "proba S n ?k i = proba S n k (Suc i)" for i using proba_dalej[of S n k i] by simp
    have "f S n ?k = Some rk" using True run by (simp add: przerwane_def split_def Let_def)
    from IH[OF this] obtain j where j: "\<forall>i < j. przerwane (proba S n k (Suc i))"
      "\<not> przerwane (proba S n k (Suc j))" "rk = proba S n k (Suc j)" unfolding eq by blast
    have "\<forall>i < Suc j. przerwane (proba S n k i)" using j(1) True by (metis less_Suc_eq_0_disj)
    with j show ?thesis by blast
  next
    case False
    then have "rk = proba S n k 0"
      using run by (auto simp: przerwane_def split_def Let_def prod_eq_iff split: if_splits)
    with False show ?thesis by blast
  qed
qed

section \<open>Properties\<close>

text \<open>
  C33. \<^verbatim>\<open>cs_lock\<close> returns the outcome of its first attempt that is not interrupted by a signal;
  it returns if there is such an attempt, and a signal never shows as its result.
\<close>

theorem cs_lock_wznawia:
  "libc_cs_lock S n k = Some rk \<longleftrightarrow>
     (\<exists>j. (\<forall>i < j. przerwane (proba S n k i)) \<and> \<not> przerwane (proba S n k j) \<and> rk = proba S n k j)"
  using libc_cs_lock_wynik libc_cs_lock_po_przerwaniach by metis

text \<open>A system that interrupts the first call and answers the others with zero.\<close>

definition przerywa_raz :: "nat system" where
  "przerywa_raz = \<lparr>minix_rs_lookup = (\<lambda>nazwa k. (7, k)),
     syscall = (\<lambda>cv t m k. if swiat k = 0 then (- 1, \<lparr>errno = 4, swiat = 1\<rparr>) else (0, k))\<rparr>"

lemmas przerywa_defs = przerywa_raz_def send_message_def get_cv_def przerwane_def EINTR_klienta_def

theorem cs_lock_wznawia_przyklad:
  "libc_cs_lock przerywa_raz 5 \<lparr>errno = 0, swiat = 0\<rparr> = Some (0, \<lparr>errno = 4, swiat = 1\<rparr>)"
  unfolding cs_lock_wznawia
  by (rule exI[of _ "Suc 0"]) (simp add: przerywa_defs)

text \<open>
  C34. A \<^verbatim>\<open>cs_wait\<close> that is interrupted takes the mutex back with \<^verbatim>\<open>cs_lock\<close> before it returns, with
  zero unless the lock fails; whatever \<^verbatim>\<open>cs_wait\<close> returns, it is not an interruption.
\<close>

theorem cs_wait_wznawia:
  assumes "libc_cs_wait S c n k = Some rk"
  shows "\<not> przerwane rk \<and>
    (przerwane (send_message S CS_WAIT n c k) \<longrightarrow>
      (\<exists>r k'. libc_cs_lock S n (snd (send_message S CS_WAIT n c k)) = Some (r, k') \<and>
         rk = (if r = - 1 then - 1 else 0, k')))"
proof (cases "przerwane (send_message S CS_WAIT n c k)")
  case True
  let ?k = "snd (send_message S CS_WAIT n c k)"
  from True assms obtain r k' where l: "libc_cs_lock S n ?k = Some (r, k')"
    and rk: "rk = (if r = - 1 then - 1 else 0, k')"
    by (auto simp: libc_cs_wait_def przerwane_def split_def Let_def bind_eq_Some_conv split: if_splits)
  from libc_cs_lock_wynik[OF l] have "\<not> przerwane (r, k')" by auto
  then have "\<not> przerwane rk" using rk by (auto simp: przerwane_def)
  with l rk show ?thesis by blast
next
  case False
  then have "rk = send_message S CS_WAIT n c k"
    using assms by (auto simp: libc_cs_wait_def przerwane_def split_def Let_def prod_eq_iff split: if_splits)
  with False show ?thesis by blast
qed

theorem cs_wait_wznawia_przyklad:
  "libc_cs_wait przerywa_raz 7 5 \<lparr>errno = 0, swiat = 0\<rparr> = Some (0, \<lparr>errno = 4, swiat = 1\<rparr>) \<and>
     \<not> przerwane (0, \<lparr>errno = 4, swiat = (1::nat)\<rparr>)"
proof -
  have l: "libc_cs_lock przerywa_raz 5 \<lparr>errno = 4, swiat = 1\<rparr> = Some (0, \<lparr>errno = 4, swiat = 1\<rparr>)"
    by (subst libc_cs_lock.simps) (simp add: przerywa_defs)
  have sm: "send_message przerywa_raz CS_WAIT 5 7 \<lparr>errno = 0, swiat = 0\<rparr> = (- 1, \<lparr>errno = 4, swiat = 1\<rparr>)"
    by (simp add: przerywa_defs)
  have w: "libc_cs_wait przerywa_raz 7 5 \<lparr>errno = 0, swiat = 0\<rparr> = Some (0, \<lparr>errno = 4, swiat = 1\<rparr>)"
    unfolding libc_cs_wait_def sm by (simp add: EINTR_klienta_def l[simplified])
  with cs_wait_wznawia[OF w] show ?thesis by simp
qed

end
