(* ===== verification/Klient.thy ===== *)
theory Klient
  imports Wlasnosci Libc
begin

text \<open>
  The client library together with the server: what a caller of the library sees when the
  server answers its request. The kernel's \<^verbatim>\<open>_syscall\<close> is assumed to do what its
  documentation says: it sends the message, takes the type of the answer as the status,
  stores a negative status in \<^verbatim>\<open>errno\<close> with its sign changed and returns \<^verbatim>\<open>-1\<close> for it.
\<close>

section \<open>The kernel between client and server\<close>

text \<open>The result of \<^verbatim>\<open>_syscall\<close> for the status \<open>r\<close> of the answer.\<close>

definition wynik_syscall :: "int \<Rightarrow> 'w \<Rightarrow> 'w klient \<Rightarrow> int \<times> 'w klient" where
  "wynik_syscall r w k = (if r < 0 then (- 1, \<lparr>errno = - r, swiat = w\<rparr>) else (r, k\<lparr>swiat := w\<rparr>))"

text \<open>
  The process \<open>p\<close> is connected to the server: the lookup changes nothing, and a request that
  the server answers at once returns with that answer.
\<close>

definition polaczony :: "srodowisko \<Rightarrow> int \<Rightarrow> serwer system \<Rightarrow> bool" where
  "polaczony E p S \<longleftrightarrow>
     (\<forall>k. snd (minix_rs_lookup S ''cv'' k) = k) \<and>
     (\<forall>cv t m k s' out r.
        obslugaWiadomosci E (m\<lparr>m_type := t, m_source := p\<rparr>) (swiat k) = Some s' \<longrightarrow>
        wyslane s' = wyslane (swiat k) @ out @ [(p, r)] \<longrightarrow> syscall S cv t m k = wynik_syscall r s' k)"

text \<open>Such a connection exists.\<close>

definition polacz :: "srodowisko \<Rightarrow> int \<Rightarrow> serwer system" where
  "polacz E p =
     \<lparr>minix_rs_lookup = (\<lambda>nazwa k. (11, k)),
      syscall = (\<lambda>cv t m k.
        case obslugaWiadomosci E (m\<lparr>m_type := t, m_source := p\<rparr>) (swiat k) of
          None \<Rightarrow> (- 1, k)
        | Some s' \<Rightarrow> wynik_syscall (snd (last (wyslane s'))) s' k)\<rparr>"

lemma polacz_polaczony: "polaczony E p (polacz E p)"
  by (auto simp: polaczony_def polacz_def)

lemma send_message_odpowiedz:
  assumes "polaczony E p S"
    and "obslugaWiadomosci E \<lparr>m_source = p, m_type = t, m1_i1 = n, m1_i2 = c, PM_PROC = 0\<rparr> (swiat k) = Some s'"
    and "wyslane s' = wyslane (swiat k) @ out @ [(p, r)]"
  shows "send_message S t n c k = wynik_syscall r s' k"
  using assms by (simp add: polaczony_def send_message_def get_cv_def split_def)

section \<open>What the caller sees\<close>

text \<open>
  \<^verbatim>\<open>cs_unlock\<close> of a mutex the caller does not own returns \<^verbatim>\<open>-1\<close> with \<^verbatim>\<open>errno\<close> set to \<^verbatim>\<open>EPERM\<close>
  (1), and changes nothing on the server, as its comment says.
\<close>

lemma klient_unlock_EPERM:
  assumes "polaczony E p S" and "niezmiennik (swiat k)" and "\<not> ma_mutex p n (abstr (swiat k))"
  shows "\<exists>s'. libc_cs_unlock S n k = (- 1, \<lparr>errno = 1, swiat = s'\<rparr>) \<and>
    M s' = M (swiat k) \<and> CV s' = CV (swiat k)"
proof -
  let ?m = "\<lparr>m_source = p, m_type = CS_UNLOCK, m1_i1 = n, m1_i2 = 0, PM_PROC = 0\<rparr>"
  from odmowa[OF assms(2), of ?m EPERM E] assms(3) obtain s' where s': "obslugaWiadomosci E ?m (swiat k) = Some s'"
    "M s' = M (swiat k)" "CV s' = CV (swiat k)" "wyslane s' = wyslane (swiat k) @ [] @ [(p, EPERM)]" by auto
  from send_message_odpowiedz[OF assms(1) s'(1,4)] s'(2,3) show ?thesis
    by (simp add: libc_cs_unlock_def wynik_syscall_def EPERM_def)
qed

lemma klient_unlock_EPERM_przyklad:
  "\<exists>s s'. stan_serwera srod0 s \<and>
     libc_cs_unlock (polacz srod0 20) 5 \<lparr>errno = 0, swiat = s\<rparr> = (- 1, \<lparr>errno = 1, swiat = s'\<rparr>) \<and> M s' = M s"
proof -
  obtain s where s: "stan_serwera srod0 s" "niezmiennik s" "abstr s = monitor1" by (rule przyklad)
  from klient_unlock_EPERM[OF polacz_polaczony, of "\<lparr>errno = 0, swiat = s\<rparr>" 20 5 srod0] s show ?thesis
    by (auto simp: ma_mutex_def)
qed

text \<open>
  C35. \<^verbatim>\<open>cs_wait\<close> with a mutex the caller does not own does not return \<^verbatim>\<open>-1\<close> with \<^verbatim>\<open>EINVAL\<close>, as its
  comment says: the server changes the sign of the already negative \<^verbatim>\<open>EINVAL\<close>, so the call
  returns 22 and \<^verbatim>\<open>errno\<close> keeps its value.
\<close>

theorem klient_wait_zwraca_22:
  assumes "polaczony E p S" and "niezmiennik (swiat k)" and "\<not> ma_mutex p n (abstr (swiat k))"
  shows "\<exists>s'. libc_cs_wait S c n k = Some (22, k\<lparr>swiat := s'\<rparr>) \<and>
    M s' = M (swiat k) \<and> CV s' = CV (swiat k)"
proof -
  let ?m = "\<lparr>m_source = p, m_type = CS_WAIT, m1_i1 = n, m1_i2 = c, PM_PROC = 0\<rparr>"
  from odmowa[OF assms(2), of ?m "- EINVAL" E] assms(3) obtain s' where
    s': "obslugaWiadomosci E ?m (swiat k) = Some s'"
    "M s' = M (swiat k)" "CV s' = CV (swiat k)" "wyslane s' = wyslane (swiat k) @ [] @ [(p, - EINVAL)]" by auto
  from send_message_odpowiedz[OF assms(1) s'(1,4)] s'(2,3) show ?thesis
    by (intro exI[of _ s']) (simp add: libc_cs_wait_def wynik_syscall_def EINVAL_def)
qed

theorem klient_wait_zwraca_22_przyklad:
  "\<exists>s s'. stan_serwera srod0 s \<and>
     libc_cs_wait (polacz srod0 20) 7 5 \<lparr>errno = 0, swiat = s\<rparr> = Some (22, \<lparr>errno = 0, swiat = s'\<rparr>)"
proof -
  obtain s where s: "stan_serwera srod0 s" "niezmiennik s" "abstr s = monitor1" by (rule przyklad)
  from klient_wait_zwraca_22[OF polacz_polaczony, of "\<lparr>errno = 0, swiat = s\<rparr>" 20 5 srod0 7] s show ?thesis
    by (auto simp: ma_mutex_def)
qed

text \<open>
  \<^verbatim>\<open>cs_lock\<close> of a free mutex returns 0 at once and makes the caller its owner; of a mutex
  the caller owns already it returns \<^verbatim>\<open>-1\<close> with \<^verbatim>\<open>EPERM\<close> and changes nothing.
\<close>

lemma klient_lock:
  assumes "polaczony E p S" and "niezmiennik (swiat k)"
    and "mut (abstr (swiat k)) n = None \<and> card (dom (mut (abstr (swiat k)))) < MAX_MUTEX \<or>
      ma_mutex p n (abstr (swiat k))"
  shows "\<exists>s'. ma_mutex p n (abstr s') \<and> libc_cs_lock S n k =
    Some (if mut (abstr (swiat k)) n = None then (0, k\<lparr>swiat := s'\<rparr>) else (- 1, \<lparr>errno = 1, swiat = s'\<rparr>))"
proof -
  let ?m = "\<lparr>m_source = p, m_type = CS_LOCK, m1_i1 = n, m1_i2 = 0, PM_PROC = 0\<rparr>"
  let ?r = "if mut (abstr (swiat k)) n = None then OK else EPERM"
  from lock_wynik[OF assms(2), of ?m E] assms(3) obtain s' where
    s': "obslugaWiadomosci E ?m (swiat k) = Some s'" "ma_mutex p n (abstr s')"
    "wyslane s' = wyslane (swiat k) @ [] @ [(p, ?r)]"
    by (auto simp: ma_mutex_def split: option.splits)
  note sm = send_message_odpowiedz[OF assms(1) s'(1,3)]
  have "libc_cs_lock S n k =
      Some (if mut (abstr (swiat k)) n = None then (0, k\<lparr>swiat := s'\<rparr>) else (- 1, \<lparr>errno = 1, swiat = s'\<rparr>))"
    by (subst libc_cs_lock.simps)
      (simp add: sm wynik_syscall_def OK_def EPERM_def EINTR_klienta_def)
  with s'(2) show ?thesis by blast
qed

lemma klient_lock_przyklad:
  "\<exists>s s'. stan_serwera srod0 s \<and> ma_mutex 20 6 (abstr s') \<and>
     libc_cs_lock (polacz srod0 20) 6 \<lparr>errno = 0, swiat = s\<rparr> = Some (0, \<lparr>errno = 0, swiat = s'\<rparr>)"
proof -
  obtain s where s: "stan_serwera srod0 s" "niezmiennik s" "abstr s = monitor1" by (rule przyklad)
  have "dom (mut monitor1) = {5}" by (auto split: if_splits)
  with klient_lock[OF polacz_polaczony, of "\<lparr>errno = 0, swiat = s\<rparr>" 6 20 srod0] s show ?thesis
    by (auto simp: MAX_MUTEX_def)
qed

end
