(* ===== verification/Uklad.thy ===== *)
theory Uklad
  imports Klient
begin

text \<open>
  Client processes together with the server. A client program is given by its control points: what it does at
  each of them, and where it goes on with the result. The processes run in any order; a request blocks its sender until
  the server answers; the requests and the ends of processes go to the server of \<open>Serwer\<close>. The test programs
  under \<^verbatim>\<open>testy/src\<close> are such clients.
\<close>

section \<open>Processes and their steps\<close>

text \<open>
  The actions of a program with the control points \<open>'l\<close>: it exits, sends a request to the server, writes to its
  standard output, calls \<^verbatim>\<open>fork\<close> or \<^verbatim>\<open>wait\<close>, reads a block from a pipe or writes one to it, ends all processes of its
  group with \<^verbatim>\<open>kill(0, SIGTERM)\<close>, or only goes on.
\<close>

datatype 'l akcja =
    Koniec int
  | Zadanie int int int "int \<Rightarrow> 'l"
  | Pisz string 'l
  | Rozwidl "int \<Rightarrow> 'l"
  | Czekaj_dziecka "int \<Rightarrow> 'l"
  | Odczyt "int list \<Rightarrow> 'l"
  | Zapis "int list" 'l
  | Zabij_grupe
  | Dalej 'l

datatype 'l proces_k = Nie_ma | Dziala 'l | Zablokowany "int \<Rightarrow> 'l" | Zombie int

record 'l uklad =
  serw :: serwer
  stany :: "int \<Rightarrow> 'l proces_k"
  rodzic :: "int \<Rightarrow> int"
  stdout :: string
  potok :: "int list list"

text \<open>
  The calls of the client library as actions: the status \<open>r\<close> of the answer becomes the result of \<^verbatim>\<open>_syscall\<close>, and an
  interrupted \<^verbatim>\<open>cs_lock\<close> is sent again. An interrupted \<^verbatim>\<open>cs_wait\<close> goes on at the control point that takes the mutex
  again.
\<close>

definition status :: "int \<Rightarrow> int" where
  "status r = (if r < 0 then - 1 else r)"

definition lib_cs_lock :: "int \<Rightarrow> 'l \<Rightarrow> (int \<Rightarrow> 'l) \<Rightarrow> 'l akcja" where
  "lib_cs_lock n ponow k = Zadanie CS_LOCK n 0 (\<lambda>r. if r = - EINTR_klienta then ponow else k (status r))"

definition lib_cs_unlock :: "int \<Rightarrow> (int \<Rightarrow> 'l) \<Rightarrow> 'l akcja" where
  "lib_cs_unlock n k = Zadanie CS_UNLOCK n 0 (\<lambda>r. k (status r))"

definition lib_cs_wait :: "int \<Rightarrow> int \<Rightarrow> 'l \<Rightarrow> (int \<Rightarrow> 'l) \<Rightarrow> 'l akcja" where
  "lib_cs_wait c n przerwany k = Zadanie CS_WAIT n c (\<lambda>r. if r = - EINTR_klienta then przerwany else k (status r))"

definition lib_cs_broadcast :: "int \<Rightarrow> (int \<Rightarrow> 'l) \<Rightarrow> 'l akcja" where
  "lib_cs_broadcast c k = Zadanie CS_BROADCAST 0 c (\<lambda>r. k (status r))"

lemmas lib_defs = lib_cs_lock_def lib_cs_unlock_def lib_cs_wait_def lib_cs_broadcast_def status_def EINTR_klienta_def OK_def

text \<open>The answers of the server reach the processes that are blocked in a call.\<close>

fun dorecz :: "(int \<times> int) list \<Rightarrow> (int \<Rightarrow> 'l proces_k) \<Rightarrow> int \<Rightarrow> 'l proces_k" where
  "dorecz [] S = S"
| "dorecz ((q, r) # out) S = dorecz out (case S q of Zablokowany f \<Rightarrow> S(q := Dziala (f r)) | _ \<Rightarrow> S)"

lemma odpowiedzi_niezero: "(q, r) \<in> set out \<Longrightarrow> odpowiedzi q out \<noteq> 0"
  by (induction out) auto

lemma dorecz_inny: "odpowiedzi q out = 0 \<Longrightarrow> dorecz out S q = S q"
  by (induction out S rule: dorecz.induct) (auto split: proces_k.splits if_splits)

lemma dorecz_niezablokowany: "(\<forall>f. S q \<noteq> Zablokowany f) \<Longrightarrow> dorecz out S q = S q"
proof (induction out S rule: dorecz.induct)
  case (2 p r out S)
  then show ?case by (cases "S p"; cases "p = q") (auto simp: fun_upd_def)
qed simp

lemma dorecz_odpowiedz:
  "S q = Zablokowany f \<Longrightarrow> odpowiedzi q out \<noteq> 0 \<Longrightarrow> \<exists>r. (q, r) \<in> set out \<and> dorecz out S q = Dziala (f r)"
proof (induction out S rule: dorecz.induct)
  case (2 p r out S)
  show ?case
  proof (cases "p = q")
    case True
    with 2 show ?thesis by (auto simp: dorecz_niezablokowany)
  next
    case False
    with 2 show ?thesis by (cases "S p") (auto simp: fun_upd_def)
  qed
qed simp

text \<open>The three outcomes for one process.\<close>

lemma dorecz_przypadki:
  obtains (bez) "dorecz out S q = S q" "odpowiedzi q out = 0 \<or> (\<forall>f. S q \<noteq> Zablokowany f)"
  | (odpowiedz) f r where "S q = Zablokowany f" "(q, r) \<in> set out" "dorecz out S q = Dziala (f r)"
  by (metis dorecz_inny dorecz_niezablokowany dorecz_odpowiedz)

fun trwa :: "'l proces_k \<Rightarrow> bool" where
  "trwa (Dziala l) = True"
| "trwa (Zablokowany f) = True"
| "trwa _ = False"

definition SIGTERM :: int where "SIGTERM = 15"

text \<open>The messages of the process manager when the processes \<open>qs\<close> end.\<close>

abbreviation konce :: "int list \<Rightarrow> message option list" where
  "konce qs \<equiv> map (\<lambda>q. Some (od_pm CS_EXIT q)) qs"

text \<open>
  The steps. \<open>Ep\<close> are the endpoints that processes can have, \<open>N\<close> the size of the process table. What \<^verbatim>\<open>fork\<close> and
  \<^verbatim>\<open>wait\<close> return on success is some positive process number; a \<^verbatim>\<open>fork\<close> may fail at any time.
\<close>

inductive krok_ukladu :: "srodowisko \<Rightarrow> ('l \<Rightarrow> 'l akcja) \<Rightarrow> int set \<Rightarrow> nat \<Rightarrow> 'l uklad \<Rightarrow> 'l uklad \<Rightarrow> bool"
  for E A Ep N where
  zadanie: "stany u p = Dziala l \<Longrightarrow> A l = Zadanie t n c f \<Longrightarrow>
    obslugaWiadomosci E (zadanie p t n c) (serw u) = Some s \<Longrightarrow> wyslane s = wyslane (serw u) @ out \<Longrightarrow>
    krok_ukladu E A Ep N u (u\<lparr>serw := s, stany := dorecz out ((stany u)(p := Zablokowany f))\<rparr>)"
| koniec: "stany u p = Dziala l \<Longrightarrow> A l = Koniec k \<Longrightarrow>
    obslugaWiadomosci E (od_pm CS_EXIT p) (serw u) = Some s \<Longrightarrow> wyslane s = wyslane (serw u) @ out \<Longrightarrow>
    krok_ukladu E A Ep N u (u\<lparr>serw := s, stany := dorecz out ((stany u)(p := Zombie k))\<rparr>)"
| pisz: "stany u p = Dziala l \<Longrightarrow> A l = Pisz x l' \<Longrightarrow>
    krok_ukladu E A Ep N u (u\<lparr>stany := (stany u)(p := Dziala l'), stdout := stdout u @ x\<rparr>)"
| rozwidl: "stany u p = Dziala l \<Longrightarrow> A l = Rozwidl f \<Longrightarrow> stany u q = Nie_ma \<Longrightarrow> q \<in> Ep \<Longrightarrow>
    card {r. stany u r \<noteq> Nie_ma} < N \<Longrightarrow> 0 < k \<Longrightarrow>
    krok_ukladu E A Ep N u (u\<lparr>stany := (stany u)(p := Dziala (f k), q := Dziala (f 0)), rodzic := (rodzic u)(q := p)\<rparr>)"
| rozwidl_blad: "stany u p = Dziala l \<Longrightarrow> A l = Rozwidl f \<Longrightarrow>
    krok_ukladu E A Ep N u (u\<lparr>stany := (stany u)(p := Dziala (f (- 1)))\<rparr>)"
| dziecko: "stany u p = Dziala l \<Longrightarrow> A l = Czekaj_dziecka f \<Longrightarrow> stany u q = Zombie j \<Longrightarrow> rodzic u q = p \<Longrightarrow> 0 < k \<Longrightarrow>
    krok_ukladu E A Ep N u (u\<lparr>stany := (stany u)(q := Nie_ma, p := Dziala (f k))\<rparr>)"
| bez_dzieci: "stany u p = Dziala l \<Longrightarrow> A l = Czekaj_dziecka f \<Longrightarrow> \<forall>q. rodzic u q = p \<longrightarrow> stany u q = Nie_ma \<Longrightarrow>
    krok_ukladu E A Ep N u (u\<lparr>stany := (stany u)(p := Dziala (f (- 1)))\<rparr>)"
| odczyt: "stany u p = Dziala l \<Longrightarrow> A l = Odczyt f \<Longrightarrow> potok u = b # bs \<Longrightarrow>
    krok_ukladu E A Ep N u (u\<lparr>stany := (stany u)(p := Dziala (f b)), potok := bs\<rparr>)"
| zapis: "stany u p = Dziala l \<Longrightarrow> A l = Zapis b l' \<Longrightarrow>
    krok_ukladu E A Ep N u (u\<lparr>stany := (stany u)(p := Dziala l'), potok := potok u @ [b]\<rparr>)"
| zabij: "stany u p = Dziala l \<Longrightarrow> A l = Zabij_grupe \<Longrightarrow> set qs = {q. trwa (stany u q)} \<Longrightarrow> distinct qs \<Longrightarrow>
    main_petla E (konce qs) (serw u) = Some s \<Longrightarrow>
    krok_ukladu E A Ep N u (u\<lparr>serw := s, stany := (\<lambda>q. if trwa (stany u q) then Zombie (- SIGTERM) else stany u q)\<rparr>)"
| dalej: "stany u p = Dziala l \<Longrightarrow> A l = Dalej l' \<Longrightarrow>
    krok_ukladu E A Ep N u (u\<lparr>stany := (stany u)(p := Dziala l')\<rparr>)"

text \<open>Actions without the pipe and the signal.\<close>

fun zwykla :: "'l akcja \<Rightarrow> bool" where
  "zwykla (Odczyt f) = False" | "zwykla (Zapis b l) = False" | "zwykla Zabij_grupe = False" | "zwykla _ = True"

text \<open>A program starts as the process \<open>p\<close> at its first control point, next to a server that has just started.\<close>

definition poczatek_ukladu :: "srodowisko \<Rightarrow> int \<Rightarrow> 'l \<Rightarrow> 'l uklad \<Rightarrow> bool" where
  "poczatek_ukladu E p l u \<longleftrightarrow> main_start E = Some (serw u) \<and> stany u = (\<lambda>_. Nie_ma)(p := Dziala l) \<and>
     rodzic u p \<noteq> p \<and> stdout u = [] \<and> potok u = []"

text \<open>The endpoints that processes have: none is the indeterminate value in a sentinel of the server.\<close>

definition endpointy :: "srodowisko \<Rightarrow> int set" where
  "endpointy E = {p. \<forall>i < MAX_MUTEX. proces (smiec E i 1) \<noteq> p}"

lemma endpointy0: "10 \<in> endpointy srod0" "20 \<in> endpointy srod0" "30 \<in> endpointy srod0"
  by (auto simp: endpointy_def srod0_def)

section \<open>Resources\<close>

definition w_zasobach :: "int set \<Rightarrow> int set \<Rightarrow> monitor \<Rightarrow> bool" where
  "w_zasobach MU CVs \<sigma> \<longleftrightarrow> dom (mut \<sigma>) \<subseteq> MU \<and> dom (zdarz \<sigma>) \<subseteq> CVs \<and>
     (\<forall>c ws. zdarz \<sigma> c = Some ws \<longrightarrow> snd ` set ws \<subseteq> MU)"

definition zadanie_w_zasobach :: "int set \<Rightarrow> int set \<Rightarrow> int \<Rightarrow> int \<Rightarrow> int \<Rightarrow> bool" where
  "zadanie_w_zasobach MU CVs t n c \<longleftrightarrow> 1 \<le> t \<and> t \<le> 4 \<and> (t = CS_LOCK \<longrightarrow> n \<in> MU) \<and> (t = CS_WAIT \<longrightarrow> n \<in> MU \<and> c \<in> CVs)"

lemma a_lock_zasoby: "w_zasobach MU CVs \<sigma> \<Longrightarrow> n \<in> MU \<Longrightarrow> w_zasobach MU CVs (snd (a_lock p n \<sigma>))"
  by (auto simp: w_zasobach_def a_lock_def dom_def split: option.splits)

lemma a_unlock_zasoby: "w_zasobach MU CVs \<sigma> \<Longrightarrow> w_zasobach MU CVs (snd (snd (a_unlock p n \<sigma>)))"
  by (cases rule: a_unlock_przypadki[of p n \<sigma>]) (auto simp: w_zasobach_def)

lemma a_budz_zasoby: "w_zasobach MU CVs \<sigma> \<Longrightarrow> snd ` set ws \<subseteq> MU \<Longrightarrow> w_zasobach MU CVs (snd (a_budz ws \<sigma>))"
  by (induction ws arbitrary: \<sigma>) (auto simp: a_budz_Cons a_lock_zasoby)

lemma czekajacy_zasoby: "w_zasobach MU CVs \<sigma> \<Longrightarrow> snd ` set (czekajacy_na c \<sigma>) \<subseteq> MU"
  by (cases "zdarz \<sigma> c") (auto simp: w_zasobach_def czekajacy_na_def)

lemma a_wait_zasoby:
  assumes "w_zasobach MU CVs \<sigma>" "n \<in> MU" "c \<in> CVs"
  shows "w_zasobach MU CVs (snd (snd (a_wait p c n \<sigma>)))"
proof -
  have "w_zasobach MU CVs (\<sigma>'\<lparr>zdarz := (zdarz \<sigma>')(c \<mapsto> czekajacy_na c \<sigma>' @ [(p, n)])\<rparr>)" if "w_zasobach MU CVs \<sigma>'" for \<sigma>'
    using that czekajacy_zasoby[OF that, of c] assms(2,3) by (simp add: w_zasobach_def)
  with a_unlock_zasoby[OF assms(1), of p n] assms(1) show ?thesis by (simp add: a_wait_def split_def Let_def)
qed

lemma a_broadcast_zasoby:
  assumes "w_zasobach MU CVs \<sigma>"
  shows "w_zasobach MU CVs (snd (snd (a_broadcast c \<sigma>)))"
proof -
  have "w_zasobach MU CVs (\<sigma>'\<lparr>zdarz := (zdarz \<sigma>')(c := None)\<rparr>)" if "w_zasobach MU CVs \<sigma>'" for \<sigma>'
    using that by (auto simp: w_zasobach_def)
  from this[OF a_budz_zasoby[OF assms czekajacy_zasoby[OF assms]]] show ?thesis by (simp add: a_broadcast_def split_def Let_def)
qed

lemma a_klient_zasoby:
  assumes z: "w_zasobach MU CVs \<sigma>" and t: "zadanie_w_zasobach MU CVs t n c"
  shows "w_zasobach MU CVs (snd (a_klient (zadanie p t n c) \<sigma>))"
proof -
  consider "t = CS_LOCK" "n \<in> MU" | "t = CS_UNLOCK" | "t = CS_WAIT" "n \<in> MU" "c \<in> CVs" | "t = CS_BROADCAST"
    using t unfolding zadanie_w_zasobach_def cs_defs by linarith
  then show ?thesis
    by cases (use z a_lock_zasoby a_unlock_zasoby a_wait_zasoby a_broadcast_zasoby in \<open>simp_all add: krok_monitora cs_defs\<close>)
qed

lemma set_usun_pare_podzbior: "w \<in> set (usun_pare p ws) \<Longrightarrow> w \<in> set ws"
  by (induction p ws rule: usun_pare.induct) (auto split: if_splits)

lemma a_exit_zasoby:
  assumes "w_zasobach MU CVs \<sigma>"
  shows "w_zasobach MU CVs (a_exit p \<sigma>)"
proof -
  have m: "dom (mut (a_exit p \<sigma>)) \<subseteq> dom (mut \<sigma>)"
  proof
    fix n assume "n \<in> dom (mut (a_exit p \<sigma>))"
    then show "n \<in> dom (mut \<sigma>)" by (cases "mut \<sigma> n") (auto simp: a_exit_def)
  qed
  have z: "\<exists>vs. zdarz \<sigma> c = Some vs \<and> set ws \<subseteq> set vs" if "zdarz (a_exit p \<sigma>) c = Some ws" for c ws
    using that set_usun_pare_podzbior by (cases "zdarz \<sigma> c") (auto simp: a_exit_def bez_zdarzen_def split: if_splits)
  then have "dom (zdarz (a_exit p \<sigma>)) \<subseteq> dom (zdarz \<sigma>)" by fastforce
  with m z assms show ?thesis unfolding w_zasobach_def by (meson image_mono order_trans)
qed

text \<open>Every answer but the one to the sender of a request reports success.\<close>

lemma odpowiedzi_OK:
  assumes "(q, r) \<in> set (fst (a_klient m \<sigma>))" "q \<noteq> m_source m"
  shows "r = OK"
proof -
  have "r' = OK" if "(q', r') \<in> set (fst (a_budz ws \<sigma>'))" for q' r' ws \<sigma>'
    using that by (induction ws arbitrary: \<sigma>') (auto simp: a_budz_Cons split: if_splits)
  moreover have "r' = OK" if "(q', r') \<in> set (fst (snd (a_unlock p' n' \<sigma>')))" for q' r' p' n' \<sigma>'
    using that by (cases rule: a_unlock_przypadki[of p' n' \<sigma>']) auto
  ultimately show ?thesis using assms
    by (auto simp: krok_monitora a_wait_def a_broadcast_def split: if_splits)
qed

section \<open>The clients keep the protocol of the server\<close>

text \<open>
  A process is blocked exactly while the server has it waiting. The laws of a program: its requests stay within a number
  of mutexes and events that the tables of the server can hold, and no endpoint is the indeterminate value of a sentinel.
\<close>

definition zywe :: "'l uklad \<Rightarrow> int set" where
  "zywe u = {q. stany u q \<noteq> Nie_ma}"

definition spojny :: "srodowisko \<Rightarrow> int set \<Rightarrow> nat \<Rightarrow> int set \<Rightarrow> int set \<Rightarrow> 'l uklad \<Rightarrow> bool" where
  "spojny E Ep N MU CVs u \<longleftrightarrow> stan_serwera E (serw u) \<and> straznicy (serw u) = map (\<lambda>i. proces (smiec E i 1)) [0..<MAX_MUTEX] \<and>
     (\<forall>p. czeka p (abstr (serw u)) \<longleftrightarrow> (\<exists>f. stany u p = Zablokowany f)) \<and>
     finite (zywe u) \<and> card (zywe u) \<le> N \<and> zywe u \<subseteq> Ep \<and> w_zasobach MU CVs (abstr (serw u))"

locale klienci =
  fixes E :: srodowisko
    and A :: "'l \<Rightarrow> 'l akcja"
    and Ep :: "int set"
    and N :: nat
    and MU CVs :: "int set"
  assumes straznicy_obcy: "i < MAX_MUTEX \<Longrightarrow> proces (smiec E i 1) \<notin> Ep"
    and tablica_procesow: "N \<le> MAX_CZEKA"
    and mutexy: "finite MU" "card MU \<le> MAX_MUTEX"
    and zdarzenia: "finite CVs" "card CVs \<le> MAX_CV"
    and zadania: "A l = Zadanie t n c f \<Longrightarrow> zadanie_w_zasobach MU CVs t n c"
begin

lemma miesci_sie_zasoby:
  assumes "w_zasobach MU CVs \<sigma>" "prot \<sigma>" "{q. czeka q \<sigma>} \<subseteq> Z" "finite Z" "card Z \<le> N"
  shows "miesci_sie \<sigma>"
proof (rule miesci_sie_map)
  show "card (dom (mut \<sigma>)) \<le> MAX_MUTEX" "card (dom (zdarz \<sigma>)) \<le> MAX_CV"
    using assms(1) mutexy zdarzenia card_mono[of MU "dom (mut \<sigma>)"] card_mono[of CVs "dom (zdarz \<sigma>)"]
    by (auto simp: w_zasobach_def)
  fix c ws assume c: "zdarz \<sigma> c = Some ws"
  have "distinct (map fst ws)" using protD(3)[OF assms(2) c] .
  then have "length ws = card (fst ` set ws)" using distinct_card[of "map fst ws"] by simp
  also have "fst ` set ws \<subseteq> Z" using c assms(3) by (force simp: czeka_def miejsca_def)
  then have "card (fst ` set ws) \<le> card Z" using assms(4) by (rule card_mono[rotated])
  finally show "length ws \<le> MAX_CZEKA" using assms(5) tablica_procesow by simp
qed

text \<open>One request: it is accepted, handled, and acts as the monitor does.\<close>

lemma zadanie_obsluzone:
  assumes u: "spojny E Ep N MU CVs u" and l: "stany u p = Dziala l" "A l = Zadanie t n c f"
  obtains s where "obslugaWiadomosci E (zadanie p t n c) (serw u) = Some s"
    "abstr s = snd (a_klient (zadanie p t n c) (abstr (serw u)))"
    "wyslane s = wyslane (serw u) @ fst (a_klient (zadanie p t n c) (abstr (serw u)))"
    "stan_serwera E s" "straznicy s = straznicy (serw u)"
proof -
  let ?\<sigma> = "abstr (serw u)" and ?m = "zadanie p t n c"
  have z: "zadanie_klienta ?m" using zadania[OF l(2)] by (simp add: zadanie_w_zasobach_def zadanie_klienta_def)
  have P: "prot ?\<sigma>" using u stan_serwera_zdrowy by (auto simp: spojny_def)
  have nc: "\<not> czeka p ?\<sigma>" using u l(1) by (simp add: spojny_def)
  have k: "a_krok ?m ?\<sigma> = snd (a_klient ?m ?\<sigma>)" using z by (simp add: a_krok_def zadanie_klienta_def)
  have d: "dopuszczalny ?m ?\<sigma>" using nc by (simp add: dopuszczalny_def)
  have "{q. czeka q (a_krok ?m ?\<sigma>)} \<subseteq> zywe u"
  proof
    fix q assume "q \<in> {q. czeka q (a_krok ?m ?\<sigma>)}"
    then have "czeka q ?\<sigma> \<or> q = p"
      using bilans_klienta[OF P z, of q] nc k by (auto simp: oczekuje_def split: if_splits)
    with u l(1) show "q \<in> zywe u" by (auto simp: spojny_def zywe_def)
  qed
  then have fit: "miesci_sie (a_krok ?m ?\<sigma>)"
    using a_klient_zasoby[of MU CVs ?\<sigma> t n c p] zadania[OF l(2)] a_krok_prot[OF P d] u
    by (intro miesci_sie_zasoby[of _ "zywe u"]) (auto simp: k spojny_def)
  have st: "stan_serwera E (serw u)" using u by (simp add: spojny_def)
  have "przyjmowalna ?m (serw u)" using d fit z by (simp add: przyjmowalna_def zadanie_klienta_def cs_defs)
  from stan_serwera_krok[OF st this] obsluga_klienta_stan[OF st z fit] that k show thesis by (metis option.inject)
qed

text \<open>The end of a process.\<close>

lemma koniec_obsluzony:
  assumes u: "spojny E Ep N MU CVs u" and l: "stany u p = Dziala l"
  obtains s out where "obslugaWiadomosci E (od_pm CS_EXIT p) (serw u) = Some s" "abstr s = a_exit p (abstr (serw u))"
    "wyslane s = wyslane (serw u) @ out" "stan_serwera E s" "straznicy s = straznicy (serw u)"
    "\<And>r. odpowiedzi r out = (if nastepca p (abstr (serw u)) r then 1 else 0)" "\<And>q r. (q, r) \<in> set out \<Longrightarrow> r = OK"
proof -
  let ?\<sigma> = "abstr (serw u)" and ?m = "od_pm CS_EXIT p"
  have I: "niezmiennik (serw u)" and P: "prot ?\<sigma>" using u stan_serwera_zdrowy by (auto simp: spojny_def)
  have k: "a_krok ?m ?\<sigma> = a_exit p ?\<sigma>" by (simp add: a_krok_def cs_defs)
  have "p \<in> zywe u" using l by (simp add: zywe_def)
  then have g: "p \<notin> set (straznicy (serw u))" using u straznicy_obcy by (auto simp: spojny_def)
  have "{q. czeka q (a_exit p ?\<sigma>)} \<subseteq> zywe u"
    using a_exit_skutek(2,5)[OF P, where p = p] u by (fastforce simp: spojny_def zywe_def)
  then have "miesci_sie (a_exit p ?\<sigma>)"
    using a_exit_zasoby[of MU CVs ?\<sigma> p] a_exit_prot[OF P] u by (intro miesci_sie_zasoby[of _ "zywe u"]) (auto simp: spojny_def)
  then have "przyjmowalna ?m (serw u)"
    using g k by (simp add: przyjmowalna_def dopuszczalny_def zadanie_klienta_def cs_defs)
  with u stan_serwera_krok obtain s where s: "obslugaWiadomosci E ?m (serw u) = Some s" "stan_serwera E s"
    "abstr s = a_exit p ?\<sigma>" "straznicy s = straznicy (serw u)" unfolding k[symmetric] spojny_def by blast
  have "wyslane s = wyslane (serw u) @ concat (map (nowy_wlasciciel p) (M (serw u)))"
    using obsluga_exit[OF I, of ?m E] s(1) by simp
  with s odpowiedzi_exit[OF I P, of _ p] that show thesis
    by (fastforce simp: nowy_wlasciciel_def split: if_splits list.splits)
qed

text \<open>The same as facts on the outcome of the server.\<close>

lemma zadanie_wynik:
  assumes "spojny E Ep N MU CVs u" "stany u p = Dziala l" "A l = Zadanie t n c f"
    "obslugaWiadomosci E (zadanie p t n c) (serw u) = Some s" "wyslane s = wyslane (serw u) @ out"
  shows "abstr s = snd (a_klient (zadanie p t n c) (abstr (serw u)))" "out = fst (a_klient (zadanie p t n c) (abstr (serw u)))"
  using zadanie_obsluzone[OF assms(1-3)] assms(4,5) by (metis option.inject same_append_eq)+

lemma koniec_wynik:
  assumes "spojny E Ep N MU CVs u" "stany u p = Dziala l"
    "obslugaWiadomosci E (od_pm CS_EXIT p) (serw u) = Some s" "wyslane s = wyslane (serw u) @ out"
  shows "abstr s = a_exit p (abstr (serw u))" "\<And>r. odpowiedzi r out = (if nastepca p (abstr (serw u)) r then 1 else 0)"
    "\<And>q r. (q, r) \<in> set out \<Longrightarrow> r = OK"
  using koniec_obsluzony[OF assms(1,2)] assms(3,4) by (metis option.inject same_append_eq)+

text \<open>A process that has no successor wakes nobody when it ends; so does one that owns no mutex.\<close>

lemma koniec_bez_nastepcy:
  assumes "spojny E Ep N MU CVs u" "stany u p = Dziala l"
    "obslugaWiadomosci E (od_pm CS_EXIT p) (serw u) = Some s" "wyslane s = wyslane (serw u) @ out"
    and "\<And>r. \<not> nastepca p (abstr (serw u)) r"
  shows "dorecz out S = S"
  using koniec_wynik(2)[OF assms(1-4)] assms(5) by (intro ext dorecz_inny) simp

lemma koniec_bez_mutexow:
  assumes "spojny E Ep N MU CVs u" "stany u p = Dziala l"
    "obslugaWiadomosci E (od_pm CS_EXIT p) (serw u) = Some s" "wyslane s = wyslane (serw u) @ out"
    and "\<And>n. n \<in> MU \<Longrightarrow> \<not> ma_mutex p n (abstr (serw u))"
  shows "dorecz out S = S"
proof (rule koniec_bez_nastepcy[OF assms(1-4)])
  show "\<not> nastepca p (abstr (serw u)) r" for r
    using assms(1,5) by (fastforce simp: nastepca_def ma_mutex_def spojny_def w_zasobach_def)
qed

text \<open>Every step keeps the protocol.\<close>

lemma spojny_zadanie:
  assumes u: "spojny E Ep N MU CVs u" and l: "stany u p = Dziala l" "A l = Zadanie t n c f"
    and s: "abstr s = snd (a_klient (zadanie p t n c) (abstr (serw u)))" "stan_serwera E s" "straznicy s = straznicy (serw u)"
  shows "spojny E Ep N MU CVs (u\<lparr>serw := s, stany := dorecz (fst (a_klient (zadanie p t n c) (abstr (serw u)))) ((stany u)(p := Zablokowany f))\<rparr>)"
proof -
  let ?\<sigma> = "abstr (serw u)" and ?m = "zadanie p t n c" and ?S = "(stany u)(p := Zablokowany f)"
  let ?out = "fst (a_klient ?m ?\<sigma>)"
  have z: "zadanie_klienta ?m" using zadania[OF l(2)] by (simp add: zadanie_w_zasobach_def zadanie_klienta_def)
  have P: "prot ?\<sigma>" and nc: "\<not> czeka p ?\<sigma>" using u l(1) stan_serwera_zdrowy by (auto simp: spojny_def)
  have b: "odpowiedzi q ?out + oczekuje q (abstr s) = oczekuje q ?\<sigma> + (if q = p then 1 else 0)" for q
    using bilans_klienta[OF P z] nc s(1) by simp
  have blok: "czeka q ?\<sigma> \<longleftrightarrow> (\<exists>g. stany u q = Zablokowany g)" for q using u by (simp add: spojny_def)
  have "czeka q (abstr s) \<longleftrightarrow> (\<exists>g. dorecz ?out ?S q = Zablokowany g)" for q
  proof (cases rule: dorecz_przypadki[of ?out ?S q])
    case bez
    with b[of q] blok[of q] show ?thesis by (cases "q = p") (auto simp: oczekuje_def split: if_splits)
  next
    case (odpowiedz g r)
    then have "odpowiedzi q ?out \<noteq> 0" using odpowiedzi_niezero by blast
    with b[of q] odpowiedz(3) nc show ?thesis by (cases "q = p") (auto simp: oczekuje_def split: if_splits)
  qed
  moreover have "zywe (u\<lparr>serw := s, stany := dorecz ?out ?S\<rparr>) = zywe u"
  proof -
    have "dorecz ?out ?S q \<noteq> Nie_ma \<longleftrightarrow> stany u q \<noteq> Nie_ma" for q
      by (cases rule: dorecz_przypadki[of ?out ?S q]) (use l(1) in \<open>auto split: if_splits\<close>)
    then show ?thesis by (simp add: zywe_def)
  qed
  ultimately show ?thesis using u s a_klient_zasoby[OF _ zadania[OF l(2)]] by (simp add: spojny_def)
qed

lemma spojny_koniec:
  assumes u: "spojny E Ep N MU CVs u" and l: "stany u p = Dziala l"
    and s: "abstr s = a_exit p (abstr (serw u))" "stan_serwera E s" "straznicy s = straznicy (serw u)"
    and out: "\<And>r. odpowiedzi r out = (if nastepca p (abstr (serw u)) r then 1 else 0)"
  shows "spojny E Ep N MU CVs (u\<lparr>serw := s, stany := dorecz out ((stany u)(p := Zombie k))\<rparr>)"
proof -
  let ?\<sigma> = "abstr (serw u)" and ?S = "(stany u)(p := Zombie k)"
  have P: "prot ?\<sigma>" using u stan_serwera_zdrowy by (auto simp: spojny_def)
  have "czeka q (abstr s) \<longleftrightarrow> (\<exists>g. dorecz out ?S q = Zablokowany g)" for q
  proof (cases "q = p")
    case True
    with a_exit_skutek(2)[OF P] show ?thesis by (simp add: s(1) dorecz_niezablokowany)
  next
    case False
    show ?thesis
    proof (cases rule: dorecz_przypadki[of out ?S q])
      case bez
      with False out[of q] u a_exit_skutek(5)[OF P, of q p] show ?thesis by (auto simp: s(1) spojny_def split: if_splits)
    next
      case (odpowiedz g r)
      then have "odpowiedzi q out \<noteq> 0" using odpowiedzi_niezero by blast
      with False out[of q] odpowiedz(3) a_exit_skutek(5)[OF P, of q p] show ?thesis by (auto simp: s(1) split: if_splits)
    qed
  qed
  moreover have "zywe (u\<lparr>serw := s, stany := dorecz out ?S\<rparr>) = zywe u"
  proof -
    have "dorecz out ?S q \<noteq> Nie_ma \<longleftrightarrow> stany u q \<noteq> Nie_ma" for q
      by (cases rule: dorecz_przypadki[of out ?S q]) (use l(1) in \<open>auto split: if_splits\<close>)
    then show ?thesis by (simp add: zywe_def)
  qed
  ultimately show ?thesis using u s a_exit_zasoby by (simp add: spojny_def)
qed

text \<open>A step of a single process that the server does not notice.\<close>

lemma spojny_lokalnie:
  assumes u: "spojny E Ep N MU CVs u" and "stany u p = Dziala l" and "serw u' = serw u" "stany u' = (stany u)(p := Dziala l')"
  shows "spojny E Ep N MU CVs u'"
proof -
  have "zywe u' = zywe u" using assms(2,4) by (auto simp: zywe_def)
  with assms show ?thesis by (simp add: spojny_def)
qed

lemma konce_grupy:
  assumes "prot \<sigma>" "w_zasobach MU CVs \<sigma>" "{q. czeka q \<sigma>} \<subseteq> Z" "finite Z" "card Z \<le> N" "set qs \<inter> G = {}"
  shows "ciag_ok G (konce qs) \<sigma> \<and> w_zasobach MU CVs (a_petla (konce qs) \<sigma>) \<and>
    (\<forall>q. czeka q (a_petla (konce qs) \<sigma>) \<longrightarrow> q \<notin> set qs \<and> czeka q \<sigma>) \<and>
    (\<forall>q n. ma_mutex q n (a_petla (konce qs) \<sigma>) \<longrightarrow> q \<notin> set qs \<and> (ma_mutex q n \<sigma> \<or> czeka q \<sigma>))"
  using assms
proof (induction qs arbitrary: \<sigma>)
  case (Cons p qs)
  let ?\<sigma> = "a_exit p \<sigma>"
  have k: "a_krok (od_pm CS_EXIT p) \<sigma> = ?\<sigma>" by (simp add: a_krok_def cs_defs)
  note P = a_exit_prot[OF Cons.prems(1), of p] and z = a_exit_zasoby[OF Cons.prems(2), of p]
  have cz: "q \<noteq> p \<and> czeka q \<sigma>" if "czeka q ?\<sigma>" for q
    using that a_exit_skutek(2,5)[OF Cons.prems(1)] by (cases "q = p") auto
  have mu: "q \<noteq> p \<and> (ma_mutex q n \<sigma> \<or> czeka q \<sigma>)" if ma: "ma_mutex q n ?\<sigma>" for q n
  proof
    show "q \<noteq> p" using ma a_exit_skutek(1)[OF Cons.prems(1)] by blast
    obtain w r where w: "mut \<sigma> n = Some (w, r)"
      using ma a_exit_skutek(4)[OF Cons.prems(1), of n p] by (cases "mut \<sigma> n") (auto simp: ma_mutex_def)
    have "q \<in> set r \<Longrightarrow> czeka q \<sigma>" using w by (auto simp: czeka_def miejsca_def)
    then show "ma_mutex q n \<sigma> \<or> czeka q \<sigma>"
      using ma w a_exit_skutek(3)[OF Cons.prems(1) w, of p] by (auto simp: ma_mutex_def split: if_splits list.splits)
  qed
  have Z: "{q. czeka q ?\<sigma>} \<subseteq> Z" using cz Cons.prems(3) by blast
  have "miesci_sie ?\<sigma>" by (rule miesci_sie_zasoby[OF z P Z Cons.prems(4,5)])
  then have "ciag_ok G (konce (p # qs)) \<sigma>" if "ciag_ok G (konce qs) ?\<sigma>"
    using that Cons.prems(6) k by (simp add: dopuszczalny_def zadanie_klienta_def cs_defs)
  moreover have "set qs \<inter> G = {}" using Cons.prems(6) by simp
  note IH = Cons.IH[OF P z Z Cons.prems(4,5) this]
  have "q \<notin> set (p # qs) \<and> czeka q \<sigma>" if "czeka q (a_petla (konce qs) ?\<sigma>)" for q using IH cz that by auto
  moreover have "q \<notin> set (p # qs) \<and> (ma_mutex q n \<sigma> \<or> czeka q \<sigma>)" if ma: "ma_mutex q n (a_petla (konce qs) ?\<sigma>)" for q n
  proof -
    from IH ma have "q \<notin> set qs" "ma_mutex q n ?\<sigma> \<or> czeka q ?\<sigma>" by blast+
    with cz[of q] mu[of q n] show ?thesis by auto
  qed
  ultimately show ?case using IH k by simp
qed simp

lemma grupa_konczy:
  assumes u: "spojny E Ep N MU CVs u" and qs: "set qs = {q. trwa (stany u q)}"
  obtains s where "main_petla E (konce qs) (serw u) = Some s" "stan_serwera E s" "straznicy s = straznicy (serw u)"
    "w_zasobach MU CVs (abstr s)" "\<And>q. \<not> czeka q (abstr s)"
    "\<And>q n. ma_mutex q n (abstr s) \<Longrightarrow> q \<notin> set qs \<and> ma_mutex q n (abstr (serw u))"
proof -
  have P: "prot (abstr (serw u))" "stan_serwera E (serw u)" using u stan_serwera_zdrowy by (auto simp: spojny_def)
  have cz: "czeka q (abstr (serw u)) \<Longrightarrow> q \<in> set qs" for q using u qs by (auto simp: spojny_def)
  have "set qs \<subseteq> zywe u" using qs by (auto simp: zywe_def)
  then have g: "set qs \<inter> set (straznicy (serw u)) = {}" using u straznicy_obcy by (fastforce simp: spojny_def)
  have "{q. czeka q (abstr (serw u))} \<subseteq> zywe u" using u by (auto simp: spojny_def zywe_def)
  then have K: "ciag_ok (set (straznicy (serw u))) (konce qs) (abstr (serw u))" "w_zasobach MU CVs (a_petla (konce qs) (abstr (serw u)))"
    "\<And>q. czeka q (a_petla (konce qs) (abstr (serw u))) \<Longrightarrow> q \<notin> set qs \<and> czeka q (abstr (serw u))"
    "\<And>q n. ma_mutex q n (a_petla (konce qs) (abstr (serw u))) \<Longrightarrow> q \<notin> set qs \<and> (ma_mutex q n (abstr (serw u)) \<or> czeka q (abstr (serw u)))"
    using konce_grupy[OF P(1) _ _ _ _ g, of "zywe u"] u by (simp_all add: spojny_def)
  from main_petla_zgodne[OF P(2) K(1)] obtain s where s: "main_petla E (konce qs) (serw u) = Some s" "stan_serwera E s"
    "abstr s = a_petla (konce qs) (abstr (serw u))" "straznicy s = straznicy (serw u)" by blast
  show thesis
  proof (rule that[OF s(1,2,4)])
    show "w_zasobach MU CVs (abstr s)" using K(2) s(3) by simp
    show "\<not> czeka q (abstr s)" for q using K(3)[of q] cz[of q] s(3) by auto
    show "q \<notin> set qs \<and> ma_mutex q n (abstr (serw u))" if "ma_mutex q n (abstr s)" for q n
      using K(4)[of q n] cz[of q] s(3) that by auto
  qed
qed

lemma spojny_krok:
  assumes u: "spojny E Ep N MU CVs u" and k: "krok_ukladu E A Ep N u u'"
  shows "spojny E Ep N MU CVs u'"
  using k
proof cases
  case (zadanie p l t n c f s out)
  with zadanie_obsluzone[OF u zadanie(2,3)] spojny_zadanie[OF u zadanie(2,3)] show ?thesis by (metis option.inject same_append_eq)
next
  case (koniec p l k s out)
  with koniec_obsluzony[OF u koniec(2)] spojny_koniec[OF u koniec(2)] show ?thesis by (metis option.inject same_append_eq)
next
  case (rozwidl p l f q k)
  have "zywe u' = insert q (zywe u)" using rozwidl by (auto simp: zywe_def)
  moreover have "q \<notin> zywe u" using rozwidl by (simp add: zywe_def)
  ultimately show ?thesis using rozwidl u by (auto simp: spojny_def zywe_def[symmetric])
next
  case (dziecko p l f q j k)
  have "zywe u' \<subseteq> zywe u" using dziecko by (auto simp: zywe_def)
  with dziecko u show ?thesis by (auto simp: spojny_def intro: finite_subset order_trans[OF card_mono])
next
  case (zabij p l qs s)
  have "zywe u' = zywe u" using zabij(1) by (auto simp: zywe_def)
  moreover from grupa_konczy[OF u zabij(4)] zabij(6) have "stan_serwera E s" "straznicy s = straznicy (serw u)"
    "w_zasobach MU CVs (abstr s)" "\<forall>q. \<not> czeka q (abstr s)" by (metis option.inject)+
  moreover have "stany u' q \<noteq> Zablokowany f" for q f using zabij(1) by (cases "stany u q") auto
  ultimately show ?thesis using u zabij(1) by (simp add: spojny_def)
qed (use u in \<open>auto elim!: spojny_lokalnie\<close>)

lemma spojny_start:
  assumes "poczatek_ukladu E p l u" "p \<in> Ep" "0 < N"
  shows "spojny E Ep N MU CVs u"
proof -
  obtain s where s: "main_start E = Some s" "abstr s = monitor0" "straznicy s = map (\<lambda>i. proces (smiec E i 1)) [0..<MAX_MUTEX]"
    using main_start_ok[of E] by blast
  have "stan_serwera E s" unfolding stan_serwera_def using s(1) by (rule osiagalny.start)
  moreover have "zywe u = {p}" using assms(1) by (auto simp: poczatek_ukladu_def zywe_def)
  moreover have "w_zasobach MU CVs monitor0" "\<And>q. \<not> czeka q monitor0" by (auto simp: w_zasobach_def monitor0_def czeka_def miejsca_def)
  ultimately show ?thesis using s assms by (auto simp: spojny_def poczatek_ukladu_def)
qed

text \<open>A process that runs can go on, unless it waits for a child or for the contents of the pipe.\<close>

lemma krok_istnieje:
  assumes u: "spojny E Ep N MU CVs u" and l: "stany u p = Dziala l"
    and "\<And>f. A l \<noteq> Czekaj_dziecka f" "\<And>f. A l = Odczyt f \<Longrightarrow> potok u \<noteq> []"
  shows "\<exists>u'. krok_ukladu E A Ep N u u'"
proof (cases "A l")
  case (Zadanie t n c f)
  from zadanie_obsluzone[OF u l this] krok_ukladu.zadanie[of u p l A, OF l Zadanie] show ?thesis by metis
next
  case (Koniec k)
  from koniec_obsluzony[OF u l] krok_ukladu.koniec[of u p l A, OF l Koniec] show ?thesis by metis
next
  case (Odczyt f)
  with assms(4) obtain b bs where "potok u = b # bs" by (cases "potok u") auto
  with krok_ukladu.odczyt[of u p l A, OF l Odczyt] show ?thesis by metis
next
  case Zabij_grupe
  have "{q. trwa (stany u q)} \<subseteq> zywe u"
  proof
    fix q assume "q \<in> {q. trwa (stany u q)}"
    then show "q \<in> zywe u" by (cases "stany u q") (auto simp: zywe_def)
  qed
  then have "finite {q. trwa (stany u q)}" using u by (auto simp: spojny_def intro: finite_subset)
  then obtain qs where qs: "set qs = {q. trwa (stany u q)}" "distinct qs" using finite_distinct_list by blast
  obtain s where "main_petla E (konce qs) (serw u) = Some s" by (rule grupa_konczy[OF u qs(1)]) (rule that)
  from krok_ukladu.zabij[of u p l A, OF l Zabij_grupe qs this] show ?thesis by blast
qed (use assms(3) l in \<open>blast intro: krok_ukladu.intros\<close>)+

end

end
