(* ===== verification/Sekcja.thy ===== *)
theory Sekcja
  imports Uklad
begin

text \<open>
  Client programs that protect their work with one mutex. The control points at which a program counts on the mutex are
  marked; when each action leads from marked to marked points as the calls of the library promise, at most one process is
  at a marked point, and no call of the library fails.
\<close>

section \<open>Programs with a critical section\<close>

definition prawo_sekcji :: "int \<Rightarrow> ('l \<Rightarrow> bool) \<Rightarrow> 'l \<Rightarrow> 'l akcja \<Rightarrow> bool" where
  "prawo_sekcji m kryt l a \<longleftrightarrow>
     (case a of
        Koniec k \<Rightarrow> True
      | Zadanie t n c f \<Rightarrow>
          t = CS_LOCK \<and> n = m \<and> \<not> kryt l \<and> kryt (f OK) \<or> t = CS_UNLOCK \<and> n = m \<and> kryt l \<and> \<not> kryt (f OK) \<or>
          t = CS_WAIT \<and> n = m \<and> kryt l \<and> kryt (f OK) \<or> t = CS_BROADCAST \<and> kryt l \<and> kryt (f OK)
      | Pisz x l' \<Rightarrow> kryt l' = kryt l
      | Rozwidl f \<Rightarrow> \<not> kryt (f 0) \<and> (\<forall>k. k \<noteq> 0 \<longrightarrow> kryt (f k) = kryt l)
      | Czekaj_dziecka f \<Rightarrow> \<not> kryt l \<and> (\<forall>k. \<not> kryt (f k))
      | Odczyt f \<Rightarrow> \<forall>b. kryt (f b) = kryt l
      | Zapis b l' \<Rightarrow> kryt l' = kryt l
      | Zabij_grupe \<Rightarrow> True
      | Dalej l' \<Rightarrow> kryt l' = kryt l)"

text \<open>Where a process is, or where it goes on once its call succeeds.\<close>

fun widok :: "'l proces_k \<Rightarrow> 'l option" where
  "widok (Dziala l) = Some l"
| "widok (Zablokowany f) = Some (f OK)"
| "widok _ = None"

lemma widok_dorecz:
  assumes "\<And>r. (q, r) \<in> set out \<Longrightarrow> r = OK"
  shows "widok (dorecz out S q) = widok (S q)"
  by (cases rule: dorecz_przypadki[of out S q]) (use assms in auto)

definition w_sekcji :: "('l \<Rightarrow> bool) \<Rightarrow> 'l proces_k \<Rightarrow> bool" where
  "w_sekcji kryt x \<longleftrightarrow> (case x of Dziala l \<Rightarrow> kryt l | _ \<Rightarrow> False)"

definition wylaczny :: "int \<Rightarrow> ('l \<Rightarrow> bool) \<Rightarrow> 'l uklad \<Rightarrow> bool" where
  "wylaczny m kryt u \<longleftrightarrow> (\<forall>p. ma_mutex p m (abstr (serw u)) \<longleftrightarrow> w_sekcji kryt (stany u p)) \<and>
     (\<forall>p f. stany u p = Zablokowany f \<longrightarrow> kryt (f OK))"

lemma ma_mutex_jeden: "ma_mutex p m \<sigma> \<Longrightarrow> ma_mutex q m \<sigma> \<Longrightarrow> p = q"
  by (auto simp: ma_mutex_def split: option.splits)

text \<open>The operations of the monitor when the sender owns the mutex, or does not.\<close>

lemma ma_mutexE:
  assumes "ma_mutex p m \<sigma>"
  obtains q where "mut \<sigma> m = Some (p, q)"
  using assms by (auto simp: ma_mutex_def split: option.splits)

lemma a_budz_zajety:
  "mut \<sigma> m = Some (p, q) \<Longrightarrow> \<forall>w \<in> set ws. snd w = m \<and> fst w \<noteq> p \<Longrightarrow>
    fst (a_budz ws \<sigma>) = [] \<and> (\<exists>q'. mut (snd (a_budz ws \<sigma>)) m = Some (p, q'))"
  by (induction ws arbitrary: \<sigma> q) (auto simp: a_budz_Cons a_lock_def)

text \<open>
  What a request of a program with a critical section does: every answer is a success, the mutex belongs to a process that
  gets an answer or had it before, and its former owner lost it unless it only woke others.
\<close>

lemma a_klient_sekcja:
  assumes P: "prot \<sigma>" and z: "w_zasobach {m} CVs \<sigma>" and nc: "\<not> czeka p \<sigma>"
    and t: "t = CS_LOCK \<and> \<not> ma_mutex p m \<sigma> \<or> (t = CS_UNLOCK \<or> t = CS_WAIT) \<and> ma_mutex p m \<sigma> \<or> t = CS_BROADCAST \<and> ma_mutex p m \<sigma>"
    and n: "t = CS_BROADCAST \<or> n = m"
  shows "(\<forall>x \<in> set (fst (a_klient (zadanie p t n c) \<sigma>)). snd x = OK) \<and>
    (\<forall>r. ma_mutex r m (snd (a_klient (zadanie p t n c) \<sigma>)) \<longleftrightarrow>
       (if t = CS_BROADCAST then r = p
        else if t = CS_UNLOCK then r \<noteq> p \<and> odpowiedzi r (fst (a_klient (zadanie p t n c) \<sigma>)) \<noteq> 0
        else odpowiedzi r (fst (a_klient (zadanie p t n c) \<sigma>)) \<noteq> 0 \<or> r \<noteq> p \<and> ma_mutex r m \<sigma>)) \<and>
    (t = CS_UNLOCK \<or> t = CS_BROADCAST \<longrightarrow> odpowiedzi p (fst (a_klient (zadanie p t n c) \<sigma>)) \<noteq> 0) \<and>
    (t = CS_BROADCAST \<longrightarrow> (\<forall>r. r \<noteq> p \<longrightarrow> odpowiedzi r (fst (a_klient (zadanie p t n c) \<sigma>)) = 0))"
proof -
  consider "t = CS_LOCK" "\<not> ma_mutex p m \<sigma>" | "t = CS_UNLOCK" "ma_mutex p m \<sigma>" | "t = CS_WAIT" "ma_mutex p m \<sigma>"
    | "t = CS_BROADCAST" "ma_mutex p m \<sigma>" using t by blast
  then show ?thesis
  proof cases
    case 1
    with n show ?thesis by (auto simp: krok_monitora a_lock_def ma_mutex_def cs_defs split: option.splits if_splits)
  next
    case 2
    from 2(2) obtain q where q: "mut \<sigma> m = Some (p, q)" by (rule ma_mutexE)
    with 2 n protD(2)[OF P q] show ?thesis
      by (cases q) (auto simp: krok_monitora a_unlock_def ma_mutex_def cs_defs errno_defs)
  next
    case 3
    from 3(2) obtain q where q: "mut \<sigma> m = Some (p, q)" by (rule ma_mutexE)
    with 3 n protD(2)[OF P q] show ?thesis
      by (cases q) (auto simp: krok_monitora a_wait_def a_unlock_def ma_mutex_def cs_defs errno_defs)
  next
    case 4
    from 4(2) obtain q where q: "mut \<sigma> m = Some (p, q)" by (rule ma_mutexE)
    have "\<forall>w \<in> set (czekajacy_na c \<sigma>). snd w = m \<and> fst w \<noteq> p"
      using nc czekajacy_zasoby[OF z, of c] czekajacy_na_miejsce[of p _ c \<sigma>] by (fastforce simp: czeka_def)
    from a_budz_zajety[OF q this] obtain q' where "fst (a_budz (czekajacy_na c \<sigma>) \<sigma>) = []"
      "mut (snd (a_budz (czekajacy_na c \<sigma>) \<sigma>)) m = Some (p, q')" by blast
    with 4 show ?thesis by (auto simp: krok_monitora a_broadcast_def ma_mutex_def cs_defs errno_defs)
  qed
qed

text \<open>The processes that wait for an event: only \<^verbatim>\<open>cs_wait\<close> adds one, and \<^verbatim>\<open>cs_broadcast\<close> leaves none.\<close>

definition czekaja :: "int \<Rightarrow> 'l uklad \<Rightarrow> int set" where
  "czekaja c u = fst ` set (czekajacy_na c (abstr (serw u)))"

lemma a_klient_czekajacy:
  assumes "zadanie_klienta (zadanie p t n c)"
  shows "fst ` set (czekajacy_na d (snd (a_klient (zadanie p t n c) \<sigma>))) \<subseteq>
    (if t = CS_BROADCAST \<and> d = c then {} else fst ` set (czekajacy_na d \<sigma>) \<union> (if t = CS_WAIT \<and> d = c then {p} else {}))"
proof -
  have u: "zdarz (snd (snd (a_unlock p n \<sigma>))) = zdarz \<sigma>" by (cases rule: a_unlock_przypadki[of p n \<sigma>]) auto
  have b: "zdarz (snd (a_budz ws \<sigma>')) = zdarz \<sigma>'" for ws \<sigma>' by (induction ws arbitrary: \<sigma>') (simp_all add: a_budz_Cons)
  consider "t = CS_LOCK" | "t = CS_UNLOCK" | "t = CS_WAIT" | "t = CS_BROADCAST"
    using assms unfolding zadanie_klienta_def cs_defs by fastforce
  then show ?thesis
    by cases (auto simp: krok_monitora cs_defs czekajacy_na_def u a_wait_def a_broadcast_def b split_def Let_def split: option.splits if_splits)
qed

lemma a_exit_czekajacy: "fst ` set (czekajacy_na d (a_exit p \<sigma>)) \<subseteq> fst ` set (czekajacy_na d \<sigma>)"
proof -
  have "set (czekajacy_na d (a_exit p \<sigma>)) \<subseteq> set (czekajacy_na d \<sigma>)"
    using set_usun_pare_podzbior[of _ p] by (cases "zdarz \<sigma> d") (auto simp: czekajacy_na_def a_exit_def bez_zdarzen_def)
  then show ?thesis by (rule image_mono)
qed

text \<open>The end of a process that owns nothing and waits nowhere changes nothing.\<close>

lemma a_exit_obojetny:
  assumes "\<And>n. \<not> ma_mutex r n \<sigma>" "\<not> czeka r \<sigma>" "\<And>c. zdarz \<sigma> c \<noteq> Some []"
  shows "a_exit r \<sigma> = \<sigma>"
proof -
  have m: "map_option (\<lambda>(w, q). (w, remove1 r q)) (Option.bind (mut \<sigma> n) (przekaz r)) = mut \<sigma> n" for n
  proof (cases "mut \<sigma> n")
    case (Some x)
    obtain w q where x: "x = (w, q)" by (cases x)
    have "r \<notin> set q" using assms(2) Some x miejsca_iff(1)[of n \<sigma> r] by (auto simp: czeka_def)
    moreover have "w \<noteq> r" using assms(1)[of n] Some x by (auto simp: ma_mutex_def)
    ultimately show ?thesis using Some x by (simp add: przekaz_def remove1_idem)
  qed simp
  have u: "usun_pare r ws = ws" if "r \<notin> fst ` set ws" for ws using that by (induction r ws rule: usun_pare.induct) auto
  have "bez_zdarzen r (zdarz \<sigma>) c = zdarz \<sigma> c" for c
  proof (cases "zdarz \<sigma> c")
    case (Some ws)
    have "r \<notin> fst ` set ws" using assms(2) Some miejsca_iff(2)[of c _ \<sigma> r] by (fastforce simp: czeka_def)
    with u Some assms(3)[of c] show ?thesis by (simp add: bez_zdarzen_def)
  qed (simp add: bez_zdarzen_def)
  then have "bez_zdarzen r (zdarz \<sigma>) = zdarz \<sigma>" by (rule ext)
  with m show ?thesis by (simp add: a_exit_def)
qed

text \<open>A blocked process waits for an event, or some process is in the critical section.\<close>

lemma zablokowany_czeka:
  assumes u: "spojny E Ep N {m} CVs u" and w: "wylaczny m kryt u" and q: "stany u q = Zablokowany f"
  obtains (wlasciciel) r l where "stany u r = Dziala l" "kryt l" | (zdarzenie) c where "c \<in> CVs" "q \<in> czekaja c u"
proof -
  have "czeka q (abstr (serw u))" and z: "w_zasobach {m} CVs (abstr (serw u))" using u q by (auto simp: spojny_def)
  then consider n r xs where "mut (abstr (serw u)) n = Some (r, xs)" | c n ws where "zdarz (abstr (serw u)) c = Some ws" "(q, n) \<in> set ws"
    by (auto simp: czeka_def miejsca_def)
  then show thesis
  proof cases
    case 1
    then have "n = m" using z by (auto simp: w_zasobach_def)
    with 1 have "w_sekcji kryt (stany u r)" using w by (auto simp: wylaczny_def ma_mutex_def)
    with wlasciciel show thesis by (auto simp: w_sekcji_def split: proces_k.splits)
  next
    case 2
    then have "c \<in> CVs" using z by (auto simp: w_zasobach_def)
    moreover have "q \<in> czekaja c u" using 2 by (force simp: czekaja_def czekajacy_na_def)
    ultimately show thesis by (rule zdarzenie)
  qed
qed

section \<open>Mutual exclusion\<close>

locale sekcja = klienci E A Ep N "{m}" CVs
  for E :: srodowisko and A :: "'l \<Rightarrow> 'l akcja" and Ep :: "int set" and N :: nat and m :: int and CVs :: "int set" +
  fixes kryt :: "'l \<Rightarrow> bool"
  assumes prawo: "prawo_sekcji m kryt l (A l)"
begin

lemma wylaczny_zadanie:
  assumes u: "spojny E Ep N {m} CVs u" and w: "wylaczny m kryt u" and l: "stany u p = Dziala l" "A l = Zadanie t n c f"
    and s: "abstr s = snd (a_klient (zadanie p t n c) (abstr (serw u)))"
    and out: "out = fst (a_klient (zadanie p t n c) (abstr (serw u)))"
    and u': "serw u' = s" "stany u' = dorecz out ((stany u)(p := Zablokowany f))"
  shows "wylaczny m kryt u'" "\<And>q r. (q, r) \<in> set out \<Longrightarrow> r = OK"
    "t = CS_UNLOCK \<or> t = CS_BROADCAST \<Longrightarrow> stany u' p = Dziala (f OK)"
proof -
  let ?\<sigma> = "abstr (serw u)" and ?S = "(stany u)(p := Zablokowany f)" and ?z = "zadanie p t n c"
  have P: "prot ?\<sigma>" and nc: "\<not> czeka p ?\<sigma>" and z: "w_zasobach {m} CVs ?\<sigma>"
    using u l(1) stan_serwera_zdrowy by (auto simp: spojny_def)
  have k: "zadanie_klienta ?z" using zadania[OF l(2)] by (simp add: zadanie_w_zasobach_def zadanie_klienta_def)
  have wl: "ma_mutex q m ?\<sigma> \<longleftrightarrow> w_sekcji kryt (stany u q)" for q using w by (simp add: wylaczny_def)
  have p: "ma_mutex p m ?\<sigma> \<longleftrightarrow> kryt l" using wl[of p] l(1) by (simp add: w_sekcji_def)
  have t: "t = CS_LOCK \<and> \<not> ma_mutex p m ?\<sigma> \<and> kryt (f OK) \<or> t = CS_UNLOCK \<and> ma_mutex p m ?\<sigma> \<and> \<not> kryt (f OK) \<or>
      t = CS_WAIT \<and> ma_mutex p m ?\<sigma> \<and> kryt (f OK) \<or> t = CS_BROADCAST \<and> ma_mutex p m ?\<sigma> \<and> kryt (f OK)"
    and n: "t = CS_BROADCAST \<or> n = m" using prawo[of l] l(2) p by (auto simp: prawo_sekcji_def)
  have t': "t = CS_LOCK \<and> \<not> ma_mutex p m ?\<sigma> \<or> (t = CS_UNLOCK \<or> t = CS_WAIT) \<and> ma_mutex p m ?\<sigma> \<or>
      t = CS_BROADCAST \<and> ma_mutex p m ?\<sigma>" using t by blast
  note sk = a_klient_sekcja[OF P z nc t' n, of c, folded out s]
  have a: "\<forall>x \<in> set out. snd x = OK" "ma_mutex r m (abstr s) \<longleftrightarrow>
       (if t = CS_BROADCAST then r = p else if t = CS_UNLOCK then r \<noteq> p \<and> odpowiedzi r out \<noteq> 0
        else odpowiedzi r out \<noteq> 0 \<or> r \<noteq> p \<and> ma_mutex r m ?\<sigma>)"
    "t = CS_UNLOCK \<or> t = CS_BROADCAST \<Longrightarrow> odpowiedzi p out \<noteq> 0"
    "t = CS_BROADCAST \<Longrightarrow> r \<noteq> p \<Longrightarrow> odpowiedzi r out = 0" for r
    using sk by simp_all
  show ok: "\<And>q r. (q, r) \<in> set out \<Longrightarrow> r = OK" using a(1) by auto
  have blok: "\<exists>g. ?S r = Zablokowany g" if "odpowiedzi r out \<noteq> 0" for r
  proof (cases "r = p")
    case False
    with bilans_klienta[OF P k, of r] nc out that have "czeka r ?\<sigma>" by (auto simp: oczekuje_def split: if_splits)
    with u False show ?thesis by (auto simp: spojny_def)
  qed simp
  have dr: "dorecz out ?S r = (if odpowiedzi r out = 0 then ?S r else Dziala (the (widok (?S r))))" for r
    using dorecz_inny[of r out ?S] dorecz_odpowiedz[of ?S r _ out] blok[of r] ok by fastforce
  show "stany u' p = Dziala (f OK)" if "t = CS_UNLOCK \<or> t = CS_BROADCAST" using a(3)[OF that] by (simp add: u'(2) dr)
  have kr: "kryt (the (widok (stany u r)))" if "stany u r = Zablokowany g" for r g using w that by (simp add: wylaczny_def)
  have sek: "ma_mutex r m (abstr s) \<longleftrightarrow> w_sekcji kryt (stany u' r)" for r
  proof (cases "r = p")
    case True
    with t a(2)[of p] a(3) show ?thesis
      by (auto simp: u' dr w_sekcji_def cs_defs)
  next
    case False
    then have "odpowiedzi r out \<noteq> 0 \<Longrightarrow> \<exists>g. stany u r = Zablokowany g" using blok[of r] by simp
    with False t a(2)[of r] a(4)[of r] wl[of r] kr[of r] ma_mutex_jeden[of p m ?\<sigma> r] show ?thesis
      by (auto simp: u' dr w_sekcji_def cs_defs)
  qed
  moreover have "kryt (g OK)" if "stany u' r = Zablokowany g" for r g
    using that t a(3) w by (cases "r = p") (auto simp: u' dr wylaczny_def split: if_splits)
  ultimately show "wylaczny m kryt u'" by (simp add: wylaczny_def u'(1))
qed

text \<open>The end of a process hands its mutex on, if it has it.\<close>

lemma koniec_sekcji:
  assumes u: "spojny E Ep N {m} CVs u" and w: "wylaczny m kryt u" and l: "stany u p = Dziala l"
    and s: "abstr s = a_exit p (abstr (serw u))" and out: "\<And>r. odpowiedzi r out = (if nastepca p (abstr (serw u)) r then 1 else 0)"
    and ok: "\<And>q r. (q, r) \<in> set out \<Longrightarrow> r = OK"
    and u': "serw u' = s" "stany u' = dorecz out ((stany u)(p := Zombie k))"
  shows "wylaczny m kryt u'" "\<not> kryt l \<Longrightarrow> stany u' = (stany u)(p := Zombie k)"
proof -
  let ?\<sigma> = "abstr (serw u)" and ?S = "(stany u)(p := Zombie k)"
  have P: "prot ?\<sigma>" and z: "w_zasobach {m} CVs ?\<sigma>" using u stan_serwera_zdrowy by (auto simp: spojny_def)
  have wl: "ma_mutex q m ?\<sigma> \<longleftrightarrow> w_sekcji kryt (stany u q)" for q using w by (simp add: wylaczny_def)
  have p: "ma_mutex p m ?\<sigma> \<longleftrightarrow> kryt l" using wl[of p] l by (simp add: w_sekcji_def)
  have na: "nastepca p ?\<sigma> r \<longleftrightarrow> (\<exists>xs. mut ?\<sigma> m = Some (p, r # xs))" for r
    using z by (auto simp: nastepca_def w_zasobach_def)
  have blok: "\<exists>g. stany u r = Zablokowany g \<and> kryt (g OK)" if "nastepca p ?\<sigma> r" for r
  proof -
    from that na obtain xs where "mut ?\<sigma> m = Some (p, r # xs)" by blast
    then have "czeka r ?\<sigma>" by (auto simp: czeka_def miejsca_def intro: exI[of _ m])
    with u w show ?thesis by (auto simp: spojny_def wylaczny_def)
  qed
  have dr: "dorecz out ?S r = (if nastepca p ?\<sigma> r then Dziala (the (widok (stany u r))) else ?S r)" for r
  proof (cases "nastepca p ?\<sigma> r")
    case True
    with blok[of r] obtain g where "stany u r = Zablokowany g" by blast
    with l have g: "?S r = Zablokowany g" "stany u r = Zablokowany g" by auto
    moreover have "odpowiedzi r out \<noteq> 0" using out[of r] True by simp
    ultimately show ?thesis using dorecz_odpowiedz[of ?S r g out] ok True by auto
  qed (simp add: dorecz_inny out)
  show "stany u' = ?S" if "\<not> kryt l"
  proof -
    have "\<not> nastepca p ?\<sigma> r" for r using na p that by (auto simp: ma_mutex_def)
    with dr u'(2) show ?thesis by (simp add: fun_eq_iff)
  qed
  have mu: "ma_mutex r m (abstr s) \<longleftrightarrow> nastepca p ?\<sigma> r \<or> r \<noteq> p \<and> ma_mutex r m ?\<sigma>" for r
    using a_exit_skutek(3,4)[OF P, where p = p and n = m] protD(2)[OF P, of m] na[of r]
    by (cases "mut ?\<sigma> m") (auto simp: s ma_mutex_def split: if_splits list.splits)
  have "ma_mutex r m (abstr s) \<longleftrightarrow> w_sekcji kryt (stany u' r)" for r
    using mu[of r] wl[of r] blok[of r] by (auto simp: u'(2) dr w_sekcji_def)
  moreover have "kryt (g OK)" if "stany u' r = Zablokowany g" for r g
    using that w by (auto simp: u'(2) dr wylaczny_def split: if_splits)
  ultimately show "wylaczny m kryt u'" by (simp add: wylaczny_def u'(1))
qed

lemma wylaczny_lokalnie:
  assumes "wylaczny m kryt u" "stany u p = Dziala l" "serw u' = serw u" "stany u' = (stany u)(p := Dziala l')" "kryt l' = kryt l"
  shows "wylaczny m kryt u'"
  using assms by (auto simp: wylaczny_def w_sekcji_def)

text \<open>The steps of the system as a program with a critical section sees them.\<close>

lemma krok_sekcji:
  assumes u: "spojny E Ep N {m} CVs u" and w: "wylaczny m kryt u" and k: "krok_ukladu E A Ep N u u'"
  obtains (zadanie) p l t n c f where "wylaczny m kryt u'" "stany u p = Dziala l" "A l = Zadanie t n c f"
      "\<And>q. widok (stany u' q) = (if q = p then Some (f OK) else widok (stany u q))"
      "\<And>q. q \<noteq> p \<Longrightarrow> \<forall>g. stany u q \<noteq> Zablokowany g \<Longrightarrow> stany u' q = stany u q"
      "t = CS_UNLOCK \<or> t = CS_BROADCAST \<Longrightarrow> stany u' p = Dziala (f OK)"
      "stdout u' = stdout u" "potok u' = potok u" "rodzic u' = rodzic u"
      "\<And>d. czekaja d u' \<subseteq> (if t = CS_BROADCAST \<and> d = c then {} else czekaja d u \<union> (if t = CS_WAIT \<and> d = c then {p} else {}))"
  | (koniec) p l j where "wylaczny m kryt u'" "stany u p = Dziala l" "A l = Koniec j" "stany u' p = Zombie j"
      "\<And>q. widok (stany u' q) = (if q = p then None else widok (stany u q))"
      "\<And>q. q \<noteq> p \<Longrightarrow> \<forall>g. stany u q \<noteq> Zablokowany g \<Longrightarrow> stany u' q = stany u q"
      "\<not> kryt l \<Longrightarrow> stany u' = (stany u)(p := Zombie j)"
      "stdout u' = stdout u" "potok u' = potok u" "rodzic u' = rodzic u" "\<And>d. czekaja d u' \<subseteq> czekaja d u"
  | (lokalny) p l l' where "wylaczny m kryt u'" "stany u p = Dziala l" "stany u' = (stany u)(p := Dziala l')" "rodzic u' = rodzic u"
      "(\<exists>x. A l = Pisz x l' \<and> stdout u' = stdout u @ x \<and> potok u' = potok u) \<or>
       (\<exists>f. A l = Rozwidl f \<and> l' = f (- 1) \<and> stdout u' = stdout u \<and> potok u' = potok u) \<or>
       (\<exists>f. A l = Czekaj_dziecka f \<and> l' = f (- 1) \<and> (\<forall>q. rodzic u q = p \<longrightarrow> stany u q = Nie_ma) \<and> stdout u' = stdout u \<and> potok u' = potok u) \<or>
       (\<exists>f b. A l = Odczyt f \<and> l' = f b \<and> potok u = b # potok u' \<and> stdout u' = stdout u) \<or>
       (\<exists>b. A l = Zapis b l' \<and> potok u' = potok u @ [b] \<and> stdout u' = stdout u) \<or>
       A l = Dalej l' \<and> stdout u' = stdout u \<and> potok u' = potok u"
      "serw u' = serw u"
  | (rozwidl) p l f q j where "wylaczny m kryt u'" "stany u p = Dziala l" "A l = Rozwidl f" "stany u q = Nie_ma" "0 < j" "p \<noteq> q"
      "stany u' = (stany u)(p := Dziala (f j), q := Dziala (f 0))" "rodzic u' = (rodzic u)(q := p)"
      "stdout u' = stdout u" "potok u' = potok u" "serw u' = serw u"
  | (dziecko) p l f q i j where "wylaczny m kryt u'" "stany u p = Dziala l" "A l = Czekaj_dziecka f" "stany u q = Zombie i"
      "rodzic u q = p" "0 < j" "p \<noteq> q" "stany u' = (stany u)(q := Nie_ma, p := Dziala (f j))" "rodzic u' = rodzic u"
      "stdout u' = stdout u" "potok u' = potok u" "serw u' = serw u"
  | (zabij) p l where "wylaczny m kryt u'" "stany u p = Dziala l" "A l = Zabij_grupe"
      "stany u' = (\<lambda>q. if trwa (stany u q) then Zombie (- SIGTERM) else stany u q)"
      "stdout u' = stdout u" "potok u' = potok u" "rodzic u' = rodzic u" "\<And>d. czekaja d u' = {}"
  using k
proof cases
  case zz: (zadanie p l t n c f s out)
  note 1 = zadanie_wynik[OF u zz(2-5)]
  note W = wylaczny_zadanie[OF u w zz(2,3) 1, where u' = u'] and pola = zz(1)
  have ok: "\<And>q r. (q, r) \<in> set out \<Longrightarrow> r = OK" using W(2) pola by simp
  have "zadanie_klienta (zadanie p t n c)" using zadania[OF zz(3)] by (simp add: zadanie_w_zasobach_def zadanie_klienta_def)
  note cz' = a_klient_czekajacy[OF this, of _ "abstr (serw u)", folded 1(1)]
  have "serw u' = s" by (simp add: pola)
  then have cz: "czekaja d u' \<subseteq> (if t = CS_BROADCAST \<and> d = c then {} else czekaja d u \<union> (if t = CS_WAIT \<and> d = c then {p} else {}))" for d
    unfolding czekaja_def using cz'[of d] by (simp only:)
  show ?thesis
    by (rule that(1)[OF W(1) zz(2,3) _ _ _ _ _ _ cz])
      (use pola ok W(3) in \<open>auto simp: widok_dorecz dorecz_niezablokowany fun_upd_def[symmetric]\<close>)
next
  case kk: (koniec p l j s out)
  note 1 = koniec_wynik[OF u kk(2,4,5)]
  note K = koniec_sekcji[OF u w kk(2) 1, where u' = u' and k = j] and pola = kk(1)
  have cz: "czekaja d u' \<subseteq> czekaja d u" for d using a_exit_czekajacy[of d p "abstr (serw u)", folded 1(1)] pola by (simp add: czekaja_def)
  show ?thesis
    by (rule that(2)[OF K(1) kk(2,3) _ _ _ _ _ _ _ cz])
      (use pola K(2) 1(3) in \<open>auto simp: widok_dorecz dorecz_niezablokowany fun_upd_def[symmetric]\<close>)
next
  case zz: (zabij p l qs s)
  from grupa_konczy[OF u zz(4)] zz(6) have mu: "\<And>q. ma_mutex q m (abstr s) \<Longrightarrow> q \<notin> set qs \<and> ma_mutex q m (abstr (serw u))"
    and nc: "\<And>q. \<not> czeka q (abstr s)" by (metis option.inject)+
  have "czekaja d u' = {}" for d using zz(1) nc czekajacy_na_miejsce[of _ _ d "abstr s"] by (fastforce simp: czekaja_def czeka_def)
  have "\<not> ma_mutex q m (abstr s)" for q
  proof
    assume q: "ma_mutex q m (abstr s)"
    then have "w_sekcji kryt (stany u q)" using mu w by (auto simp: wylaczny_def)
    then have "trwa (stany u q)" by (cases "stany u q") (auto simp: w_sekcji_def)
    with mu[OF q] zz(4) show False by simp
  qed
  moreover have "\<not> w_sekcji kryt (stany u' q)" "stany u' q \<noteq> Zablokowany g" for q g
    using zz(1) by (cases "stany u q"; simp add: w_sekcji_def)+
  ultimately have "wylaczny m kryt u'" using zz(1) by (simp add: wylaczny_def)
  with zz \<open>\<And>d. czekaja d u' = {}\<close> show ?thesis by (intro that(6)) auto
next
  case rr: (rozwidl p l f q j)
  then have "wylaczny m kryt u'" using w prawo[of l] by (auto simp: wylaczny_def w_sekcji_def prawo_sekcji_def)
  with rr show ?thesis by (intro that(4)) auto
next
  case dd: (dziecko p l f q i j)
  then have "wylaczny m kryt u'" using w prawo[of l] by (auto simp: wylaczny_def w_sekcji_def prawo_sekcji_def)
  with dd show ?thesis by (intro that(5)) auto
next
  case pp: (pisz p l x l')
  have "wylaczny m kryt u'" by (rule wylaczny_lokalnie[OF w pp(2), of u' l']) (use prawo[of l] pp in \<open>simp_all add: prawo_sekcji_def\<close>)
  from that(3)[OF this pp(2), of l'] pp show ?thesis by simp
next
  case rb: (rozwidl_blad p l f)
  have "wylaczny m kryt u'" by (rule wylaczny_lokalnie[OF w rb(2), of u' "f (- 1)"]) (use prawo[of l] rb in \<open>simp_all add: prawo_sekcji_def\<close>)
  from that(3)[OF this rb(2), of "f (- 1)"] rb show ?thesis by simp
next
  case bd: (bez_dzieci p l f)
  have "wylaczny m kryt u'" by (rule wylaczny_lokalnie[OF w bd(2), of u' "f (- 1)"]) (use prawo[of l] bd in \<open>simp_all add: prawo_sekcji_def\<close>)
  from that(3)[OF this bd(2), of "f (- 1)"] bd show ?thesis by simp
next
  case oo: (odczyt p l f b bs)
  have "wylaczny m kryt u'" by (rule wylaczny_lokalnie[OF w oo(2), of u' "f b"]) (use prawo[of l] oo in \<open>simp_all add: prawo_sekcji_def\<close>)
  from that(3)[OF this oo(2), of "f b"] oo show ?thesis by simp
next
  case za: (zapis p l b l')
  have "wylaczny m kryt u'" by (rule wylaczny_lokalnie[OF w za(2), of u' l']) (use prawo[of l] za in \<open>simp_all add: prawo_sekcji_def\<close>)
  from that(3)[OF this za(2), of l'] za show ?thesis by simp
next
  case da: (dalej p l l')
  have "wylaczny m kryt u'" by (rule wylaczny_lokalnie[OF w da(2), of u' l']) (use prawo[of l] da in \<open>simp_all add: prawo_sekcji_def\<close>)
  from that(3)[OF this da(2), of l'] da show ?thesis by simp
qed

lemma wylaczny_krok:
  assumes "spojny E Ep N {m} CVs u" "wylaczny m kryt u" "krok_ukladu E A Ep N u u'"
  shows "wylaczny m kryt u'"
  using assms by (cases rule: krok_sekcji) auto

end

end
