(* ===== verification/Przebieg.thy ===== *)
theory Przebieg
  imports Uklad
begin

text \<open>
  Runs of client programs that can be computed: a schedule names which process takes the next step, and with which outcome when there is a
  choice. The server is represented by the monitor that it implements. Every schedule that is carried out is a run of the processes
  with the server.
\<close>

section \<open>Schedules\<close>

datatype wybor = Idz int | Nowy int int | Zbierz int int

record 'l plan_stan =
  p_mon :: monitor
  p_stany :: "int \<Rightarrow> 'l proces_k"
  p_lista :: "int list"
  p_rodzic :: "int \<Rightarrow> int"
  p_stdout :: string
  p_potok :: "int list list"

fun nie_ma :: "'l proces_k \<Rightarrow> bool" where
  "nie_ma Nie_ma = True" | "nie_ma _ = False"

fun zakonczony :: "int \<Rightarrow> 'l proces_k \<Rightarrow> bool" where
  "zakonczony j (Zombie i) = (i = j)" | "zakonczony j _ = False"

text \<open>A process takes a step; \<open>ms\<close> are the mutexes of the program. A process that ends has none of them.\<close>

definition idz :: "int list \<Rightarrow> int \<Rightarrow> 'l \<Rightarrow> 'l akcja \<Rightarrow> 'l plan_stan \<Rightarrow> 'l plan_stan option" where
  "idz ms p l a s =
     (case a of
        Koniec k \<Rightarrow> if list_ex (\<lambda>n. ma_mutex p n (p_mon s)) ms then None else Some (s\<lparr>p_mon := a_exit p (p_mon s), p_stany := (p_stany s)(p := Zombie k)\<rparr>)
      | Zadanie t n c f \<Rightarrow>
          (let w = a_klient (zadanie p t n c) (p_mon s)
           in Some (s\<lparr>p_mon := snd w, p_stany := dorecz (fst w) ((p_stany s)(p := Zablokowany f))\<rparr>))
      | Pisz x l' \<Rightarrow> Some (s\<lparr>p_stany := (p_stany s)(p := Dziala l'), p_stdout := p_stdout s @ x\<rparr>)
      | Rozwidl f \<Rightarrow> Some (s\<lparr>p_stany := (p_stany s)(p := Dziala (f (- 1)))\<rparr>)
      | Czekaj_dziecka f \<Rightarrow>
          if list_all (\<lambda>q. p_rodzic s q = p \<longrightarrow> nie_ma (p_stany s q)) (p_lista s)
          then Some (s\<lparr>p_stany := (p_stany s)(p := Dziala (f (- 1)))\<rparr>) else None
      | Odczyt f \<Rightarrow> (case p_potok s of [] \<Rightarrow> None | b # bs \<Rightarrow> Some (s\<lparr>p_stany := (p_stany s)(p := Dziala (f b)), p_potok := bs\<rparr>))
      | Zapis b l' \<Rightarrow> Some (s\<lparr>p_stany := (p_stany s)(p := Dziala l'), p_potok := p_potok s @ [b]\<rparr>)
      | Zabij_grupe \<Rightarrow> None
      | Dalej l' \<Rightarrow> Some (s\<lparr>p_stany := (p_stany s)(p := Dziala l')\<rparr>))"

fun wykonaj_wybor :: "('l \<Rightarrow> 'l akcja) \<Rightarrow> int list \<Rightarrow> nat \<Rightarrow> wybor \<Rightarrow> 'l plan_stan \<Rightarrow> 'l plan_stan option" where
  "wykonaj_wybor A ms N (Idz p) s = (case p_stany s p of Dziala l \<Rightarrow> idz ms p l (A l) s | _ \<Rightarrow> None)"
| "wykonaj_wybor A ms N (Nowy p q) s =
     (case p_stany s p of
        Dziala l \<Rightarrow> (case A l of
          Rozwidl f \<Rightarrow>
            if q \<notin> set (p_lista s) \<and> length (p_lista s) < N
            then Some (s\<lparr>p_stany := (p_stany s)(p := Dziala (f 1), q := Dziala (f 0)), p_lista := q # p_lista s, p_rodzic := (p_rodzic s)(q := p)\<rparr>)
            else None
        | _ \<Rightarrow> None)
      | _ \<Rightarrow> None)"
| "wykonaj_wybor A ms N (Zbierz p q) s =
     (case p_stany s p of
        Dziala l \<Rightarrow> (case A l of
          Czekaj_dziecka f \<Rightarrow>
            (case p_stany s q of
               Zombie j \<Rightarrow> if p_rodzic s q = p then Some (s\<lparr>p_stany := (p_stany s)(q := Nie_ma, p := Dziala (f 1))\<rparr>) else None
             | _ \<Rightarrow> None)
        | _ \<Rightarrow> None)
      | _ \<Rightarrow> None)"

fun wykonaj_plan :: "('l \<Rightarrow> 'l akcja) \<Rightarrow> int list \<Rightarrow> nat \<Rightarrow> wybor list \<Rightarrow> 'l plan_stan \<Rightarrow> 'l plan_stan option" where
  "wykonaj_plan A ms N [] s = Some s"
| "wykonaj_plan A ms N (w # ws) s = (case wykonaj_wybor A ms N w s of None \<Rightarrow> None | Some s' \<Rightarrow> wykonaj_plan A ms N ws s')"

definition przebieg0 :: "int \<Rightarrow> 'l \<Rightarrow> 'l plan_stan" where
  "przebieg0 p l = \<lparr>p_mon = monitor0, p_stany = (\<lambda>_. Nie_ma)(p := Dziala l), p_lista = [p], p_rodzic = (\<lambda>_. p - 1), p_stdout = [], p_potok = []\<rparr>"

definition dzieci_planu :: "wybor list \<Rightarrow> int set" where
  "dzieci_planu ws = {q. \<exists>p. Nowy p q \<in> set ws}"

section \<open>Every schedule is a run\<close>

definition zgodny :: "'l uklad \<Rightarrow> 'l plan_stan \<Rightarrow> bool" where
  "zgodny u s \<longleftrightarrow> abstr (serw u) = p_mon s \<and> stany u = p_stany s \<and> rodzic u = p_rodzic s \<and> stdout u = p_stdout s \<and> potok u = p_potok s \<and>
     zywe u \<subseteq> set (p_lista s)"

lemma zakonczony_iff: "zakonczony j x \<longleftrightarrow> x = Zombie j"
  by (cases x) auto

lemma nie_ma_iff: "nie_ma x \<longleftrightarrow> x = Nie_ma"
  by (cases x) simp_all

lemma zywe_upd: "stany u p = Dziala l \<Longrightarrow> stany u' = (stany u)(p := x) \<Longrightarrow> zywe u' \<subseteq> zywe u"
  by (auto simp: zywe_def)

lemma zgodny_lokalny:
  assumes "zgodny u s" "stany u p = Dziala l" "stany u' = (stany u)(p := x)" "serw u' = serw u" "rodzic u' = rodzic u"
    "p_mon s' = p_mon s" "p_lista s' = p_lista s" "p_rodzic s' = p_rodzic s" "p_stany s' = (p_stany s)(p := x)" "p_stdout s' = stdout u'" "p_potok s' = potok u'"
  shows "zgodny u' s'"
  using assms zywe_upd[OF assms(2,3)] unfolding zgodny_def by (metis subset_trans)

context klienci
begin

lemma idz_krok:
  assumes u: "spojny E Ep N MU CVs u" and ms: "MU \<subseteq> set ms" and z: "zgodny u s" and p: "stany u p = Dziala l"
    and i: "idz ms p l (A l) s = Some s'"
  shows "\<exists>u'. krok_ukladu E A Ep N u u' \<and> zgodny u' s'"
proof (cases "A l")
  case (Koniec k)
  obtain t out where t: "obslugaWiadomosci E (od_pm CS_EXIT p) (serw u) = Some t" "abstr t = a_exit p (abstr (serw u))"
    "wyslane t = wyslane (serw u) @ out" "\<And>r. odpowiedzi r out = (if nastepca p (abstr (serw u)) r then 1 else 0)"
    "\<And>q r. (q, r) \<in> set out \<Longrightarrow> r = OK"
    using koniec_obsluzony[OF u p] by metis
  let ?u = "u\<lparr>serw := t, stany := dorecz out ((stany u)(p := Zombie k))\<rparr>"
  have k: "\<not> list_ex (\<lambda>n. ma_mutex p n (p_mon s)) ms" using i Koniec by (auto simp: idz_def split: if_splits)
  then have "\<not> ma_mutex p n (abstr (serw u))" if "n \<in> MU" for n using that ms z by (auto simp: list_ex_iff zgodny_def)
  then have "stany ?u = (stany u)(p := Zombie k)" using koniec_bez_mutexow[OF u p t(1,3)] by simp
  moreover from zywe_upd[OF p this] have "zywe ?u \<subseteq> zywe u" .
  ultimately have "zgodny ?u s'" using z i Koniec k t(2) by (auto simp: zgodny_def idz_def)
  with krok_ukladu.koniec[of u p l A, OF p Koniec t(1,3)] show ?thesis by blast
next
  case (Zadanie t n c f)
  obtain r where r: "obslugaWiadomosci E (zadanie p t n c) (serw u) = Some r" "abstr r = snd (a_klient (zadanie p t n c) (abstr (serw u)))"
    "wyslane r = wyslane (serw u) @ fst (a_klient (zadanie p t n c) (abstr (serw u)))"
    "stan_serwera E r" "straznicy r = straznicy (serw u)"
    using zadanie_obsluzone[OF u p Zadanie] by metis
  let ?u = "u\<lparr>serw := r, stany := dorecz (fst (a_klient (zadanie p t n c) (abstr (serw u)))) ((stany u)(p := Zablokowany f))\<rparr>"
  have "zywe ?u \<subseteq> zywe u"
  proof
    fix q assume "q \<in> zywe ?u"
    then show "q \<in> zywe u" using p
      by (cases rule: dorecz_przypadki[of "fst (a_klient (zadanie p t n c) (abstr (serw u)))" "(stany u)(p := Zablokowany f)" q])
        (auto simp: zywe_def split: if_splits)
  qed
  then have "zgodny ?u s'" using z i Zadanie r(2) by (auto simp: zgodny_def idz_def Let_def)
  with krok_ukladu.zadanie[of u p l A, OF p Zadanie r(1,3)] show ?thesis by blast
next
  case (Pisz x l')
  let ?u = "u\<lparr>stany := (stany u)(p := Dziala l'), stdout := stdout u @ x\<rparr>"
  have "zgodny ?u s'" by (rule zgodny_lokalny[OF z p]) (use i z Pisz in \<open>auto simp: idz_def zgodny_def\<close>)
  with krok_ukladu.pisz[of u p l A, OF p Pisz] show ?thesis by blast
next
  case (Rozwidl f)
  let ?u = "u\<lparr>stany := (stany u)(p := Dziala (f (- 1)))\<rparr>"
  have "zgodny ?u s'" by (rule zgodny_lokalny[OF z p]) (use i z Rozwidl in \<open>auto simp: idz_def zgodny_def\<close>)
  with krok_ukladu.rozwidl_blad[of u p l A, OF p Rozwidl] show ?thesis by blast
next
  case (Czekaj_dziecka f)
  have bd: "\<forall>q. rodzic u q = p \<longrightarrow> stany u q = Nie_ma"
  proof (intro allI impI)
    fix q assume q: "rodzic u q = p"
    show "stany u q = Nie_ma"
    proof (rule ccontr)
      assume "stany u q \<noteq> Nie_ma"
      moreover from this have "q \<in> set (p_lista s)" using z by (auto simp: zgodny_def zywe_def)
      ultimately show False using i q z Czekaj_dziecka by (auto simp: idz_def list_all_iff nie_ma_iff zgodny_def split: if_splits)
    qed
  qed
  let ?u = "u\<lparr>stany := (stany u)(p := Dziala (f (- 1)))\<rparr>"
  have "zgodny ?u s'" by (rule zgodny_lokalny[OF z p]) (use i z Czekaj_dziecka in \<open>auto simp: idz_def zgodny_def split: if_splits\<close>)
  with krok_ukladu.bez_dzieci[of u p l A, OF p Czekaj_dziecka bd] show ?thesis by blast
next
  case (Odczyt f)
  then obtain b bs where b: "potok u = b # bs" "p_potok s = b # bs" using i z by (auto simp: idz_def zgodny_def split: list.splits)
  let ?u = "u\<lparr>stany := (stany u)(p := Dziala (f b)), potok := bs\<rparr>"
  have "zgodny ?u s'" by (rule zgodny_lokalny[OF z p]) (use i z Odczyt b in \<open>auto simp: idz_def zgodny_def\<close>)
  with krok_ukladu.odczyt[of u p l A, OF p Odczyt b(1)] show ?thesis by blast
next
  case (Zapis b l')
  let ?u = "u\<lparr>stany := (stany u)(p := Dziala l'), potok := potok u @ [b]\<rparr>"
  have "zgodny ?u s'" by (rule zgodny_lokalny[OF z p]) (use i z Zapis in \<open>auto simp: idz_def zgodny_def\<close>)
  with krok_ukladu.zapis[of u p l A, OF p Zapis] show ?thesis by blast
next
  case (Dalej l')
  let ?u = "u\<lparr>stany := (stany u)(p := Dziala l')\<rparr>"
  have "zgodny ?u s'" by (rule zgodny_lokalny[OF z p]) (use i z Dalej in \<open>auto simp: idz_def zgodny_def\<close>)
  with krok_ukladu.dalej[of u p l A, OF p Dalej] show ?thesis by blast
qed (use i in \<open>simp add: idz_def\<close>)

lemma wykonaj_wybor_krok:
  assumes u: "spojny E Ep N MU CVs u" and ms: "MU \<subseteq> set ms" and z: "zgodny u s"
    and i: "wykonaj_wybor A ms N x s = Some s'" and q: "\<And>p q. x = Nowy p q \<Longrightarrow> q \<in> Ep"
  shows "\<exists>u'. krok_ukladu E A Ep N u u' \<and> zgodny u' s'"
proof (cases x)
  case (Idz p)
  with i z obtain l where "stany u p = Dziala l" "idz ms p l (A l) s = Some s'" by (auto simp: zgodny_def split: proces_k.splits)
  from idz_krok[OF u ms z this] show ?thesis .
next
  case (Nowy p r)
  with i z obtain l f where l: "stany u p = Dziala l" "A l = Rozwidl f" "r \<notin> set (p_lista s)" "length (p_lista s) < N"
    "s' = s\<lparr>p_stany := (p_stany s)(p := Dziala (f 1), r := Dziala (f 0)), p_lista := r # p_lista s, p_rodzic := (p_rodzic s)(r := p)\<rparr>"
    by (auto simp: zgodny_def split: proces_k.splits akcja.splits if_splits)
  have zy: "zywe u \<subseteq> set (p_lista s)" using z by (simp add: zgodny_def)
  then have "card (zywe u) \<le> length (p_lista s)" by (meson card_length card_mono finite_set le_trans)
  then have c: "card {q. stany u q \<noteq> Nie_ma} < N" using l(4) by (simp add: zywe_def)
  have "stany u r = Nie_ma" using zy l(3) by (auto simp: zywe_def)
  let ?u = "u\<lparr>stany := (stany u)(p := Dziala (f 1), r := Dziala (f 0)), rodzic := (rodzic u)(r := p)\<rparr>"
  have "krok_ukladu E A Ep N u ?u" by (rule krok_ukladu.rozwidl[of u p l A, OF l(1,2) \<open>stany u r = Nie_ma\<close> q[OF Nowy] c]) simp
  moreover have "zywe ?u \<subseteq> insert r (zywe u)" using l(1) by (auto simp: zywe_def)
  then have "zgodny ?u s'" using z zy l(5) by (auto simp: zgodny_def)
  ultimately show ?thesis by blast
next
  case (Zbierz p r)
  with i z obtain l f j where l: "stany u p = Dziala l" "A l = Czekaj_dziecka f" "stany u r = Zombie j" "rodzic u r = p"
    "s' = s\<lparr>p_stany := (p_stany s)(r := Nie_ma, p := Dziala (f 1))\<rparr>"
    by (auto simp: zgodny_def split: proces_k.splits akcja.splits if_splits)
  let ?u = "u\<lparr>stany := (stany u)(r := Nie_ma, p := Dziala (f 1))\<rparr>"
  have "krok_ukladu E A Ep N u ?u" by (rule krok_ukladu.dziecko[of u p l A, OF l(1-4)]) simp
  moreover have "zywe ?u \<subseteq> zywe u" using l(1) by (auto simp: zywe_def)
  then have "zgodny ?u s'" using z l(5) by (auto simp: zgodny_def)
  ultimately show ?thesis by blast
qed

lemma wykonaj_plan_osiagalny:
  assumes "osiagalny S (krok_ukladu E A Ep N) u" "spojny E Ep N MU CVs u" "MU \<subseteq> set ms" "zgodny u s"
    and "wykonaj_plan A ms N ws s = Some s'" "dzieci_planu ws \<subseteq> Ep"
  shows "\<exists>u'. osiagalny S (krok_ukladu E A Ep N) u' \<and> zgodny u' s'"
  using assms
proof (induction ws arbitrary: u s)
  case (Cons x ws)
  then obtain s1 where s1: "wykonaj_wybor A ms N x s = Some s1" "wykonaj_plan A ms N ws s1 = Some s'" by (auto split: option.splits)
  have "q \<in> Ep" if "x = Nowy p q" for p q using that Cons.prems(6) by (auto simp: dzieci_planu_def)
  with wykonaj_wybor_krok[OF Cons.prems(2-4) s1(1)] obtain u1 where u1: "krok_ukladu E A Ep N u u1" "zgodny u1 s1" by blast
  have "dzieci_planu ws \<subseteq> Ep" using Cons.prems(6) by (auto simp: dzieci_planu_def)
  with Cons.IH[OF osiagalny.dalej[OF Cons.prems(1) u1(1)] spojny_krok[OF Cons.prems(2) u1(1)] Cons.prems(3) u1(2) s1(2)]
  show ?case .
qed auto

lemma plan_od_poczatku:
  assumes p: "p \<in> Ep" "0 < N" "MU \<subseteq> set ms" and ws: "wykonaj_plan A ms N ws (przebieg0 p l) = Some s'" "dzieci_planu ws \<subseteq> Ep"
  shows "\<exists>u. osiagalny (\<lambda>u. p \<in> Ep \<and> poczatek_ukladu E p l u) (krok_ukladu E A Ep N) u \<and> zgodny u s'"
proof -
  obtain s0 where s0: "main_start E = Some s0" "abstr s0 = monitor0" using main_start_ok[of E] by blast
  define u where "u = \<lparr>serw = s0, stany = (\<lambda>_. Nie_ma)(p := Dziala l), rodzic = (\<lambda>_. p - 1), stdout = [], potok = []\<rparr>"
  have u: "poczatek_ukladu E p l u" by (simp add: u_def poczatek_ukladu_def s0)
  have st: "stany u = (\<lambda>_. Nie_ma)(p := Dziala l)" "abstr (serw u) = monitor0" by (simp_all add: u_def s0)
  have z: "zgodny u (przebieg0 p l)" by (simp add: zgodny_def przebieg0_def u_def s0 zywe_def)
  have "osiagalny (\<lambda>u. p \<in> Ep \<and> poczatek_ukladu E p l u) (krok_ukladu E A Ep N) u" by (rule osiagalny.start) (simp add: u p(1))
  from wykonaj_plan_osiagalny[OF this spojny_start[OF u p(1,2)] p(3) z ws] show ?thesis .
qed

text \<open>A schedule that ends the first process.\<close>

lemma plan_konczy:
  assumes "case wykonaj_plan A ms N ws (przebieg0 p l) of None \<Rightarrow> False | Some s \<Rightarrow> zakonczony j (p_stany s p)"
    and "p \<in> Ep" "0 < N" "MU \<subseteq> set ms" "dzieci_planu ws \<subseteq> Ep"
  shows "\<exists>u. osiagalny (\<lambda>u. p \<in> Ep \<and> poczatek_ukladu E p l u) (krok_ukladu E A Ep N) u \<and> stany u p = Zombie j"
proof -
  from assms(1) obtain s where s: "wykonaj_plan A ms N ws (przebieg0 p l) = Some s" "p_stany s p = Zombie j"
    by (auto simp: zakonczony_iff split: option.splits)
  from plan_od_poczatku[OF assms(2-4) s(1) assms(5)] s(2) show ?thesis by (auto simp: zgodny_def)
qed

end

end
