(* ===== verification/Many_Procs.thy ===== *)
theory Many_Procs
  imports Sekcja Przebieg
begin

text \<open>
  The test program \<^verbatim>\<open>testy/src/many_procs.c\<close> as a client of the server: several children each write a line, byte by
  byte, inside the critical section of one mutex. Shown is what the test checks: no lines are mixed up, and at the end every
  child has written all its lines; and that the program never gets stuck.
\<close>

section \<open>The program\<close>

text \<open>
  The control points: the loops of \<^verbatim>\<open>main\<close>, the calls in the loop of \<^verbatim>\<open>child\<close> with its number \<open>n\<close> and its counter
  \<open>i\<close>, and \<^verbatim>\<open>fail\<close>. The arguments are the numbers that \<^verbatim>\<open>atoi\<close> reads; \<^verbatim>\<open>sleep\<close> only takes time. An empty loop condition at
  \<open>Ch_lock\<close> is the exit of the child.
\<close>

datatype mp_lok =
  M_start | M_fork int | M_wait int | Ch_lock int int | Ch_pisz1 int int | Ch_pisz2 int int | Ch_unlock int int | Fail

definition MAX_PROCS :: int where "MAX_PROCS = 32"

definition litera :: "int \<Rightarrow> char" where
  "litera n = char_of (97 + nat n)"

fun many_procs :: "int \<Rightarrow> int \<Rightarrow> int \<Rightarrow> int \<Rightarrow> mp_lok \<Rightarrow> mp_lok akcja" where
  "many_procs mutex_id argc procs turns M_start =
     Dalej (if argc \<noteq> 3 then Fail else if procs < 0 \<or> procs > MAX_PROCS then Fail
            else if turns < 0 \<or> turns > MAX_PROCS then Fail else M_fork 0)"
| "many_procs mutex_id argc procs turns (M_fork i) =
     (if i < procs then Rozwidl (\<lambda>ch. if ch < 0 then Fail else if ch = 0 then Ch_lock i 0 else M_fork (i + 1))
      else Dalej (M_wait procs))"
| "many_procs mutex_id argc procs turns (M_wait k) =
     (if k > 0 then Czekaj_dziecka (\<lambda>r. if r > 0 then M_wait (k - 1) else M_wait k) else Koniec 0)"
| "many_procs mutex_id argc procs turns (Ch_lock n i) =
     (if i < turns then lib_cs_lock mutex_id (Ch_lock n i) (\<lambda>r. if r \<noteq> 0 then Fail else Ch_pisz1 n i) else Koniec 0)"
| "many_procs mutex_id argc procs turns (Ch_pisz1 n i) = Pisz [litera n] (Ch_pisz2 n i)"
| "many_procs mutex_id argc procs turns (Ch_pisz2 n i) = Pisz [litera n, CHR 0x0A] (Ch_unlock n i)"
| "many_procs mutex_id argc procs turns (Ch_unlock n i) =
     lib_cs_unlock mutex_id (\<lambda>r. if r \<noteq> 0 then Fail else Ch_lock n (i + 1))"
| "many_procs mutex_id argc procs turns Fail = Koniec 2"

text \<open>The line that a child writes in one turn of its loop.\<close>

definition linia :: "int \<Rightarrow> string" where
  "linia n = [litera n, litera n, CHR 0x0A]"

definition mp_kryt :: "mp_lok \<Rightarrow> bool" where
  "mp_kryt l \<longleftrightarrow> (case l of Ch_pisz1 n i \<Rightarrow> True | Ch_pisz2 n i \<Rightarrow> True | Ch_unlock n i \<Rightarrow> True | _ \<Rightarrow> False)"

interpretation mp: sekcja E "many_procs mutex_id argc procs turns" "endpointy E" MAX_CZEKA mutex_id "{}" mp_kryt
  for E mutex_id argc procs turns
proof unfold_locales
  show "zadanie_w_zasobach {mutex_id} {} t n c" if "many_procs mutex_id argc procs turns l = Zadanie t n c f" for l t n c f
    using that by (cases l) (auto simp: lib_cs_lock_def lib_cs_unlock_def zadanie_w_zasobach_def cs_defs split: if_splits)
  show "prawo_sekcji mutex_id mp_kryt l (many_procs mutex_id argc procs turns l)" for l
    by (cases l) (auto simp: prawo_sekcji_def mp_kryt_def lib_cs_lock_def lib_cs_unlock_def status_def EINTR_klienta_def OK_def)
qed (auto simp: endpointy_def MAX_MUTEX_def)

section \<open>The invariant\<close>

text \<open>The number of a child and how many lines it has written.\<close>

fun kol :: "mp_lok \<Rightarrow> (int \<times> int) option" where
  "kol (Ch_lock n i) = Some (n, i)"
| "kol (Ch_pisz1 n i) = Some (n, i)"
| "kol (Ch_pisz2 n i) = Some (n, i)"
| "kol (Ch_unlock n i) = Some (n, i + 1)"
| "kol _ = None"

fun mp_dobry :: "int \<Rightarrow> mp_lok \<Rightarrow> bool" where
  "mp_dobry turns (Ch_lock n i) = (i \<le> turns)"
| "mp_dobry turns (Ch_pisz1 n i) = (i < turns)"
| "mp_dobry turns (Ch_pisz2 n i) = (i < turns)"
| "mp_dobry turns (Ch_unlock n i) = (i < turns)"
| "mp_dobry turns _ = True"

definition indeks :: "mp_lok uklad \<Rightarrow> int \<Rightarrow> (int \<times> int) option" where
  "indeks u q = Option.bind (widok (stany u q)) kol"

text \<open>
  The lines \<open>ns\<close> written so far agree with the counters of the first \<open>fk\<close> children, and a child that is gone has written all of
  its lines.
\<close>

definition rozliczone :: "int \<Rightarrow> int \<Rightarrow> int list \<Rightarrow> (int \<Rightarrow> (int \<times> int) option) \<Rightarrow> bool" where
  "rozliczone turns fk ns ind \<longleftrightarrow>
     (\<forall>q n i. ind q = Some (n, i) \<longrightarrow> 0 \<le> n \<and> n < fk \<and> int (count_list ns n) = i) \<and>
     (\<forall>q q' n i i'. ind q = Some (n, i) \<longrightarrow> ind q' = Some (n, i') \<longrightarrow> q = q') \<and>
     (\<forall>n. 0 \<le> n \<and> n < fk \<longrightarrow> (\<exists>q i. ind q = Some (n, i)) \<or> int (count_list ns n) = turns) \<and> set ns \<subseteq> {0..<fk}"

lemma rozliczoneD:
  assumes "rozliczone turns fk ns ind"
  shows "ind q = Some (n, i) \<Longrightarrow> 0 \<le> n \<and> n < fk \<and> int (count_list ns n) = i"
    "ind q = Some (n, i) \<Longrightarrow> ind q' = Some (n, i') \<Longrightarrow> q = q'"
    "0 \<le> n \<Longrightarrow> n < fk \<Longrightarrow> (\<And>q i. ind q \<noteq> Some (n, i)) \<Longrightarrow> int (count_list ns n) = turns"
    "n \<in> set ns \<Longrightarrow> 0 \<le> n \<and> n < fk"
  using assms unfolding rozliczone_def by (blast, blast, blast, auto)

lemma rozliczoneI:
  assumes "\<And>q n i. ind q = Some (n, i) \<Longrightarrow> 0 \<le> n \<and> n < fk \<and> int (count_list ns n) = i"
    and "\<And>q q' n i i'. ind q = Some (n, i) \<Longrightarrow> ind q' = Some (n, i') \<Longrightarrow> q = q'"
    and "\<And>n. 0 \<le> n \<Longrightarrow> n < fk \<Longrightarrow> (\<And>q i. ind q \<noteq> Some (n, i)) \<Longrightarrow> int (count_list ns n) = turns"
    and "\<And>n. n \<in> set ns \<Longrightarrow> 0 \<le> n \<and> n < fk"
  shows "rozliczone turns fk ns ind"
proof -
  have "(\<exists>q i. ind q = Some (n, i)) \<or> int (count_list ns n) = turns" if "0 \<le> n" "n < fk" for n using assms(3)[OF that] by blast
  moreover have "set ns \<subseteq> {0..<fk}" using assms(4) by auto
  ultimately show ?thesis using assms(1,2) unfolding rozliczone_def by blast
qed

lemma rozliczone_linia:
  assumes R: "rozliczone turns fk ns ind" and p: "ind p = Some (n, i)"
  shows "rozliczone turns fk (ns @ [n]) (ind(p := Some (n, i + 1)))"
proof (rule rozliczoneI)
  fix q k j assume q: "(ind(p := Some (n, i + 1))) q = Some (k, j)"
  show "0 \<le> k \<and> k < fk \<and> int (count_list (ns @ [n]) k) = j"
  proof (cases "q = p")
    case True
    with q rozliczoneD(1)[OF R p] show ?thesis by auto
  next
    case False
    then have "ind q = Some (k, j)" "k \<noteq> n" using q rozliczoneD(2)[OF R p] by auto
    with rozliczoneD(1)[OF R this(1)] show ?thesis by simp
  qed
next
  fix q q' k j j' assume "(ind(p := Some (n, i + 1))) q = Some (k, j)" "(ind(p := Some (n, i + 1))) q' = Some (k, j')"
  then show "q = q'" using rozliczoneD(2)[OF R] p by (auto split: if_splits)
next
  fix k assume k: "0 \<le> k" "k < fk" "\<And>q j. (ind(p := Some (n, i + 1))) q \<noteq> Some (k, j)"
  then have "k \<noteq> n" using k(3)[of p] by auto
  moreover have "ind q \<noteq> Some (k, j)" for q j using k(3)[of q] p \<open>k \<noteq> n\<close> by (cases "q = p") auto
  ultimately show "int (count_list (ns @ [n]) k) = turns" using rozliczoneD(3)[OF R k(1,2)] by simp
qed (use rozliczoneD(1)[OF R p] rozliczoneD(4)[OF R] in auto)

lemma rozliczone_koniec:
  assumes R: "rozliczone turns fk ns ind" and p: "ind p = Some (n, turns)"
  shows "rozliczone turns fk ns (ind(p := None))"
proof (rule rozliczoneI)
  fix k assume k: "0 \<le> k" "k < fk" "\<And>q j. (ind(p := None)) q \<noteq> Some (k, j)"
  show "int (count_list ns k) = turns"
  proof (cases "k = n")
    case True
    with rozliczoneD(1)[OF R p] show ?thesis by simp
  next
    case False
    then have "ind q \<noteq> Some (k, j)" for q j using k(3)[of q] p by (cases "q = p") auto
    with rozliczoneD(3)[OF R k(1,2)] show ?thesis by blast
  qed
next
  show "0 \<le> k \<and> k < fk \<and> int (count_list ns k) = j" if "(ind(p := None)) r = Some (k, j)" for r k j
    using that rozliczoneD(1)[OF R, of r k j] by (simp split: if_splits)
  show "r = r'" if "(ind(p := None)) r = Some (k, j)" "(ind(p := None)) r' = Some (k, j')" for r r' k j j'
    using that rozliczoneD(2)[OF R, of r k j r' j'] by (simp split: if_splits)
qed (rule rozliczoneD(4)[OF R])

lemma rozliczone_nowe:
  assumes R: "rozliczone turns fk ns ind" and q: "ind q = None" and fk: "0 \<le> fk"
  shows "rozliczone turns (fk + 1) ns (ind(q := Some (fk, 0)))"
proof (rule rozliczoneI)
  have c: "count_list ns fk = 0" using rozliczoneD(4)[OF R, of fk] by (auto simp: count_list_0_iff)
  have n: "ind r \<noteq> Some (fk, j)" for r j using rozliczoneD(1)[OF R, of r fk j] by auto
  show "0 \<le> k \<and> k < fk + 1 \<and> int (count_list ns k) = j" if "(ind(q := Some (fk, 0))) r = Some (k, j)" for r k j
    using that c fk rozliczoneD(1)[OF R, of r k j] by (auto split: if_splits)
  show "r = r'" if "(ind(q := Some (fk, 0))) r = Some (k, j)" "(ind(q := Some (fk, 0))) r' = Some (k, j')" for r r' k j j'
    using that n[of r] n[of r'] rozliczoneD(2)[OF R, of r k j r' j'] by (auto split: if_splits)
  show "int (count_list ns k) = turns" if "0 \<le> k" "k < fk + 1" "\<And>r j. (ind(q := Some (fk, 0))) r \<noteq> Some (k, j)" for k
  proof -
    have "k \<noteq> fk" using that(3)[of q] by auto
    moreover have "ind r \<noteq> Some (k, j)" for r j using that(3)[of r] q by (cases "r = q") auto
    ultimately show ?thesis using rozliczoneD(3)[OF R that(1)] that(2) by simp
  qed
  show "0 \<le> k \<and> k < fk + 1" if "k \<in> set ns" for k using rozliczoneD(4)[OF R that] by simp
qed

text \<open>The standard output: whole lines, and the first byte of the line of the child that is inside its two calls of \<^verbatim>\<open>write\<close>.\<close>

definition wypisane :: "int list \<Rightarrow> mp_lok uklad \<Rightarrow> bool" where
  "wypisane ns u \<longleftrightarrow>
     (\<forall>q n i. widok (stany u q) = Some (Ch_pisz2 n i) \<longrightarrow> stdout u = concat (map linia ns) @ [litera n]) \<and>
     ((\<forall>q n i. widok (stany u q) \<noteq> Some (Ch_pisz2 n i)) \<longrightarrow> stdout u = concat (map linia ns))"

definition blokady :: "mp_lok uklad \<Rightarrow> bool" where
  "blokady u \<longleftrightarrow> (\<forall>q f. stany u q = Zablokowany f \<longrightarrow> (\<exists>n i. f OK = Ch_pisz1 n i))"

definition mp_dzieci :: "int \<Rightarrow> int \<Rightarrow> mp_lok uklad \<Rightarrow> bool" where
  "mp_dzieci turns p u \<longleftrightarrow> (\<forall>q. q \<noteq> p \<longrightarrow> stany u q \<noteq> Nie_ma \<longrightarrow> rodzic u q = p \<and>
     (stany u q = Zombie 0 \<or> (\<exists>l. widok (stany u q) = Some l \<and> kol l \<noteq> None \<and> mp_dobry turns l)))"

text \<open>The process of \<^verbatim>\<open>main\<close>, with the number \<open>fk\<close> of children that were started.\<close>

definition glowny :: "int \<Rightarrow> int \<Rightarrow> int \<Rightarrow> int \<Rightarrow> mp_lok uklad \<Rightarrow> bool" where
  "glowny procs turns p fk u \<longleftrightarrow>
     stany u p = Dziala M_start \<and> fk = 0 \<and> zywe u = {p} \<or>
     stany u p = Dziala (M_fork fk) \<and> fk \<le> procs \<and> 0 \<le> turns \<and> int (card (zywe u - {p})) = fk \<or>
     (\<exists>k. stany u p = Dziala (M_wait k) \<and> fk = procs \<and> int (card (zywe u - {p})) = k) \<or>
     stany u p = Dziala Fail \<or> stany u p = Zombie 2 \<or>
     stany u p = Zombie 0 \<and> fk = procs \<and> zywe u = {p}"

definition mp_inw :: "int \<Rightarrow> int \<Rightarrow> int \<Rightarrow> mp_lok uklad \<Rightarrow> bool" where
  "mp_inw procs turns p u \<longleftrightarrow> blokady u \<and> mp_dzieci turns p u \<and>
     (\<exists>fk ns. 0 \<le> fk \<and> fk \<le> max 0 procs \<and> rozliczone turns fk ns (indeks u) \<and> wypisane ns u \<and> glowny procs turns p fk u)"

lemma glowny_stany:
  assumes "glowny procs turns p fk u"
  shows "stany u p \<noteq> Nie_ma" "stany u p \<noteq> Zablokowany f" "stany u p = Dziala l \<Longrightarrow> kol l = None"
  using assms by (auto simp: glowny_def)

lemma many_procs_zadanie:
  assumes "many_procs m argc procs turns l = Zadanie t n c f"
  obtains (lock) k i where "l = Ch_lock k i" "i < turns" "f OK = Ch_pisz1 k i"
  | (unlock) k i where "l = Ch_unlock k i" "f OK = Ch_lock k (i + 1)"
  using assms
  by (cases l) (auto simp: lib_cs_lock_def lib_cs_unlock_def status_def EINTR_klienta_def OK_def split: if_splits)

lemma mp_krok_zadanie:
  assumes I: "mp_inw procs turns g u" and w: "wylaczny m mp_kryt u'"
    and l: "stany u q = Dziala l" "many_procs m argc procs turns l = Zadanie t n c f"
    and wid: "\<And>r. widok (stany u' r) = (if r = q then Some (f OK) else widok (stany u r))"
    and sam: "\<And>r. r \<noteq> q \<Longrightarrow> \<forall>h. stany u r \<noteq> Zablokowany h \<Longrightarrow> stany u' r = stany u r"
    and pola: "stdout u' = stdout u" "rodzic u' = rodzic u"
  shows "mp_inw procs turns g u'"
proof -
  from I obtain fk ns where ns: "0 \<le> fk" "fk \<le> max 0 procs" "rozliczone turns fk ns (indeks u)" "wypisane ns u" "glowny procs turns g fk u"
    by (auto simp: mp_inw_def)
  have B: "blokady u" and D: "mp_dzieci turns g u" using I by (auto simp: mp_inw_def)
  have l': "kol (f OK) = kol l" "kol l \<noteq> None" "\<And>k i. l \<noteq> Ch_pisz2 k i" "\<And>k i. f OK \<noteq> Ch_pisz2 k i"
    "mp_dobry turns l \<Longrightarrow> mp_dobry turns (f OK)" "mp_kryt (f OK) \<Longrightarrow> \<exists>k i. f OK = Ch_pisz1 k i"
    using l(2) by (cases rule: many_procs_zadanie; simp add: mp_kryt_def)+
  have qg: "q \<noteq> g" using glowny_stany(3)[OF ns(5), of l] l(1) l'(2) by auto
  have "indeks u' r = indeks u r" for r using wid[of r] l(1) l'(1) by (simp add: indeks_def)
  then have ind: "indeks u' = indeks u" by (rule ext)
  have pis: "widok (stany u' r) = Some (Ch_pisz2 k i) \<longleftrightarrow> widok (stany u r) = Some (Ch_pisz2 k i)" for r k i
    using wid[of r] l(1) l'(3,4) by auto
  have zyw: "stany u' r = Nie_ma \<longleftrightarrow> stany u r = Nie_ma" for r
    using wid[of r] sam[of r] l(1) by (cases "stany u r"; cases "r = q") auto
  have "blokady u'"
    unfolding blokady_def
  proof (intro allI impI)
    fix r h assume r: "stany u' r = Zablokowany h"
    show "\<exists>k i. h OK = Ch_pisz1 k i"
    proof (cases "r = q")
      case True
      have "mp_kryt (h OK)" using r w unfolding wylaczny_def by blast
      with True r wid[of r] l'(6) show ?thesis by simp
    next
      case False
      with sam[OF False] r obtain h' where "stany u r = Zablokowany h'" by fastforce
      with B False r wid[of r] show ?thesis by (auto simp: blokady_def)
    qed
  qed
  moreover have "mp_dzieci turns g u'"
    unfolding mp_dzieci_def
  proof (intro allI impI)
    fix r assume r: "r \<noteq> g" "stany u' r \<noteq> Nie_ma"
    then have d: "rodzic u r = g" "stany u r = Zombie 0 \<or> (\<exists>l. widok (stany u r) = Some l \<and> kol l \<noteq> None \<and> mp_dobry turns l)"
      using D zyw[of r] by (auto simp: mp_dzieci_def)
    show "rodzic u' r = g \<and> (stany u' r = Zombie 0 \<or> (\<exists>l. widok (stany u' r) = Some l \<and> kol l \<noteq> None \<and> mp_dobry turns l))"
      using d wid[of r] sam[of r] l(1) l' pola(2) by (cases "r = q") auto
  qed
  moreover have "wypisane ns u'" using ns(4) pis pola(1) by (simp add: wypisane_def)
  moreover have "glowny procs turns g fk u'"
  proof -
    have "stany u' g = stany u g" using qg glowny_stany(2)[OF ns(5)] by (intro sam) auto
    moreover have "zywe u' = zywe u" using zyw by (simp add: zywe_def)
    ultimately show ?thesis using ns(5) by (simp add: glowny_def)
  qed
  ultimately show ?thesis using ns(1-3) ind unfolding mp_inw_def by auto
qed

text \<open>At most one process is between its two calls of \<^verbatim>\<open>write\<close>.\<close>

lemma pisze_jeden:
  assumes w: "wylaczny m mp_kryt u" and B: "blokady u"
    and q: "stany u q = Dziala l" "mp_kryt l" and r: "widok (stany u r) = Some (Ch_pisz2 n i)"
  shows "r = q"
proof -
  have "stany u r = Dziala (Ch_pisz2 n i)" using r B by (cases "stany u r") (simp_all add: blokady_def, metis mp_lok.distinct)
  then have "w_sekcji mp_kryt (stany u r)" "w_sekcji mp_kryt (stany u q)" using q by (auto simp: w_sekcji_def mp_kryt_def)
  with w show ?thesis using ma_mutex_jeden unfolding wylaczny_def by blast
qed

lemma stany_upd:
  assumes "stany u' = (stany u)(q := x)"
  shows "widok (stany u' r) = (if r = q then widok x else widok (stany u r))"
    "indeks u' = (indeks u)(q := Option.bind (widok x) kol)"
  using assms by (auto simp: indeks_def fun_eq_iff)

text \<open>A child writes, and leaves its critical section only through \<^verbatim>\<open>cs_unlock\<close>.\<close>

lemma mp_krok_pisz:
  assumes I: "mp_inw procs turns g u" and w: "wylaczny m mp_kryt u"
    and l: "stany u q = Dziala l" "many_procs m argc procs turns l = Pisz x l'"
    and u': "stany u' = (stany u)(q := Dziala l')" "stdout u' = stdout u @ x" "rodzic u' = rodzic u"
  shows "mp_inw procs turns g u'"
proof -
  from I obtain fk ns where ns: "0 \<le> fk" "fk \<le> max 0 procs" "rozliczone turns fk ns (indeks u)" "wypisane ns u" "glowny procs turns g fk u"
    by (auto simp: mp_inw_def)
  have B: "blokady u" and D: "mp_dzieci turns g u" using I by (auto simp: mp_inw_def)
  have k: "kol l \<noteq> None" "kol l' \<noteq> None" "mp_dobry turns l \<Longrightarrow> mp_dobry turns l'" "mp_kryt l" using l(2) by (cases l; auto simp: mp_kryt_def lib_cs_lock_def lib_cs_unlock_def split: if_splits)+
  have qg: "q \<noteq> g" using glowny_stany(3)[OF ns(5), of l] l(1) k(1) by auto
  note st = stany_upd[OF u'(1)]
  have "zywe u' = zywe u" using u'(1) l(1) by (auto simp: zywe_def)
  then have G: "glowny procs turns g fk u'" using ns(5) qg u'(1) by (simp add: glowny_def)
  have "blokady u'" "mp_dzieci turns g u'"
    using B D u' l(1) k qg by (auto simp: blokady_def mp_dzieci_def)
  moreover have "\<exists>ns. rozliczone turns fk ns (indeks u') \<and> wypisane ns u'"
  proof -
    consider n i where "l = Ch_pisz1 n i" | n i where "l = Ch_pisz2 n i"
      using l(2) by (cases l) (auto simp: lib_cs_lock_def lib_cs_unlock_def split: if_splits)
    then show ?thesis
    proof cases
      case 1
      then have p: "x = [litera n]" "l' = Ch_pisz2 n i" using l(2) by auto
      have "indeks u' = indeks u" using st(2) l(1) 1 p by (auto simp: indeks_def fun_eq_iff)
      moreover have "widok (stany u r) \<noteq> Some (Ch_pisz2 k j)" for r k j
        using pisze_jeden[OF w B l(1) k(4), of r k j] l(1) 1 by auto
      ultimately show ?thesis using ns(3,4) p u'(2) st(1) by (auto simp: wypisane_def)
    next
      case 2
      then have p: "x = [litera n, CHR 0x0A]" "l' = Ch_unlock n i" "indeks u q = Some (n, i)" using l by (auto simp: indeks_def)
      have "rozliczone turns fk (ns @ [n]) (indeks u')" using rozliczone_linia[OF ns(3) p(3)] st(2) p(2) by simp
      moreover have "widok (stany u' r) \<noteq> Some (Ch_pisz2 k j)" for r k j
        using pisze_jeden[OF w B l(1) k(4), of r k j] st(1)[of r] p(2) by (auto split: if_splits)
      moreover have "stdout u = concat (map linia ns) @ [litera n]"
      proof -
        have "widok (stany u q) = Some (Ch_pisz2 n i)" using l(1) 2 by simp
        with ns(4) show ?thesis unfolding wypisane_def by blast
      qed
      ultimately show ?thesis using p(1) u'(2) by (intro exI[of _ "ns @ [n]"]) (auto simp: wypisane_def linia_def)
    qed
  qed
  ultimately show ?thesis using ns(1,2) G unfolding mp_inw_def by blast
qed

text \<open>The end of a child: it has written its lines.\<close>

lemma mp_krok_koniec:
  assumes I: "mp_inw procs turns g u" and l: "stany u q = Dziala l" "many_procs m argc procs turns l = Koniec j"
    and u': "stany u' = (stany u)(q := Zombie j)" "stdout u' = stdout u" "rodzic u' = rodzic u" and "q \<noteq> g"
  shows "mp_inw procs turns g u'"
proof -
  from I obtain fk ns where ns: "0 \<le> fk" "fk \<le> max 0 procs" "rozliczone turns fk ns (indeks u)" "wypisane ns u" "glowny procs turns g fk u"
    by (auto simp: mp_inw_def)
  have B: "blokady u" and D: "mp_dzieci turns g u" using I by (auto simp: mp_inw_def)
  have "kol l \<noteq> None" "mp_dobry turns l" using D \<open>q \<noteq> g\<close> l(1) by (auto simp: mp_dzieci_def)
  then obtain n where n: "l = Ch_lock n turns" "j = 0"
    using l(2) by (cases l) (auto simp: lib_cs_lock_def lib_cs_unlock_def split: if_splits)
  note st = stany_upd[OF u'(1)]
  have "zywe u' = zywe u" using u'(1) l(1) by (auto simp: zywe_def)
  then have G: "glowny procs turns g fk u'" using ns(5) \<open>q \<noteq> g\<close> u'(1) by (simp add: glowny_def)
  have "rozliczone turns fk ns (indeks u')"
    using rozliczone_koniec[OF ns(3), of q n] st(2) l(1) n by (simp add: indeks_def)
  moreover have "widok (stany u' r) = Some (Ch_pisz2 k i) \<longleftrightarrow> widok (stany u r) = Some (Ch_pisz2 k i)" for r k i
    using st(1)[of r] l(1) n(1) by auto
  then have "wypisane ns u'" using ns(4) u'(2) by (simp add: wypisane_def)
  moreover have "blokady u'" using B u'(1) by (auto simp: blokady_def split: if_splits)
  moreover have "mp_dzieci turns g u'" using D u' l(1) n \<open>q \<noteq> g\<close> by (auto simp: mp_dzieci_def)
  ultimately show ?thesis using ns(1,2) G unfolding mp_inw_def by blast
qed

text \<open>A step of \<^verbatim>\<open>main\<close> that starts no child; \<open>Q\<close> are the zombies that it removes.\<close>

lemma mp_krok_glowny:
  assumes I: "blokady u" "mp_dzieci turns g u" "0 \<le> fk" "fk \<le> max 0 procs" "rozliczone turns fk ns (indeks u)" "wypisane ns u"
    and l: "stany u g = Dziala l" "kol l = None" and x: "x = Dziala l' \<and> kol l' = None \<or> x = Zombie j"
    and q: "\<And>q. q \<in> Q \<Longrightarrow> stany u q = Zombie 0"
    and u': "\<And>r. stany u' r = (if r = g then x else if r \<in> Q then Nie_ma else stany u r)" "stdout u' = stdout u" "rodzic u' = rodzic u"
    and G: "glowny procs turns g fk u'"
  shows "mp_inw procs turns g u'"
proof -
  have "indeks u' r = indeks u r" for r using u'(1)[of r] l x q[of r] by (auto simp: indeks_def)
  then have ind: "indeks u' = indeks u" by (rule ext)
  have pis: "widok (stany u' r) = Some (Ch_pisz2 n i) \<longleftrightarrow> widok (stany u r) = Some (Ch_pisz2 n i)" for r n i
    using u'(1)[of r] l x q[of r] by auto
  have "wypisane ns u'" using I(6) pis u'(2) by (simp add: wypisane_def)
  moreover have "blokady u'" using I(1) u'(1) x by (auto simp: blokady_def split: if_splits)
  moreover have "mp_dzieci turns g u'" using I(2) u' x by (auto simp: mp_dzieci_def)
  ultimately show ?thesis using I ind G unfolding mp_inw_def by metis
qed

lemma mp_krok_fork:
  assumes I: "mp_inw procs turns g u" and l: "stany u g = Dziala (M_fork k)" "k < procs" and q: "stany u q = Nie_ma" "g \<noteq> q"
    and f: "finite (zywe u)"
    and u': "stany u' = (stany u)(g := Dziala (M_fork (k + 1)), q := Dziala (Ch_lock k 0))" "stdout u' = stdout u" "rodzic u' = (rodzic u)(q := g)"
  shows "mp_inw procs turns g u'"
proof -
  from I l obtain ns where ns: "0 \<le> k" "rozliczone turns k ns (indeks u)" "wypisane ns u" "0 \<le> turns" "int (card (zywe u - {g})) = k"
    by (auto simp: mp_inw_def glowny_def)
  have B: "blokady u" and D: "mp_dzieci turns g u" using I by (auto simp: mp_inw_def)
  have "indeks u' r = ((indeks u)(q := Some (k, 0))) r" for r using u'(1) l(1) q by (auto simp: indeks_def)
  then have "indeks u' = (indeks u)(q := Some (k, 0))" by (rule ext)
  with rozliczone_nowe[OF ns(2) _ ns(1), of q] q have "rozliczone turns (k + 1) ns (indeks u')" by (simp add: indeks_def)
  moreover have "widok (stany u' r) = Some (Ch_pisz2 n i) \<longleftrightarrow> widok (stany u r) = Some (Ch_pisz2 n i)" for r n i
    using u'(1) l(1) q by auto
  then have "wypisane ns u'" using ns(3) u'(2) by (simp add: wypisane_def)
  moreover have "blokady u'" using B u'(1) by (auto simp: blokady_def split: if_splits)
  moreover have "mp_dzieci turns g u'" using D u' q ns(4) by (auto simp: mp_dzieci_def)
  moreover have "glowny procs turns g (k + 1) u'"
  proof -
    have "zywe u' - {g} = insert q (zywe u - {g})" using u'(1) l(1) q by (auto simp: zywe_def)
    moreover have "q \<notin> zywe u" using q by (simp add: zywe_def)
    ultimately show ?thesis using u'(1) l(2) q ns(4,5) f by (simp add: glowny_def)
  qed
  ultimately show ?thesis using ns(1) l(2) unfolding mp_inw_def by (intro conjI exI[of _ "k + 1"] exI[of _ ns]) auto
qed

lemma many_procs_akcje:
  "many_procs m argc procs turns l = Rozwidl f \<Longrightarrow> \<exists>i. l = M_fork i \<and> i < procs \<and>
     f = (\<lambda>ch. if ch < 0 then Fail else if ch = 0 then Ch_lock i 0 else M_fork (i + 1))"
  "many_procs m argc procs turns l = Czekaj_dziecka f \<Longrightarrow> \<exists>k. l = M_wait k \<and> 0 < k \<and> f = (\<lambda>r. if r > 0 then M_wait (k - 1) else M_wait k)"
  "many_procs m argc procs turns l \<noteq> Odczyt h" "many_procs m argc procs turns l \<noteq> Zapis b l'"
  "many_procs m argc procs turns l = Dalej l' \<Longrightarrow> l = M_start \<and> (l' = Fail \<or> l' = M_fork 0 \<and> 0 \<le> procs \<and> 0 \<le> turns) \<or>
     (\<exists>i. l = M_fork i \<and> procs \<le> i \<and> l' = M_wait procs)"
  "many_procs m argc procs turns l = Koniec j \<Longrightarrow> l = Fail \<and> j = 2 \<or> (\<exists>k. l = M_wait k \<and> k \<le> 0 \<and> j = 0) \<or> kol l \<noteq> None"
  "many_procs m argc procs turns l = Koniec j \<Longrightarrow> \<not> mp_kryt l" "many_procs m argc procs turns l \<noteq> Zabij_grupe"
  by (cases l; auto simp: lib_cs_lock_def lib_cs_unlock_def mp_kryt_def split: if_splits)+

definition gl_krok :: "int \<Rightarrow> int \<Rightarrow> mp_lok \<Rightarrow> mp_lok \<Rightarrow> bool" where
  "gl_krok procs turns l l' \<longleftrightarrow> l = M_start \<and> (l' = Fail \<or> l' = M_fork 0 \<and> 0 \<le> procs \<and> 0 \<le> turns) \<or>
     (\<exists>i. l = M_fork i \<and> (procs \<le> i \<and> l' = M_wait procs \<or> l' = Fail)) \<or> (\<exists>k. l = M_wait k \<and> l' = l)"

lemma glowny_lokalnie:
  assumes "glowny procs turns g fk u" "stany u g = Dziala l" "gl_krok procs turns l l'" "zywe u' = zywe u" "stany u' g = Dziala l'"
  shows "glowny procs turns g fk u'"
  using assms(3) unfolding gl_krok_def
proof (elim disjE conjE exE)
  fix i assume "l = M_fork i" "procs \<le> i" "l' = M_wait procs"
  moreover from this(1) have "fk = i" "fk \<le> procs" "int (card (zywe u - {g})) = fk" using assms(1,2) by (auto simp: glowny_def)
  ultimately show ?thesis using assms(4,5) by (auto simp: glowny_def)
next
  assume "l = M_start" "l' = M_fork 0" "0 \<le> procs" "0 \<le> turns"
  moreover from this(1) have "fk = 0" "zywe u = {g}" using assms(1,2) by (auto simp: glowny_def)
  ultimately show ?thesis using assms(4,5) by (simp add: glowny_def)
next
  fix k assume "l = M_wait k" "l' = l"
  with assms show ?thesis by (simp add: glowny_def)
qed (use assms(5) in \<open>simp_all add: glowny_def\<close>)

lemma mp_krok:
  assumes u: "spojny E (endpointy E) MAX_CZEKA {m} {} u" and w: "wylaczny m mp_kryt u" and I: "mp_inw procs turns g u"
    and k: "krok_ukladu E (many_procs m argc procs turns) (endpointy E) MAX_CZEKA u u'"
  shows "wylaczny m mp_kryt u' \<and> mp_inw procs turns g u'"
proof -
  from I obtain fk ns where ns: "blokady u" "mp_dzieci turns g u" "0 \<le> fk" "fk \<le> max 0 procs" "rozliczone turns fk ns (indeks u)" "wypisane ns u"
    and G: "glowny procs turns g fk u" by (auto simp: mp_inw_def)
  have fin: "finite (zywe u)" using u by (simp add: spojny_def)
  have dz: "kol l \<noteq> None" if "stany u q = Dziala l" "q \<noteq> g" for q l using ns(2) that by (auto simp: mp_dzieci_def)
  have gl: "stany u g = Dziala l \<Longrightarrow> l = M_start \<and> fk = 0 \<and> zywe u = {g} \<or> l = M_fork fk \<and> fk \<le> procs \<and> 0 \<le> turns \<and> int (card (zywe u - {g})) = fk \<or>
      l = M_wait (int (card (zywe u - {g}))) \<and> fk = procs \<or> l = Fail" for l
    using G by (auto simp: glowny_def)
  have gz: "g \<in> zywe u" using glowny_stany(1)[OF G] by (simp add: zywe_def)
  have zyw: "zywe u' = zywe u" if "stany u' = (stany u)(g := x)" "x \<noteq> Nie_ma" "stany u g = Dziala l" for x l
    using that by (auto simp: zywe_def)
  from u w k show ?thesis
  proof (cases rule: mp.krok_sekcji)
    case (zadanie p l t n c f)
    with mp_krok_zadanie[OF I zadanie(1-5) zadanie(7,9)] show ?thesis by blast
  next
    case kk: (koniec p l j)
    note koniec = kk(1-3) kk(7)[OF many_procs_akcje(7)[OF kk(3)]] kk(8-10)
    show ?thesis
    proof (cases "p = g")
      case True
      then have l: "l = Fail \<and> j = 2 \<or> (\<exists>k. l = M_wait k \<and> k \<le> 0 \<and> j = 0)"
        using many_procs_akcje(6)[OF koniec(3)] glowny_stany(3)[OF G] koniec(2) by auto
      have "zywe u - {g} = {}" if "int (card (zywe u - {g})) \<le> 0" using that fin by (simp del: card_Diff_insert card_Diff_singleton)
      then have "l = M_wait k \<Longrightarrow> k \<le> 0 \<Longrightarrow> fk = procs \<and> zywe u = {g}" for k using gl[of l] koniec(2) True gz by blast
      then have "glowny procs turns g fk u'"
        using l koniec(4) True zyw[of "Zombie j" l] koniec(2) unfolding glowny_def by auto
      with mp_krok_glowny[OF ns, of l "Zombie j" Fail j "{}" u'] koniec True l show ?thesis by auto
    next
      case False
      with mp_krok_koniec[OF I koniec(2-5,7)] koniec(1) show ?thesis by blast
    qed
  next
    case (lokalny p l l')
    show ?thesis
    proof (cases "\<exists>x. many_procs m argc procs turns l = Pisz x l'")
      case True
      with mp_krok_pisz[OF I w lokalny(2) _ lokalny(3) _ lokalny(4)] lokalny(1,5) show ?thesis by auto
    next
      case False
      with lokalny(5) many_procs_akcje(3,4) consider (fork) f where "many_procs m argc procs turns l = Rozwidl f" "l' = f (- 1)"
        | (wait) f where "many_procs m argc procs turns l = Czekaj_dziecka f" "l' = f (- 1)" | (dalej) "many_procs m argc procs turns l = Dalej l'"
        by blast
      then have l: "gl_krok procs turns l l'"
      proof cases
        case fork
        with many_procs_akcje(1)[OF fork(1)] show ?thesis by (auto simp: gl_krok_def)
      next
        case wait
        with many_procs_akcje(2)[OF wait(1)] show ?thesis by (auto simp: gl_krok_def)
      next
        case dalej
        with many_procs_akcje(5)[OF dalej] show ?thesis by (auto simp: gl_krok_def)
      qed
      have so: "stdout u' = stdout u" using lokalny(5) False by blast
      from l have kl: "kol l = None" "kol l' = None" by (auto simp: gl_krok_def)
      then have p: "p = g" using dz[OF lokalny(2)] by auto
      have "glowny procs turns g fk u'"
        using lokalny(2,3) p zyw[of "Dziala l'" l] by (intro glowny_lokalnie[OF G _ l]) auto
      with mp_krok_glowny[OF ns, of l "Dziala l'" l' 0 "{}" u'] lokalny p kl so show ?thesis by auto
    qed
  next
    case (rozwidl p l f q j)
    then obtain i where i: "l = M_fork i" "i < procs" "f = (\<lambda>ch. if ch < 0 then Fail else if ch = 0 then Ch_lock i 0 else M_fork (i + 1))"
      using many_procs_akcje(1) by blast
    then have "p = g" using dz[OF rozwidl(2)] by auto
    with mp_krok_fork[OF I _ i(2), of q u'] rozwidl i fin show ?thesis by simp
  next
    case (dziecko p l f q i j)
    then obtain k where k: "l = M_wait k" "0 < k" "f = (\<lambda>r. if r > 0 then M_wait (k - 1) else M_wait k)"
      using many_procs_akcje(2) by blast
    then have p: "p = g" using dz[OF dziecko(2)] by auto
    have q: "stany u q = Zombie 0" using ns(2) dziecko(4,7) p by (auto simp: mp_dzieci_def)
    have "zywe u' - {g} = (zywe u - {g}) - {q}" using dziecko(2,7,8) p by (auto simp: zywe_def)
    moreover have "q \<in> zywe u - {g}" using dziecko(4,7) p by (simp add: zywe_def)
    ultimately have "int (card (zywe u' - {g})) = k - 1" using gl[of l] k dziecko(2) p fin by (simp add: of_nat_diff card_gt_0_iff Suc_le_eq)
    then have "glowny procs turns g fk u'" using gl[of l] k dziecko(2,6,8) p by (auto simp: glowny_def)
    with mp_krok_glowny[OF ns, of l "Dziala (f j)" "f j" 0 "{q}" u'] dziecko p q k show ?thesis by auto
  next
    case (zabij p l)
    with many_procs_akcje(8) show ?thesis by blast
  qed
qed

section \<open>What the test checks\<close>

text \<open>The states of the program when the process \<open>p\<close> runs its \<^verbatim>\<open>main\<close>.\<close>

definition many_procs_stan :: "srodowisko \<Rightarrow> int \<Rightarrow> int \<Rightarrow> int \<Rightarrow> int \<Rightarrow> int \<Rightarrow> mp_lok uklad \<Rightarrow> bool" where
  "many_procs_stan E mutex_id argc procs turns p =
     osiagalny (\<lambda>u. p \<in> endpointy E \<and> poczatek_ukladu E p M_start u)
       (krok_ukladu E (many_procs mutex_id argc procs turns) (endpointy E) MAX_CZEKA)"

interpretation mpm: maszyna "\<lambda>u. p \<in> endpointy E \<and> poczatek_ukladu E p M_start u"
  "krok_ukladu E (many_procs mutex_id argc procs turns) (endpointy E) MAX_CZEKA"
  "\<lambda>u. spojny E (endpointy E) MAX_CZEKA {mutex_id} {} u \<and> wylaczny mutex_id mp_kryt u \<and> mp_inw procs turns p u"
  for E mutex_id argc procs turns p
proof
  fix u assume u: "p \<in> endpointy E \<and> poczatek_ukladu E p M_start u"
  then have st: "stany u = (\<lambda>_. Nie_ma)(p := Dziala M_start)" "stdout u = []" by (auto simp: poczatek_ukladu_def)
  have "spojny E (endpointy E) MAX_CZEKA {mutex_id} {} u" using mp.spojny_start[of E p M_start u mutex_id] u by (simp add: MAX_CZEKA_def)
  moreover have "abstr (serw u) = monitor0" using u main_start_ok[of E] by (auto simp: poczatek_ukladu_def)
  then have "wylaczny mutex_id mp_kryt u" using st(1) by (simp add: wylaczny_def w_sekcji_def mp_kryt_def ma_mutex_def monitor0_def)
  moreover have "indeks u = (\<lambda>_. None)" using st(1) by (auto simp: indeks_def fun_eq_iff)
  then have "rozliczone turns 0 [] (indeks u)" by (simp add: rozliczone_def)
  then have "mp_inw procs turns p u"
    using st unfolding mp_inw_def
    by (intro conjI exI[of _ 0] exI[of _ "[]"]) (auto simp: blokady_def mp_dzieci_def wypisane_def glowny_def zywe_def split: if_splits)
  ultimately show "spojny E (endpointy E) MAX_CZEKA {mutex_id} {} u \<and> wylaczny mutex_id mp_kryt u \<and> mp_inw procs turns p u" by blast
next
  fix u u' assume "spojny E (endpointy E) MAX_CZEKA {mutex_id} {} u \<and> wylaczny mutex_id mp_kryt u \<and> mp_inw procs turns p u"
    "krok_ukladu E (many_procs mutex_id argc procs turns) (endpointy E) MAX_CZEKA u u'"
  with mp.spojny_krok mp_krok show "spojny E (endpointy E) MAX_CZEKA {mutex_id} {} u' \<and> wylaczny mutex_id mp_kryt u' \<and> mp_inw procs turns p u'"
    by blast
qed

lemma many_procs_stan_inw:
  assumes "many_procs_stan E mutex_id argc procs turns p u"
  shows "spojny E (endpointy E) MAX_CZEKA {mutex_id} {} u" "wylaczny mutex_id mp_kryt u" "mp_inw procs turns p u"
  using mpm.osiagalny_inw[of p E] assms by (auto simp: many_procs_stan_def)

lemma mp_liczba:
  assumes "mp_dzieci turns p u" "rozliczone turns fk ns (indeks u)" "glowny procs turns p fk u" "0 \<le> n" "n < fk"
  shows "int (count_list ns n) \<le> turns"
proof -
  have d: "i \<le> turns" if "indeks u q = Some (n, i)" for q n i
  proof -
    from that obtain l where l: "widok (stany u q) = Some l" "kol l = Some (n, i)" by (auto simp: indeks_def bind_eq_Some_conv)
    then have "q \<noteq> p" using assms(3) by (auto simp: glowny_def)
    moreover have "stany u q \<noteq> Nie_ma" "stany u q \<noteq> Zombie 0" using l(1) by auto
    ultimately obtain l' where "widok (stany u q) = Some l'" "mp_dobry turns l'" using assms(1) unfolding mp_dzieci_def by blast
    with l have "mp_dobry turns l" by simp
    with l(2) show ?thesis by (cases l) auto
  qed
  show ?thesis
  proof (cases "\<exists>q i. indeks u q = Some (n, i)")
    case True
    then obtain q i where q: "indeks u q = Some (n, i)" by blast
    with rozliczoneD(1)[OF assms(2) q] d[OF q] show ?thesis by simp
  next
    case False
    with rozliczoneD(3)[OF assms(2) assms(4,5)] show ?thesis by simp
  qed
qed

text \<open>
  C15. The test program \<^verbatim>\<open>many_procs\<close>: whatever the order in which its processes run, its standard output consists of whole lines
  of its children and at most the first byte of one more line, and no child writes more lines than it has turns. When the program has ended with
  status zero, every child has written exactly as many lines as it has turns.
\<close>

theorem many_procs_wynik:
  assumes "many_procs_stan E mutex_id argc procs turns p u"
  shows "\<exists>ns. (stdout u = concat (map linia ns) \<or> (\<exists>n. stdout u = concat (map linia ns) @ [litera n])) \<and> set ns \<subseteq> {0..<procs} \<and>
    (\<forall>n \<in> set ns. int (count_list ns n) \<le> turns) \<and>
    (stany u p = Zombie 0 \<longrightarrow> stdout u = concat (map linia ns) \<and> (\<forall>n \<in> {0..<procs}. int (count_list ns n) = turns))"
proof -
  from many_procs_stan_inw(3)[OF assms] obtain fk ns where I: "mp_dzieci turns p u"
    "0 \<le> fk" "fk \<le> max 0 procs" "rozliczone turns fk ns (indeks u)" "wypisane ns u" "glowny procs turns p fk u"
    by (auto simp: mp_inw_def)
  have c: "int (count_list ns n) \<le> turns" if "0 \<le> n" "n < fk" for n
    using mp_liczba[OF I(1,4,6) that] .
  have z: "indeks u q = None" "widok (stany u q) = None" if "stany u p = Zombie 0" for q
  proof -
    have "zywe u = {p}" using I(6) that by (auto simp: glowny_def)
    then have "q = p \<or> stany u q = Nie_ma" unfolding zywe_def by blast
    with that show "widok (stany u q) = None" by auto
    then show "indeks u q = None" by (simp add: indeks_def)
  qed
  show ?thesis
  proof (intro exI[of _ ns] conjI ballI impI)
    show "stdout u = concat (map linia ns) \<or> (\<exists>n. stdout u = concat (map linia ns) @ [litera n])"
      using I(5) unfolding wypisane_def by blast
    show "set ns \<subseteq> {0..<procs}"
    proof
      fix n assume "n \<in> set ns"
      with rozliczoneD(4)[OF I(4)] have "0 \<le> n \<and> n < fk" by blast
      with I(3) show "n \<in> {0..<procs}" by auto
    qed
    show "int (count_list ns n) \<le> turns" if "n \<in> set ns" for n using rozliczoneD(4)[OF I(4) that] c by blast
    show "stdout u = concat (map linia ns)" if "stany u p = Zombie 0" using I(5) z(2)[OF that] by (simp add: wypisane_def)
    show "int (count_list ns n) = turns" if "stany u p = Zombie 0" "n \<in> {0..<procs}" for n
    proof -
      have "fk = procs" using I(6) that(1) by (auto simp: glowny_def)
      with rozliczoneD(3)[OF I(4), of n] z(1)[OF that(1)] that(2) show ?thesis by simp
    qed
  qed
qed

section \<open>The program does not get stuck\<close>

text \<open>
  C16. The test program never gets stuck: as long as its \<^verbatim>\<open>main\<close> has not ended, some process can take a step.
\<close>

theorem many_procs_nie_staje:
  assumes "many_procs_stan E mutex_id argc procs turns p u"
  shows "(\<exists>j. stany u p = Zombie j) \<or> (\<exists>u'. krok_ukladu E (many_procs mutex_id argc procs turns) (endpointy E) MAX_CZEKA u u')"
proof -
  note S = many_procs_stan_inw(1,2)[OF assms]
  from many_procs_stan_inw(3)[OF assms] obtain fk where D: "mp_dzieci turns p u" and G: "glowny procs turns p fk u"
    by (auto simp: mp_inw_def)
  have idzie: "\<exists>u'. krok_ukladu E (many_procs mutex_id argc procs turns) (endpointy E) MAX_CZEKA u u'"
    if "stany u q = Dziala l" "\<And>f. many_procs mutex_id argc procs turns l \<noteq> Czekaj_dziecka f" for q l
    using mp.krok_istnieje[OF S(1) that(1)] that(2) many_procs_akcje(3) by blast
  consider (koniec) j where "stany u p = Zombie j" | (wait) k where "stany u p = Dziala (M_wait k)" "0 < k"
    | (inny) l where "stany u p = Dziala l" "\<And>f. many_procs mutex_id argc procs turns l \<noteq> Czekaj_dziecka f"
    using G many_procs_akcje(2)[of mutex_id argc procs turns] unfolding glowny_def by (metis mp_lok.inject(2))
  then show ?thesis
  proof cases
    case (wait k)
    then have "card (zywe u - {p}) \<noteq> 0" using G by (auto simp: glowny_def simp del: card_Diff_insert card_Diff_singleton)
    then obtain q where q: "q \<noteq> p" "stany u q \<noteq> Nie_ma" by (auto simp: zywe_def card_eq_0_iff simp del: card_Diff_insert card_Diff_singleton)
    then have d: "rodzic u q = p" "stany u q = Zombie 0 \<or> (\<exists>l. widok (stany u q) = Some l \<and> kol l \<noteq> None)"
      using D unfolding mp_dzieci_def by blast+
    have c: "kol l = None" if "many_procs mutex_id argc procs turns l = Czekaj_dziecka f" for l f
      using many_procs_akcje(2)[OF that] by auto
    have idzie': "\<exists>u'. krok_ukladu E (many_procs mutex_id argc procs turns) (endpointy E) MAX_CZEKA u u'"
      if "stany u q = Dziala l" "kol l \<noteq> None" for q l using that c by (intro idzie) auto
    show ?thesis
    proof (cases "stany u q")
      case (Dziala l)
      then have "kol l \<noteq> None" using d(2) by auto
      with idzie'[OF Dziala] show ?thesis by blast
    next
      case (Zablokowany f)
      then obtain r l where r: "stany u r = Dziala l" "mp_kryt l" by (rule zablokowany_czeka[OF S]) auto
      then have "kol l \<noteq> None" by (cases l) (simp_all add: mp_kryt_def)
      with idzie'[OF r(1)] show ?thesis by blast
    next
      case (Zombie j)
      then show ?thesis using krok_ukladu.dziecko[of u p "M_wait k" "many_procs mutex_id argc procs turns" _ q j 1 E] wait d(1) by fastforce
    qed (use q in simp)
  qed (use idzie in blast)+
qed

section \<open>A run with one child\<close>

definition mp_plan :: "wybor list" where
  "mp_plan = [Idz 10, Nowy 10 20, Idz 10] @ replicate 5 (Idz 20) @ [Zbierz 10 20, Idz 10]"

lemma many_procs_przebieg: "\<exists>u. many_procs_stan srod0 7 3 1 1 10 u \<and> stany u 10 = Zombie 0"
  unfolding many_procs_stan_def
proof (rule mp.plan_konczy[where ms = "[7]" and ws = mp_plan])
  show "case wykonaj_plan (many_procs 7 3 1 1) [7] MAX_CZEKA mp_plan (przebieg0 10 M_start) of None \<Rightarrow> False | Some s \<Rightarrow> zakonczony 0 (p_stany s 10)"
    by code_simp
qed (auto simp: endpointy0 MAX_CZEKA_def dzieci_planu_def mp_plan_def)

theorem many_procs_wynik_przyklad:
  "\<exists>u. many_procs_stan srod0 7 3 1 1 10 u \<and> stany u 10 = Zombie 0 \<and> stdout u = [litera 0, litera 0, CHR 0x0A]"
proof -
  obtain u where u: "many_procs_stan srod0 7 3 1 1 10 u" "stany u 10 = Zombie 0" using many_procs_przebieg by blast
  from many_procs_wynik[OF u(1)] u(2) obtain ns where ns: "set ns \<subseteq> {0..<1}" "stdout u = concat (map linia ns)" "int (count_list ns 0) = 1"
    by auto
  have "ns = replicate (length ns) 0" using ns(1) by (intro replicate_eqI) auto
  moreover have "count_list (replicate k (0::int)) 0 = k" for k by (induction k) auto
  ultimately have "ns = [0]" using ns(3) by (metis of_nat_eq_1_iff replicate_0 replicate_Suc One_nat_def)
  with u ns(2) show ?thesis by (auto simp: linia_def)
qed

theorem many_procs_nie_staje_przyklad:
  "\<exists>u u'. many_procs_stan srod0 7 3 1 1 10 u \<and> krok_ukladu srod0 (many_procs 7 3 1 1) (endpointy srod0) MAX_CZEKA u u'"
proof -
  obtain s0 where s0: "main_start srod0 = Some s0" using main_start_ok[of srod0] by blast
  let ?u = "\<lparr>serw = s0, stany = (\<lambda>_. Nie_ma)(10 := Dziala M_start), rodzic = (\<lambda>_. 0), stdout = [], potok = []\<rparr>"
  have "many_procs_stan srod0 7 3 1 1 10 ?u" unfolding many_procs_stan_def
    by (rule osiagalny.start) (simp add: poczatek_ukladu_def s0 endpointy0)
  with many_procs_nie_staje[OF this] show ?thesis by auto
qed

end
