(* ===== verification/Wydruk.thy ===== *)
theory Wydruk
  imports Prelude
begin

text \<open>What \<^verbatim>\<open>printf\<close> writes for the conversion \<^verbatim>\<open>%d\<close>.\<close>

fun cyfry :: "nat \<Rightarrow> string" where
  "cyfry n = (if n < 10 then [char_of (48 + n)] else cyfry (n div 10) @ [char_of (48 + n mod 10)])"

declare cyfry.simps [simp del]

definition dziesietnie :: "int \<Rightarrow> string" where
  "dziesietnie d = (if d < 0 then CHR ''-'' # cyfry (nat (- d)) else cyfry (nat d))"

end
