(* ===== verification/Prod_Cons.thy ===== *)
theory Prod_Cons
  imports Sekcja Przebieg Wydruk "HOL-Library.Multiset"
begin

text \<open>
  The test program \<^verbatim>\<open>testy/src/prod_cons.c\<close>: producers and consumers that share a buffer of bytes. The buffer, with its
  counter and the flag that ends the program, goes through a pipe: a process that holds the mutex reads it, works on its own copy and writes
  it back. This theory holds the program, \<open>Prod_Cons_Dane\<close> the steps of its data, and \<open>Prod_Cons_Dowod\<close> shows what the test
  checks. The creation of the pipe is taken to succeed, and \<^verbatim>\<open>read\<close> and \<^verbatim>\<open>write\<close> to transfer the whole block.
\<close>

section \<open>The program\<close>

definition BSIZE :: nat where "BSIZE = 100"

definition MAX_PRODS :: int where "MAX_PRODS = 16"

definition MAX_CONS :: int where "MAX_CONS = 16"

definition MAX_TURNS :: int where "MAX_TURNS = 10000"

text \<open>
  What the program is run with: the number \<^verbatim>\<open>getpid\<close> gives, the number of arguments and the numbers \<^verbatim>\<open>atoi\<close> reads from
  them, and the results of \<^verbatim>\<open>rand\<close> after \<^verbatim>\<open>srand\<close> of a seed.
\<close>

record pc_arg =
  pc_mutex :: int
  pc_argc :: int
  prods :: int
  cons :: int
  pc_turns :: int
  rand_c :: "int \<Rightarrow> nat \<Rightarrow> int"

text \<open>The conversion to a signed \<^verbatim>\<open>char\<close>.\<close>

definition na_znak :: "int \<Rightarrow> int" where
  "na_znak x = (x + 128) mod 256 - 128"

text \<open>Only \<^verbatim>\<open>buf_not_empty\<close> is assigned, twice; \<^verbatim>\<open>buf_not_full\<close> stays zero.\<close>

definition buf_not_empty :: "pc_arg \<Rightarrow> int" where
  "buf_not_empty A = pc_mutex A * 4 + 2"

definition buf_not_full :: int where "buf_not_full = 0"

text \<open>The first cell of the buffer that satisfies the condition of the loop.\<close>

definition szukaj_komorki :: "(int \<Rightarrow> bool) \<Rightarrow> int list \<Rightarrow> nat option" where
  "szukaj_komorki P b = (let i = FOR_szukaj 0 BSIZE (\<lambda>i. P (b ! i)) in if i = BSIZE then None else Some i)"

text \<open>\<^verbatim>\<open>printf("%d\n", d)\<close>.\<close>

definition wiersz :: "int \<Rightarrow> string" where
  "wiersz d = dziesietnie d @ [CHR 0x0A]"

text \<open>
  The control points of \<^verbatim>\<open>main\<close> (\<open>G\<close>), of a producer (\<open>P\<close>, with its number, its counter of turns and the number of calls of
  \<^verbatim>\<open>rand\<close>) and of a consumer (\<open>C\<close>), with the value and the copy of the buffer where they are used later. \<open>Fail_sekcja\<close> is
  \<^verbatim>\<open>fail("invalid buffer counter")\<close>.
\<close>

datatype pc_lok =
    G_start | G_zapis | G_prod int | G_cons int | G_wait int | G_lock | G_czytaj | G_zapisz "int list" | G_oglos | G_unlock
  | G_dzieci | G_return
  | P_petla int int nat | P_losuj int int nat | P_lock int int nat int | P_czytaj int int nat int
  | P_test int int nat int "int list" | P_wait int int nat int | P_wstaw int int nat int "int list"
  | P_oglos int int nat "int list" | P_zapisz int int nat "int list" | P_unlock int int nat
  | C_lock int | C_czytaj int | C_test int "int list" | C_pusty int "int list" | C_exit int | C_wez int "int list"
  | C_druk int int "int list" | C_oglos int "int list" | C_zapisz int "int list" | C_unlock int
  | Fail | Fail_sekcja | Sigterm

fun prod_cons :: "pc_arg \<Rightarrow> pc_lok \<Rightarrow> pc_lok akcja" where
  "prod_cons A G_start =
     Dalej (if pc_argc A \<noteq> 4 then Fail
            else if prods A < 1 \<or> prods A > MAX_PRODS then Fail
            else if cons A < 0 \<or> cons A > MAX_CONS then Fail
            else if pc_turns A < 0 \<or> pc_turns A > MAX_TURNS then Fail
            else G_zapis)"
| "prod_cons A G_zapis = Zapis (replicate (BSIZE + 2) 0) (G_prod 0)"
| "prod_cons A (G_prod i) =
     (if i < prods A then Rozwidl (\<lambda>ch. if ch < 0 then Sigterm else if ch = 0 then P_petla i 0 0 else G_prod (i + 1))
      else Dalej (G_cons 0))"
| "prod_cons A (G_cons i) =
     (if i < cons A then Rozwidl (\<lambda>ch. if ch < 0 then Sigterm else if ch = 0 then C_lock i else G_cons (i + 1))
      else Dalej (G_wait (prods A)))"
| "prod_cons A (G_wait k) =
     (if k > 0 then Czekaj_dziecka (\<lambda>r. if r > 0 then G_wait (k - 1) else G_wait k) else Dalej G_lock)"
| "prod_cons A G_lock = lib_cs_lock (pc_mutex A) G_lock (\<lambda>r. G_czytaj)"
| "prod_cons A G_czytaj = Odczyt (\<lambda>b. G_zapisz (b[BSIZE + 1 := 1]))"
| "prod_cons A (G_zapisz b) = Zapis b G_oglos"
| "prod_cons A G_oglos = lib_cs_broadcast (buf_not_empty A) (\<lambda>r. G_unlock)"
| "prod_cons A G_unlock = lib_cs_unlock (pc_mutex A) (\<lambda>r. G_dzieci)"
| "prod_cons A G_dzieci = Czekaj_dziecka (\<lambda>r. if r > 0 then G_dzieci else G_return)"
| "prod_cons A G_return = Koniec 0"
| "prod_cons A (P_petla n t k) = (if t < pc_turns A then Dalej (P_losuj n t k) else Koniec 0)"
| "prod_cons A (P_losuj n t k) =
     (let d = na_znak (rand_c A n k mod 256) in if d = 0 then Dalej (P_losuj n t (k + 1)) else Dalej (P_lock n t (k + 1) d))"
| "prod_cons A (P_lock n t k d) = lib_cs_lock (pc_mutex A) (P_lock n t k d) (\<lambda>r. P_czytaj n t k d)"
| "prod_cons A (P_czytaj n t k d) = Odczyt (\<lambda>b. P_test n t k d b)"
| "prod_cons A (P_test n t k d b) =
     (if b ! BSIZE = int BSIZE then Zapis b (P_wait n t k d) else Dalej (P_wstaw n t k d b))"
| "prod_cons A (P_wait n t k d) = lib_cs_wait buf_not_full (pc_mutex A) (P_lock n t k d) (\<lambda>r. P_czytaj n t k d)"
| "prod_cons A (P_wstaw n t k d b) =
     (case szukaj_komorki (\<lambda>x. x = 0) b of
        None \<Rightarrow> Dalej Fail_sekcja
      | Some i \<Rightarrow> Dalej (P_oglos n t k (b[i := d, BSIZE := na_znak (b ! BSIZE + 1)])))"
| "prod_cons A (P_oglos n t k b) =
     (if b ! BSIZE = 1 then lib_cs_broadcast (buf_not_empty A) (\<lambda>r. P_zapisz n t k b) else Dalej (P_zapisz n t k b))"
| "prod_cons A (P_zapisz n t k b) = Zapis b (P_unlock n t k)"
| "prod_cons A (P_unlock n t k) = lib_cs_unlock (pc_mutex A) (\<lambda>r. P_petla n (t + 1) k)"
| "prod_cons A (C_lock n) = lib_cs_lock (pc_mutex A) (C_lock n) (\<lambda>r. C_czytaj n)"
| "prod_cons A (C_czytaj n) = Odczyt (\<lambda>b. C_test n b)"
| "prod_cons A (C_test n b) = (if b ! BSIZE = 0 then Zapis b (C_pusty n b) else Dalej (C_wez n b))"
| "prod_cons A (C_pusty n b) =
     (if b ! (BSIZE + 1) \<noteq> 0 then lib_cs_unlock (pc_mutex A) (\<lambda>r. C_exit n)
      else lib_cs_wait (buf_not_empty A) (pc_mutex A) (C_lock n) (\<lambda>r. C_czytaj n))"
| "prod_cons A (C_exit n) = Koniec 0"
| "prod_cons A (C_wez n b) =
     (case szukaj_komorki (\<lambda>x. x \<noteq> 0) b of
        None \<Rightarrow> Dalej Fail_sekcja
      | Some i \<Rightarrow> Dalej (C_druk n (b ! i) (b[i := 0, BSIZE := na_znak (b ! BSIZE - 1)])))"
| "prod_cons A (C_druk n d b) = Pisz (wiersz d) (C_oglos n b)"
| "prod_cons A (C_oglos n b) =
     (if b ! BSIZE = int BSIZE - 1 then lib_cs_broadcast buf_not_full (\<lambda>r. C_zapisz n b) else Dalej (C_zapisz n b))"
| "prod_cons A (C_zapisz n b) = Zapis b (C_unlock n)"
| "prod_cons A (C_unlock n) = lib_cs_unlock (pc_mutex A) (\<lambda>r. C_lock n)"
| "prod_cons A Fail = Koniec 2"
| "prod_cons A Fail_sekcja = Koniec 2"
| "prod_cons A Sigterm = Zabij_grupe"

text \<open>Where the program counts on the mutex.\<close>

fun pc_kryt :: "pc_lok \<Rightarrow> bool" where
  "pc_kryt G_czytaj = True" | "pc_kryt (G_zapisz b) = True" | "pc_kryt G_oglos = True" | "pc_kryt G_unlock = True"
| "pc_kryt (P_czytaj n t k d) = True" | "pc_kryt (P_test n t k d b) = True" | "pc_kryt (P_wait n t k d) = True"
| "pc_kryt (P_wstaw n t k d b) = True" | "pc_kryt (P_oglos n t k b) = True" | "pc_kryt (P_zapisz n t k b) = True"
| "pc_kryt (P_unlock n t k) = True" | "pc_kryt (C_czytaj n) = True" | "pc_kryt (C_test n b) = True" | "pc_kryt (C_pusty n b) = True"
| "pc_kryt (C_wez n b) = True" | "pc_kryt (C_druk n d b) = True" | "pc_kryt (C_oglos n b) = True" | "pc_kryt (C_zapisz n b) = True"
| "pc_kryt (C_unlock n) = True" | "pc_kryt Fail_sekcja = True" | "pc_kryt _ = False"

text \<open>The endpoints and the events of the program fit the server.\<close>

interpretation pc: sekcja E "prod_cons A" "endpointy E" MAX_CZEKA "pc_mutex A" "{buf_not_empty A, buf_not_full}" pc_kryt
  for E A
proof unfold_locales
  show "zadanie_w_zasobach {pc_mutex A} {buf_not_empty A, buf_not_full} t n c" if "prod_cons A l = Zadanie t n c f" for l t n c f
    using that by (cases l) (auto simp: lib_defs zadanie_w_zasobach_def cs_defs Let_def split: if_splits option.splits)
  show "prawo_sekcji (pc_mutex A) pc_kryt l (prod_cons A l)" for l
    by (cases l) (auto simp: prawo_sekcji_def lib_defs Let_def split: option.splits)
qed (auto simp: endpointy_def MAX_MUTEX_def MAX_CV_def card_insert_if)

end
