(* ===== verification/Prod_Cons_Dane.thy ===== *)
theory Prod_Cons_Dane
  imports Prod_Cons
begin

text \<open>
  The data of \<^verbatim>\<open>prod_cons\<close>: where the buffer is, what the producers have put into it and what the consumers have printed,
  as an invariant over the control points of all processes, and that every kind of step keeps it.
\<close>

section \<open>The buffer\<close>

definition niezerowe :: "int list \<Rightarrow> int list" where
  "niezerowe b = filter (\<lambda>x. x \<noteq> 0) (take BSIZE b)"

definition poprawny :: "int list \<Rightarrow> bool" where
  "poprawny b \<longleftrightarrow> length b = BSIZE + 2 \<and> b ! BSIZE = int (length (niezerowe b)) \<and> (b ! (BSIZE + 1) = 0 \<or> b ! (BSIZE + 1) = 1)"

lemma poprawny_zero: "poprawny (replicate (BSIZE + 2) 0)"
  by (simp add: poprawny_def niezerowe_def BSIZE_def nth_replicate)

lemma niezerowe_zero: "niezerowe (replicate (BSIZE + 2) 0) = []"
  by (auto simp: niezerowe_def filter_empty_conv dest: in_set_takeD)

lemma niezerowe_dlugosc: "length (niezerowe b) \<le> BSIZE"
  unfolding niezerowe_def by (rule order_trans[OF length_filter_le]) simp

lemma poprawny_licznik: "poprawny b \<Longrightarrow> 0 \<le> b ! BSIZE \<and> b ! BSIZE \<le> int BSIZE"
  using niezerowe_dlugosc[of b] by (simp add: poprawny_def)

lemma szukaj_komorki_Some:
  "szukaj_komorki P b = Some i \<Longrightarrow> i < BSIZE \<and> P (b ! i)"
  using FOR_szukaj_found[of 0 BSIZE "\<lambda>i. P (b ! i)"] FOR_szukaj_bounds[of 0 BSIZE "\<lambda>i. P (b ! i)"]
  by (auto simp: szukaj_komorki_def Let_def split: if_splits)

text \<open>The counter tells whether there is a free cell and whether there is a value.\<close>

lemma szukaj_komorki_None:
  assumes "szukaj_komorki P b = None" "i < BSIZE"
  shows "\<not> P (b ! i)"
  using assms FOR_szukaj_before[of 0 i BSIZE "\<lambda>i. P (b ! i)"] by (auto simp: szukaj_komorki_def Let_def split: if_splits)

lemma wolna_komorka:
  assumes "poprawny b" "b ! BSIZE \<noteq> int BSIZE"
  shows "szukaj_komorki (\<lambda>x. x = 0) b \<noteq> None"
proof
  assume n: "szukaj_komorki (\<lambda>x. x = 0) b = None"
  have l: "length (take BSIZE b) = BSIZE" using assms(1) by (simp add: poprawny_def)
  have "\<forall>x \<in> set (take BSIZE b). x \<noteq> 0"
    using szukaj_komorki_None[OF n] l by (auto simp: in_set_conv_nth)
  then have "niezerowe b = take BSIZE b" by (simp add: niezerowe_def)
  with l assms show False by (simp add: poprawny_def)
qed

lemma zajeta_komorka:
  assumes "poprawny b" "b ! BSIZE \<noteq> 0"
  shows "szukaj_komorki (\<lambda>x. x \<noteq> 0) b \<noteq> None"
proof
  assume n: "szukaj_komorki (\<lambda>x. x \<noteq> 0) b = None"
  have l: "length (take BSIZE b) = BSIZE" using assms(1) by (simp add: poprawny_def)
  have "\<forall>x \<in> set (take BSIZE b). x = 0"
    using szukaj_komorki_None[OF n] l by (auto simp: in_set_conv_nth)
  then have "niezerowe b = []" by (auto simp: niezerowe_def filter_empty_conv)
  with assms show False by (simp add: poprawny_def)
qed

text \<open>Putting a value into a free cell, and taking one out.\<close>

lemma na_znak_maly: "- 128 \<le> x \<Longrightarrow> x < 128 \<Longrightarrow> na_znak x = x"
  by (simp add: na_znak_def)

lemma take_wpis: "take BSIZE (b[i := d, BSIZE := x]) = (take BSIZE b)[i := d]"
  by (simp add: take_update_swap list_update_beyond)

lemma wpis_poprawny:
  assumes b: "poprawny b" and i: "i < BSIZE" and x: "x = int (length (niezerowe (b[i := d, BSIZE := x])))"
  shows "poprawny (b[i := d, BSIZE := x])"
  using assms by (simp add: poprawny_def)

lemma mset_niezerowe: "mset (niezerowe b) = filter_mset (\<lambda>x. x \<noteq> 0) (mset (take BSIZE b))"
  by (simp add: niezerowe_def)

lemma wstaw_wartosc:
  assumes b: "poprawny b" "b ! BSIZE \<noteq> int BSIZE" and i: "i < BSIZE" "b ! i = 0" and d: "d \<noteq> 0"
    and b': "b' = b[i := d, BSIZE := na_znak (b ! BSIZE + 1)]"
  shows "poprawny b'" "mset (niezerowe b') = add_mset d (mset (niezerowe b))" "b' ! (BSIZE + 1) = b ! (BSIZE + 1)"
proof -
  have l: "i < length (take BSIZE b)" "take BSIZE b ! i = 0" using b(1) i by (simp_all add: poprawny_def)
  show m: "mset (niezerowe b') = add_mset d (mset (niezerowe b))"
    using l d by (simp add: b' mset_niezerowe take_wpis mset_update)
  then have "length (niezerowe b') = Suc (length (niezerowe b))" by (metis mset_eq_length mset.simps(2) size_mset length_Cons)
  moreover have "na_znak (b ! BSIZE + 1) = b ! BSIZE + 1"
    using poprawny_licznik[OF b(1)] by (intro na_znak_maly) (simp_all add: BSIZE_def)
  ultimately show "poprawny b'" unfolding b'
    using b(1) i(1) by (intro wpis_poprawny) (simp_all add: poprawny_def b')
  show "b' ! (BSIZE + 1) = b ! (BSIZE + 1)" using i(1) by (simp add: b')
qed

lemma wez_wartosc:
  assumes b: "poprawny b" and i: "i < BSIZE" "b ! i \<noteq> 0" and b': "b' = b[i := 0, BSIZE := na_znak (b ! BSIZE - 1)]"
  shows "poprawny b'" "mset (niezerowe b) = add_mset (b ! i) (mset (niezerowe b'))" "b' ! (BSIZE + 1) = b ! (BSIZE + 1)"
proof -
  have l: "i < length (take BSIZE b)" "take BSIZE b ! i = b ! i" using b(1) i by (simp_all add: poprawny_def)
  have "b ! i \<in># mset (take BSIZE b)" using l by (metis nth_mem_mset)
  then show m: "mset (niezerowe b) = add_mset (b ! i) (mset (niezerowe b'))"
    using l i(2) by (simp add: b' mset_niezerowe take_wpis mset_update)
  then have n: "length (niezerowe b) = Suc (length (niezerowe b'))" by (metis mset_eq_length mset.simps(2) length_Cons)
  moreover have "na_znak (b ! BSIZE - 1) = b ! BSIZE - 1"
    using poprawny_licznik[OF b(1)] by (intro na_znak_maly) (simp_all add: BSIZE_def)
  ultimately show "poprawny b'" unfolding b'
    using b(1) i(1) by (intro wpis_poprawny) (simp_all add: poprawny_def b')
  show "b' ! (BSIZE + 1) = b ! (BSIZE + 1)" using i(1) by (simp add: b')
qed

section \<open>The invariant of the data\<close>

text \<open>The copy of the buffer that a process is going to write back, and the numbers of producers and of consumers that still work.\<close>

fun trzyma :: "pc_lok \<Rightarrow> int list option" where
  "trzyma (G_zapisz b) = Some b" | "trzyma (P_test n t k d b) = Some b" | "trzyma (P_wstaw n t k d b) = Some b"
| "trzyma (P_oglos n t k b) = Some b" | "trzyma (P_zapisz n t k b) = Some b" | "trzyma (C_test n b) = Some b"
| "trzyma (C_wez n b) = Some b" | "trzyma (C_druk n d b) = Some b" | "trzyma (C_oglos n b) = Some b"
| "trzyma (C_zapisz n b) = Some b" | "trzyma _ = None"

fun prodv :: "pc_lok \<Rightarrow> int option" where
  "prodv (P_petla n t k) = Some n" | "prodv (P_losuj n t k) = Some n" | "prodv (P_lock n t k d) = Some n"
| "prodv (P_czytaj n t k d) = Some n" | "prodv (P_test n t k d b) = Some n" | "prodv (P_wait n t k d) = Some n"
| "prodv (P_wstaw n t k d b) = Some n" | "prodv (P_oglos n t k b) = Some n" | "prodv (P_zapisz n t k b) = Some n"
| "prodv (P_unlock n t k) = Some n" | "prodv _ = None"

fun consv :: "pc_lok \<Rightarrow> int option" where
  "consv (C_lock n) = Some n" | "consv (C_czytaj n) = Some n" | "consv (C_test n b) = Some n" | "consv (C_pusty n b) = Some n"
| "consv (C_wez n b) = Some n" | "consv (C_druk n d b) = Some n" | "consv (C_oglos n b) = Some n" | "consv (C_zapisz n b) = Some n"
| "consv (C_unlock n) = Some n" | "consv _ = None"

text \<open>The values a producer takes from the first \<open>k\<close> calls of \<^verbatim>\<open>rand\<close>.\<close>

definition wart :: "pc_arg \<Rightarrow> int \<Rightarrow> nat \<Rightarrow> int list" where
  "wart A n k = filter (\<lambda>d. d \<noteq> 0) (map (\<lambda>j. na_znak (rand_c A n j mod 256)) [0..<k])"

lemma wart_Suc:
  "wart A n (Suc k) = wart A n k @ (if na_znak (rand_c A n k mod 256) = 0 then [] else [na_znak (rand_c A n k mod 256)])"
  by (simp add: wart_def)

text \<open>What holds of the values \<open>W\<close> that the producers have put into the buffer, and of the copies of the buffer, at a control point.\<close>

fun dobry_p :: "pc_arg \<Rightarrow> (int \<Rightarrow> int list) \<Rightarrow> pc_lok \<Rightarrow> bool" where
  "dobry_p A W (P_petla n t k) = (W n = wart A n k \<and> int (length (W n)) = t \<and> t \<le> pc_turns A)"
| "dobry_p A W (P_losuj n t k) = (W n = wart A n k \<and> int (length (W n)) = t \<and> t < pc_turns A)"
| "dobry_p A W (P_lock n t k d) = (wart A n k = W n @ [d] \<and> d \<noteq> 0 \<and> int (length (W n)) = t \<and> t < pc_turns A)"
| "dobry_p A W (P_czytaj n t k d) = (wart A n k = W n @ [d] \<and> d \<noteq> 0 \<and> int (length (W n)) = t \<and> t < pc_turns A)"
| "dobry_p A W (P_test n t k d b) = (wart A n k = W n @ [d] \<and> d \<noteq> 0 \<and> int (length (W n)) = t \<and> t < pc_turns A)"
| "dobry_p A W (P_wait n t k d) = (wart A n k = W n @ [d] \<and> d \<noteq> 0 \<and> int (length (W n)) = t \<and> t < pc_turns A)"
| "dobry_p A W (P_wstaw n t k d b) = (wart A n k = W n @ [d] \<and> d \<noteq> 0 \<and> int (length (W n)) = t \<and> t < pc_turns A)"
| "dobry_p A W (P_oglos n t k b) = (W n = wart A n k \<and> int (length (W n)) = t + 1 \<and> t < pc_turns A)"
| "dobry_p A W (P_zapisz n t k b) = (W n = wart A n k \<and> int (length (W n)) = t + 1 \<and> t < pc_turns A)"
| "dobry_p A W (P_unlock n t k) = (W n = wart A n k \<and> int (length (W n)) = t + 1 \<and> t < pc_turns A)"
| "dobry_p A W _ = True"

fun lokalne :: "int list \<Rightarrow> pc_lok \<Rightarrow> bool" where
  "lokalne b (P_wstaw n t k d b') = (b' ! BSIZE \<noteq> int BSIZE)"
| "lokalne b (P_wait n t k d) = (b ! BSIZE = int BSIZE)"
| "lokalne b (C_wez n b') = (b' ! BSIZE \<noteq> 0)"
| "lokalne b (C_pusty n b') = (b' = b \<and> b ! BSIZE = 0)"
| "lokalne b Fail_sekcja = False"
| "lokalne b _ = True"

lemma dobry_p_inny: "(\<And>n. prodv l = Some n \<Longrightarrow> W' n = W n) \<Longrightarrow> dobry_p A W' l = dobry_p A W l"
  by (cases l) auto

text \<open>The value about to be printed.\<close>

fun druk :: "pc_lok \<Rightarrow> int option" where
  "druk (C_druk n d b) = Some d" | "druk _ = None"

type_synonym widoki = "int \<Rightarrow> pc_lok option"

definition po_widoku :: "(pc_lok \<Rightarrow> 'a option) \<Rightarrow> widoki \<Rightarrow> int \<Rightarrow> 'a option" where
  "po_widoku f w = (\<lambda>q. Option.bind (w q) f)"

lemma po_widoku_upd: "po_widoku f (w(p := x)) = (po_widoku f w)(p := Option.bind x f)"
  by (auto simp: po_widoku_def)

lemma po_widoku_bez_zmian: "w p = Some l \<Longrightarrow> f l' = f l \<Longrightarrow> po_widoku f (w(p := Some l')) = po_widoku f w"
  by (auto simp: po_widoku_def fun_eq_iff)

lemma po_widoku_pola:
  assumes "w p = Some l"
  shows "trzyma l' = trzyma l \<Longrightarrow> po_widoku trzyma (w(p := Some l')) = po_widoku trzyma w"
    "prodv l' = prodv l \<Longrightarrow> po_widoku prodv (w(p := Some l')) = po_widoku prodv w"
    "consv l' = consv l \<Longrightarrow> po_widoku consv (w(p := Some l')) = po_widoku consv w"
    "druk l' = druk l \<Longrightarrow> po_widoku druk (w(p := Some l')) = po_widoku druk w"
  using assms by (simp_all add: po_widoku_bez_zmian)

text \<open>The buffer \<open>b\<close> is in the pipe, or a process has it.\<close>

definition miejsce_b :: "int list \<Rightarrow> (int \<Rightarrow> int list option) \<Rightarrow> int list list \<Rightarrow> bool" where
  "miejsce_b b tr pot \<longleftrightarrow> pot = [b] \<and> (\<forall>q. tr q = None) \<or> pot = [] \<and> (\<exists>q. tr q = Some b)"

definition stany_ok :: "pc_arg \<Rightarrow> (int \<Rightarrow> int list) \<Rightarrow> int list \<Rightarrow> widoki \<Rightarrow> bool" where
  "stany_ok A W b w \<longleftrightarrow> (\<forall>q l. w q = Some l \<longrightarrow> lokalne b l \<and> dobry_p A W l)"

text \<open>The first \<open>fp\<close> producers: each runs as one process, or has put all its values into the buffer.\<close>

definition prod_ok :: "pc_arg \<Rightarrow> int \<Rightarrow> (int \<Rightarrow> int list) \<Rightarrow> (int \<Rightarrow> int option) \<Rightarrow> bool" where
  "prod_ok A fp W pr \<longleftrightarrow>
     (\<forall>q q' n. pr q = Some n \<longrightarrow> pr q' = Some n \<longrightarrow> q = q') \<and> (\<forall>q n. pr q = Some n \<longrightarrow> 0 \<le> n \<and> n < fp) \<and>
     (\<forall>n. 0 \<le> n \<and> n < fp \<longrightarrow> (\<exists>q. pr q = Some n) \<or> int (length (W n)) = pc_turns A) \<and>
     (\<forall>n. (\<exists>k. W n = wart A n k) \<and> (W n \<noteq> [] \<longrightarrow> 0 \<le> n \<and> n < fp \<and> int (length (W n)) \<le> pc_turns A))"

text \<open>The first \<open>fc\<close> consumers: each runs as one process, or the flag is set and the buffer empty. No producer runs once the flag is set.\<close>

definition cons_ok :: "int \<Rightarrow> int list \<Rightarrow> (int \<Rightarrow> int option) \<Rightarrow> (int \<Rightarrow> int option) \<Rightarrow> bool" where
  "cons_ok fc b pr co \<longleftrightarrow>
     (\<forall>q q' n. co q = Some n \<longrightarrow> co q' = Some n \<longrightarrow> q = q') \<and> (\<forall>q n. co q = Some n \<longrightarrow> 0 \<le> n \<and> n < fc) \<and>
     (\<forall>n. 0 \<le> n \<and> n < fc \<longrightarrow> (\<exists>q. co q = Some n) \<or> b ! (BSIZE + 1) = 1 \<and> b ! BSIZE = 0) \<and>
     (b ! (BSIZE + 1) = 1 \<longrightarrow> (\<forall>q. pr q = None))"

definition suma :: "int \<Rightarrow> (int \<Rightarrow> int list) \<Rightarrow> int multiset" where
  "suma fp W = (\<Sum>n \<in> {0..<fp}. mset (W n))"

text \<open>What was put into the buffer was printed, or is in the buffer, or in the hands of the consumer that is about to print it.\<close>

definition bilans :: "int \<Rightarrow> (int \<Rightarrow> int list) \<Rightarrow> int list \<Rightarrow> int list \<Rightarrow> (int \<Rightarrow> int option) \<Rightarrow> bool" where
  "bilans fp W ds b dr \<longleftrightarrow>
     (\<forall>q d. dr q = Some d \<longrightarrow> suma fp W = mset ds + mset (niezerowe b) + {#d#}) \<and>
     ((\<forall>q. dr q = None) \<longrightarrow> suma fp W = mset ds + mset (niezerowe b))"

definition dane :: "pc_arg \<Rightarrow> int \<Rightarrow> int \<Rightarrow> (int \<Rightarrow> int list) \<Rightarrow> int list \<Rightarrow> int list \<Rightarrow> widoki \<Rightarrow> int list list \<Rightarrow> bool" where
  "dane A fp fc W ds b w pot \<longleftrightarrow> poprawny b \<and> miejsce_b b (po_widoku trzyma w) pot \<and> stany_ok A W b w \<and>
     prod_ok A fp W (po_widoku prodv w) \<and> cons_ok fc b (po_widoku prodv w) (po_widoku consv w) \<and>
     bilans fp W ds b (po_widoku druk w)"

lemma daneD:
  assumes "dane A fp fc W ds b w pot"
  shows "poprawny b" "miejsce_b b (po_widoku trzyma w) pot" "stany_ok A W b w" "prod_ok A fp W (po_widoku prodv w)"
    "cons_ok fc b (po_widoku prodv w) (po_widoku consv w)" "bilans fp W ds b (po_widoku druk w)"
  using assms by (auto simp: dane_def)

lemma stany_okD: "stany_ok A W b w \<Longrightarrow> w q = Some l \<Longrightarrow> lokalne b l \<and> dobry_p A W l"
  by (simp add: stany_ok_def)

text \<open>Other processes while one is in its critical section: they have no copy of the buffer to write back.\<close>

definition spokojny :: "pc_lok \<Rightarrow> bool" where
  "spokojny l \<longleftrightarrow> trzyma l = None \<and> (\<forall>n t k d. l \<noteq> P_wait n t k d) \<and> (\<forall>n b. l \<noteq> C_pusty n b) \<and> l \<noteq> Fail_sekcja"

definition spokojni :: "int \<Rightarrow> widoki \<Rightarrow> bool" where
  "spokojni p w \<longleftrightarrow> (\<forall>r l. r \<noteq> p \<longrightarrow> w r = Some l \<longrightarrow> spokojny l)"

lemma spokojny_pola: "spokojny l \<Longrightarrow> lokalne b l" "spokojny l \<Longrightarrow> trzyma l = None" "spokojny l \<Longrightarrow> druk l = None"
  by (cases l; auto simp: spokojny_def)+

lemma spokojni_widok:
  assumes "spokojni p w" "r \<noteq> p"
  shows "po_widoku trzyma w r = None" "po_widoku druk w r = None"
  using assms spokojny_pola by (cases "w r"; auto simp: spokojni_def po_widoku_def)+

section \<open>Steps\<close>

text \<open>A step that touches neither the buffer nor the output.\<close>

lemma dane_bez_zmian:
  assumes D: "dane A fp fc W ds b w pot" and p: "w p = Some l" and l': "trzyma l' = trzyma l" "prodv l' = prodv l" "consv l' = consv l" "druk l' = druk l"
    "lokalne b l'" "dobry_p A W l'"
  shows "dane A fp fc W ds b (w(p := Some l')) pot"
  using daneD[OF D] l'(5,6) unfolding dane_def stany_ok_def
  by (simp add: po_widoku_pola[of w p l, OF p] l')

text \<open>A process reads the buffer from the pipe.\<close>

lemma dane_odczyt:
  assumes D: "dane A fp fc W ds b w (x # pot)" and p: "w p = Some l" and l': "trzyma l' = Some x" "prodv l' = prodv l" "consv l' = consv l" "druk l' = druk l"
    "lokalne b l'" "dobry_p A W l'"
  shows "dane A fp fc W ds b (w(p := Some l')) pot" "x = b"
proof -
  have m: "x = b" "pot = []" using daneD(2)[OF D] by (auto simp: miejsce_b_def)
  then have "miejsce_b b (po_widoku trzyma (w(p := Some l'))) pot" using l'(1) by (auto simp: miejsce_b_def po_widoku_upd)
  then show "dane A fp fc W ds b (w(p := Some l')) pot"
    using daneD[OF D] l'(5,6) unfolding dane_def stany_ok_def
    by (simp add: po_widoku_pola[of w p l, OF p] l')
  show "x = b" by (rule m(1))
qed

text \<open>A process writes its copy back.\<close>

lemma kopia:
  assumes D: "dane A fp fc W ds b w pot" and p: "w p = Some l" "trzyma l = Some x" and s: "spokojni p w"
  shows "x = b" "pot = []"
proof -
  have t: "po_widoku trzyma w p = Some x" using p by (simp add: po_widoku_def)
  then show "pot = []" using daneD(2)[OF D] by (auto simp: miejsce_b_def)
  from t obtain q where q: "po_widoku trzyma w q = Some b" using daneD(2)[OF D] by (auto simp: miejsce_b_def)
  then have "q = p" using spokojni_widok(1)[OF s, of q] by auto
  with q t show "x = b" by simp
qed

lemma dane_zapis:
  assumes D: "dane A fp fc W ds b w pot" and p: "w p = Some l" "trzyma l = Some x" and s: "spokojni p w"
    and l': "trzyma l' = None" "prodv l' = prodv l" "consv l' = consv l" "druk l' = druk l" "lokalne b l'" "dobry_p A W l'"
  shows "dane A fp fc W ds b (w(p := Some l')) (pot @ [x])"
proof -
  note k = kopia[OF D p s]
  have "po_widoku trzyma (w(p := Some l')) q = None" for q
    using l'(1) spokojni_widok(1)[OF s, of q] by (cases "q = p") (simp_all add: po_widoku_upd)
  then have "miejsce_b b (po_widoku trzyma (w(p := Some l'))) (pot @ [x])" using k by (simp add: miejsce_b_def)
  then show ?thesis using daneD[OF D] l'(5,6) unfolding dane_def stany_ok_def
    by (simp add: po_widoku_pola[of w p l, OF p(1)] l')
qed

text \<open>A step in the critical section after which the buffer is \<open>b'\<close> and still in the hands of the process.\<close>

lemma miejsce_kopia:
  assumes D: "dane A fp fc W ds b w pot" and p: "w p = Some l" "trzyma l = Some x" and s: "spokojni p w" and l': "trzyma l' = Some b'"
  shows "miejsce_b b' (po_widoku trzyma (w(p := Some l'))) pot"
  using kopia[OF D p s] l' by (auto simp: miejsce_b_def po_widoku_upd)

lemma stany_ok_kopia:
  assumes "stany_ok A W b w" "spokojni p w" "\<And>q. q \<noteq> p \<Longrightarrow> \<forall>l. w q = Some l \<longrightarrow> dobry_p A W' l = dobry_p A W l" "lokalne b' l'" "dobry_p A W' l'"
  shows "stany_ok A W' b' (w(p := Some l'))"
  using assms spokojny_pola(1) unfolding stany_ok_def spokojni_def by auto

lemma suma_dopisz:
  assumes "0 \<le> n" "n < fp"
  shows "suma fp (W(n := W n @ [d])) = suma fp W + {#d#}"
proof -
  have n: "n \<in> {0..<fp}" using assms by simp
  have "suma fp V = mset (V n) + (\<Sum>k \<in> {0..<fp} - {n}. mset (V k))" for V
    unfolding suma_def by (rule sum.remove[OF _ n]) simp
  from this[of W] this[of "W(n := W n @ [d])"] show ?thesis by simp
qed

lemma dane_wstaw:
  assumes D: "dane A fp fc W ds b w pot" and p: "w p = Some (P_wstaw n t k d x)" and s: "spokojni p w"
    and i: "szukaj_komorki (\<lambda>x. x = 0) x = Some i" and b': "b' = x[i := d, BSIZE := na_znak (x ! BSIZE + 1)]"
  shows "dane A fp fc (W(n := W n @ [d])) ds b' (w(p := Some (P_oglos n t k b'))) pot"
proof -
  note d = daneD[OF D]
  let ?W = "W(n := W n @ [d])" and ?w = "w(p := Some (P_oglos n t k b'))"
  have x: "x = b" using kopia(1)[OF D p _ s] by simp
  have lp: "lokalne b (P_wstaw n t k d x)" "dobry_p A W (P_wstaw n t k d x)" using stany_okD[OF d(3) p] by auto
  then have c: "b ! BSIZE \<noteq> int BSIZE" "d \<noteq> 0" "wart A n k = W n @ [d]" "int (length (W n)) = t" "t < pc_turns A" using x by auto
  note ii = szukaj_komorki_Some[OF i]
  note v = wstaw_wartosc[OF d(1) c(1) _ _ c(2), of i b'] 
  have b: "poprawny b'" "mset (niezerowe b') = add_mset d (mset (niezerowe b))" "b' ! (BSIZE + 1) = b ! (BSIZE + 1)"
    using v ii x b' by simp_all
  have pr: "po_widoku prodv w p = Some n" using p by (simp add: po_widoku_def)
  have po: "po_widoku prodv ?w = po_widoku prodv w" "po_widoku consv ?w = po_widoku consv w" "po_widoku druk ?w = po_widoku druk w"
    using p by (simp_all add: po_widoku_bez_zmian)
  have n: "0 \<le> n" "n < fp" using d(4) pr by (auto simp: prod_ok_def)
  have inne: "dobry_p A ?W l = dobry_p A W l" if "q \<noteq> p" "w q = Some l" for q l
  proof (rule dobry_p_inny)
    fix n' assume "prodv l = Some n'"
    then have "po_widoku prodv w q = Some n'" using that(2) by (simp add: po_widoku_def)
    then have "n' \<noteq> n" using d(4) pr that(1) unfolding prod_ok_def by blast
    then show "?W n' = W n'" by simp
  qed
  have "poprawny b'" by (rule b(1))
  moreover have "miejsce_b b' (po_widoku trzyma ?w) pot" by (rule miejsce_kopia[OF D p _ s]) simp_all
  moreover have "stany_ok A ?W b' ?w" using inne c by (intro stany_ok_kopia[OF d(3) s]) auto
  moreover have "prod_ok A fp ?W (po_widoku prodv ?w)"
    using d(4) n c pr unfolding po prod_ok_def by (auto intro: exI[of _ k] exI[of _ p])
  moreover have "cons_ok fc b' (po_widoku prodv ?w) (po_widoku consv ?w)"
  proof -
    have "b ! (BSIZE + 1) \<noteq> 1" using d(5) pr by (auto simp: cons_ok_def)
    with d(5) show ?thesis unfolding po cons_ok_def b(3) by blast
  qed
  moreover have "bilans fp ?W ds b' (po_widoku druk ?w)"
    using d(6) b(2) unfolding po bilans_def suma_dopisz[OF n] by simp
  ultimately show ?thesis by (simp add: dane_def)
qed

lemma dane_wez:
  assumes D: "dane A fp fc W ds b w pot" and p: "w p = Some (C_wez n x)" and s: "spokojni p w"
    and i: "szukaj_komorki (\<lambda>x. x \<noteq> 0) x = Some i" and b': "b' = x[i := 0, BSIZE := na_znak (x ! BSIZE - 1)]"
  shows "dane A fp fc W ds b' (w(p := Some (C_druk n (x ! i) b'))) pot"
proof -
  note d = daneD[OF D]
  let ?w = "w(p := Some (C_druk n (x ! i) b'))"
  have x: "x = b" using kopia(1)[OF D p _ s] by simp
  have c: "b ! BSIZE \<noteq> 0" using stany_okD[OF d(3) p] x by simp
  note ii = szukaj_komorki_Some[OF i]
  have b: "poprawny b'" "mset (niezerowe b) = add_mset (x ! i) (mset (niezerowe b'))" "b' ! (BSIZE + 1) = b ! (BSIZE + 1)"
    using wez_wartosc[OF d(1), of i b'] ii x b' by simp_all
  have po: "po_widoku prodv ?w = po_widoku prodv w" "po_widoku consv ?w = po_widoku consv w"
    using p by (simp_all add: po_widoku_bez_zmian)
  have dr: "po_widoku druk w q = None" "po_widoku druk ?w q = (if q = p then Some (x ! i) else None)" for q
    using p spokojni_widok(2)[OF s, of q] by (cases "q = p"; simp add: po_widoku_upd po_widoku_def)+
  have "miejsce_b b' (po_widoku trzyma ?w) pot" by (rule miejsce_kopia[OF D p _ s]) simp_all
  moreover have "stany_ok A W b' ?w" by (intro stany_ok_kopia[OF d(3) s]) auto
  moreover have "cons_ok fc b' (po_widoku prodv ?w) (po_widoku consv ?w)"
    using d(5) c unfolding po cons_ok_def b(3) by auto
  moreover have "bilans fp W ds b' (po_widoku druk ?w)"
    using d(6) b(2) dr unfolding bilans_def by (auto split: if_splits)
  ultimately show ?thesis using b(1) d(4) unfolding dane_def po by simp
qed

lemma dane_druk:
  assumes D: "dane A fp fc W ds b w pot" and p: "w p = Some (C_druk n d x)" and s: "spokojni p w"
  shows "dane A fp fc W (ds @ [d]) b (w(p := Some (C_oglos n x))) pot"
proof -
  note dd = daneD[OF D]
  let ?w = "w(p := Some (C_oglos n x))"
  have po: "po_widoku prodv ?w = po_widoku prodv w" "po_widoku consv ?w = po_widoku consv w" "po_widoku trzyma ?w = po_widoku trzyma w"
    using p by (simp_all add: po_widoku_bez_zmian)
  have dr: "po_widoku druk w p = Some d" "po_widoku druk ?w q = None" for q
    using p spokojni_widok(2)[OF s, of q] by (cases "q = p"; simp add: po_widoku_upd po_widoku_def)+
  have "stany_ok A W b ?w" using dd(3) by (simp add: stany_ok_def)
  moreover have "bilans fp W (ds @ [d]) b (po_widoku druk ?w)" using dd(6) dr unfolding bilans_def by auto
  ultimately show ?thesis using dd unfolding dane_def po by simp
qed

text \<open>A process ends, or starts. A producer ends after its last turn; a consumer ends when the flag is set and the buffer empty.\<close>

lemma prod_ok_usun:
  assumes P: "prod_ok A fp W pr" and p: "\<And>n. pr p = Some n \<Longrightarrow> int (length (W n)) = pc_turns A"
  shows "prod_ok A fp W (pr(p := None))"
proof -
  have "(\<exists>q. (pr(p := None)) q = Some n) \<or> int (length (W n)) = pc_turns A" if n: "0 \<le> n \<and> n < fp" for n
  proof -
    have "(\<exists>q. pr q = Some n) \<or> int (length (W n)) = pc_turns A" using P n unfolding prod_ok_def by blast
    then show ?thesis
    proof (elim disjE exE)
      fix q assume "pr q = Some n"
      then show ?thesis using p by (cases "q = p") auto
    qed simp
  qed
  moreover have "q = q'" if "(pr(p := None)) q = Some n" "(pr(p := None)) q' = Some n" for q q' n
    using P that unfolding prod_ok_def by (metis fun_upd_apply option.distinct(1))
  moreover have "0 \<le> n \<and> n < fp" if "(pr(p := None)) q = Some n" for q n
    using P that unfolding prod_ok_def by (metis fun_upd_apply option.distinct(1))
  ultimately show ?thesis using P unfolding prod_ok_def by blast
qed

lemma dane_usun:
  assumes D: "dane A fp fc W ds b w pot" and p: "w p = Some l" "trzyma l = None" "druk l = None" "consv l = None"
    "\<And>n. prodv l = Some n \<Longrightarrow> int (length (W n)) = pc_turns A"
  shows "dane A fp fc W ds b (w(p := None)) pot"
proof -
  note d = daneD[OF D]
  have po: "po_widoku trzyma (w(p := None)) = po_widoku trzyma w" "po_widoku consv (w(p := None)) = po_widoku consv w"
    "po_widoku druk (w(p := None)) = po_widoku druk w" "po_widoku prodv (w(p := None)) = (po_widoku prodv w)(p := None)"
    using p by (auto simp: po_widoku_def fun_eq_iff)
  have "stany_ok A W b (w(p := None))" using d(3) by (auto simp: stany_ok_def)
  moreover have "prod_ok A fp W ((po_widoku prodv w)(p := None))"
    using p by (intro prod_ok_usun[OF d(4)]) (simp add: po_widoku_def)
  moreover have "cons_ok fc b ((po_widoku prodv w)(p := None)) (po_widoku consv w)" using d(5) by (auto simp: cons_ok_def)
  ultimately show ?thesis using d unfolding dane_def po by simp
qed

lemma dane_wyjscie:
  assumes D: "dane A fp fc W ds b w pot" and p: "w p = Some (C_pusty n x)" and x: "x ! (BSIZE + 1) \<noteq> 0"
  shows "dane A fp fc W ds b (w(p := Some (C_exit n))) pot"
proof -
  note d = daneD[OF D]
  let ?w = "w(p := Some (C_exit n))"
  have b: "x = b" "b ! BSIZE = 0" using stany_okD[OF d(3) p] by auto
  then have f: "b ! (BSIZE + 1) = 1" using d(1) x by (auto simp: poprawny_def)
  have po: "po_widoku trzyma ?w = po_widoku trzyma w" "po_widoku prodv ?w = po_widoku prodv w" "po_widoku druk ?w = po_widoku druk w"
    using p by (simp_all add: po_widoku_bez_zmian)
  have "stany_ok A W b ?w" using d(3) by (auto simp: stany_ok_def)
  moreover have "po_widoku consv ?w = (po_widoku consv w)(p := None)" by (simp add: po_widoku_upd)
  then have "cons_ok fc b (po_widoku prodv w) (po_widoku consv ?w)" using d(5) b(2) f by (simp add: cons_ok_def)
  ultimately show ?thesis using d unfolding dane_def po by simp
qed

lemma dane_nowy_prod:
  assumes D: "dane A fp fc W ds b w pot" and q: "w q = None" and b: "b ! (BSIZE + 1) = 0" and fp: "0 \<le> fp" "0 \<le> pc_turns A"
  shows "dane A (fp + 1) fc W ds b (w(q := Some (P_petla fp 0 0))) pot"
proof -
  note d = daneD[OF D]
  let ?w = "w(q := Some (P_petla fp 0 0))"
  have po: "po_widoku trzyma ?w = po_widoku trzyma w" "po_widoku consv ?w = po_widoku consv w"
    "po_widoku druk ?w = po_widoku druk w" "po_widoku prodv ?w = (po_widoku prodv w)(q := Some fp)"
    using q by (auto simp: po_widoku_def fun_eq_iff)
  have W: "W fp = []" using d(4) unfolding prod_ok_def by (metis less_irrefl)
  have nowy: "po_widoku prodv w r \<noteq> Some fp" for r using d(4) unfolding prod_ok_def by (metis less_irrefl)
  have "stany_ok A W b ?w" using d(3) W fp(2) by (auto simp: stany_ok_def wart_def)
  moreover have "prod_ok A (fp + 1) W ((po_widoku prodv w)(q := Some fp))"
  proof -
    have "(\<exists>r. ((po_widoku prodv w)(q := Some fp)) r = Some n) \<or> int (length (W n)) = pc_turns A" if n: "0 \<le> n \<and> n < fp + 1" for n
    proof (cases "n = fp")
      case False
      then have "(\<exists>r. po_widoku prodv w r = Some n) \<or> int (length (W n)) = pc_turns A" using d(4) n unfolding prod_ok_def by auto
      moreover have "po_widoku prodv w q = None" using q by (simp add: po_widoku_def)
      ultimately show ?thesis by (metis fun_upd_apply option.distinct(1))
    qed (auto intro: exI[of _ q])
    moreover have "(\<exists>k. W n = wart A n k) \<and> (W n \<noteq> [] \<longrightarrow> 0 \<le> n \<and> n < fp + 1 \<and> int (length (W n)) \<le> pc_turns A)" for n
      using d(4) unfolding prod_ok_def by (metis add_increasing2 less_add_one order_less_trans)
    moreover have "0 \<le> n \<and> n < fp + 1" if "((po_widoku prodv w)(q := Some fp)) r = Some n" for r n
    proof (cases "r = q")
      case False
      then have "po_widoku prodv w r = Some n" using that by simp
      with d(4) have "0 \<le> n \<and> n < fp" unfolding prod_ok_def by blast
      then show ?thesis by simp
    qed (use that fp in simp)
    moreover have "r = r'" if "((po_widoku prodv w)(q := Some fp)) r = Some n" "((po_widoku prodv w)(q := Some fp)) r' = Some n" for r r' n
      using that nowy d(4) unfolding prod_ok_def by (metis fun_upd_apply option.inject)
    ultimately show ?thesis unfolding prod_ok_def by blast
  qed
  moreover have "cons_ok fc b ((po_widoku prodv w)(q := Some fp)) (po_widoku consv w)" using d(5) b by (simp add: cons_ok_def)
  moreover have "suma (fp + 1) W = suma fp W"
  proof -
    have "{0..<fp + 1} = insert fp {0..<fp}" using fp(1) by auto
    then show ?thesis using W by (simp add: suma_def)
  qed
  then have "bilans (fp + 1) W ds b (po_widoku druk w)" using d(6) by (simp add: bilans_def)
  ultimately show ?thesis using d unfolding dane_def po by simp
qed

lemma dane_nowy_cons:
  assumes D: "dane A fp fc W ds b w pot" and q: "w q = None" and fc: "0 \<le> fc"
  shows "dane A fp (fc + 1) W ds b (w(q := Some (C_lock fc))) pot"
proof -
  note d = daneD[OF D]
  let ?w = "w(q := Some (C_lock fc))"
  have po: "po_widoku trzyma ?w = po_widoku trzyma w" "po_widoku prodv ?w = po_widoku prodv w"
    "po_widoku druk ?w = po_widoku druk w" "po_widoku consv ?w = (po_widoku consv w)(q := Some fc)"
    using q by (auto simp: po_widoku_def fun_eq_iff)
  have "cons_ok (fc + 1) b (po_widoku prodv w) ((po_widoku consv w)(q := Some fc))"
  proof -
    have "(\<exists>r. ((po_widoku consv w)(q := Some fc)) r = Some n) \<or> b ! (BSIZE + 1) = 1 \<and> b ! BSIZE = 0" if n: "0 \<le> n \<and> n < fc + 1" for n
    proof (cases "n = fc")
      case False
      then have "(\<exists>r. po_widoku consv w r = Some n) \<or> b ! (BSIZE + 1) = 1 \<and> b ! BSIZE = 0" using d(5) n unfolding cons_ok_def by auto
      moreover have "po_widoku consv w q = None" using q by (simp add: po_widoku_def)
      ultimately show ?thesis by (metis fun_upd_apply option.distinct(1))
    qed (auto intro: exI[of _ q])
    moreover have nowy: "po_widoku consv w r \<noteq> Some fc" for r using d(5) unfolding cons_ok_def by (metis less_irrefl)
    have "0 \<le> n \<and> n < fc + 1" if "((po_widoku consv w)(q := Some fc)) r = Some n" for r n
    proof (cases "r = q")
      case False
      then have "po_widoku consv w r = Some n" using that by simp
      with d(5) have "0 \<le> n \<and> n < fc" unfolding cons_ok_def by blast
      then show ?thesis by simp
    qed (use that fc in simp)
    moreover have "r = r'" if "((po_widoku consv w)(q := Some fc)) r = Some n" "((po_widoku consv w)(q := Some fc)) r' = Some n" for r r' n
      using that nowy d(5) unfolding cons_ok_def by (metis fun_upd_apply option.inject)
    moreover have "b ! (BSIZE + 1) = 1 \<longrightarrow> (\<forall>q. po_widoku prodv w q = None)" using d(5) by (simp add: cons_ok_def)
    ultimately show ?thesis unfolding cons_ok_def by blast
  qed
  moreover have "stany_ok A W b ?w" using d(3) by (auto simp: stany_ok_def)
  ultimately show ?thesis using d unfolding dane_def po by simp
qed

text \<open>\<^verbatim>\<open>main\<close> sets the flag when no producer runs.\<close>

lemma flaga_poprawny:
  assumes "poprawny b"
  shows "poprawny (b[BSIZE + 1 := 1])" "niezerowe (b[BSIZE + 1 := 1]) = niezerowe b" "b[BSIZE + 1 := 1] ! BSIZE = b ! BSIZE"
proof -
  show n: "niezerowe (b[BSIZE + 1 := 1]) = niezerowe b" by (simp add: niezerowe_def)
  show "poprawny (b[BSIZE + 1 := 1])" using assms n by (simp add: poprawny_def)
qed simp

lemma dane_flaga:
  assumes D: "dane A fp fc W ds b w (x # pot)" and p: "w p = Some G_czytaj" and s: "spokojni p w" and n: "\<forall>q. po_widoku prodv w q = None"
  shows "dane A fp fc W ds (b[BSIZE + 1 := 1]) (w(p := Some (G_zapisz (x[BSIZE + 1 := 1])))) pot"
proof -
  note d = daneD[OF D]
  let ?w = "w(p := Some (G_zapisz (x[BSIZE + 1 := 1])))" and ?b = "b[BSIZE + 1 := 1]"
  have x: "x = b" "pot = []" using d(2) by (auto simp: miejsce_b_def)
  have po: "po_widoku prodv ?w = po_widoku prodv w" "po_widoku consv ?w = po_widoku consv w" "po_widoku druk ?w = po_widoku druk w"
    using p by (simp_all add: po_widoku_bez_zmian)
  note f = flaga_poprawny[OF d(1)]
  have "miejsce_b ?b (po_widoku trzyma ?w) pot" using x by (auto simp: miejsce_b_def po_widoku_upd)
  moreover have "stany_ok A W ?b ?w" by (rule stany_ok_kopia[OF d(3) s]) simp_all
  moreover have "cons_ok fc ?b (po_widoku prodv w) (po_widoku consv w)"
    using d(1,5) n f(3) by (auto simp: cons_ok_def poprawny_def)
  moreover have "bilans fp W ds ?b (po_widoku druk w)" using d(6) f(2) by (simp add: bilans_def)
  ultimately show ?thesis using d(4) f(1) unfolding dane_def po by simp
qed

end
