(* ===== verification/Prod_Cons_Dowod.thy ===== *)
theory Prod_Cons_Dowod
  imports Prod_Cons_Dane
begin

text \<open>
  What the test program \<^verbatim>\<open>prod_cons\<close> promises: the counter of the buffer is never wrong, every printed value was put into the buffer
  by a producer and is printed once, and when the program has ended all values were printed. The steps of the data are those of \<open>Prod_Cons_Dane\<close>; here
  they are joined with the life of the processes.
\<close>

section \<open>The steps of one process\<close>

text \<open>A step of a process that is neither its end nor about other processes: \<open>x\<close> is what it prints.\<close>

definition pc_krok :: "pc_arg \<Rightarrow> pc_lok \<Rightarrow> int list list \<Rightarrow> pc_lok \<Rightarrow> int list list \<Rightarrow> string \<Rightarrow> bool" where
  "pc_krok A l pot l' pot' x \<longleftrightarrow>
     (\<exists>t n c f. prod_cons A l = Zadanie t n c f \<and> l' = f OK \<and> pot' = pot \<and> x = []) \<or>
     prod_cons A l = Pisz x l' \<and> pot' = pot \<or>
     (\<exists>f y. prod_cons A l = Odczyt f \<and> l' = f y \<and> pot = y # pot' \<and> x = []) \<or>
     (\<exists>y. prod_cons A l = Zapis y l' \<and> pot' = pot @ [y] \<and> x = []) \<or>
     prod_cons A l = Dalej l' \<and> pot' = pot \<and> x = []"

definition pc_dziecka :: "pc_lok \<Rightarrow> bool" where
  "pc_dziecka l \<longleftrightarrow> prodv l \<noteq> None \<or> consv l \<noteq> None \<or> (\<exists>n. l = C_exit n)"

text \<open>The steps that leave the data as it is.\<close>

lemma pc_cicho:
  assumes "prod_cons A l = Dalej l' \<or> (\<exists>t n c f. prod_cons A l = Zadanie t n c f \<and> l' = f OK)" "pc_dziecka l" "lokalne b l" "dobry_p A W l"
    "\<forall>n t k d x. l \<noteq> P_wstaw n t k d x" "\<forall>n x. l \<noteq> C_wez n x" "\<forall>n x. l = C_pusty n x \<longrightarrow> x ! (BSIZE + 1) = 0"
  shows "trzyma l' = trzyma l \<and> prodv l' = prodv l \<and> consv l' = consv l \<and> druk l' = druk l \<and> lokalne b l' \<and> dobry_p A W l' \<and> pc_dziecka l'"
  using assms by (cases l) (auto simp: pc_dziecka_def lib_defs wart_Suc Let_def split: if_splits)

definition po_kroku :: "pc_arg \<Rightarrow> int \<Rightarrow> int \<Rightarrow> int list \<Rightarrow> int list \<Rightarrow> widoki \<Rightarrow> int list list \<Rightarrow> string \<Rightarrow> bool" where
  "po_kroku A fp fc ds b w' pot' x \<longleftrightarrow> (\<exists>W' ds' b'. dane A fp fc W' ds' b' w' pot' \<and>
     concat (map wiersz ds') = concat (map wiersz ds) @ x \<and> b' ! (BSIZE + 1) = b ! (BSIZE + 1))"

lemma po_krokuI':
  "dane A fp fc W' ds' b' w' pot' \<Longrightarrow> concat (map wiersz ds') = concat (map wiersz ds) @ x \<Longrightarrow> b' ! (BSIZE + 1) = b ! (BSIZE + 1) \<Longrightarrow>
    po_kroku A fp fc ds b w' pot' x"
  unfolding po_kroku_def by (intro exI[of _ W'] exI[of _ ds'] exI[of _ b']) simp

lemma po_krokuI: "dane A fp fc W ds b w' pot' \<Longrightarrow> po_kroku A fp fc ds b w' pot' []"
  by (rule po_krokuI') simp_all

lemma pc_krok_danych:
  assumes D: "dane A fp fc W ds b w pot" and p: "w p = Some l" "pc_dziecka l" and s: "pc_kryt l \<Longrightarrow> spokojni p w"
    and k: "pc_krok A l pot l' pot' x"
  shows "po_kroku A fp fc ds b (w(p := Some l')) pot' x \<and> pc_dziecka l' \<and> (prodv l = None \<longrightarrow> prodv l' = None)"
proof -
  note d = daneD[OF D]
  note lo = stany_okD[OF d(3) p(1)]
  consider (cicho) "prod_cons A l = Dalej l' \<or> (\<exists>t n c f. prod_cons A l = Zadanie t n c f \<and> l' = f OK)"
      "\<forall>n t k d x. l \<noteq> P_wstaw n t k d x" "\<forall>n x. l \<noteq> C_wez n x" "\<forall>n x. l = C_pusty n x \<longrightarrow> x ! (BSIZE + 1) = 0" "pot' = pot" "x = []"
    | (wstaw) n t k' v y where "l = P_wstaw n t k' v y" | (wez) n y where "l = C_wez n y"
    | (wyjscie) n y where "l = C_pusty n y" "y ! (BSIZE + 1) \<noteq> 0"
    | (pisz) "prod_cons A l = Pisz x l'" "pot' = pot"
    | (odczyt) f y where "prod_cons A l = Odczyt f" "l' = f y" "pot = y # pot'" "x = []"
    | (zapis) y where "prod_cons A l = Zapis y l'" "pot' = pot @ [y]" "x = []"
    using k unfolding pc_krok_def by blast
  then show ?thesis
  proof cases
    case cicho
    from pc_cicho[OF cicho(1) p(2) _ _ cicho(2-4)] lo
    have c: "trzyma l' = trzyma l" "prodv l' = prodv l" "consv l' = consv l" "druk l' = druk l" "lokalne b l'" "dobry_p A W l'" "pc_dziecka l'" by auto
    from po_krokuI[OF dane_bez_zmian[OF D p(1) c(1-6)]] c cicho show ?thesis by simp
  next
    case wstaw
    have sp: "spokojni p w" using s wstaw by simp
    have y: "y = b" using kopia(1)[OF D p(1) _ sp] wstaw by simp
    have "b ! BSIZE \<noteq> int BSIZE" using lo wstaw y by simp
    from wolna_komorka[OF d(1) this] obtain i where i: "szukaj_komorki (\<lambda>x. x = 0) y = Some i" using y by auto
    let ?b = "y[i := v, BSIZE := na_znak (y ! BSIZE + 1)]"
    have l': "l' = P_oglos n t k' ?b" "pot' = pot" "x = []" using k wstaw i by (auto simp: pc_krok_def)
    have "?b ! (BSIZE + 1) = b ! (BSIZE + 1)" using szukaj_komorki_Some[OF i] y by simp
    from po_krokuI'[OF dane_wstaw[OF D _ sp i refl] _ this] p(1) wstaw l' show ?thesis by (simp add: pc_dziecka_def)
  next
    case wez
    have sp: "spokojni p w" using s wez by simp
    have y: "y = b" using kopia(1)[OF D p(1) _ sp] wez by simp
    have "b ! BSIZE \<noteq> 0" using lo wez y by simp
    from zajeta_komorka[OF d(1) this] obtain i where i: "szukaj_komorki (\<lambda>x. x \<noteq> 0) y = Some i" using y by auto
    let ?b = "y[i := 0, BSIZE := na_znak (y ! BSIZE - 1)]"
    have l': "l' = C_druk n (y ! i) ?b" "pot' = pot" "x = []" using k wez i by (auto simp: pc_krok_def)
    have "?b ! (BSIZE + 1) = b ! (BSIZE + 1)" using szukaj_komorki_Some[OF i] y by simp
    from po_krokuI'[OF dane_wez[OF D _ sp i refl] _ this] p(1) wez l' show ?thesis by (simp add: pc_dziecka_def)
  next
    case wyjscie
    then have "l' = C_exit n" "pot' = pot" "x = []" using k by (auto simp: pc_krok_def lib_defs)
    with po_krokuI[OF dane_wyjscie[OF D _ wyjscie(2), of p n]] p(1) wyjscie show ?thesis by (simp add: pc_dziecka_def)
  next
    case pisz
    then obtain n v y where l: "l = C_druk n v y" "x = wiersz v" "l' = C_oglos n y"
      using p(2) by (cases l) (auto simp: pc_dziecka_def lib_defs Let_def split: if_splits option.splits)
    have sp: "spokojni p w" using s l by simp
    from po_krokuI'[OF dane_druk[OF D _ sp, of n v y] _ refl] p(1) l pisz show ?thesis by (simp add: pc_dziecka_def)
  next
    case odczyt
    have c: "trzyma l' = Some y" "prodv l' = prodv l" "consv l' = consv l" "druk l' = druk l" "lokalne b l'" "dobry_p A W l'" "pc_dziecka l'"
      using odczyt(1,2) p(2) lo by (cases l; auto simp: pc_dziecka_def lib_defs Let_def split: if_splits option.splits)+
    from dane_odczyt(1)[OF D[unfolded odczyt(3)] p(1) c(1-6)] odczyt(4) c show ?thesis by (simp add: po_krokuI)
  next
    case zapis
    have t: "trzyma l = Some y" "pc_kryt l" using zapis(1) p(2) by (cases l; auto simp: pc_dziecka_def lib_defs Let_def split: if_splits option.splits)+
    note sp = s[OF t(2)]
    have y: "y = b" using kopia(1)[OF D p(1) t(1) sp] .
    have c: "trzyma l' = None" "prodv l' = prodv l" "consv l' = consv l" "druk l' = druk l" "lokalne b l'" "dobry_p A W l'" "pc_dziecka l'"
      using zapis(1) p(2) lo y by (cases l; auto simp: pc_dziecka_def lib_defs Let_def split: if_splits option.splits)+
    from dane_zapis[OF D p(1) t(1) sp c(1-6)] zapis c show ?thesis by (simp add: po_krokuI)
  qed
qed

section \<open>The steps of main\<close>

text \<open>
  The phases of \<^verbatim>\<open>main\<close>: \<open>c\<close> is the number of its children, \<open>fp\<close> and \<open>fc\<close> the numbers of producers and consumers it has
  started, \<open>fl\<close> the flag in the buffer, and \<open>np\<close> says that no producer runs.
\<close>

definition bez_prod :: "widoki \<Rightarrow> bool" where
  "bez_prod w \<longleftrightarrow> (\<forall>q. po_widoku prodv w q = None)"

fun faza :: "pc_arg \<Rightarrow> pc_lok \<Rightarrow> int \<Rightarrow> int \<Rightarrow> int \<Rightarrow> int \<Rightarrow> bool \<Rightarrow> bool" where
  "faza A (G_prod i) c fp fc fl np = (fp = i \<and> fc = 0 \<and> c = i \<and> i \<le> prods A \<and> fl = 0)"
| "faza A (G_cons i) c fp fc fl np = (fp = prods A \<and> fc = i \<and> c = prods A + i \<and> 0 \<le> i \<and> i \<le> cons A \<and> fl = 0)"
| "faza A (G_wait k) c fp fc fl np = (fp = prods A \<and> fc = cons A \<and> c = k + cons A \<and> 0 \<le> k \<and> fl = 0)"
| "faza A G_lock c fp fc fl np = (fp = prods A \<and> fc = cons A \<and> np)"
| "faza A G_czytaj c fp fc fl np = (fp = prods A \<and> fc = cons A \<and> np)"
| "faza A (G_zapisz x) c fp fc fl np = (fp = prods A \<and> fc = cons A \<and> np \<and> fl = 1)"
| "faza A G_oglos c fp fc fl np = (fp = prods A \<and> fc = cons A \<and> np \<and> fl = 1)"
| "faza A G_unlock c fp fc fl np = (fp = prods A \<and> fc = cons A \<and> np \<and> fl = 1)"
| "faza A G_dzieci c fp fc fl np = (fp = prods A \<and> fc = cons A \<and> np \<and> fl = 1)"
| "faza A G_return c fp fc fl np = (fp = prods A \<and> fc = cons A \<and> c = 0)"
| "faza A Sigterm c fp fc fl np = True"
| "faza A _ c fp fc fl np = False"

lemma faza_pola:
  assumes "faza A l c fp fc fl np"
  shows "prodv l = None" "consv l = None" "druk l = None" "\<not> pc_dziecka l"
  using assms by (cases l; simp add: pc_dziecka_def)+

lemma faza_bez_prod: "faza A l c fp fc fl np \<Longrightarrow> (np \<Longrightarrow> np') \<Longrightarrow> faza A l c fp fc fl np'"
  by (cases l) auto

lemma bez_prod_upd: "prodv l = None \<Longrightarrow> w p = Some l' \<Longrightarrow> prodv l' = None \<Longrightarrow> bez_prod (w(p := Some l)) = bez_prod w"
  by (simp add: bez_prod_def po_widoku_bez_zmian)

lemma pc_krok_glownego:
  assumes D: "dane A fp fc W ds b w pot" and g: "w g = Some l" and s: "pc_kryt l \<Longrightarrow> spokojni g w"
    and f: "faza A l c fp fc (b ! (BSIZE + 1)) (bez_prod w)" and A: "0 \<le> prods A" "0 \<le> cons A"
    and k: "pc_krok A l pot l' pot' x" and n: "l = G_wait 0 \<Longrightarrow> bez_prod w"
  shows "\<exists>b'. dane A fp fc W ds b' (w(g := Some l')) pot' \<and> faza A l' c fp fc (b' ! (BSIZE + 1)) (bez_prod (w(g := Some l'))) \<and> x = []"
proof -
  consider (czytaj) y where "l = G_czytaj" "l' = G_zapisz (y[BSIZE + 1 := 1])" "pot = y # pot'" "x = []"
    | (zapisz) y where "l = G_zapisz y" "l' = G_oglos" "pot' = pot @ [y]" "x = []"
    | (cicho) "trzyma l = None" "trzyma l' = None" "\<And>b. lokalne b l'" "\<And>W. dobry_p A W l'" "pot' = pot" "x = []"
       "faza A l' c fp fc (b ! (BSIZE + 1)) (bez_prod w)"
    using k f A n unfolding pc_krok_def by (cases l) (auto simp: lib_defs split: if_splits)
  then show ?thesis
  proof cases
    case czytaj
    then have np: "bez_prod w" using f by simp
    have "bez_prod (w(g := Some l')) = bez_prod w" using g czytaj by (intro bez_prod_upd) auto
    moreover have "dane A fp fc W ds (b[BSIZE + 1 := 1]) (w(g := Some l')) pot'"
      using dane_flaga[OF D[unfolded czytaj(3)], of g] g s np czytaj by (simp add: bez_prod_def)
    moreover have "b[BSIZE + 1 := 1] ! (BSIZE + 1) = 1" using daneD(1)[OF D] by (simp add: poprawny_def)
    ultimately show ?thesis using f czytaj np by auto
  next
    case zapisz
    have "dane A fp fc W ds b (w(g := Some l')) pot'"
      using dane_zapis[OF D g, of y l'] s zapisz by simp
    moreover have "bez_prod (w(g := Some l')) = bez_prod w" using g zapisz by (intro bez_prod_upd) auto
    ultimately show ?thesis using f zapisz by auto
  next
    case cicho
    note l = faza_pola[OF f] and l' = faza_pola[OF cicho(7)]
    have "dane A fp fc W ds b (w(g := Some l')) pot"
      by (rule dane_bez_zmian[OF D g]) (use l l' cicho in simp_all)
    moreover have "bez_prod (w(g := Some l')) = bez_prod w" using g l l' by (intro bez_prod_upd) auto
    ultimately show ?thesis using cicho by auto
  qed
qed

text \<open>When as many children are left as there are consumers, no producer runs.\<close>

lemma zostaja_konsumenci:
  assumes co: "cons_ok fc b pr (po_widoku consv w)" and fl: "b ! (BSIZE + 1) = 0" and Z: "finite Z" "int (card Z) = fc"
    and dom: "\<And>q l. w q = Some l \<Longrightarrow> q \<in> Z \<or> prodv l = None \<and> consv l = None"
  shows "bez_prod w"
proof -
  have "\<forall>n \<in> {0..<fc}. \<exists>q. po_widoku consv w q = Some n" using co fl by (auto simp: cons_ok_def)
  then obtain h where h: "\<forall>n \<in> {0..<fc}. po_widoku consv w (h n) = Some n" by (auto dest: bchoice)
  have "inj_on h {0..<fc}" using h by (intro inj_onI) (metis option.inject)
  then have "card (h ` {0..<fc}) = card Z" using Z(2) by (simp add: card_image)
  moreover have "h ` {0..<fc} \<subseteq> Z"
  proof
    fix q assume "q \<in> h ` {0..<fc}"
    then obtain n where "po_widoku consv w q = Some n" using h by auto
    then obtain l where "w q = Some l" "consv l = Some n" by (auto simp: po_widoku_def bind_eq_Some_conv)
    with dom[of q l] show "q \<in> Z" by auto
  qed
  ultimately have e: "h ` {0..<fc} = Z" using card_subset_eq[OF Z(1)] by blast
  have ex: "prodv l = None" if "consv l = Some n" for l n using that by (cases l) auto
  have "po_widoku prodv w q = None" for q
  proof (cases "w q")
    case (Some l)
    show ?thesis
    proof (cases "q \<in> Z")
      case True
      then obtain n where "po_widoku consv w q = Some n" using e h by auto
      with Some ex show ?thesis by (simp add: po_widoku_def)
    qed (use Some dom[of q l] in \<open>simp add: po_widoku_def\<close>)
  qed (simp add: po_widoku_def)
  then show ?thesis by (simp add: bez_prod_def)
qed

section \<open>The invariant of the program\<close>

abbreviation wid :: "pc_lok uklad \<Rightarrow> widoki" where
  "wid u \<equiv> (\<lambda>q. widok (stany u q))"

definition czyta :: "pc_lok \<Rightarrow> bool" where
  "czyta l \<longleftrightarrow> (\<exists>n t k d. l = P_czytaj n t k d) \<or> (\<exists>n. l = C_czytaj n) \<or> l = G_czytaj"

definition pc_blokady :: "pc_lok uklad \<Rightarrow> bool" where
  "pc_blokady u \<longleftrightarrow> (\<forall>q f. stany u q = Zablokowany f \<longrightarrow> czyta (f OK))"

definition pc_dzieci :: "int \<Rightarrow> pc_lok uklad \<Rightarrow> bool" where
  "pc_dzieci g u \<longleftrightarrow> rodzic u g \<noteq> g \<and> (\<forall>q. q \<noteq> g \<longrightarrow> stany u q \<noteq> Nie_ma \<longrightarrow> rodzic u q = g) \<and> (\<forall>q l. q \<noteq> g \<longrightarrow> wid u q = Some l \<longrightarrow> pc_dziecka l)"

definition pc_glowny :: "pc_arg \<Rightarrow> int \<Rightarrow> int \<Rightarrow> int \<Rightarrow> int list \<Rightarrow> pc_lok uklad \<Rightarrow> bool" where
  "pc_glowny A g fp fc b u \<longleftrightarrow>
     (case wid u g of
        Some l \<Rightarrow> faza A l (int (card (zywe u - {g}))) fp fc (b ! (BSIZE + 1)) (bez_prod (wid u))
      | None \<Rightarrow> stany u g = Zombie 0 \<and> zywe u = {g} \<and> fp = prods A \<and> fc = cons A)"

text \<open>While the program runs, before \<^verbatim>\<open>main\<close> has put the buffer into the pipe, and after the group of processes was killed.\<close>

definition praca :: "pc_arg \<Rightarrow> int \<Rightarrow> pc_lok uklad \<Rightarrow> bool" where
  "praca A g u \<longleftrightarrow> 0 \<le> prods A \<and> 0 \<le> cons A \<and> 0 \<le> pc_turns A \<and>
     (\<exists>fp fc W ds b. 0 \<le> fp \<and> fp \<le> prods A \<and> dane A fp fc W ds b (wid u) (potok u) \<and> stdout u = concat (map wiersz ds) \<and> pc_glowny A g fp fc b u)"

definition przed_startem :: "pc_arg \<Rightarrow> int \<Rightarrow> pc_lok uklad \<Rightarrow> bool" where
  "przed_startem A g u \<longleftrightarrow> zywe u = {g} \<and> potok u = [] \<and> stdout u = [] \<and>
     (stany u g = Dziala G_start \<or> stany u g = Dziala G_zapis \<and> 0 \<le> prods A \<and> 0 \<le> cons A \<and> 0 \<le> pc_turns A \<or>
      stany u g = Dziala Fail \<or> stany u g = Zombie 2)"

text \<open>What is printed at any time: values that the producers have put into the buffer.\<close>

definition wydruk :: "pc_arg \<Rightarrow> int \<Rightarrow> (int \<Rightarrow> int list) \<Rightarrow> int list \<Rightarrow> pc_lok uklad \<Rightarrow> bool" where
  "wydruk A fp W ds u \<longleftrightarrow> stdout u = concat (map wiersz ds) \<and> mset ds \<subseteq># suma fp W \<and>
     (\<forall>n. (\<exists>k. W n = wart A n k) \<and> int (length (W n)) \<le> max 0 (pc_turns A))"

definition zabita :: "pc_arg \<Rightarrow> int \<Rightarrow> pc_lok uklad \<Rightarrow> bool" where
  "zabita A g u \<longleftrightarrow> (\<forall>q. \<not> trwa (stany u q)) \<and> stany u g = Zombie (- SIGTERM) \<and> (\<exists>fp W ds. fp \<le> max 0 (prods A) \<and> wydruk A fp W ds u)"

definition pc_inw :: "pc_arg \<Rightarrow> int \<Rightarrow> pc_lok uklad \<Rightarrow> bool" where
  "pc_inw A g u \<longleftrightarrow> pc_blokady u \<and> pc_dzieci g u \<and> (przed_startem A g u \<or> praca A g u \<or> zabita A g u)"

lemma spokojni_w_sekcji:
  assumes w: "wylaczny m pc_kryt u" and B: "pc_blokady u" and p: "stany u p = Dziala l" "pc_kryt l"
  shows "spokojni p (wid u)"
  unfolding spokojni_def
proof (intro allI impI)
  fix r l' assume r: "r \<noteq> p" "wid u r = Some l'"
  have pw: "ma_mutex p m (abstr (serw u))" using w p by (simp add: wylaczny_def w_sekcji_def)
  show "spokojny l'"
  proof (cases "stany u r")
    case (Dziala l'')
    have "\<not> pc_kryt l'"
    proof
      assume "pc_kryt l'"
      then have "ma_mutex r m (abstr (serw u))" using w r(2) Dziala by (simp add: wylaczny_def w_sekcji_def)
      with ma_mutex_jeden[OF pw] r(1) show False by blast
    qed
    then show ?thesis by (cases l') (simp_all add: spokojny_def)
  next
    case (Zablokowany f)
    then have "czyta l'" using B r(2) by (auto simp: pc_blokady_def)
    then show ?thesis by (auto simp: czyta_def spokojny_def)
  qed (use r in auto)
qed

section \<open>Every step keeps the invariant\<close>

lemma prod_cons_zadanie: "prod_cons A l = Zadanie t n c f \<Longrightarrow> t = CS_UNLOCK \<or> t = CS_BROADCAST \<or> czyta (f OK)"
  by (cases l) (auto simp: lib_defs czyta_def Let_def split: if_splits option.splits)

lemma prod_cons_akcje:
  "prod_cons A l = Koniec j \<Longrightarrow> j = 0 \<and> (l = G_return \<or> (\<exists>n. l = C_exit n) \<or> (\<exists>n t k. l = P_petla n t k \<and> pc_turns A \<le> t)) \<or>
     j = 2 \<and> (l = Fail \<or> l = Fail_sekcja)"
  "prod_cons A l = Rozwidl f \<Longrightarrow>
     (\<exists>i. l = G_prod i \<and> i < prods A \<and> f = (\<lambda>ch. if ch < 0 then Sigterm else if ch = 0 then P_petla i 0 0 else G_prod (i + 1))) \<or>
     (\<exists>i. l = G_cons i \<and> i < cons A \<and> f = (\<lambda>ch. if ch < 0 then Sigterm else if ch = 0 then C_lock i else G_cons (i + 1)))"
  "prod_cons A l = Czekaj_dziecka f \<Longrightarrow> (\<exists>k. l = G_wait k \<and> k > 0 \<and> f = (\<lambda>r. if r > 0 then G_wait (k - 1) else G_wait k)) \<or>
     l = G_dzieci \<and> f = (\<lambda>r. if r > 0 then G_dzieci else G_return)"
  "prod_cons A l = Zabij_grupe \<Longrightarrow> l = Sigterm"
  by (cases l; auto simp: lib_defs Let_def split: if_splits option.splits)+

lemma pc_blokady_zadanie:
  assumes B: "pc_blokady u" and l: "prod_cons A l = Zadanie t n c f"
    and wid: "\<And>q. wid u' q = (if q = p then Some (f OK) else wid u q)"
    and sam: "\<And>q. q \<noteq> p \<Longrightarrow> \<forall>g. stany u q \<noteq> Zablokowany g \<Longrightarrow> stany u' q = stany u q"
    and odp: "t = CS_UNLOCK \<or> t = CS_BROADCAST \<Longrightarrow> stany u' p = Dziala (f OK)"
  shows "pc_blokady u'"
  unfolding pc_blokady_def
proof (intro allI impI)
  fix r h assume r: "stany u' r = Zablokowany h"
  show "czyta (h OK)"
  proof (cases "r = p")
    case True
    then have "czyta (f OK)" using prod_cons_zadanie[OF l] odp r by auto
    with wid[of r] r True show ?thesis by simp
  next
    case False
    with sam[OF False] r obtain h' where "stany u r = Zablokowany h'" by fastforce
    with B False r wid[of r] show ?thesis by (auto simp: pc_blokady_def)
  qed
qed

lemma pracaE:
  assumes "praca A g u"
  obtains fp fc W ds b where "0 \<le> prods A" "0 \<le> cons A" "0 \<le> pc_turns A" "0 \<le> fp" "fp \<le> prods A" "dane A fp fc W ds b (wid u) (potok u)"
    "stdout u = concat (map wiersz ds)" "pc_glowny A g fp fc b u"
  using assms unfolding praca_def by blast

lemma pracaI:
  "0 \<le> prods A \<Longrightarrow> 0 \<le> cons A \<Longrightarrow> 0 \<le> pc_turns A \<Longrightarrow> 0 \<le> fp \<Longrightarrow> fp \<le> prods A \<Longrightarrow> dane A fp fc W ds b (wid u) (potok u) \<Longrightarrow>
    stdout u = concat (map wiersz ds) \<Longrightarrow> pc_glowny A g fp fc b u \<Longrightarrow> praca A g u"
  unfolding praca_def by blast

lemma pc_glownyI:
  "wid u g = Some l \<Longrightarrow> faza A l (int (card (zywe u - {g}))) fp fc (b ! (BSIZE + 1)) (bez_prod (wid u)) \<Longrightarrow> pc_glowny A g fp fc b u"
  by (simp add: pc_glowny_def)

lemma pc_glowny_faza:
  "pc_glowny A g fp fc b u \<Longrightarrow> wid u g = Some l \<Longrightarrow> faza A l (int (card (zywe u - {g}))) fp fc (b ! (BSIZE + 1)) (bez_prod (wid u))"
  by (simp add: pc_glowny_def)

text \<open>Steps of a child, and of \<^verbatim>\<open>main\<close>, that are not about other processes.\<close>

lemma praca_dziecka:
  assumes P: "praca A g u" and dz: "pc_dziecka l" and s: "pc_kryt l \<Longrightarrow> spokojni p (wid u)" and p: "stany u p = Dziala l" "p \<noteq> g"
    and k: "pc_krok A l (potok u) l' (potok u') x" and wid: "wid u' = (wid u)(p := Some l')" and z: "zywe u' = zywe u"
    and so: "stdout u' = stdout u @ x" and g: "wid u g = None \<Longrightarrow> stany u' g = stany u g"
  shows "praca A g u' \<and> pc_dziecka l'"
proof -
  from P obtain fp fc W ds b where I: "0 \<le> prods A" "0 \<le> cons A" "0 \<le> pc_turns A" "0 \<le> fp" "fp \<le> prods A"
    "dane A fp fc W ds b (wid u) (potok u)" "stdout u = concat (map wiersz ds)" "pc_glowny A g fp fc b u" by (rule pracaE)
  have wp: "wid u p = Some l" using p(1) by simp
  from pc_krok_danych[OF I(6) wp dz s k] have K: "po_kroku A fp fc ds b (wid u') (potok u') x" "pc_dziecka l'" "prodv l = None \<longrightarrow> prodv l' = None"
    unfolding wid by blast+
  then obtain W' ds' b' where D: "dane A fp fc W' ds' b' (wid u') (potok u')" "concat (map wiersz ds') = concat (map wiersz ds) @ x"
    "b' ! (BSIZE + 1) = b ! (BSIZE + 1)" unfolding po_kroku_def by blast
  have bp: "bez_prod (wid u')" if "bez_prod (wid u)"
  proof -
    have "prodv l = None" using that wp unfolding bez_prod_def po_widoku_def by (metis bind.bind_lunit)
    with that K(3) show ?thesis unfolding wid bez_prod_def po_widoku_upd by simp
  qed
  have "pc_glowny A g fp fc b' u'"
  proof (cases "wid u g")
    case None
    then show ?thesis using I(8) g z by (simp add: pc_glowny_def)
  next
    case (Some l0)
    have "wid u' g = Some l0" using Some p(2) fun_cong[OF wid, of g] by simp
    moreover note faza_bez_prod[OF pc_glowny_faza[OF I(8) Some] bp]
    ultimately show ?thesis using z D(3) by (simp add: pc_glowny_def)
  qed
  with pracaI[OF I(1-5) D(1)] D(2) so I(7) K(2) show ?thesis by simp
qed

lemma praca_glownego:
  assumes P: "praca A g u" and s: "pc_kryt l \<Longrightarrow> spokojni g (wid u)" and g: "stany u g = Dziala l"
    and k: "pc_krok A l (potok u) l' (potok u') x" and wid: "wid u' = (wid u)(g := Some l')" and z: "zywe u' = zywe u" "finite (zywe u)"
    and so: "stdout u' = stdout u @ x"
  shows "praca A g u'"
proof -
  from P obtain fp fc W ds b where I: "0 \<le> prods A" "0 \<le> cons A" "0 \<le> pc_turns A" "0 \<le> fp" "fp \<le> prods A"
    "dane A fp fc W ds b (wid u) (potok u)" "stdout u = concat (map wiersz ds)" "pc_glowny A g fp fc b u" by (rule pracaE)
  have wg: "wid u g = Some l" using g by simp
  note f = pc_glowny_faza[OF I(8) wg]
  have n: "bez_prod (wid u)" if "l = G_wait 0"
  proof (rule zostaja_konsumenci[OF daneD(5)[OF I(6)], of "zywe u - {g}"])
    show "q \<in> zywe u - {g} \<or> prodv l' = None \<and> consv l' = None" if "wid u q = Some l'" for q l'
      using that \<open>l = G_wait 0\<close> wg by (cases "q = g") (auto simp: zywe_def)
  qed (use f that z in simp_all)
  from pc_krok_glownego[OF I(6) wg s f I(1,2) k n] obtain b' where "dane A fp fc W ds b' (wid u') (potok u')" "x = []"
    "faza A l' (int (card (zywe u' - {g}))) fp fc (b' ! (BSIZE + 1)) (bez_prod (wid u'))" unfolding wid z by blast
  moreover from this(3) have "pc_glowny A g fp fc b' u'" by (rule pc_glownyI[rotated]) (use fun_cong[OF wid, of g] in simp)
  ultimately show ?thesis using so I(7) by (intro pracaI[OF I(1-5)]) simp_all
qed

text \<open>The ends of processes.\<close>

lemma praca_koniec:
  assumes P: "praca A g u" and Dz: "pc_dzieci g u" and p: "stany u p = Dziala l" "prod_cons A l = Koniec j"
    and u': "stany u' = (stany u)(p := Zombie j)" "stdout u' = stdout u" "potok u' = potok u" and z: "finite (zywe u)"
  shows "praca A g u'"
proof -
  from P obtain fp fc W ds b where I: "0 \<le> prods A" "0 \<le> cons A" "0 \<le> pc_turns A" "0 \<le> fp" "fp \<le> prods A"
    "dane A fp fc W ds b (wid u) (potok u)" "stdout u = concat (map wiersz ds)" "pc_glowny A g fp fc b u" by (rule pracaE)
  have wp: "wid u p = Some l" using p(1) by simp
  have wid: "wid u' = (wid u)(p := None)" using u'(1) by auto
  have zz: "zywe u' = zywe u" using u'(1) p(1) by (auto simp: zywe_def)
  note lo = stany_okD[OF daneD(3)[OF I(6)] wp]
  have dz: "p \<noteq> g \<Longrightarrow> pc_dziecka l" using Dz wp by (auto simp: pc_dzieci_def)
  have f: "faza A l (int (card (zywe u - {g}))) fp fc (b ! (BSIZE + 1)) (bez_prod (wid u))" if "p = g"
    using pc_glowny_faza[OF I(8)] wp that by simp
  have l: "j = 0" "p = g \<and> l = G_return \<or> p \<noteq> g \<and> ((\<exists>n. l = C_exit n) \<or> (\<exists>n t k. l = P_petla n t k \<and> pc_turns A \<le> t))"
    using prod_cons_akcje(1)[OF p(2)] lo dz f by (cases "p = g"; auto simp: pc_dziecka_def)+
  have d: "dane A fp fc W ds b (wid u') (potok u')"
    unfolding wid u'(3) by (rule dane_usun[OF I(6) wp]) (use l(2) lo in auto)
  have bp: "bez_prod (wid u) \<Longrightarrow> bez_prod (wid u')" unfolding wid bez_prod_def po_widoku_upd by auto
  have "pc_glowny A g fp fc b u'"
  proof (cases "p = g")
    case True
    then have "l = G_return" using l(2) by simp
    with f[OF True] have c: "fp = prods A" "fc = cons A" "card (zywe u - {g}) = 0" by (simp_all del: card_Diff_insert card_Diff_singleton)
    then have "zywe u - {g} = {}" using z by (metis card_0_eq finite_Diff)
    moreover have "g \<in> zywe u" using p(1) True by (simp add: zywe_def)
    ultimately have "zywe u' = {g}" using zz by auto
    with c l(1) True u'(1) show ?thesis by (simp add: pc_glowny_def)
  next
    case False
    then have g: "stany u' g = stany u g" using u'(1) by simp
    show ?thesis
    proof (cases "wid u g")
      case None
      then show ?thesis using I(8) g zz by (auto simp: pc_glowny_def)
    next
      case (Some l0)
      from faza_bez_prod[OF pc_glowny_faza[OF I(8) Some] bp] Some g zz show ?thesis by (simp add: pc_glowny_def)
    qed
  qed
  with pracaI[OF I(1-5) d] I(7) u'(2) show ?thesis by simp
qed

text \<open>\<^verbatim>\<open>main\<close> starts a child.\<close>

lemma praca_fork:
  assumes P: "praca A g u" and g: "stany u g = Dziala l" "prod_cons A l = Rozwidl f" and q: "stany u q = Nie_ma" "q \<noteq> g" and j: "0 < j"
    and u': "stany u' = (stany u)(g := Dziala (f j), q := Dziala (f 0))" "stdout u' = stdout u" "potok u' = potok u" and z: "finite (zywe u)"
  shows "praca A g u' \<and> pc_dziecka (f 0)"
proof -
  from P obtain fp fc W ds b where I: "0 \<le> prods A" "0 \<le> cons A" "0 \<le> pc_turns A" "0 \<le> fp" "fp \<le> prods A"
    "dane A fp fc W ds b (wid u) (potok u)" "stdout u = concat (map wiersz ds)" "pc_glowny A g fp fc b u" by (rule pracaE)
  have wg: "wid u g = Some l" using g(1) by simp
  note fz = pc_glowny_faza[OF I(8) wg]
  let ?w = "(wid u)(g := Some (f j))"
  have wid: "wid u' = ?w(q := Some (f 0))" using u'(1) by auto
  have "zywe u' - {g} = insert q (zywe u - {g})" "q \<notin> zywe u" using u'(1) g q by (auto simp: zywe_def)
  then have c: "int (card (zywe u' - {g})) = int (card (zywe u - {g})) + 1" using z by (simp del: card_Diff_insert card_Diff_singleton)
  have D: "dane A fp fc W ds b ?w (potok u)" if "prodv (f j) = None" "consv (f j) = None" "trzyma (f j) = None" "trzyma l = None" "lokalne b (f j)" "dobry_p A W (f j)" "druk (f j) = None"
    by (rule dane_bez_zmian[OF I(6) wg]) (use faza_pola[OF fz] that in simp_all)
  from prod_cons_akcje(2)[OF g(2)] show ?thesis
  proof (elim disjE exE conjE)
    fix i assume i: "l = G_prod i" "i < prods A" "f = (\<lambda>ch. if ch < 0 then Sigterm else if ch = 0 then P_petla i 0 0 else G_prod (i + 1))"
    with fz have k: "fp = i" "fc = 0" "int (card (zywe u - {g})) = i" "b ! (BSIZE + 1) = 0" by (simp_all del: card_Diff_insert card_Diff_singleton)
    have "dane A (i + 1) 0 W ds b (wid u') (potok u')"
      using dane_nowy_prod[OF D _ k(4) I(4,3), of q] q i j k u'(3) by (simp add: wid)
    moreover have "pc_glowny A g (i + 1) 0 b u'"
      by (rule pc_glownyI[of _ _ "G_prod (i + 1)"]) (use u'(1) c k i j q in \<open>simp_all del: card_Diff_insert card_Diff_singleton\<close>)
    ultimately show ?thesis using pracaI[OF I(1-3), of "i + 1"] i k I(4,7) u'(2) by (simp add: pc_dziecka_def)
  next
    fix i assume i: "l = G_cons i" "i < cons A" "f = (\<lambda>ch. if ch < 0 then Sigterm else if ch = 0 then C_lock i else G_cons (i + 1))"
    with fz have k: "fp = prods A" "fc = i" "int (card (zywe u - {g})) = prods A + i" "b ! (BSIZE + 1) = 0" "0 \<le> i" by (simp_all del: card_Diff_insert card_Diff_singleton)
    have "dane A fp (i + 1) W ds b (wid u') (potok u')"
      using dane_nowy_cons[OF D _ k(5)[folded k(2)], of q] q i j k u'(3) by (simp add: wid)
    moreover have "pc_glowny A g fp (i + 1) b u'"
      by (rule pc_glownyI[of _ _ "G_cons (i + 1)"]) (use u'(1) c k i j q in \<open>simp_all del: card_Diff_insert card_Diff_singleton\<close>)
    ultimately show ?thesis using pracaI[OF I(1-5), of "i + 1"] i k I(7) u'(2) by (simp add: pc_dziecka_def)
  qed
qed

text \<open>\<^verbatim>\<open>main\<close> waits for its children, or a \<^verbatim>\<open>fork\<close> has failed; \<open>Q\<close> are the zombies that it removes.\<close>

lemma praca_czekania:
  assumes P: "praca A g u" and g: "stany u g = Dziala l" "trzyma l = None" "trzyma l' = None" "\<And>b. lokalne b l'" "\<And>W. dobry_p A W l'"
    and q: "\<And>q. q \<in> Q \<Longrightarrow> \<exists>i. stany u q = Zombie i"
    and u': "\<And>r. stany u' r = (if r = g then Dziala l' else if r \<in> Q then Nie_ma else stany u r)" "stdout u' = stdout u" "potok u' = potok u"
    and f: "\<And>fp fc fl np. faza A l (int (card (zywe u - {g}))) fp fc fl np \<Longrightarrow> faza A l' (int (card (zywe u' - {g}))) fp fc fl np"
  shows "praca A g u'"
proof -
  from P obtain fp fc W ds b where I: "0 \<le> prods A" "0 \<le> cons A" "0 \<le> pc_turns A" "0 \<le> fp" "fp \<le> prods A"
    "dane A fp fc W ds b (wid u) (potok u)" "stdout u = concat (map wiersz ds)" "pc_glowny A g fp fc b u" by (rule pracaE)
  have wg: "wid u g = Some l" using g(1) by simp
  note fz = pc_glowny_faza[OF I(8) wg]
  note f' = f[OF fz]
  have "wid u' r = ((wid u)(g := Some l')) r" for r using u'(1)[of r] q[of r] by auto
  then have wid: "wid u' = (wid u)(g := Some l')" by (rule ext)
  have "dane A fp fc W ds b (wid u') (potok u')"
    unfolding wid u'(3) by (rule dane_bez_zmian[OF I(6) wg]) (use g faza_pola[OF fz] faza_pola[OF f'] in simp_all)
  moreover have "bez_prod (wid u') = bez_prod (wid u)" unfolding wid using faza_pola[OF fz] faza_pola[OF f'] wg by (intro bez_prod_upd) auto
  with f' have "pc_glowny A g fp fc b u'" by (intro pc_glownyI[of _ _ l']) (simp_all add: u'(1))
  ultimately show ?thesis using pracaI[OF I(1-5)] I(7) u'(2) by simp
qed

text \<open>What is printed.\<close>

lemma dane_wydruk:
  assumes D: "dane A fp fc W ds b w pot" and so: "stdout u = concat (map wiersz ds)" and t: "0 \<le> pc_turns A"
  shows "wydruk A fp W ds u"
proof -
  note d = daneD[OF D]
  have "mset ds \<subseteq># suma fp W"
  proof (cases "\<exists>q v. po_widoku druk w q = Some v")
    case True
    then obtain v where "suma fp W = mset ds + mset (niezerowe b) + {#v#}" using d(6) by (auto simp: bilans_def)
    then show ?thesis by (metis add.assoc mset_subset_eq_add_left)
  next
    case False
    then have "suma fp W = mset ds + mset (niezerowe b)" using d(6) by (auto simp: bilans_def)
    then show ?thesis by (metis mset_subset_eq_add_left)
  qed
  moreover have "(\<exists>k. W n = wart A n k) \<and> int (length (W n)) \<le> max 0 (pc_turns A)" for n
  proof (cases "W n = []")
    case True
    then have "\<exists>k. W n = wart A n k" by (intro exI[of _ 0]) (simp add: wart_def)
    with True show ?thesis by simp
  next
    case False
    with d(4) have "(\<exists>k. W n = wart A n k) \<and> int (length (W n)) \<le> pc_turns A" unfolding prod_ok_def by blast
    then show ?thesis by auto
  qed
  ultimately show ?thesis using so by (simp add: wydruk_def)
qed

lemma praca_zabij:
  assumes P: "praca A g u" and Dz: "pc_dzieci g u" and p: "stany u p = Dziala Sigterm"
    and u': "stany u' = (\<lambda>q. if trwa (stany u q) then Zombie (- SIGTERM) else stany u q)" "stdout u' = stdout u"
  shows "zabita A g u'"
proof -
  from P obtain fp fc W ds b where I: "0 \<le> pc_turns A" "fp \<le> prods A"
    "dane A fp fc W ds b (wid u) (potok u)" "stdout u = concat (map wiersz ds)" by (rule pracaE)
  have "p = g" using Dz p by (auto simp: pc_dzieci_def pc_dziecka_def)
  moreover have "stdout u' = concat (map wiersz ds)" using I(4) u'(2) by simp
  note dane_wydruk[OF I(3) this I(1)]
  moreover have "\<not> trwa (stany u' q)" for q using u'(1) by (cases "stany u q") simp_all
  moreover have "fp \<le> max 0 (prods A)" using I(2) by simp
  ultimately show ?thesis using u'(1) p unfolding zabita_def by auto
qed

text \<open>The steps before \<^verbatim>\<open>main\<close> starts its children.\<close>

lemma dane_poczatek:
  assumes "\<forall>q. q \<noteq> g \<longrightarrow> w q = None" "w g = Some (G_prod 0)"
  shows "dane A 0 0 (\<lambda>_. []) [] (replicate (BSIZE + 2) 0) w [replicate (BSIZE + 2) 0]"
proof -
  have po: "po_widoku trzyma w q = None" "po_widoku prodv w q = None" "po_widoku druk w q = None" "po_widoku consv w q = None" for q
    using assms by (cases "q = g"; auto simp: po_widoku_def)+
  have "stany_ok A (\<lambda>_. []) (replicate (BSIZE + 2) 0) w" using assms unfolding stany_ok_def
    by (metis dobry_p.simps(13) lokalne.simps(8) option.distinct(1) option.inject)
  moreover have "\<exists>k. [] = wart A n k" for n by (rule exI[of _ 0]) (simp add: wart_def)
  ultimately show ?thesis
    using poprawny_zero niezerowe_zero po unfolding dane_def miejsce_b_def prod_ok_def cons_ok_def bilans_def suma_def by auto
qed

lemma przed_krok:
  assumes P: "przed_startem A g u" and l: "stany u g = Dziala l" and k: "pc_krok A l (potok u) l' (potok u') x"
    and u': "stany u' = (stany u)(g := Dziala l')" "stdout u' = stdout u @ x"
  shows "przed_startem A g u' \<or> praca A g u'"
proof -
  have z: "zywe u' = zywe u" "zywe u = {g}" using u'(1) l P by (auto simp: zywe_def przed_startem_def)
  from P l consider "l = G_start" | "l = G_zapis" "0 \<le> prods A" "0 \<le> cons A" "0 \<le> pc_turns A" | "l = Fail" by (auto simp: przed_startem_def)
  then show ?thesis
  proof cases
    case 1
    with P k u' z show ?thesis by (auto simp: przed_startem_def pc_krok_def split: if_splits)
  next
    case 2
    then have l': "l' = G_prod 0" "potok u' = [replicate (BSIZE + 2) 0]" "x = []" using k P by (auto simp: pc_krok_def przed_startem_def)
    have "stany u q = Nie_ma" if "q \<noteq> g" for q using z(2) that by (auto simp: zywe_def)
    then have "dane A 0 0 (\<lambda>_. []) [] (replicate (BSIZE + 2) 0) (wid u') (potok u')"
      unfolding l'(2) by (intro dane_poczatek) (use u'(1) l' in auto)
    moreover have "pc_glowny A g 0 0 (replicate (BSIZE + 2) 0) u'"
      by (rule pc_glownyI[of _ _ "G_prod 0"]) (use u'(1) l' z 2 in \<open>simp_all add: BSIZE_def\<close>)
    ultimately show ?thesis using pracaI[OF 2(2-4), of 0] 2(2) P l' u'(2) by (simp add: przed_startem_def)
  qed (use k in \<open>simp_all add: pc_krok_def\<close>)
qed

text \<open>All steps of the program.\<close>

lemma pc_dzieci_upd:
  assumes "pc_dzieci g u" "\<And>r. r \<noteq> p \<Longrightarrow> wid u' r = wid u r" "\<And>l. p \<noteq> g \<Longrightarrow> wid u' p = Some l \<Longrightarrow> pc_dziecka l" "zywe u' \<subseteq> zywe u" "rodzic u' = rodzic u"
  shows "pc_dzieci g u'"
  unfolding pc_dzieci_def
proof (intro conjI allI impI)
  show "rodzic u' g \<noteq> g" using assms(1,5) by (simp add: pc_dzieci_def)
  show "rodzic u' q = g" if "q \<noteq> g" "stany u' q \<noteq> Nie_ma" for q using assms(1,4,5) that by (auto simp: pc_dzieci_def zywe_def)
  show "pc_dziecka l" if "q \<noteq> g" "wid u' q = Some l" for q l
    using assms(1) assms(2)[of q] assms(3)[of l] that by (cases "q = p") (auto simp: pc_dzieci_def)
qed

lemma przed_proces:
  assumes P: "przed_startem A g u" and p: "stany u p = Dziala l"
  shows "p = g \<and> l \<in> {G_start, G_zapis, Fail}"
proof -
  have "p \<in> zywe u" using p by (simp add: zywe_def)
  then have "p = g" using P by (simp add: przed_startem_def)
  with P p show ?thesis by (auto simp: przed_startem_def)
qed

lemma pc_krok_lokalny:
  assumes w: "wylaczny m pc_kryt u" and I: "pc_inw A g u" and fin: "finite (zywe u)" and p: "stany u p = Dziala l"
    and k: "pc_krok A l (potok u) l' (potok u') x" and wid: "wid u' = (wid u)(p := Some l')" and z: "zywe u' = zywe u"
    and u': "stdout u' = stdout u @ x" "rodzic u' = rodzic u"
    and sam: "\<And>q. q \<noteq> p \<Longrightarrow> \<forall>g. stany u q \<noteq> Zablokowany g \<Longrightarrow> stany u' q = stany u q"
    and dz: "przed_startem A g u \<Longrightarrow> stany u' = (stany u)(p := Dziala l')"
  shows "pc_dzieci g u' \<and> (przed_startem A g u' \<or> praca A g u' \<or> zabita A g u')"
proof -
  have B: "pc_blokady u" and D: "pc_dzieci g u" using I by (auto simp: pc_inw_def)
  have sp: "pc_kryt l \<Longrightarrow> spokojni p (wid u)" by (rule spokojni_w_sekcji[OF w B p])
  have dzi: "p \<noteq> g \<Longrightarrow> pc_dziecka l" using D p by (auto simp: pc_dzieci_def)
  have wr: "wid u' r = (if r = p then Some l' else wid u r)" for r using fun_cong[OF wid, of r] by simp
  have pd: "pc_dzieci g u'" if "p \<noteq> g \<Longrightarrow> pc_dziecka l'"
  proof (rule pc_dzieci_upd[OF D, of p])
    show "wid u' r = wid u r" if "r \<noteq> p" for r using wr[of r] that by simp
    show "pc_dziecka l0" if "p \<noteq> g" "wid u' p = Some l0" for l0 using wr[of p] that \<open>p \<noteq> g \<Longrightarrow> pc_dziecka l'\<close> by simp
  qed (simp_all add: z u'(2))
  consider "przed_startem A g u" "p = g" | "praca A g u" "p = g" | "praca A g u" "p \<noteq> g"
  proof -
    have "p = g" if "przed_startem A g u" using przed_proces[OF that p] by blast
    moreover have "\<not> zabita A g u" using p unfolding zabita_def by (metis trwa.simps(1))
    ultimately show thesis using I that unfolding pc_inw_def by blast
  qed
  then show ?thesis
  proof cases
    case 1
    from przed_krok[OF 1(1) _ k] p dz[OF 1(1)] u'(1) 1(2) have "przed_startem A g u' \<or> praca A g u'" by simp
    with pd 1(2) show ?thesis by blast
  next
    case 2
    have "praca A g u'" by (rule praca_glownego[OF 2(1) _ _ k _ z fin u'(1)]) (use sp p wid 2(2) in simp_all)
    with pd 2(2) show ?thesis by blast
  next
    case 3
    have "stany u' g = stany u g" if "wid u g = None" using 3(2) that by (intro sam) auto
    with praca_dziecka[OF 3(1) dzi[OF 3(2)] sp p 3(2) k wid z u'(1)] have P: "praca A g u'" "pc_dziecka l'" by blast+
    with pd show ?thesis by blast
  qed
qed

text \<open>The kinds of steps, in a state in which the process \<open>p\<close> runs at \<open>l\<close>.\<close>

lemma pc_inwD:
  assumes I: "pc_inw A g u" and p: "stany u p = Dziala l"
  shows "pc_blokady u" "pc_dzieci g u" "p = g \<or> pc_dziecka l" "praca A g u \<or> przed_startem A g u" "praca A g u \<or> l \<in> {G_start, G_zapis, Fail}"
proof -
  have "\<not> zabita A g u" using p unfolding zabita_def by (metis trwa.simps(1))
  with I przed_proces[OF _ p] show "pc_blokady u" "pc_dzieci g u" "praca A g u \<or> przed_startem A g u" "praca A g u \<or> l \<in> {G_start, G_zapis, Fail}"
    by (auto simp: pc_inw_def)
  with p show "p = g \<or> pc_dziecka l" by (auto simp: pc_dzieci_def)
qed

lemma pc_krok_zadanie:
  assumes w: "wylaczny m pc_kryt u" and I: "pc_inw A g u" and fin: "finite (zywe u)"
    and l: "stany u p = Dziala l" "prod_cons A l = Zadanie t n c f"
    and wid: "\<And>q. wid u' q = (if q = p then Some (f OK) else wid u q)"
    and sam: "\<And>q. q \<noteq> p \<Longrightarrow> \<forall>g. stany u q \<noteq> Zablokowany g \<Longrightarrow> stany u' q = stany u q"
    and odp: "t = CS_UNLOCK \<or> t = CS_BROADCAST \<Longrightarrow> stany u' p = Dziala (f OK)"
    and u': "stdout u' = stdout u" "potok u' = potok u" "rodzic u' = rodzic u"
  shows "pc_inw A g u'"
proof -
  have b: "pc_blokady u'" by (rule pc_blokady_zadanie[OF pc_inwD(1)[OF I l(1)] l(2) wid sam odp])
  have k: "pc_krok A l (potok u) (f OK) (potok u') []" using l(2) u'(2) by (auto simp: pc_krok_def)
  have wi: "wid u' = (wid u)(p := Some (f OK))" using wid by auto
  have z: "zywe u' = zywe u"
  proof -
    have "stany u' r = Nie_ma \<longleftrightarrow> stany u r = Nie_ma" for r
      using l(1) wid[of r] sam[of r] by (cases "stany u r"; cases "r = p") auto
    then show ?thesis by (simp add: zywe_def)
  qed
  have np: "\<not> przed_startem A g u" using przed_proces[OF _ l(1), of A g] l(2) by auto
  have "pc_dzieci g u' \<and> (przed_startem A g u' \<or> praca A g u' \<or> zabita A g u')"
    by (rule pc_krok_lokalny[OF w I fin l(1) k wi z _ u'(3) sam]) (use u'(1) np in simp_all)
  with b show ?thesis unfolding pc_inw_def by blast
qed

lemma pc_koniec_poza:
  assumes I: "pc_inw A g u" and l: "stany u p = Dziala l" "prod_cons A l = Koniec j"
  shows "\<not> pc_kryt l"
proof -
  have "l \<noteq> Fail_sekcja"
  proof
    assume f: "l = Fail_sekcja"
    then have "praca A g u" using pc_inwD(5)[OF I l(1)] by simp
    then obtain W b where "stany_ok A W b (wid u)" by (auto elim!: pracaE dest: daneD(3))
    from stany_okD[OF this, of p l] l(1) f show False by simp
  qed
  with prod_cons_akcje(1)[OF l(2)] show ?thesis by auto
qed

lemma pc_krok_koniec:
  assumes I: "pc_inw A g u" and fin: "finite (zywe u)" and l: "stany u p = Dziala l" "prod_cons A l = Koniec j"
    and st: "stany u' = (stany u)(p := Zombie j)" and u': "stdout u' = stdout u" "potok u' = potok u" "rodzic u' = rodzic u"
  shows "pc_inw A g u'"
proof -
  have z: "zywe u' = zywe u" using st l(1) by (auto simp: zywe_def)
  note D = pc_inwD[OF I l(1)]
  have "pc_blokady u'" using D(1) st by (auto simp: pc_blokady_def)
  moreover have "pc_dzieci g u'" by (rule pc_dzieci_upd[OF D(2), of p]) (simp_all add: st z u'(3))
  moreover have "przed_startem A g u' \<or> praca A g u'"
  proof (cases "przed_startem A g u")
    case True
    with przed_proces[OF True l(1)] prod_cons_akcje(1)[OF l(2)] have "p = g" "j = 2" by auto
    with True st z u' show ?thesis by (simp add: przed_startem_def)
  next
    case False
    then have "praca A g u" using D(4) by blast
    from praca_koniec[OF this D(2) l st u'(1,2) fin] show ?thesis by blast
  qed
  ultimately show ?thesis unfolding pc_inw_def by blast
qed

text \<open>A failed \<^verbatim>\<open>fork\<close>, and a \<^verbatim>\<open>wait\<close> without children.\<close>

lemma pc_krok_minus1:
  assumes I: "pc_inw A g u" and l: "stany u p = Dziala l" "l' = f (- 1)"
      "prod_cons A l = Rozwidl f \<or> prod_cons A l = Czekaj_dziecka f \<and> (\<forall>q. rodzic u q = p \<longrightarrow> stany u q = Nie_ma)"
    and st: "stany u' = (stany u)(p := Dziala l')" and u': "stdout u' = stdout u" "potok u' = potok u" "rodzic u' = rodzic u"
  shows "pc_inw A g u'"
proof -
  note D = pc_inwD[OF I l(1)]
  have z: "zywe u' = zywe u" using st l(1) by (auto simp: zywe_def)
  have ll: "(\<exists>i. l = G_prod i \<or> l = G_cons i) \<and> l' = Sigterm \<or> (\<exists>k. l = G_wait k \<and> l' = G_wait k) \<or>
    l = G_dzieci \<and> l' = G_return \<and> (\<forall>q. rodzic u q = p \<longrightarrow> stany u q = Nie_ma)"
    using l(2,3) prod_cons_akcje(2,3)[of A l f] by fastforce
  then have p: "p = g" "praca A g u" using D(3,5) by (auto simp: pc_dziecka_def)
  have g: "stany u g = Dziala l" using l(1) p by simp
  have "zywe u - {g} = {}" if "\<forall>q. rodzic u q = p \<longrightarrow> stany u q = Nie_ma"
    using that D(2) p(1) by (auto simp: pc_dzieci_def zywe_def)
  then have c: "card (zywe u - {g}) = 0" if "\<forall>q. rodzic u q = p \<longrightarrow> stany u q = Nie_ma" using that by (metis card.empty)
  have "praca A g u'"
  proof (rule praca_czekania[OF p(2) g, of l' "{}" u'])
    show "faza A l' (int (card (zywe u' - {g}))) fp fc fl np" if "faza A l (int (card (zywe u - {g}))) fp fc fl np" for fp fc fl np
      using ll that z c by (auto simp del: card_Diff_insert card_Diff_singleton)
  qed (use ll st p u' in auto)
  moreover have "pc_dzieci g u'" by (rule pc_dzieci_upd[OF D(2), of p]) (simp_all add: st u'(3) z p(1))
  moreover have "pc_blokady u'" using D(1) st by (auto simp: pc_blokady_def)
  ultimately show ?thesis unfolding pc_inw_def by blast
qed

lemma pc_krok_rozwidl:
  assumes I: "pc_inw A g u" and fin: "finite (zywe u)" and l: "stany u p = Dziala l" "prod_cons A l = Rozwidl f"
    and q: "stany u q = Nie_ma" "0 < j" "p \<noteq> q" and st: "stany u' = (stany u)(p := Dziala (f j), q := Dziala (f 0))"
    and u': "rodzic u' = (rodzic u)(q := p)" "stdout u' = stdout u" "potok u' = potok u"
  shows "pc_inw A g u'"
proof -
  note D = pc_inwD[OF I l(1)]
  have p: "p = g" "praca A g u" using D(3,5) prod_cons_akcje(2)[OF l(2)] by (auto simp: pc_dziecka_def)
  have P: "praca A g u'" "pc_dziecka (f 0)" using praca_fork[OF p(2) _ l(2) q(1) _ q(2)] l(1) q(3) st u' fin p(1) by auto
  moreover have "pc_blokady u'" using D(1) st by (auto simp: pc_blokady_def)
  moreover have "pc_dzieci g u'" using D(2) st u' p(1) P(2) q(3) by (auto simp: pc_dzieci_def)
  ultimately show ?thesis unfolding pc_inw_def by blast
qed

lemma pc_krok_dziecko:
  assumes I: "pc_inw A g u" and fin: "finite (zywe u)" and l: "stany u p = Dziala l" "prod_cons A l = Czekaj_dziecka f"
    and q: "stany u q = Zombie i" "0 < j" "p \<noteq> q" and st: "stany u' = (stany u)(q := Nie_ma, p := Dziala (f j))"
    and u': "rodzic u' = rodzic u" "stdout u' = stdout u" "potok u' = potok u"
  shows "pc_inw A g u'"
proof -
  note D = pc_inwD[OF I l(1)]
  have ll: "(\<exists>k. l = G_wait k \<and> k > 0 \<and> f j = G_wait (k - 1)) \<or> l = G_dzieci \<and> f j = G_dzieci"
    using prod_cons_akcje(3)[OF l(2)] q(2) by auto
  then have p: "p = g" "praca A g u" using D(3,5) by (auto simp: pc_dziecka_def)
  have g: "stany u g = Dziala l" using l(1) p by simp
  have z: "zywe u' - {g} = (zywe u - {g}) - {q}" "q \<in> zywe u - {g}" "zywe u' \<subseteq> zywe u" using l(1) q st p by (auto simp: zywe_def)
  then have c: "int (card (zywe u' - {g})) = int (card (zywe u - {g})) - 1"
    using card_Suc_Diff1[OF _ z(2)] fin by (simp del: card_Diff_insert card_Diff_singleton)
  have "praca A g u'"
  proof (rule praca_czekania[OF p(2) g, of "f j" "{q}" u'])
    show "faza A l (int (card (zywe u - {g}))) fp fc fl np \<Longrightarrow> faza A (f j) (int (card (zywe u' - {g}))) fp fc fl np" for fp fc fl np
      using ll by (auto simp: c simp del: card_Diff_insert card_Diff_singleton)
  qed (use ll q st u' p in auto)
  moreover have "pc_blokady u'" using D(1) st by (auto simp: pc_blokady_def)
  moreover have "wid u' r = wid u r" if "r \<noteq> g" for r using that q(1) st p(1) by simp
  with z(3) have "pc_dzieci g u'" by (intro pc_dzieci_upd[OF D(2), of g]) (simp_all add: u'(1))
  ultimately show ?thesis unfolding pc_inw_def by blast
qed

lemma pc_krok_zabij:
  assumes I: "pc_inw A g u" and l: "stany u p = Dziala l" "prod_cons A l = Zabij_grupe"
    and st: "stany u' = (\<lambda>q. if trwa (stany u q) then Zombie (- SIGTERM) else stany u q)" and u': "stdout u' = stdout u" "rodzic u' = rodzic u"
  shows "pc_inw A g u'"
proof -
  note D = pc_inwD[OF I l(1)] and s = prod_cons_akcje(4)[OF l(2)]
  then have p: "praca A g u" by simp
  have nt: "\<not> trwa (stany u' r)" for r using st by (cases "stany u r") simp_all
  have "zabita A g u'" by (rule praca_zabij[OF p D(2) _ st u'(1)]) (use l(1) s in simp)
  moreover have "pc_blokady u'" unfolding pc_blokady_def using nt by (metis trwa.simps(2))
  moreover have "wid u' r = None" "stany u' r = Nie_ma \<longleftrightarrow> stany u r = Nie_ma" for r using st by (cases "stany u r"; simp)+
  with D(2) u'(2) have "pc_dzieci g u'" by (simp add: pc_dzieci_def)
  ultimately show ?thesis unfolding pc_inw_def by blast
qed

lemma pc_krok_inw:
  assumes u: "spojny E (endpointy E) MAX_CZEKA {pc_mutex A} {buf_not_empty A, buf_not_full} u" and w: "wylaczny (pc_mutex A) pc_kryt u"
    and I: "pc_inw A g u" and k: "krok_ukladu E (prod_cons A) (endpointy E) MAX_CZEKA u u'"
  shows "wylaczny (pc_mutex A) pc_kryt u' \<and> pc_inw A g u'"
proof -
  have fin: "finite (zywe u)" using u by (simp add: spojny_def)
  from u w k show ?thesis
  proof (cases rule: pc.krok_sekcji)
    case (zadanie p l t n c f)
    with pc_krok_zadanie[OF w I fin zadanie(2-9)] show ?thesis by blast
  next
    case (koniec p l j)
    with pc_krok_koniec[OF I fin koniec(2,3) koniec(7)[OF pc_koniec_poza[OF I koniec(2,3)]]] show ?thesis by blast
  next
    case (lokalny p l l')
    show ?thesis
    proof (cases "\<exists>x. pc_krok A l (potok u) l' (potok u') x \<and> stdout u' = stdout u @ x")
      case True
      then obtain x where x: "pc_krok A l (potok u) l' (potok u') x" "stdout u' = stdout u @ x" by blast
      have z: "zywe u' = zywe u" and wi: "wid u' = (wid u)(p := Some l')" using lokalny(2,3) by (auto simp: zywe_def)
      have "pc_dzieci g u' \<and> (przed_startem A g u' \<or> praca A g u' \<or> zabita A g u')"
        by (rule pc_krok_lokalny[OF w I fin lokalny(2) x(1) wi z x(2) lokalny(4)]) (simp_all add: lokalny(3))
      moreover have "pc_blokady u'" using pc_inwD(1)[OF I lokalny(2)] lokalny(3) by (auto simp: pc_blokady_def)
      ultimately show ?thesis using lokalny(1) unfolding pc_inw_def by blast
    next
      case False
      then obtain f where f: "prod_cons A l = Rozwidl f \<or> prod_cons A l = Czekaj_dziecka f \<and> (\<forall>q. rodzic u q = p \<longrightarrow> stany u q = Nie_ma)"
        "l' = f (- 1)" "stdout u' = stdout u" "potok u' = potok u" using lokalny(5) unfolding pc_krok_def by auto
      from pc_krok_minus1[OF I lokalny(2) f(2,1) lokalny(3) f(3,4) lokalny(4)] lokalny(1) show ?thesis by blast
    qed
  next
    case (rozwidl p l f q j)
    with pc_krok_rozwidl[OF I fin rozwidl(2-10)] show ?thesis by blast
  next
    case (dziecko p l f q i j)
    with pc_krok_dziecko[OF I fin dziecko(2-4,6-11)] show ?thesis by blast
  next
    case (zabij p l)
    with pc_krok_zabij[OF I zabij(2-5,7)] show ?thesis by blast
  qed
qed

section \<open>What the test shows\<close>

text \<open>The states of the program when the process \<open>p\<close> runs its \<^verbatim>\<open>main\<close>.\<close>

definition prod_cons_stan :: "srodowisko \<Rightarrow> pc_arg \<Rightarrow> int \<Rightarrow> pc_lok uklad \<Rightarrow> bool" where
  "prod_cons_stan E A p =
     osiagalny (\<lambda>u. p \<in> endpointy E \<and> poczatek_ukladu E p G_start u) (krok_ukladu E (prod_cons A) (endpointy E) MAX_CZEKA)"

interpretation pcm: maszyna "\<lambda>u. p \<in> endpointy E \<and> poczatek_ukladu E p G_start u" "krok_ukladu E (prod_cons A) (endpointy E) MAX_CZEKA"
  "\<lambda>u. spojny E (endpointy E) MAX_CZEKA {pc_mutex A} {buf_not_empty A, buf_not_full} u \<and> wylaczny (pc_mutex A) pc_kryt u \<and> pc_inw A p u"
  for E A p
proof
  fix u assume u: "p \<in> endpointy E \<and> poczatek_ukladu E p G_start u"
  then have st: "stany u = (\<lambda>_. Nie_ma)(p := Dziala G_start)" "stdout u = []" "potok u = []" "rodzic u p \<noteq> p" by (auto simp: poczatek_ukladu_def)
  have "spojny E (endpointy E) MAX_CZEKA {pc_mutex A} {buf_not_empty A, buf_not_full} u"
    using pc.spojny_start[of E p G_start u A] u by (simp add: MAX_CZEKA_def)
  moreover have "abstr (serw u) = monitor0" using u main_start_ok[of E] by (auto simp: poczatek_ukladu_def)
  then have "wylaczny (pc_mutex A) pc_kryt u" using st(1) by (simp add: wylaczny_def w_sekcji_def ma_mutex_def monitor0_def)
  moreover have "zywe u = {p}" using st(1) by (auto simp: zywe_def)
  then have "pc_inw A p u" using st by (auto simp: pc_inw_def pc_blokady_def pc_dzieci_def przed_startem_def split: if_splits)
  ultimately show "spojny E (endpointy E) MAX_CZEKA {pc_mutex A} {buf_not_empty A, buf_not_full} u \<and> wylaczny (pc_mutex A) pc_kryt u \<and> pc_inw A p u"
    by blast
next
  fix u u' assume "spojny E (endpointy E) MAX_CZEKA {pc_mutex A} {buf_not_empty A, buf_not_full} u \<and> wylaczny (pc_mutex A) pc_kryt u \<and> pc_inw A p u"
    "krok_ukladu E (prod_cons A) (endpointy E) MAX_CZEKA u u'"
  with pc.spojny_krok pc_krok_inw
  show "spojny E (endpointy E) MAX_CZEKA {pc_mutex A} {buf_not_empty A, buf_not_full} u' \<and> wylaczny (pc_mutex A) pc_kryt u' \<and> pc_inw A p u'" by blast
qed

lemma prod_cons_stan_inw:
  assumes "prod_cons_stan E A p u"
  shows "spojny E (endpointy E) MAX_CZEKA {pc_mutex A} {buf_not_empty A, buf_not_full} u" "wylaczny (pc_mutex A) pc_kryt u" "pc_inw A p u"
  using pcm.osiagalny_inw[of p E] assms by (auto simp: prod_cons_stan_def)

text \<open>In every state of the program something is printed as it should be, and at the end all of it.\<close>

lemma suma_mono: "fp \<le> max 0 n \<Longrightarrow> suma fp W \<subseteq># suma n W"
proof -
  assume "fp \<le> max 0 n"
  then have "{0..<fp} \<subseteq> {0..<n}" by auto
  then have "suma n W = (\<Sum>k \<in> {0..<n} - {0..<fp}. mset (W k)) + suma fp W" unfolding suma_def by (intro sum.subset_diff) auto
  then show ?thesis by simp
qed

lemma wydruk_mono: "wydruk A fp W ds u \<Longrightarrow> fp \<le> max 0 n \<Longrightarrow> wydruk A n W ds u"
  using suma_mono[of fp n W] by (auto simp: wydruk_def intro: subset_mset.order_trans)

lemma pc_wydruk:
  assumes "pc_inw A g u"
  obtains W ds where "wydruk A (prods A) W ds u"
proof -
  have pusty: "wydruk A 0 (\<lambda>_. []) [] u" if "stdout u = []"
  proof -
    have "\<exists>k. [] = wart A n k" for n by (rule exI[of _ 0]) (simp add: wart_def)
    then show ?thesis using that by (simp add: wydruk_def suma_def)
  qed
  consider "przed_startem A g u" | "praca A g u" | "zabita A g u" using assms by (auto simp: pc_inw_def)
  then show thesis
  proof cases
    case 1
    then show thesis using that[OF wydruk_mono[OF pusty]] by (simp add: przed_startem_def)
  next
    case 2
    then obtain fp fc W ds b where "0 \<le> pc_turns A" "fp \<le> prods A" "dane A fp fc W ds b (wid u) (potok u)" "stdout u = concat (map wiersz ds)"
      by (rule pracaE)
    with that[OF wydruk_mono[OF dane_wydruk]] show thesis by simp
  next
    case 3
    then obtain fp W ds where "fp \<le> max 0 (prods A)" "wydruk A fp W ds u" by (auto simp: zabita_def)
    with that[OF wydruk_mono] show thesis by blast
  qed
qed

lemma pc_koniec:
  assumes I: "pc_inw A g u" and g: "stany u g = Zombie 0" and c: "0 < cons A"
  obtains W ds where "wydruk A (prods A) W ds u" "mset ds = suma (prods A) W" "\<forall>n \<in> {0..<prods A}. int (length (W n)) = pc_turns A"
proof -
  have "praca A g u" using I g by (auto simp: pc_inw_def przed_startem_def zabita_def SIGTERM_def)
  then obtain fp fc W ds b where P: "0 \<le> pc_turns A" "dane A fp fc W ds b (wid u) (potok u)" "stdout u = concat (map wiersz ds)"
    "pc_glowny A g fp fc b u" by (rule pracaE)
  from P(4) g have k: "zywe u = {g}" "fp = prods A" "fc = cons A" by (auto simp: pc_glowny_def)
  have w: "wid u q = None" for q
  proof (cases "q = g")
    case False
    then have "q \<notin> zywe u" using k(1) by simp
    then show ?thesis by (simp add: zywe_def)
  qed (simp add: g)
  then have po: "po_widoku f (wid u) q = None" for f :: "pc_lok \<Rightarrow> int option" and q by (simp add: po_widoku_def)
  note d = daneD[OF P(2)]
  have "b ! BSIZE = 0" using d(5) c k(3) po[of consv] unfolding cons_ok_def by (metis option.distinct(1) order_refl)
  then have "niezerowe b = []" using d(1) by (simp add: poprawny_def)
  then have "mset ds = suma (prods A) W" using d(6) po[of druk] k(2) by (simp add: bilans_def)
  moreover have "\<forall>n \<in> {0..<prods A}. int (length (W n)) = pc_turns A"
    using d(4) po[of prodv] k(2) unfolding prod_ok_def by auto
  ultimately show thesis using that[of W ds] dane_wydruk[OF P(2,3,1)] k(2) by simp
qed

text \<open>
  C17. The test program \<^verbatim>\<open>prod_cons\<close>, whatever the order in which its processes run: no process finds the counter of the buffer wrong.
  The standard output consists of whole lines with values that the producers took from \<^verbatim>\<open>rand\<close>, no value more often than it was put into the
  buffer, and no producer puts more than \<^verbatim>\<open>turns\<close> values into it. When \<^verbatim>\<open>main\<close> has returned and there is a consumer, every producer has put all
  its values into the buffer and the output is exactly these values, in some order.
\<close>

theorem prod_cons_wynik:
  assumes "prod_cons_stan E A p u"
  shows "(\<forall>q. stany u q \<noteq> Dziala Fail_sekcja) \<and>
    (\<exists>W ds. stdout u = concat (map wiersz ds) \<and> (\<forall>n. (\<exists>k. W n = wart A n k) \<and> int (length (W n)) \<le> max 0 (pc_turns A)) \<and>
       mset ds \<subseteq># (\<Sum>n \<in> {0..<prods A}. mset (W n)) \<and>
       (stany u p = Zombie 0 \<and> 0 < cons A \<longrightarrow>
          mset ds = (\<Sum>n \<in> {0..<prods A}. mset (W n)) \<and> (\<forall>n \<in> {0..<prods A}. int (length (W n)) = pc_turns A)))"
proof
  note I = prod_cons_stan_inw(3)[OF assms]
  show "\<forall>q. stany u q \<noteq> Dziala Fail_sekcja" using pc_koniec_poza[OF I, of _ Fail_sekcja] by auto
  show "\<exists>W ds. stdout u = concat (map wiersz ds) \<and> (\<forall>n. (\<exists>k. W n = wart A n k) \<and> int (length (W n)) \<le> max 0 (pc_turns A)) \<and>
       mset ds \<subseteq># (\<Sum>n \<in> {0..<prods A}. mset (W n)) \<and>
       (stany u p = Zombie 0 \<and> 0 < cons A \<longrightarrow>
          mset ds = (\<Sum>n \<in> {0..<prods A}. mset (W n)) \<and> (\<forall>n \<in> {0..<prods A}. int (length (W n)) = pc_turns A))"
  proof (cases "stany u p = Zombie 0 \<and> 0 < cons A")
    case True
    then obtain W ds where "wydruk A (prods A) W ds u" "mset ds = suma (prods A) W" "\<forall>n \<in> {0..<prods A}. int (length (W n)) = pc_turns A"
      using pc_koniec[OF I] by blast
    then show ?thesis by (intro exI[of _ W] exI[of _ ds]) (auto simp: wydruk_def suma_def)
  next
    case False
    obtain W ds where "wydruk A (prods A) W ds u" by (rule pc_wydruk[OF I])
    with False show ?thesis by (intro exI[of _ W] exI[of _ ds]) (auto simp: wydruk_def suma_def)
  qed
qed

section \<open>A run with one producer and one consumer\<close>

text \<open>The consumer waits for the first value before the producer puts it into the buffer.\<close>

definition pc1 :: pc_arg where
  "pc1 = \<lparr>pc_mutex = 10, pc_argc = 4, prods = 1, cons = 1, pc_turns = 1, rand_c = (\<lambda>n k. 7)\<rparr>"

definition pc_plan :: "wybor list" where
  "pc_plan = [Idz 10, Idz 10, Nowy 10 20, Idz 10, Nowy 10 30, Idz 10] @ replicate 4 (Idz 30) @ replicate 10 (Idz 20) @ [Zbierz 10 20] @
     replicate 7 (Idz 30) @ replicate 6 (Idz 10) @ replicate 5 (Idz 30) @ [Zbierz 10 30, Idz 10, Idz 10]"

lemma prod_cons_przebieg: "\<exists>u. prod_cons_stan srod0 pc1 10 u \<and> stany u 10 = Zombie 0"
  unfolding prod_cons_stan_def
proof (rule pc.plan_konczy[where ms = "[pc_mutex pc1]" and ws = pc_plan])
  show "case wykonaj_plan (prod_cons pc1) [pc_mutex pc1] MAX_CZEKA pc_plan (przebieg0 10 G_start) of None \<Rightarrow> False | Some s \<Rightarrow> zakonczony 0 (p_stany s 10)"
    by code_simp
qed (auto simp: endpointy0 MAX_CZEKA_def dzieci_planu_def pc_plan_def)

theorem prod_cons_wynik_przyklad:
  "\<exists>u. prod_cons_stan srod0 pc1 10 u \<and> stany u 10 = Zombie 0 \<and> stdout u = [CHR ''7'', CHR 0x0A]"
proof -
  obtain u where u: "prod_cons_stan srod0 pc1 10 u" "stany u 10 = Zombie 0" using prod_cons_przebieg by blast
  have c: "cons pc1 = 1" "prods pc1 = 1" "pc_turns pc1 = 1" by (simp_all add: pc1_def)
  have z: "{0..<1} = {0::int}" by auto
  obtain W ds where w: "stdout u = concat (map wiersz ds) \<and> (\<forall>n. (\<exists>k. W n = wart pc1 n k) \<and> int (length (W n)) \<le> max 0 (pc_turns pc1)) \<and>
       mset ds \<subseteq># (\<Sum>n \<in> {0..<prods pc1}. mset (W n)) \<and>
       (stany u 10 = Zombie 0 \<and> 0 < cons pc1 \<longrightarrow>
          mset ds = (\<Sum>n \<in> {0..<prods pc1}. mset (W n)) \<and> (\<forall>n \<in> {0..<prods pc1}. int (length (W n)) = pc_turns pc1))"
    using conjunct2[OF prod_cons_wynik[OF u(1)]] by (elim exE) (rule that)
  then have W: "stdout u = concat (map wiersz ds)" "\<exists>k. W 0 = wart pc1 0 k" "mset ds = mset (W 0)" "length (W 0) = 1"
    using u(2) by (simp_all add: c z)
  then obtain k where k: "W 0 = wart pc1 0 k" by blast
  have "wart pc1 0 k = replicate k 7" by (induction k) (simp_all add: wart_def pc1_def na_znak_def replicate_append_same)
  then have "mset ds = {#7#}" using W(3,4) k by simp
  then have "ds = [7]" by simp
  moreover have "wiersz 7 = [CHR ''7'', CHR 0x0A]" by code_simp
  ultimately show ?thesis using u W(1) by auto
qed

end
