(* ===== verification/Prod_Cons_Postep.thy ===== *)
theory Prod_Cons_Postep
  imports Prod_Cons_Dowod
begin

text \<open>
  The test program \<^verbatim>\<open>prod_cons\<close> does not get stuck when it has a consumer: no wake-up is lost. A consumer waits only while the buffer is empty
  and the flag not set, a producer only while the buffer is full, unless the process in the critical section is about to broadcast.
\<close>

section \<open>Who waits, and why\<close>

definition dlug_ne :: "int list \<Rightarrow> pc_lok \<Rightarrow> bool" where
  "dlug_ne b l \<longleftrightarrow> (\<exists>n t k x. l = P_oglos n t k x) \<and> b ! BSIZE = 1 \<or> (\<exists>x. l = G_zapisz x) \<or> l = G_oglos"

definition dlug_nf :: "int list \<Rightarrow> pc_lok \<Rightarrow> bool" where
  "dlug_nf b l \<longleftrightarrow> ((\<exists>n d x. l = C_druk n d x) \<or> (\<exists>n x. l = C_oglos n x)) \<and> b ! BSIZE = int BSIZE - 1"

text \<open>Consumers wait for one event and producers for the other.\<close>

definition pc_kto :: "pc_arg \<Rightarrow> pc_lok uklad \<Rightarrow> bool" where
  "pc_kto A u \<longleftrightarrow> (\<forall>q \<in> czekaja (buf_not_empty A) u. \<exists>n. wid u q = Some (C_czytaj n)) \<and>
     (\<forall>q \<in> czekaja buf_not_full u. \<exists>n t k d. wid u q = Some (P_czytaj n t k d))"

definition pc_powod :: "pc_arg \<Rightarrow> int list \<Rightarrow> pc_lok uklad \<Rightarrow> bool" where
  "pc_powod A b u \<longleftrightarrow>
     (czekaja (buf_not_empty A) u \<noteq> {} \<longrightarrow> b ! BSIZE = 0 \<and> b ! (BSIZE + 1) = 0 \<or> (\<exists>q l. stany u q = Dziala l \<and> dlug_ne b l)) \<and>
     (czekaja buf_not_full u \<noteq> {} \<longrightarrow> b ! BSIZE = int BSIZE \<or> (\<exists>q l. stany u q = Dziala l \<and> dlug_nf b l))"

definition bufor :: "int list \<Rightarrow> pc_lok uklad \<Rightarrow> bool" where
  "bufor b u \<longleftrightarrow> miejsce_b b (po_widoku trzyma (wid u)) (potok u)"

lemma zdarzenia_rozne: "buf_not_empty A \<noteq> buf_not_full"
  by (simp add: buf_not_empty_def buf_not_full_def) presburger

lemma czekaja_zablokowany:
  assumes "spojny E Ep N MU CVs u" "q \<in> czekaja c u"
  obtains f where "stany u q = Zablokowany f"
proof -
  from assms(2) obtain n where "(q, n) \<in> set (czekajacy_na c (abstr (serw u)))" by (auto simp: czekaja_def)
  then have "czeka q (abstr (serw u))" using czekajacy_na_miejsce by (fastforce simp: czeka_def)
  with assms(1) that show thesis by (auto simp: spojny_def)
qed

lemma prod_cons_wait:
  "prod_cons A l = Zadanie CS_WAIT n c f \<Longrightarrow>
     (\<exists>i x. l = C_pusty i x \<and> x ! (BSIZE + 1) = 0 \<and> c = buf_not_empty A \<and> f OK = C_czytaj i) \<or>
     (\<exists>i t k d. l = P_wait i t k d \<and> c = buf_not_full \<and> f OK = P_czytaj i t k d)"
  by (cases l) (auto simp: lib_defs cs_defs Let_def split: if_splits option.splits)

text \<open>At most one process has a copy of the buffer.\<close>

lemma bufor_jeden:
  assumes w: "wylaczny m pc_kryt u" and B: "pc_blokady u" and b: "bufor b u" "bufor b' u"
  shows "b = b'"
proof -
  have inne: "po_widoku trzyma (wid u) r = None" if q: "po_widoku trzyma (wid u) q = Some x" "r \<noteq> q" for q r x
  proof -
    from q(1) obtain l where l: "wid u q = Some l" "trzyma l = Some x" by (auto simp: po_widoku_def bind_eq_Some_conv)
    have "stany u q = Dziala l"
    proof (cases "stany u q")
      case (Zablokowany f)
      then have "czyta l" using B l(1) by (auto simp: pc_blokady_def)
      with l(2) show ?thesis by (auto simp: czyta_def)
    qed (use l(1) in auto)
    moreover have "pc_kryt l" using l(2) by (cases l) auto
    ultimately show ?thesis using spokojni_widok(1)[OF spokojni_w_sekcji[OF w B]] q(2) by blast
  qed
  from b show ?thesis unfolding bufor_def miejsce_b_def
  proof (elim disjE conjE exE)
    fix q q' assume q: "po_widoku trzyma (wid u) q = Some b" "po_widoku trzyma (wid u) q' = Some b'"
    then have "q' = q" using inne[OF q(1), of q'] by auto
    with q show ?thesis by simp
  qed auto
qed

text \<open>The buffer after a step of one process.\<close>

lemma prod_cons_trzyma:
  "trzyma l \<noteq> None \<Longrightarrow> pc_kryt l"
  "prod_cons A l = Zadanie t n c f \<Longrightarrow> trzyma (f OK) = trzyma l"
  "prod_cons A l = Pisz x l' \<Longrightarrow> trzyma l' = trzyma l"
  "prod_cons A l = Odczyt h \<Longrightarrow> trzyma l = None \<and> trzyma (h y) \<noteq> None \<and> pc_kryt l"
  "prod_cons A l = Zapis y l' \<Longrightarrow> l \<noteq> G_zapis \<Longrightarrow> trzyma l = Some y \<and> trzyma l' = None"
  "prod_cons A l = Dalej l' \<Longrightarrow> l' \<noteq> Fail_sekcja \<Longrightarrow> trzyma l' = None \<longleftrightarrow> trzyma l = None"
  by (cases l; auto simp: lib_defs Let_def split: if_splits option.splits)+

lemma pc_krok_trzyma:
  assumes k: "pc_krok A l pot l' pot' x" and l: "l \<noteq> G_zapis" "l' \<noteq> Fail_sekcja"
  shows "trzyma l' \<noteq> None \<longrightarrow> pc_kryt l" "trzyma l = None \<longrightarrow> trzyma l' = None \<longrightarrow> pot' = pot"
    "trzyma l = Some y \<longrightarrow> trzyma l' = None \<longrightarrow> pc_kryt l \<and> pot' = pot @ [y]"
proof -
  consider "trzyma l' = None \<longleftrightarrow> trzyma l = None" "pot' = pot" | "trzyma l = None" "trzyma l' \<noteq> None" "pc_kryt l"
    | z where "trzyma l = Some z" "trzyma l' = None" "pot' = pot @ [z]"
    using k unfolding pc_krok_def
  proof (elim disjE exE conjE)
    fix f z assume "prod_cons A l = Odczyt f" "l' = f z"
    with prod_cons_trzyma(4)[of A l f z] that(2) show thesis by blast
  next
    fix z assume "prod_cons A l = Zapis z l'" "pot' = pot @ [z]"
    with prod_cons_trzyma(5)[of A l z l'] l that(3) show thesis by blast
  next
    fix t n c f assume "prod_cons A l = Zadanie t n c f" "l' = f OK" "pot' = pot"
    with prod_cons_trzyma(2)[of A l t n c f] that(1) show thesis by simp
  next
    assume "prod_cons A l = Pisz x l'" "pot' = pot"
    with prod_cons_trzyma(3)[of A l x l'] that(1) show thesis by simp
  next
    assume d: "prod_cons A l = Dalej l'" "pot' = pot"
    show thesis by (rule that(1)[OF prod_cons_trzyma(6)[OF d(1) l(2)] d(2)])
  qed
  then have "(trzyma l' \<noteq> None \<longrightarrow> pc_kryt l) \<and> (trzyma l = None \<longrightarrow> trzyma l' = None \<longrightarrow> pot' = pot) \<and>
    (trzyma l = Some y \<longrightarrow> trzyma l' = None \<longrightarrow> pc_kryt l \<and> pot' = pot @ [y])"
  proof cases
    case 1
    then show ?thesis using prod_cons_trzyma(1)[of l] by simp
  next
    case 2
    then show ?thesis by auto
  next
    case (3 z)
    then show ?thesis using prod_cons_trzyma(1)[of l] by simp
  qed
  then show "trzyma l' \<noteq> None \<longrightarrow> pc_kryt l" "trzyma l = None \<longrightarrow> trzyma l' = None \<longrightarrow> pot' = pot"
    "trzyma l = Some y \<longrightarrow> trzyma l' = None \<longrightarrow> pc_kryt l \<and> pot' = pot @ [y]" by simp_all
qed

lemma bufor_po_kroku:
  assumes w: "wylaczny m pc_kryt u" and B: "pc_blokady u" and b: "bufor b u" and p: "stany u p = Dziala l" and l: "l \<noteq> G_zapis" "l' \<noteq> Fail_sekcja"
    and k: "pc_krok A l (potok u) l' (potok u') x" and wid: "wid u' = (wid u)(p := Some l')" and b': "bufor b' u'"
  shows "b' = (case trzyma l' of Some y \<Rightarrow> y | None \<Rightarrow> b)"
proof -
  let ?t = "po_widoku trzyma (wid u)"
  have m: "miejsce_b b ?t (potok u)" "miejsce_b b' (?t(p := trzyma l')) (potok u')"
    using b b' unfolding bufor_def wid by (simp_all add: po_widoku_upd)
  have tp: "?t p = trzyma l" using p by (simp add: po_widoku_def)
  have sp: "?t r = None" if "pc_kryt l" "r \<noteq> p" for r using spokojni_widok(1)[OF spokojni_w_sekcji[OF w B p that(1)] that(2)] .
  show ?thesis
  proof (cases "trzyma l'")
    case (Some y)
    then have "pc_kryt l" using pc_krok_trzyma(1)[OF k l] by simp
    then have "(?t(p := trzyma l')) r = (if r = p then Some y else None)" for r using sp Some by simp
    with m(2) Some show ?thesis unfolding miejsce_b_def by (metis option.distinct(1) option.inject option.simps(5))
  next
    case n: None
    show ?thesis
    proof (cases "trzyma l")
      case None
      then have "potok u' = potok u" "?t(p := trzyma l') = ?t" using pc_krok_trzyma(2)[OF k l] n tp by auto
      then have "bufor b' u" using m(2) by (simp add: bufor_def)
      with bufor_jeden[OF w B b] n show ?thesis by simp
    next
      case (Some y)
      then have kr: "pc_kryt l" "potok u' = potok u @ [y]" using pc_krok_trzyma(3)[OF k l] n by auto
      then have "(?t(p := trzyma l')) r = None" for r using sp n by simp
      then have "b' = y" using m(2) kr(2) unfolding miejsce_b_def by simp
      moreover have "b = y" using m(1) tp Some sp[OF kr(1)] unfolding miejsce_b_def by (metis option.distinct(1) option.inject)
      ultimately show ?thesis using n by simp
    qed
  qed
qed

section \<open>Every step keeps the reasons\<close>

text \<open>Steps after which nobody waits who did not wait before.\<close>

lemma pc_kto_mniej:
  assumes S: "spojny E Ep N MU CVs u" and K: "pc_kto A u" and c: "\<And>d. czekaja d u' \<subseteq> czekaja d u"
    and w: "\<And>q f. stany u q = Zablokowany f \<Longrightarrow> wid u' q = wid u q"
  shows "pc_kto A u'"
proof -
  have "wid u' q = wid u q" if "q \<in> czekaja d u" for d q using czekaja_zablokowany[OF S that] w by metis
  with K c show ?thesis unfolding pc_kto_def by (metis subsetD)
qed

lemma pc_powod_mniej:
  assumes P: "pc_powod A b u" and c: "\<And>d. czekaja d u' \<subseteq> czekaja d u"
    and w: "\<And>q l. stany u q = Dziala l \<Longrightarrow> dlug_ne b l \<or> dlug_nf b l \<Longrightarrow> stany u' q = Dziala l"
  shows "pc_powod A b u'"
  using P c[of "buf_not_empty A"] c[of buf_not_full] w unfolding pc_powod_def by blast

text \<open>A step of the process \<open>p\<close> in its critical section, or of a process that has no part in the buffer.\<close>

lemma dlug_kryt: "dlug_ne b l \<Longrightarrow> pc_kryt l" "dlug_nf b l \<Longrightarrow> pc_kryt l"
  by (auto simp: dlug_ne_def dlug_nf_def)

lemma dlug_poza:
  assumes w: "wylaczny m pc_kryt u" and p: "stany u p = Dziala l" and q: "stany u q = Dziala lq" "pc_kryt lq"
    and sam: "\<And>q. q \<noteq> p \<Longrightarrow> \<forall>g. stany u q \<noteq> Zablokowany g \<Longrightarrow> stany u' q = stany u q"
  obtains "q = p" "lq = l" | "stany u' q = Dziala lq" "\<not> pc_kryt l"
proof (cases "q = p")
  case False
  have "\<not> pc_kryt l"
  proof
    assume "pc_kryt l"
    then have "ma_mutex p m (abstr (serw u))" "ma_mutex q m (abstr (serw u))" using w p q by (auto simp: wylaczny_def w_sekcji_def)
    with ma_mutex_jeden False show False by blast
  qed
  moreover have "stany u' q = Dziala lq" using sam[OF False] q(1) by simp
  ultimately show thesis by (intro that(2))
qed (use p q that in simp)

text \<open>How a step of one process changes the reasons: \<open>b\<close> is the buffer before, \<open>b'\<close> after the step.\<close>

lemma krok_bufora:
  assumes k: "pc_krok A l pot l' pot' x" and b: "poprawny b" "lokalne b l" "trzyma l = None \<or> trzyma l = Some b" and l: "l \<noteq> G_zapis" "l' \<noteq> Fail_sekcja"
    and pot: "pot \<noteq> [] \<Longrightarrow> pot = [b]" and b': "b' = (case trzyma l' of Some y \<Rightarrow> y | None \<Rightarrow> b)"
  obtains (bez_zmian) "b' = b"
  | (wstaw) n t k' v where "l = P_wstaw n t k' v b" "l' = P_oglos n t k' b'" "b' ! BSIZE = b ! BSIZE + 1" "b' ! (BSIZE + 1) = b ! (BSIZE + 1)" "b ! BSIZE \<noteq> int BSIZE"
  | (wez) n v where "l = C_wez n b" "l' = C_druk n v b'" "b' ! BSIZE = b ! BSIZE - 1" "b ! BSIZE \<noteq> 0"
  | (flaga) "l = G_czytaj" "l' = G_zapisz b'" "b' ! BSIZE = b ! BSIZE"
proof -
  have z: "na_znak (b ! BSIZE + 1) = b ! BSIZE + 1" "na_znak (b ! BSIZE - 1) = b ! BSIZE - 1" "length b = BSIZE + 2"
    using poprawny_licznik[OF b(1)] b(1) by (auto intro!: na_znak_maly simp: BSIZE_def poprawny_def)
  consider (w) n t k' v where "l = P_wstaw n t k' v b" | (c) n where "l = C_wez n b" | (g) "l = G_czytaj"
    | (i) "\<And>n t k' v. l \<noteq> P_wstaw n t k' v b" "\<And>n. l \<noteq> C_wez n b" "l \<noteq> G_czytaj" by blast
  then show thesis
  proof cases
    case w
    with k l(2) obtain i where i: "szukaj_komorki (\<lambda>x. x = 0) b = Some i" "l' = P_oglos n t k' (b[i := v, BSIZE := na_znak (b ! BSIZE + 1)])"
      by (auto simp: pc_krok_def split: option.splits)
    have "i < BSIZE" using szukaj_komorki_Some[OF i(1)] by simp
    with w i(2) b' b(2) z show thesis by (intro wstaw) auto
  next
    case c
    with k l(2) obtain i where i: "szukaj_komorki (\<lambda>x. x \<noteq> 0) b = Some i" "l' = C_druk n (b ! i) (b[i := 0, BSIZE := na_znak (b ! BSIZE - 1)])"
      by (auto simp: pc_krok_def split: option.splits)
    have "i < BSIZE" using szukaj_komorki_Some[OF i(1)] by simp
    with c i(2) b' b(2) z show thesis by (intro wez) auto
  next
    case g
    then have "l' = G_zapisz (b[BSIZE + 1 := 1])" using k pot by (auto simp: pc_krok_def)
    with g b' show thesis by (intro flaga) auto
  next
    case i
    have "trzyma l' = None \<or> trzyma l' = Some b"
      using k i b(3) pot unfolding pc_krok_def by (cases l) (auto simp: lib_defs Let_def split: if_splits)
    with b' show thesis by (intro bez_zmian) auto
  qed
qed

lemma krok_powodu:
  assumes k: "pc_krok A l pot l' pot' x" and b: "poprawny b" "lokalne b l" "trzyma l = None \<or> trzyma l = Some b" and l: "l \<noteq> G_zapis" "l' \<noteq> Fail_sekcja"
    and pot: "pot \<noteq> [] \<Longrightarrow> pot = [b]" and b': "b' = (case trzyma l' of Some y \<Rightarrow> y | None \<Rightarrow> b)"
  shows "b ! BSIZE = 0 \<and> b ! (BSIZE + 1) = 0 \<Longrightarrow> b' ! BSIZE = 0 \<and> b' ! (BSIZE + 1) = 0 \<or> dlug_ne b' l'"
    "b ! BSIZE = int BSIZE \<Longrightarrow> b' ! BSIZE = int BSIZE \<or> dlug_nf b' l'"
    "dlug_ne b l \<Longrightarrow> dlug_ne b' l' \<or> (\<exists>n f. prod_cons A l = Zadanie CS_BROADCAST n (buf_not_empty A) f)"
    "dlug_nf b l \<Longrightarrow> dlug_nf b' l' \<or> (\<exists>n f. prod_cons A l = Zadanie CS_BROADCAST n buf_not_full f)"
proof -
  note kb = krok_bufora[OF k b l pot b']
  show "b ! BSIZE = 0 \<and> b ! (BSIZE + 1) = 0 \<Longrightarrow> b' ! BSIZE = 0 \<and> b' ! (BSIZE + 1) = 0 \<or> dlug_ne b' l'"
    by (rule kb) (auto simp: dlug_ne_def)
  show "b ! BSIZE = int BSIZE \<Longrightarrow> b' ! BSIZE = int BSIZE \<or> dlug_nf b' l'"
    by (rule kb) (auto simp: dlug_nf_def)
  show "dlug_ne b' l' \<or> (\<exists>n f. prod_cons A l = Zadanie CS_BROADCAST n (buf_not_empty A) f)" if d: "dlug_ne b l"
  proof -
    have "b' = b" by (rule kb) (use d in \<open>auto simp: dlug_ne_def\<close>)
    with d k b(3) show ?thesis unfolding dlug_ne_def pc_krok_def by (auto simp: lib_defs)
  qed
  show "dlug_nf b' l' \<or> (\<exists>n f. prod_cons A l = Zadanie CS_BROADCAST n buf_not_full f)" if d: "dlug_nf b l"
  proof -
    have "b' = b" by (rule kb) (use d in \<open>auto simp: dlug_nf_def\<close>)
    with d k b(3) show ?thesis unfolding dlug_nf_def pc_krok_def by (auto simp: lib_defs)
  qed
qed

definition pc_cv :: "pc_arg \<Rightarrow> pc_lok uklad \<Rightarrow> bool" where
  "pc_cv A u \<longleftrightarrow> pc_kto A u \<and> (\<forall>b. bufor b u \<longrightarrow> pc_powod A b u)"

lemma pc_cv_nikt:
  assumes "\<And>d. czekaja d u = {}"
  shows "pc_cv A u"
  using assms by (simp add: pc_cv_def pc_kto_def pc_powod_def)

text \<open>Steps in which no process in the critical section takes part.\<close>

lemma pc_cv_poza:
  assumes S: "spojny E Ep N MU CVs u" and V: "pc_cv A u" and c: "\<And>d. czekaja d u' \<subseteq> czekaja d u"
    and w: "\<And>q f. stany u q = Zablokowany f \<Longrightarrow> wid u' q = wid u q" "\<And>q l. stany u q = Dziala l \<Longrightarrow> pc_kryt l \<Longrightarrow> stany u' q = Dziala l"
    and t: "\<And>q. po_widoku trzyma (wid u') q = po_widoku trzyma (wid u) q" "potok u' = potok u"
  shows "pc_cv A u'"
proof -
  have "pc_kto A u'" by (rule pc_kto_mniej[OF S _ c w(1)]) (use V in \<open>simp_all add: pc_cv_def\<close>)
  moreover have "pc_powod A b u'" if b: "bufor b u'" for b
  proof -
    have "po_widoku trzyma (wid u') = po_widoku trzyma (wid u)" using t(1) by (rule ext)
    then have "bufor b u" using b t(2) by (simp add: bufor_def)
    then have "pc_powod A b u" using V by (simp add: pc_cv_def)
    then show ?thesis by (rule pc_powod_mniej[OF _ c]) (use w(2) dlug_kryt in blast)
  qed
  ultimately show ?thesis by (simp add: pc_cv_def)
qed

text \<open>The state of the data at a step of the process \<open>p\<close>.\<close>

lemma krok_nie_fail:
  assumes I: "pc_inw A g u" and p: "wid u p = Some l"
  shows "l \<noteq> Fail_sekcja"
proof (cases "stany u p")
  case (Dziala l0)
  with p pc_koniec_poza[OF I Dziala, of 2] show ?thesis by auto
next
  case (Zablokowany f)
  then have "czyta l" using I p by (auto simp: pc_inw_def pc_blokady_def)
  then show ?thesis by (auto simp: czyta_def)
qed (use p in auto)

lemma praca_bufor:
  assumes w: "wylaczny m pc_kryt u" and B: "pc_blokady u" and P: "praca A g u" and p: "stany u p = Dziala l"
  obtains b where "bufor b u" "poprawny b" "lokalne b l" "trzyma l = None \<or> trzyma l = Some b" "potok u \<noteq> [] \<Longrightarrow> potok u = [b]"
proof -
  from P obtain fp fc W ds b where D: "dane A fp fc W ds b (wid u) (potok u)" by (rule pracaE)
  note d = daneD[OF D]
  have wp: "wid u p = Some l" using p by simp
  have "trzyma l = None \<or> trzyma l = Some b"
  proof (cases "trzyma l")
    case (Some y)
    then have "pc_kryt l" using prod_cons_trzyma(1)[of l] by simp
    from kopia(1)[OF D wp Some spokojni_w_sekcji[OF w B p this]] Some show ?thesis by simp
  qed simp
  moreover have "potok u = [b]" if "potok u \<noteq> []" using d(2) that by (auto simp: miejsce_b_def)
  ultimately show thesis using that[of b] d(1,2) stany_okD[OF d(3) wp] by (simp add: bufor_def)
qed

lemma pc_kto_krok:
  assumes S: "spojny E Ep N MU CVs u" and K: "pc_kto A u" and p: "stany u p = Dziala l" and wid: "\<And>q. wid u' q = (if q = p then Some l' else wid u q)"
    and c: "\<And>d. czekaja d u' \<subseteq> czekaja d u \<union> (if \<exists>n f. prod_cons A l = Zadanie CS_WAIT n d f \<and> l' = f OK then {p} else {})"
  shows "pc_kto A u'"
proof -
  have q: "wid u' q = wid u q \<and> q \<in> czekaja d u \<or> (\<exists>n f. prod_cons A l = Zadanie CS_WAIT n d f \<and> wid u' q = Some (f OK))"
    if "q \<in> czekaja d u'" for q d
  proof (cases "q \<in> czekaja d u")
    case True
    then obtain h where "stany u q = Zablokowany h" by (rule czekaja_zablokowany[OF S])
    then have "q \<noteq> p" using p by auto
    with True wid[of q] show ?thesis by simp
  next
    case False
    with that c[of d] have "q \<in> (if \<exists>n f. prod_cons A l = Zadanie CS_WAIT n d f \<and> l' = f OK then {p} else {})" by blast
    then show ?thesis using wid[of q] by (simp split: if_splits)
  qed
  show ?thesis unfolding pc_kto_def
  proof (intro conjI ballI)
    fix r assume r: "r \<in> czekaja (buf_not_empty A) u'"
    from q[OF r] show "\<exists>n. wid u' r = Some (C_czytaj n)"
    proof (elim disjE exE conjE)
      fix n f assume "prod_cons A l = Zadanie CS_WAIT n (buf_not_empty A) f" "wid u' r = Some (f OK)"
      with prod_cons_wait[of A l n "buf_not_empty A" f] zdarzenia_rozne[of A] show ?thesis by auto
    qed (use K in \<open>simp add: pc_kto_def\<close>)
  next
    fix r assume r: "r \<in> czekaja buf_not_full u'"
    from q[OF r] show "\<exists>n t k d. wid u' r = Some (P_czytaj n t k d)"
    proof (elim disjE exE conjE)
      fix n f assume "prod_cons A l = Zadanie CS_WAIT n buf_not_full f" "wid u' r = Some (f OK)"
      with prod_cons_wait[of A l n buf_not_full f] zdarzenia_rozne[of A] show ?thesis by auto
    qed (use K in \<open>simp add: pc_kto_def\<close>)
  qed
qed

lemma pc_powod_krok:
  assumes S: "spojny E Ep N MU CVs u" and w: "wylaczny m pc_kryt u" and B: "pc_blokady u" and P: "praca A g u" and V: "pc_cv A u"
    and p: "stany u p = Dziala l" and k: "pc_krok A l (potok u) l' (potok u') x" and l: "l \<noteq> G_zapis" "l' \<noteq> Fail_sekcja"
    and wid: "wid u' = (wid u)(p := Some l')" and sam: "\<And>q. q \<noteq> p \<Longrightarrow> \<forall>g. stany u q \<noteq> Zablokowany g \<Longrightarrow> stany u' q = stany u q"
    and c: "\<And>d. czekaja d u' \<subseteq> czekaja d u \<union> (if \<exists>n f. prod_cons A l = Zadanie CS_WAIT n d f \<and> l' = f OK then {p} else {})"
    and br: "\<And>d n f. prod_cons A l = Zadanie CS_BROADCAST n d f \<Longrightarrow> czekaja d u' = {}"
    and dz: "\<And>b. dlug_ne b l' \<or> dlug_nf b l' \<Longrightarrow> stany u' p = Dziala l'" and b': "bufor b' u'"
  shows "pc_powod A b' u'"
proof -
  from praca_bufor[OF w B P p] obtain b where b: "bufor b u" "poprawny b" "lokalne b l" "trzyma l = None \<or> trzyma l = Some b"
    "potok u \<noteq> [] \<Longrightarrow> potok u = [b]" by blast
  have bb: "b' = (case trzyma l' of Some y \<Rightarrow> y | None \<Rightarrow> b)" by (rule bufor_po_kroku[OF w B b(1) p l k wid b'])
  note kp = krok_powodu[OF k b(2-4) l b(5) bb]
  have pw: "pc_powod A b u" using V b(1) by (simp add: pc_cv_def)
  have poza: "b' = b" if "\<not> pc_kryt l" using pc_krok_trzyma(1)[OF k l] that bb by (cases "trzyma l'") auto
  have nowe: "czekaja d u \<noteq> {} \<or> (\<exists>n f. prod_cons A l = Zadanie CS_WAIT n d f \<and> l' = f OK)" if "czekaja d u' \<noteq> {}" for d
    using c[of d] that by (auto split: if_splits)
  have "b' ! BSIZE = 0 \<and> b' ! (BSIZE + 1) = 0 \<or> (\<exists>q l. stany u' q = Dziala l \<and> dlug_ne b' l)" if ne: "czekaja (buf_not_empty A) u' \<noteq> {}"
    using nowe[OF ne]
  proof (elim disjE exE conjE)
    fix n f assume f: "prod_cons A l = Zadanie CS_WAIT n (buf_not_empty A) f" "l' = f OK"
    with prod_cons_wait[OF f(1)] zdarzenia_rozne[of A] obtain i y where "l = C_pusty i y" "y ! (BSIZE + 1) = 0" "l' = C_czytaj i" by auto
    with b(3) bb show ?thesis by simp
  next
    assume "czekaja (buf_not_empty A) u \<noteq> {}"
    with pw consider "b ! BSIZE = 0 \<and> b ! (BSIZE + 1) = 0" | q lq where "stany u q = Dziala lq" "dlug_ne b lq" unfolding pc_powod_def by blast
    then show ?thesis
    proof cases
      case 1
      with kp(1) dz show ?thesis by blast
    next
      case 2
      show ?thesis
      proof (rule dlug_poza[OF w p 2(1) dlug_kryt(1)[OF 2(2)] sam])
        assume "q = p" "lq = l"
        with 2 kp(3) br ne dz show ?thesis by blast
      next
        assume "stany u' q = Dziala lq" "\<not> pc_kryt l"
        with 2 poza show ?thesis by blast
      qed
    qed
  qed
  moreover have "b' ! BSIZE = int BSIZE \<or> (\<exists>q l. stany u' q = Dziala l \<and> dlug_nf b' l)" if nf: "czekaja buf_not_full u' \<noteq> {}"
    using nowe[OF nf]
  proof (elim disjE exE conjE)
    fix n f assume f: "prod_cons A l = Zadanie CS_WAIT n buf_not_full f" "l' = f OK"
    with prod_cons_wait[OF f(1)] zdarzenia_rozne[of A] obtain i t j v where "l = P_wait i t j v" "l' = P_czytaj i t j v" by auto
    with b(3) bb show ?thesis by simp
  next
    assume "czekaja buf_not_full u \<noteq> {}"
    with pw consider "b ! BSIZE = int BSIZE" | q lq where "stany u q = Dziala lq" "dlug_nf b lq" unfolding pc_powod_def by blast
    then show ?thesis
    proof cases
      case 1
      with kp(2) dz show ?thesis by blast
    next
      case 2
      show ?thesis
      proof (rule dlug_poza[OF w p 2(1) dlug_kryt(2)[OF 2(2)] sam])
        assume "q = p" "lq = l"
        with 2 kp(4) br nf dz show ?thesis by blast
      next
        assume "stany u' q = Dziala lq" "\<not> pc_kryt l"
        with 2 poza show ?thesis by blast
      qed
    qed
  qed
  ultimately show ?thesis by (simp add: pc_powod_def)
qed

text \<open>The steps of the program.\<close>

lemma przed_nikt:
  assumes "przed_startem A g u" "pc_kto A u"
  shows "czekaja (buf_not_empty A) u = {}" "czekaja buf_not_full u = {}"
proof -
  have "wid u q \<noteq> Some (C_czytaj n)" "wid u q \<noteq> Some (P_czytaj n t k d)" for q n t k d
  proof -
    have "q = g \<or> stany u q = Nie_ma" using assms(1) by (auto simp: przed_startem_def zywe_def)
    then show "wid u q \<noteq> Some (C_czytaj n)" "wid u q \<noteq> Some (P_czytaj n t k d)" using assms(1) by (auto simp: przed_startem_def)
  qed
  with assms(2) show "czekaja (buf_not_empty A) u = {}" "czekaja buf_not_full u = {}" unfolding pc_kto_def by blast+
qed

lemma pc_cv_krok:
  assumes S: "spojny E Ep N MU CVs u" and w: "wylaczny m pc_kryt u" and I: "pc_inw A g u" and I': "pc_inw A g u'" and V: "pc_cv A u"
    and p: "stany u p = Dziala l" and k: "pc_krok A l (potok u) l' (potok u') x"
    and wid: "\<And>q. wid u' q = (if q = p then Some l' else wid u q)" and sam: "\<And>q. q \<noteq> p \<Longrightarrow> \<forall>g. stany u q \<noteq> Zablokowany g \<Longrightarrow> stany u' q = stany u q"
    and c: "\<And>d. czekaja d u' \<subseteq> czekaja d u \<union> (if \<exists>n f. prod_cons A l = Zadanie CS_WAIT n d f \<and> l' = f OK then {p} else {})"
    and br: "\<And>d n f. prod_cons A l = Zadanie CS_BROADCAST n d f \<Longrightarrow> czekaja d u' = {}"
    and dz: "\<And>b. dlug_ne b l' \<or> dlug_nf b l' \<Longrightarrow> stany u' p = Dziala l'"
  shows "pc_cv A u'"
proof -
  note D = pc_inwD[OF I p]
  have K: "pc_kto A u" using V by (simp add: pc_cv_def)
  have wi: "wid u' = (wid u)(p := Some l')" using wid by auto
  have l': "l' \<noteq> Fail_sekcja" using krok_nie_fail[OF I', of p l'] wid[of p] by simp
  have "pc_powod A b u'" if b: "bufor b u'" for b
  proof (cases "przed_startem A g u")
    case True
    have "l \<in> {G_start, G_zapis, Fail}" using przed_proces[OF True p] by simp
    then have "\<not> (\<exists>n f. prod_cons A l = Zadanie CS_WAIT n d f \<and> l' = f OK)" for d by auto
    then have "czekaja d u' \<subseteq> czekaja d u" for d using c[of d] by (simp only: if_False Un_empty_right)
    then have "czekaja (buf_not_empty A) u' = {}" "czekaja buf_not_full u' = {}" using przed_nikt[OF True K] by (metis subset_empty)+
    then show ?thesis by (simp add: pc_powod_def)
  next
    case False
    then have P: "praca A g u" using D(4) by blast
    have "l \<noteq> G_zapis"
    proof
      assume l: "l = G_zapis"
      then have "p = g" using D(3) by (auto simp: pc_dziecka_def)
      from P obtain fp fc b where "pc_glowny A g fp fc b u" by (rule pracaE)
      with p l \<open>p = g\<close> show False by (simp add: pc_glowny_def)
    qed
    from pc_powod_krok[OF S w D(1) P V p k this l' wi sam c br dz b] show ?thesis .
  qed
  with pc_kto_krok[OF S K p wid c] show ?thesis by (simp add: pc_cv_def)
qed

lemma prod_cons_inne_punkty:
  "prod_cons A l = Rozwidl f \<Longrightarrow> \<not> pc_kryt l \<and> trzyma l = None \<and> trzyma (f j) = None"
  "prod_cons A l = Czekaj_dziecka f \<Longrightarrow> \<not> pc_kryt l \<and> trzyma l = None \<and> trzyma (f j) = None"
  "prod_cons A l = Koniec j \<Longrightarrow> trzyma l = None"
  by (cases l; auto simp: lib_defs Let_def split: if_splits option.splits)+

lemma pc_cv_inw:
  assumes u: "spojny E (endpointy E) MAX_CZEKA {pc_mutex A} {buf_not_empty A, buf_not_full} u" and w: "wylaczny (pc_mutex A) pc_kryt u"
    and I: "pc_inw A g u" and k: "krok_ukladu E (prod_cons A) (endpointy E) MAX_CZEKA u u'" and V: "pc_cv A u"
  shows "pc_cv A u'"
proof -
  have I': "pc_inw A g u'" using pc_krok_inw[OF u w I k] by blast
  have tr: "po_widoku trzyma (wid v) q = (case wid v q of None \<Rightarrow> None | Some l \<Rightarrow> trzyma l)" for v q by (cases "wid v q") (simp_all add: po_widoku_def)
  from u w k show ?thesis
  proof (cases rule: pc.krok_sekcji)
    case (zadanie p l t n c f)
    show ?thesis
    proof (rule pc_cv_krok[OF u w I I' V zadanie(2) _ zadanie(4,5)])
      show "pc_krok A l (potok u) (f OK) (potok u') []" using zadanie(3,8) by (auto simp: pc_krok_def)
      show "czekaja d u' \<subseteq> czekaja d u \<union> (if \<exists>n h. prod_cons A l = Zadanie CS_WAIT n d h \<and> f OK = h OK then {p} else {})" for d
        using zadanie(10)[of d] zadanie(3) by (auto split: if_splits)
      show "czekaja d u' = {}" if "prod_cons A l = Zadanie CS_BROADCAST n' d h" for d n' h
        using zadanie(10)[of d] zadanie(3) that by simp
      show "stany u' p = Dziala (f OK)" if "dlug_ne b (f OK) \<or> dlug_nf b (f OK)" for b
        using that prod_cons_zadanie[OF zadanie(3)] zadanie(6) by (auto simp: dlug_ne_def dlug_nf_def czyta_def)
    qed
  next
    case (koniec p l j)
    note nk = pc_koniec_poza[OF I koniec(2,3)]
    show ?thesis
    proof (rule pc_cv_poza[OF u V koniec(11)])
      show "wid u' q = wid u q" if "stany u q = Zablokowany h" for q h using koniec(5)[of q] koniec(2) that by auto
      show "stany u' q = Dziala l'" if "stany u q = Dziala l'" "pc_kryt l'" for q l' using koniec(2,7) nk that by auto
      show "po_widoku trzyma (wid u') q = po_widoku trzyma (wid u) q" for q
        using koniec(2) koniec(5)[of q] prod_cons_inne_punkty(3)[OF koniec(3)] by (simp add: tr)
    qed (rule koniec(9))
  next
    case (lokalny p l l')
    have cz: "czekaja d u' = czekaja d u" for d by (simp add: czekaja_def lokalny(6))
    show ?thesis
    proof (cases "\<exists>x. pc_krok A l (potok u) l' (potok u') x \<and> (\<forall>t n c f. prod_cons A l \<noteq> Zadanie t n c f)")
      case True
      then obtain x where x: "pc_krok A l (potok u) l' (potok u') x" "\<And>t n c f. prod_cons A l \<noteq> Zadanie t n c f" by blast
      show ?thesis by (rule pc_cv_krok[OF u w I I' V lokalny(2) x(1)]) (use lokalny(3) x(2) cz in auto)
    next
      case False
      with lokalny(5) obtain f where f: "prod_cons A l = Rozwidl f \<or> prod_cons A l = Czekaj_dziecka f" "l' = f (- 1)" "potok u' = potok u"
        unfolding pc_krok_def by auto
      then have t: "\<not> pc_kryt l" "trzyma l = None" "trzyma l' = None" using prod_cons_inne_punkty(1,2)[of A l f "- 1"] by auto
      show ?thesis
      proof (rule pc_cv_poza[OF u V])
        show "po_widoku trzyma (wid u') q = po_widoku trzyma (wid u) q" for q unfolding tr using lokalny(2,3) t by auto
      qed (use lokalny(2,3) cz t f(3) in auto)
    qed
  next
    case (rozwidl p l f q j)
    have cz: "czekaja d u' = czekaja d u" for d by (simp add: czekaja_def rozwidl(11))
    have t: "\<not> pc_kryt l" "trzyma l = None" "trzyma (f j) = None" "trzyma (f 0) = None"
      using prod_cons_inne_punkty(1)[OF rozwidl(3), of j] prod_cons_inne_punkty(1)[OF rozwidl(3), of 0] by auto
    show ?thesis
    proof (rule pc_cv_poza[OF u V])
      show "po_widoku trzyma (wid u') r = po_widoku trzyma (wid u) r" for r unfolding tr using rozwidl(2,4,7) t by auto
    qed (use rozwidl(2,4,6,7,10) cz t in auto)
  next
    case (dziecko p l f q i j)
    have cz: "czekaja d u' = czekaja d u" for d by (simp add: czekaja_def dziecko(12))
    note t = prod_cons_inne_punkty(2)[OF dziecko(3), of j]
    show ?thesis
    proof (rule pc_cv_poza[OF u V])
      show "po_widoku trzyma (wid u') r = po_widoku trzyma (wid u) r" for r unfolding tr using dziecko(2,4,8) t by auto
    qed (use dziecko(2,4,7,8,11) cz t in auto)
  next
    case (zabij p l)
    then show ?thesis by (intro pc_cv_nikt) simp
  qed
qed

section \<open>The program does not get stuck\<close>

lemma prod_cons_stan_cv:
  assumes "prod_cons_stan E A p u"
  shows "pc_cv A u"
  using assms unfolding prod_cons_stan_def
proof (induction rule: osiagalny.induct)
  case (start u)
  then have "abstr (serw u) = monitor0" using main_start_ok[of E] by (auto simp: poczatek_ukladu_def)
  then have "czekaja d u = {}" for d by (simp add: czekaja_def czekajacy_na_def monitor0_def)
  then show ?case by (rule pc_cv_nikt)
next
  case (dalej u u')
  note I = prod_cons_stan_inw[unfolded prod_cons_stan_def, OF dalej(1)]
  show ?case by (rule pc_cv_inw[OF I dalej(2,3)])
qed

text \<open>A process in its critical section can go on: it never finds the pipe empty.\<close>

lemma pc_idzie:
  assumes S: "spojny E (endpointy E) MAX_CZEKA {pc_mutex A} {buf_not_empty A, buf_not_full} u" and w: "wylaczny (pc_mutex A) pc_kryt u"
    and I: "pc_inw A g u" and p: "stany u p = Dziala l" and n: "\<And>f. prod_cons A l \<noteq> Czekaj_dziecka f"
  shows "\<exists>u'. krok_ukladu E (prod_cons A) (endpointy E) MAX_CZEKA u u'"
proof (rule pc.krok_istnieje[OF S p n])
  fix f assume f: "prod_cons A l = Odczyt f"
  note D = pc_inwD[OF I p] and t = prod_cons_trzyma(4)[OF f]
  have "praca A g u" using D(5) f by auto
  then obtain fp fc W ds b where d: "dane A fp fc W ds b (wid u) (potok u)" by (rule pracaE)
  have "po_widoku trzyma (wid u) q = None" for q
    using t p spokojni_widok(1)[OF spokojni_w_sekcji[OF w D(1) p], of q] by (cases "q = p") (auto simp: po_widoku_def)
  then show "potok u \<noteq> []" using daneD(2)[OF d] by (auto simp: miejsce_b_def)
qed

text \<open>When nobody can take a step, every child waits for an event.\<close>

lemma pc_stoi:
  assumes S: "spojny E (endpointy E) MAX_CZEKA {pc_mutex A} {buf_not_empty A, buf_not_full} u" and w: "wylaczny (pc_mutex A) pc_kryt u"
    and I: "pc_inw A g u" and n: "\<nexists>u'. krok_ukladu E (prod_cons A) (endpointy E) MAX_CZEKA u u'"
  shows "stany u q = Dziala l \<Longrightarrow> q = g \<and> ((\<exists>k. l = G_wait k \<and> k > 0) \<or> l = G_dzieci)"
    "stany u q = Zablokowany f \<Longrightarrow> q \<in> czekaja (buf_not_empty A) u \<or> q \<in> czekaja buf_not_full u"
proof -
  have d: "q = g \<and> ((\<exists>k. l = G_wait k \<and> k > 0) \<or> l = G_dzieci)" if q: "stany u q = Dziala l" for q l
  proof -
    obtain f where "prod_cons A l = Czekaj_dziecka f" using pc_idzie[OF S w I q] n by blast
    with prod_cons_akcje(3)[OF this] pc_inwD(3)[OF I q] show ?thesis by (auto simp: pc_dziecka_def)
  qed
  show "q = g \<and> ((\<exists>k. l = G_wait k \<and> k > 0) \<or> l = G_dzieci)" if "stany u q = Dziala l" using d[OF that] .
  show "q \<in> czekaja (buf_not_empty A) u \<or> q \<in> czekaja buf_not_full u" if "stany u q = Zablokowany f"
    by (rule zablokowany_czeka[OF S w that]) (use d in fastforce)+
qed

text \<open>Why each of them waits, when the buffer is \<open>b\<close>.\<close>

lemma pc_stoi_czeka:
  assumes S: "spojny E (endpointy E) MAX_CZEKA {pc_mutex A} {buf_not_empty A, buf_not_full} u" and w: "wylaczny (pc_mutex A) pc_kryt u"
    and I: "pc_inw A g u" and n: "\<nexists>u'. krok_ukladu E (prod_cons A) (endpointy E) MAX_CZEKA u u'" and V: "pc_cv A u" and b: "bufor b u"
    and q: "stany u q = Zablokowany f"
  shows "(\<exists>n. wid u q = Some (C_czytaj n)) \<and> b ! BSIZE = 0 \<and> b ! (BSIZE + 1) = 0 \<or>
    (\<exists>n t k d. wid u q = Some (P_czytaj n t k d)) \<and> b ! BSIZE = int BSIZE"
proof -
  note st = pc_stoi[OF S w I n]
  have K: "pc_kto A u" and pw: "pc_powod A b u" using V b by (auto simp: pc_cv_def)
  have nd: "\<not> dlug_ne b l" "\<not> dlug_nf b l" if "stany u r = Dziala l" for r l using st(1)[OF that] by (auto simp: dlug_ne_def dlug_nf_def)
  have "b ! BSIZE = 0 \<and> b ! (BSIZE + 1) = 0" if "q \<in> czekaja (buf_not_empty A) u"
    using pw nd(1) that unfolding pc_powod_def by blast
  moreover have "b ! BSIZE = int BSIZE" if "q \<in> czekaja buf_not_full u" using pw nd(2) that unfolding pc_powod_def by blast
  ultimately show ?thesis using st(2)[OF q] K unfolding pc_kto_def by blast
qed

text \<open>As many waiting children as \<^verbatim>\<open>main\<close> counts cannot all be consumers.\<close>

lemma konsumenci_liczba:
  assumes co: "cons_ok fc b pr (po_widoku consv w)" and fc: "0 \<le> fc" and Z: "\<And>q. q \<in> Z \<Longrightarrow> \<exists>n. w q = Some (C_czytaj n)"
  shows "int (card Z) \<le> fc"
proof -
  define h where "h = (\<lambda>q. the (po_widoku consv w q))"
  have h: "po_widoku consv w q = Some (h q)" if "q \<in> Z" for q using Z[OF that] by (auto simp: h_def po_widoku_def)
  have "inj_on h Z" using h co unfolding cons_ok_def by (intro inj_onI) metis
  moreover have "h ` Z \<subseteq> {0..<fc}" using h co unfolding cons_ok_def by fastforce
  ultimately have "card Z \<le> card {0..<fc}" by (metis card_image card_mono finite_atLeastLessThan_int)
  then show ?thesis using fc by simp
qed

lemma pc_stoi_glowny:
  assumes S: "spojny E (endpointy E) MAX_CZEKA {pc_mutex A} {buf_not_empty A, buf_not_full} u" and w: "wylaczny (pc_mutex A) pc_kryt u"
    and I: "pc_inw A g u" and n: "\<nexists>u'. krok_ukladu E (prod_cons A) (endpointy E) MAX_CZEKA u u'" and V: "pc_cv A u" and g: "\<And>j. stany u g \<noteq> Zombie j"
  obtains l fp fc W ds b where "stany u g = Dziala l" "dane A fp fc W ds b (wid u) (potok u)" "bufor b u"
    "faza A l (int (card (zywe u - {g}))) fp fc (b ! (BSIZE + 1)) (bez_prod (wid u))"
proof -
  have "\<not> przed_startem A g u"
  proof
    assume pr: "przed_startem A g u"
    then obtain l where l: "stany u g = Dziala l" using g by (auto simp: przed_startem_def)
    from przed_proces[OF pr l] pc_stoi(1)[OF S w I n l] show False by auto
  qed
  then have "praca A g u" using I g by (auto simp: pc_inw_def zabita_def)
  then obtain fp fc W ds b where D: "dane A fp fc W ds b (wid u) (potok u)" and G: "pc_glowny A g fp fc b u" by (rule pracaE)
  have b: "bufor b u" using daneD(2)[OF D] by (simp add: bufor_def)
  have "stany u g \<noteq> Zablokowany f" for f
  proof
    assume f: "stany u g = Zablokowany f"
    then have "wid u g = Some (f OK)" by simp
    note faza_pola[OF pc_glowny_faza[OF G this]]
    with pc_stoi_czeka[OF S w I n V b f] f show False by auto
  qed
  then obtain l where l: "stany u g = Dziala l" using G g by (cases "stany u g") (auto simp: pc_glowny_def)
  then have "wid u g = Some l" by simp
  from that[OF l D b pc_glowny_faza[OF G this]] show thesis .
qed

lemma pc_stoi_dzieci:
  assumes S: "spojny E (endpointy E) MAX_CZEKA {pc_mutex A} {buf_not_empty A, buf_not_full} u" and w: "wylaczny (pc_mutex A) pc_kryt u"
    and I: "pc_inw A g u" and n: "\<nexists>u'. krok_ukladu E (prod_cons A) (endpointy E) MAX_CZEKA u u'" and l: "stany u g = Dziala l"
  shows "q \<noteq> g \<Longrightarrow> stany u q \<noteq> Nie_ma \<Longrightarrow> \<exists>h. stany u q = Zablokowany h" "\<exists>q h. stany u q = Zablokowany h"
proof -
  have dz: "rodzic u q = g" if "q \<noteq> g" "stany u q \<noteq> Nie_ma" for q using I that by (auto simp: pc_inw_def pc_dzieci_def)
  have rg: "rodzic u g \<noteq> g" using I by (auto simp: pc_inw_def pc_dzieci_def)
  obtain f where f: "prod_cons A l = Czekaj_dziecka f" using pc_idzie[OF S w I l] n by blast
  have blok: "\<exists>h. stany u q = Zablokowany h" if q: "q \<noteq> g" "stany u q \<noteq> Nie_ma" for q
  proof (cases "stany u q")
    case (Zombie j)
    from krok_ukladu.dziecko[of u g l "prod_cons A" f q j 1, OF l f Zombie dz[OF q] zero_less_one] n show ?thesis by blast
  qed (use pc_stoi(1)[OF S w I n] q in blast)+
  then show "q \<noteq> g \<Longrightarrow> stany u q \<noteq> Nie_ma \<Longrightarrow> \<exists>h. stany u q = Zablokowany h" .
  show "\<exists>q h. stany u q = Zablokowany h"
  proof (rule ccontr)
    assume "\<nexists>q h. stany u q = Zablokowany h"
    then have "\<forall>q. rodzic u q = g \<longrightarrow> stany u q = Nie_ma" using rg blok by metis
    from krok_ukladu.bez_dzieci[of u g l "prod_cons A" f, OF l f this] n show False by blast
  qed
qed

lemma pc_nie_stoi:
  assumes S: "spojny E (endpointy E) MAX_CZEKA {pc_mutex A} {buf_not_empty A, buf_not_full} u" and w: "wylaczny (pc_mutex A) pc_kryt u"
    and I: "pc_inw A g u" and V: "pc_cv A u" and c: "0 < cons A" and g: "\<And>j. stany u g \<noteq> Zombie j"
  shows "\<exists>u'. krok_ukladu E (prod_cons A) (endpointy E) MAX_CZEKA u u'"
proof (rule ccontr)
  assume n: "\<nexists>u'. krok_ukladu E (prod_cons A) (endpointy E) MAX_CZEKA u u'"
  obtain l fp fc W ds b where l: "stany u g = Dziala l" and D: "dane A fp fc W ds b (wid u) (potok u)" and b: "bufor b u"
    and fz: "faza A l (int (card (zywe u - {g}))) fp fc (b ! (BSIZE + 1)) (bez_prod (wid u))"
    by (rule pc_stoi_glowny[OF S w I n V g])
  note blok = pc_stoi_dzieci[OF S w I n l] and czy = pc_stoi_czeka[OF S w I n V b]
  from pc_stoi(1)[OF S w I n l] show False
  proof (elim conjE disjE exE)
    assume "l = G_dzieci"
    with fz have np: "bez_prod (wid u)" "b ! (BSIZE + 1) = 1" by simp_all
    from blok(2) obtain q h where "stany u q = Zablokowany h" by blast
    from czy[OF this] np(2) obtain i t k v where "wid u q = Some (P_czytaj i t k v)" by auto
    then have "po_widoku prodv (wid u) q = Some i" by (simp add: po_widoku_def)
    with np(1) show False by (simp add: bez_prod_def)
  next
    fix k assume k: "l = G_wait k" "k > 0"
    with fz have fk: "fc = cons A" "int (card (zywe u - {g})) = k + cons A" "b ! (BSIZE + 1) = 0" by simp_all
    have "\<exists>q. po_widoku consv (wid u) q = Some 0" using daneD(5)[OF D] c fk(1,3) unfolding cons_ok_def by auto
    then obtain q0 l0 where q0: "wid u q0 = Some l0" "consv l0 = Some 0" by (auto simp: po_widoku_def bind_eq_Some_conv)
    then have "q0 \<noteq> g" "stany u q0 \<noteq> Nie_ma" using l k(1) by auto
    then obtain h0 where "stany u q0 = Zablokowany h0" using blok(1) by blast
    from czy[OF this] q0 have b0: "b ! BSIZE = 0" by auto
    have kon: "\<exists>n. wid u q = Some (C_czytaj n)" if "q \<in> zywe u - {g}" for q
    proof -
      from that blok(1)[of q] obtain h where "stany u q = Zablokowany h" by (auto simp: zywe_def)
      from czy[OF this] b0 show ?thesis by (auto simp: BSIZE_def)
    qed
    have "int (card (zywe u - {g})) \<le> fc" by (rule konsumenci_liczba[OF daneD(5)[OF D] _ kon]) (use c fk(1) in simp_all)
    with fk k(2) show False by linarith
  qed
qed

text \<open>
  C18. The test program \<^verbatim>\<open>prod_cons\<close> with at least one consumer never gets stuck, whatever the order in which its processes run: as long as its
  \<^verbatim>\<open>main\<close> has not ended, some process can take a step. No wake-up is lost.
\<close>

theorem prod_cons_nie_staje:
  assumes "prod_cons_stan E A p u" "0 < cons A"
  shows "(\<exists>j. stany u p = Zombie j) \<or> (\<exists>u'. krok_ukladu E (prod_cons A) (endpointy E) MAX_CZEKA u u')"
  using pc_nie_stoi[OF prod_cons_stan_inw[OF assms(1)] prod_cons_stan_cv[OF assms(1)] assms(2)] by blast

theorem prod_cons_nie_staje_przyklad:
  "\<exists>u u'. prod_cons_stan srod0 pc1 10 u \<and> 30 \<in> czekaja (buf_not_empty pc1) u \<and> krok_ukladu srod0 (prod_cons pc1) (endpointy srod0) MAX_CZEKA u u'"
proof -
  have "case wykonaj_plan (prod_cons pc1) [pc_mutex pc1] MAX_CZEKA (take 10 pc_plan) (przebieg0 10 G_start) of None \<Rightarrow> False
      | Some s \<Rightarrow> \<not> zakonczony 0 (p_stany s 10) \<and> trwa (p_stany s 10) \<and> 30 \<in> fst ` set (czekajacy_na (buf_not_empty pc1) (p_mon s))"
    by code_simp
  then obtain s where s: "wykonaj_plan (prod_cons pc1) [pc_mutex pc1] MAX_CZEKA (take 10 pc_plan) (przebieg0 10 G_start) = Some s"
    "trwa (p_stany s 10)" "30 \<in> fst ` set (czekajacy_na (buf_not_empty pc1) (p_mon s))"
    by (auto split: option.splits)
  have "dzieci_planu (take 10 pc_plan) \<subseteq> endpointy srod0" by (auto simp: dzieci_planu_def pc_plan_def endpointy0 numeral_eq_Suc)
  from pc.plan_od_poczatku[OF endpointy0(1) _ _ s(1) this] obtain u where u: "prod_cons_stan srod0 pc1 10 u" "zgodny u s"
    by (auto simp: prod_cons_stan_def MAX_CZEKA_def)
  have "stany u 10 \<noteq> Zombie j" for j using u(2) s(2) by (auto simp: zgodny_def)
  moreover have "0 < cons pc1" by (simp add: pc1_def)
  ultimately obtain u' where "krok_ukladu srod0 (prod_cons pc1) (endpointy srod0) MAX_CZEKA u u'" using prod_cons_nie_staje[OF u(1)] by blast
  moreover have "30 \<in> czekaja (buf_not_empty pc1) u" using u(2) s(3) by (simp add: zgodny_def czekaja_def)
  ultimately show ?thesis using u(1) by blast
qed

end
