(* ===== verification/Jeden_Proces.thy ===== *)
theory Jeden_Proces
  imports Klient Wydruk "HOL-Library.Word"
begin

text \<open>
  The test programs with one process, \<^verbatim>\<open>testy/src/lock_unlock.c\<close> and \<^verbatim>\<open>testy/src/simple_many.c\<close>, as functions that call the client library
  of \<open>Libc\<close>, connected to the server of \<open>Serwer\<close>: what they print is the template of the test. The second one takes as many mutexes
  at once as the table of the server has slots, and multiplies numbers whose product does not fit: what it does then is a parameter.
\<close>

section \<open>The programs\<close>

definition nl :: char where "nl = CHR 0x0A"

text \<open>A program that returns gives its output, its exit status and the state of the process.\<close>

type_synonym 'w wynik = "string \<times> int \<times> 'w klient"

subsection \<open>lock\_unlock\<close>

definition wypisz_wynik :: "int \<Rightarrow> int \<Rightarrow> string" where
  "wypisz_wynik res err = ''res:'' @ dziesietnie res @ [nl] @ (if res \<noteq> 0 then ''errno:'' @ dziesietnie err @ '' '' @ [nl] else [])"

definition lock_unlock :: "'w system \<Rightarrow> 'w klient \<Rightarrow> 'w wynik option" where
  "lock_unlock S k =
     do {
       (res1, k1) \<leftarrow> libc_cs_lock S 1 k;
       let (res2, k2) = libc_cs_unlock S 2 k1;
       let (res3, k3) = libc_cs_unlock S 1 k2;
       let (res4, k4) = libc_cs_unlock S 1 k3;
       Some (wypisz_wynik res1 (errno k1) @ wypisz_wynik res2 (errno k2) @ wypisz_wynik res3 (errno k3) @ wypisz_wynik res4 (errno k4), 0, k4)
     }"

subsection \<open>simple\_many\<close>

definition magicP :: int where "magicP = 2 ^ 28 - 273"

text \<open>
  The product \<^verbatim>\<open>i*magicP\<close> of two values of the type \<^verbatim>\<open>int\<close>, of 32 bits. The C language does not define it when it does not fit;
  \<open>h\<close> is what the compiled program gives then, \<^term>\<open>None\<close> for undefined behaviour.
\<close>

definition razy_magicP :: "(int \<Rightarrow> int option) \<Rightarrow> int \<Rightarrow> int option" where
  "razy_magicP h i = (if - (2 ^ 31) \<le> i * magicP \<and> i * magicP < 2 ^ 31 then Some (i * magicP) else h (i * magicP))"

text \<open>The processor's multiplication wraps around.\<close>

definition zawija :: "int \<Rightarrow> int option" where
  "zawija x = Some (sint (word_of_int x :: 32 word))"

text \<open>
  A loop that calls \<open>f\<close> for the numbers of a list and prints a line for each; \<^verbatim>\<open>fail\<close> ends the program with status 2 when a call does
  not return 0.
\<close>

fun petla :: "string \<Rightarrow> (int \<Rightarrow> 'w klient \<Rightarrow> (int \<times> 'w klient) option) \<Rightarrow> int list \<Rightarrow> string \<Rightarrow> 'w klient \<Rightarrow> 'w wynik option" where
  "petla c f [] out k = Some (out, 0, k)"
| "petla c f (i # is) out k =
     do {
       (res, k) \<leftarrow> f i k;
       if res \<noteq> 0 then Some (out, 2, k) else petla c f is (out @ c @ dziesietnie i @ [nl]) k
     }"

definition po_petli :: "'w wynik option \<Rightarrow> (string \<Rightarrow> 'w klient \<Rightarrow> 'w wynik option) \<Rightarrow> 'w wynik option" where
  "po_petli r f = do { (out, e, k) \<leftarrow> r; if e \<noteq> 0 then Some (out, e, k) else f out k }"

definition zajmij :: "(int \<Rightarrow> int option) \<Rightarrow> 'w system \<Rightarrow> int \<Rightarrow> 'w klient \<Rightarrow> (int \<times> 'w klient) option" where
  "zajmij h S i k = do { n \<leftarrow> razy_magicP h i; libc_cs_lock S n k }"

definition zwolnij :: "(int \<Rightarrow> int option) \<Rightarrow> 'w system \<Rightarrow> int \<Rightarrow> 'w klient \<Rightarrow> (int \<times> 'w klient) option" where
  "zwolnij h S i k = do { n \<leftarrow> razy_magicP h i; Some (libc_cs_unlock S n k) }"

definition simple_many :: "(int \<Rightarrow> int option) \<Rightarrow> 'w system \<Rightarrow> 'w klient \<Rightarrow> 'w wynik option" where
  "simple_many h S k =
     po_petli (petla ''l: '' (zajmij h S) [1..1024] [] k) (\<lambda>out k.
     po_petli (petla ''u: '' (zwolnij h S) [1..1024] out k) (\<lambda>out k.
     po_petli (petla ''l: '' (zajmij h S) [1025..2048] out k) (\<lambda>out k.
     po_petli (petla ''u: '' (zwolnij h S) (rev [1025..2048]) out k) (\<lambda>out k.
     po_petli (petla ''l: '' (zajmij h S) [1..1024] out k) (\<lambda>out k.
     petla ''u: '' (zwolnij h S) (map (\<lambda>i. (i * 173) mod 1024 + 1) [1..1024]) out k)))))"

section \<open>A process that is alone\<close>

text \<open>The server after the process \<open>p\<close>, the only client so far, has taken the mutexes \<open>X\<close>.\<close>

definition sam :: "srodowisko \<Rightarrow> int \<Rightarrow> int set \<Rightarrow> serwer klient \<Rightarrow> bool" where
  "sam E p X k \<longleftrightarrow> stan_serwera E (swiat k) \<and> abstr (swiat k) = \<lparr>mut = (\<lambda>n. if n \<in> X then Some (p, []) else None), zdarz = Map.empty\<rparr>"

lemma sam_poczatek: "main_start E = Some s \<Longrightarrow> sam E p {} \<lparr>errno = e, swiat = s\<rparr>"
  using main_start_ok[of E] by (auto simp: sam_def monitor0_def stan_serwera_def intro: osiagalny.start)

text \<open>A request that the server answers at once.\<close>

lemma sam_zadanie:
  assumes S: "polaczony E p S" and k: "sam E p X k" and t: "zadanie_klienta (zadanie p t n 0)" and X: "finite X'" "card X' \<le> MAX_MUTEX"
    and r: "a_klient (zadanie p t n 0) (abstr (swiat k)) = ([(p, r)], \<lparr>mut = (\<lambda>n. if n \<in> X' then Some (p, []) else None), zdarz = Map.empty\<rparr>)"
  obtains s where "send_message S t n 0 k = wynik_syscall r s k" "\<And>e. sam E p X' \<lparr>errno = e, swiat = s\<rparr>"
proof -
  let ?m = "zadanie p t n 0" and ?\<sigma> = "\<lparr>mut = (\<lambda>n. if n \<in> X' then Some (p, []) else None), zdarz = Map.empty\<rparr>"
  have st: "stan_serwera E (swiat k)" using k by (simp add: sam_def)
  have kr: "a_krok ?m (abstr (swiat k)) = ?\<sigma>" using t r by (simp add: a_krok_def zadanie_klienta_def)
  have "dom (mut ?\<sigma>) = X'" by (auto split: if_splits)
  then have fit: "miesci_sie (a_krok ?m (abstr (swiat k)))" unfolding kr using X by (intro miesci_sie_map) auto
  have nc: "\<not> czeka p (abstr (swiat k))" using k by (auto simp: sam_def czeka_def miejsca_def split: if_splits)
  have "przyjmowalna ?m (swiat k)" using fit nc t by (simp add: przyjmowalna_def dopuszczalny_def zadanie_klienta_def cs_defs)
  from stan_serwera_krok[OF st this] obsluga_klienta_stan[OF st t fit] kr r
  obtain s where s: "obslugaWiadomosci E ?m (swiat k) = Some s" "stan_serwera E s" "abstr s = ?\<sigma>" "wyslane s = wyslane (swiat k) @ [(p, r)]"
    by (metis fst_conv option.inject)
  have "send_message S t n 0 k = wynik_syscall r s k" by (rule send_message_odpowiedz[OF S, of _ _ _ _ _ "[]"]) (use s in \<open>simp_all add: zadanie_def\<close>)
  with that[of s] s show thesis by (simp add: sam_def)
qed

lemma sam_lock:
  assumes S: "polaczony E p S" and k: "sam E p X k" and n: "n \<notin> X" "finite X" "card X < MAX_MUTEX"
  shows "\<exists>k'. libc_cs_lock S n k = Some (0, k') \<and> sam E p (insert n X) k'"
proof -
  have "a_klient (zadanie p CS_LOCK n 0) (abstr (swiat k)) = ([(p, OK)], \<lparr>mut = (\<lambda>i. if i \<in> insert n X then Some (p, []) else None), zdarz = Map.empty\<rparr>)"
    using k n(1) by (auto simp: sam_def krok_monitora a_lock_def cs_defs errno_defs zadanie_def fun_eq_iff)
  then obtain s where "send_message S CS_LOCK n 0 k = wynik_syscall OK s k" "\<And>e. sam E p (insert n X) \<lparr>errno = e, swiat = s\<rparr>"
    using n by (elim sam_zadanie[OF S k, rotated 3]) (simp_all add: zadanie_klienta_def zadanie_def cs_defs)
  then show ?thesis by (subst libc_cs_lock.simps) (cases k, auto simp: wynik_syscall_def OK_def)
qed

lemma sam_unlock:
  assumes S: "polaczony E p S" and k: "sam E p X k" and X: "finite X" "card X \<le> MAX_MUTEX"
  shows "n \<in> X \<Longrightarrow> \<exists>k'. libc_cs_unlock S n k = (0, k') \<and> sam E p (X - {n}) k'"
    "n \<notin> X \<Longrightarrow> \<exists>k'. libc_cs_unlock S n k = (- 1, k') \<and> errno k' = 1 \<and> sam E p X k'"
proof -
  have t: "zadanie_klienta (zadanie p CS_UNLOCK n 0)" by (simp add: zadanie_klienta_def zadanie_def cs_defs)
  show "\<exists>k'. libc_cs_unlock S n k = (0, k') \<and> sam E p (X - {n}) k'" if n: "n \<in> X"
  proof -
    have "a_klient (zadanie p CS_UNLOCK n 0) (abstr (swiat k)) = ([(p, OK)], \<lparr>mut = (\<lambda>i. if i \<in> X - {n} then Some (p, []) else None), zdarz = Map.empty\<rparr>)"
      using k n by (auto simp: sam_def krok_monitora a_unlock_def cs_defs errno_defs zadanie_def fun_eq_iff)
    moreover have "card (X - {n}) \<le> MAX_MUTEX" using X by (metis card_Diff1_le le_trans)
    ultimately obtain s where "send_message S CS_UNLOCK n 0 k = wynik_syscall OK s k" "\<And>e. sam E p (X - {n}) \<lparr>errno = e, swiat = s\<rparr>"
      using X by (elim sam_zadanie[OF S k t, rotated 2]) simp_all
    then show ?thesis by (cases k) (auto simp: libc_cs_unlock_def wynik_syscall_def OK_def)
  qed
  show "\<exists>k'. libc_cs_unlock S n k = (- 1, k') \<and> errno k' = 1 \<and> sam E p X k'" if n: "n \<notin> X"
  proof -
    have "a_klient (zadanie p CS_UNLOCK n 0) (abstr (swiat k)) = ([(p, EPERM)], \<lparr>mut = (\<lambda>i. if i \<in> X then Some (p, []) else None), zdarz = Map.empty\<rparr>)"
      using k n by (auto simp: sam_def krok_monitora a_unlock_def cs_defs errno_defs zadanie_def)
    then obtain s where "send_message S CS_UNLOCK n 0 k = wynik_syscall EPERM s k" "\<And>e. sam E p X \<lparr>errno = e, swiat = s\<rparr>"
      using X by (elim sam_zadanie[OF S k t, rotated 2]) simp_all
    then show ?thesis by (auto simp: libc_cs_unlock_def wynik_syscall_def EPERM_def)
  qed
qed

text \<open>
  C19. The test program \<^verbatim>\<open>lock_unlock\<close>, run on a server that has just started, prints exactly the template \<^verbatim>\<open>u1t1.out\<close> of the test and
  returns 0: its second and its fourth call are refused with \<^verbatim>\<open>EPERM\<close>, the others succeed.
\<close>

theorem lock_unlock_wzorzec:
  assumes "polaczony E p S" "main_start E = Some s"
  shows "\<exists>k'. lock_unlock S \<lparr>errno = e, swiat = s\<rparr> = Some (''res:0'' @ [nl] @ ''res:-1'' @ [nl] @ ''errno:1 '' @ [nl] @ ''res:0'' @ [nl] @ ''res:-1'' @ [nl] @ ''errno:1 '' @ [nl], 0, k')"
proof -
  let ?k = "\<lparr>errno = e, swiat = s\<rparr>"
  have m: "0 < MAX_MUTEX" "Suc 0 \<le> MAX_MUTEX" by (simp_all add: MAX_MUTEX_def)
  obtain k1 where k1: "libc_cs_lock S 1 ?k = Some (0, k1)" "sam E p {1} k1"
    using sam_lock[OF assms(1) sam_poczatek[OF assms(2)], of 1] m by auto
  obtain k2 where k2: "libc_cs_unlock S 2 k1 = (- 1, k2)" "errno k2 = 1" "sam E p {1} k2" using sam_unlock(2)[OF assms(1) k1(2), of 2] m by auto
  obtain k3 where k3: "libc_cs_unlock S 1 k2 = (0, k3)" "sam E p {} k3" using sam_unlock(1)[OF assms(1) k2(3), of 1] m by auto
  obtain k4 where k4: "libc_cs_unlock S 1 k3 = (- 1, k4)" "errno k4 = 1" using sam_unlock(2)[OF assms(1) k3(2), of 1] m by auto
  have d: "dziesietnie 0 = ''0''" "dziesietnie 1 = ''1''" "dziesietnie (- 1) = ''-1''" by code_simp+
  show ?thesis by (simp add: lock_unlock_def k1 k2 k3 k4 wypisz_wynik_def d)
qed

theorem lock_unlock_wzorzec_przyklad:
  "\<exists>s k'. main_start srod0 = Some s \<and> lock_unlock (polacz srod0 20) \<lparr>errno = 0, swiat = s\<rparr> =
     Some (''res:0'' @ [nl] @ ''res:-1'' @ [nl] @ ''errno:1 '' @ [nl] @ ''res:0'' @ [nl] @ ''res:-1'' @ [nl] @ ''errno:1 '' @ [nl], 0, k')"
proof -
  obtain s where "main_start srod0 = Some s" using main_start_ok[of srod0] by blast
  with lock_unlock_wzorzec[OF polacz_polaczony this, of 20 0] show ?thesis by blast
qed

section \<open>As many mutexes as the table holds\<close>

text \<open>The factor is odd, so different numbers give different mutexes in spite of the wrap-around.\<close>

lemma mnozenie_roznowartosciowe:
  fixes i j a m :: int
  assumes "coprime m a" "(i * a) mod m = (j * a) mod m" "\<bar>i - j\<bar> < m"
  shows "i = j"
proof -
  have "m dvd i * a - j * a" using assms(2) by (simp add: mod_eq_dvd_iff)
  then have "m dvd (i - j) * a" by (simp add: left_diff_distrib)
  then have "m dvd i - j" using assms(1) by (simp add: coprime_dvd_mult_left_iff)
  then show ?thesis using assms(3) dvd_imp_le_int[of "i - j" m] by fastforce
qed

lemma razy_magicP_zawija: "razy_magicP zawija i = Some (sint (word_of_int (i * magicP) :: 32 word))"
proof -
  have "sint (word_of_int x :: 32 word) = x" if "- (2 ^ 31) \<le> x" "x < 2 ^ 31" for x :: int
    using that by (simp add: sint_sbintrunc' signed_take_bit_int_eq_self)
  from this[of "i * magicP"] show ?thesis by (simp add: razy_magicP_def zawija_def del: of_int_mult)
qed

lemma zawijanie_inj: "inj_on (\<lambda>i. sint (word_of_int (i * magicP) :: 32 word)) {1..2048}"
proof (rule inj_onI)
  fix i j assume ij: "i \<in> {1..2048}" "j \<in> {1..2048}" "sint (word_of_int (i * magicP) :: 32 word) = sint (word_of_int (j * magicP) :: 32 word)"
  then have "(word_of_int (i * magicP) :: 32 word) = word_of_int (j * magicP)" by (intro signed_word_eqI)
  then have "(i * magicP) mod 2 ^ 32 = (j * magicP) mod 2 ^ 32" unfolding word_of_int_eq_iff by (simp add: take_bit_eq_mod)
  moreover have "odd magicP" by (simp add: magicP_def)
  then have "coprime (2 ^ 32) magicP" by (subst coprime_power_left_iff) simp
  ultimately show "i = j" by (intro mnozenie_roznowartosciowe[of "2 ^ 32" magicP i j]) (use ij in auto)
qed

lemma permutacja_173:
  "distinct (map (\<lambda>i. (i * 173) mod 1024 + 1) [1..1024])" "set (map (\<lambda>i. (i * 173) mod 1024 + 1) [1..1024]) = {1..1024::int}"
proof -
  have "inj_on (\<lambda>i. (i * 173) mod 1024 + 1) {1..1024::int}"
  proof (rule inj_onI)
    fix i j :: int assume ij: "i \<in> {1..1024}" "j \<in> {1..1024}" "(i * 173) mod 1024 + 1 = (j * 173) mod 1024 + 1"
    have "coprime (2 ^ 10) (173::int)" by (subst coprime_power_left_iff) simp
    then have "coprime (1024::int) 173" by simp
    then show "i = j" by (rule mnozenie_roznowartosciowe) (use ij in auto)
  qed
  note inj = this
  from inj show "distinct (map (\<lambda>i. (i * 173) mod 1024 + 1) [1..1024])" unfolding distinct_map set_upto by (simp only: distinct_upto)
  have "(\<lambda>i. (i * 173) mod 1024 + 1) ` {1..1024} \<subseteq> {1..1024::int}" by (auto simp: add1_zle_eq)
  with inj have "(\<lambda>i. (i * 173) mod 1024 + 1) ` {1..1024} = {1..1024::int}" by (intro endo_inj_surj) auto
  then show "set (map (\<lambda>i. (i * 173) mod 1024 + 1) [1..1024]) = {1..1024::int}" by (simp only: set_map set_upto)
qed

definition linie :: "string \<Rightarrow> int list \<Rightarrow> string" where
  "linie c is = concat (map (\<lambda>i. c @ dziesietnie i @ [nl]) is)"

lemma petla_przerwana:
  "petla c f is out k = Some (out', 0, k') \<Longrightarrow> f j k' = None \<Longrightarrow> petla c f (is @ j # js) out k = None"
proof (induction "is" arbitrary: out k)
  case (Cons i "is")
  then show ?case by (cases "f i k") (auto split: if_splits)
qed simp

lemma petla_zajmij:
  assumes "polaczony E p S" "\<forall>i \<in> set is. razy_magicP h i = Some (f i)" "sam E p (f ` X) k" "distinct is" "set is \<inter> X = {}"
    "finite X" "inj_on f (set is \<union> X)" "card X + length is \<le> MAX_MUTEX"
  shows "\<exists>k'. petla c (zajmij h S) is out k = Some (out @ linie c is, 0, k') \<and> sam E p (f ` (set is \<union> X)) k'"
  using assms(2-)
proof (induction "is" arbitrary: X out k)
  case (Cons i "is")
  have "f i \<notin> f ` X" using Cons.prems(4,6) inj_on_image_mem_iff[of f "set (i # is) \<union> X" i X] by auto
  moreover have "card (f ` X) < MAX_MUTEX" using card_image_le[OF Cons.prems(5), of f] Cons.prems(7) by simp
  ultimately obtain k1 where k1: "zajmij h S i k = Some (0, k1)" "sam E p (f ` insert i X) k1"
    using sam_lock[OF assms(1) Cons.prems(2), of "f i"] Cons.prems(1,5) by (auto simp: zajmij_def)
  have "card (insert i X) + length is \<le> MAX_MUTEX" using Cons.prems(4,5,7) by simp
  with Cons.IH[OF _ k1(2), of "out @ c @ dziesietnie i @ [nl]"] Cons.prems show ?case by (simp add: k1(1) linie_def)
qed (simp add: linie_def)

lemma petla_zwolnij:
  assumes "polaczony E p S" "\<forall>i \<in> set is. razy_magicP h i = Some (f i)" "sam E p (f ` X) k" "distinct is" "set is \<subseteq> X"
    "finite X" "inj_on f X" "card X \<le> MAX_MUTEX"
  shows "\<exists>k'. petla c (zwolnij h S) is out k = Some (out @ linie c is, 0, k') \<and> sam E p (f ` (X - set is)) k'"
  using assms(2-)
proof (induction "is" arbitrary: X out k)
  case (Cons i "is")
  have c: "card (f ` X) \<le> MAX_MUTEX" using card_image_le[OF Cons.prems(5), of f] Cons.prems(7) by simp
  have e: "f ` X - {f i} = f ` (X - {i})"
    using Cons.prems(4,6) by (auto dest: inj_onD)
  from sam_unlock(1)[OF assms(1) Cons.prems(2) _ c, of "f i"] Cons.prems(1,4,5)
  obtain k1 where k1: "zwolnij h S i k = Some (0, k1)" "sam E p (f ` (X - {i})) k1" by (auto simp: zwolnij_def e)
  have "card (X - {i}) \<le> MAX_MUTEX" using Cons.prems(5,7) by (metis card_Diff1_le le_trans)
  moreover have "X - insert i (set is) = X - {i} - set is" "inj_on f (X - {i})"
    using Cons.prems(6) by (auto intro: inj_on_subset)
  ultimately show ?case using Cons.IH[OF _ k1(2), of "out @ c @ dziesietnie i @ [nl]"] Cons.prems by (auto simp: k1(1) linie_def)
qed (simp add: linie_def)

text \<open>A whole batch, from no mutex to all of them and back.\<close>

lemma cala_partia:
  assumes "polaczony E p S" "\<forall>i \<in> set is. razy_magicP h i = Some (f i)" "inj_on f (set is)" "distinct is" "length is \<le> MAX_MUTEX"
  shows "sam E p {} k \<Longrightarrow> \<exists>k'. petla ''l: '' (zajmij h S) is out k = Some (out @ linie ''l: '' is, 0, k') \<and> sam E p (f ` set is) k'"
    "sam E p (f ` set is) k \<Longrightarrow> \<exists>k'. petla ''u: '' (zwolnij h S) is out k = Some (out @ linie ''u: '' is, 0, k') \<and> sam E p {} k'"
  using petla_zajmij[OF assms(1,2), where X = "{}" and k = k and c = "''l: ''" and out = out]
    petla_zwolnij[OF assms(1,2), where X = "set is" and k = k and c = "''u: ''" and out = out] assms(3-)
  by (simp_all add: distinct_card)

text \<open>With undefined behaviour as \<^term>\<open>None\<close> the program has no outcome: the ninth product does not fit.\<close>

lemma simple_many_niezdefiniowany:
  assumes "polaczony E p S" "sam E p {} k"
  shows "simple_many (\<lambda>x. None) S k = None"
proof -
  define a where "a = [1..8::int]"
  have a: "set a = {1..8}" "distinct a" "length a = 8" unfolding a_def by simp_all
  have r: "\<forall>i \<in> set a. razy_magicP (\<lambda>x. None) i = Some (i * magicP)" "razy_magicP (\<lambda>x. None) 9 = None"
    by (auto simp: a razy_magicP_def magicP_def)
  have "inj_on (\<lambda>i. i * magicP) (set a)" by (auto simp: inj_on_def magicP_def)
  from cala_partia(1)[OF assms(1) r(1) this a(2) _ assms(2), of "[]"] a(3) obtain k' where
    k': "petla ''l: '' (zajmij (\<lambda>x. None) S) a [] k = Some (linie ''l: '' a, 0, k')" by (auto simp: MAX_MUTEX_def)
  have "[1..1024] = a @ [9..1024]" unfolding a_def using upto_split1[of 1 9 1024] by simp
  also have "[9..1024] = 9 # [10..1024::int]" using upto_rec1[of 9 1024] by simp
  finally have "petla ''l: '' (zajmij (\<lambda>x. None) S) [1..1024] [] k = None"
    using petla_przerwana[OF k', of 9] by (simp only: zajmij_def r(2) bind.simps)
  then show ?thesis unfolding simple_many_def by (simp only: po_petli_def bind.simps)
qed

text \<open>
  C20. The test program \<^verbatim>\<open>simple_many\<close>, run on a server that has just started, takes 1024 mutexes at once, as many as the table holds,
  releases them, and does so again with other numbers and in other orders: when the products \<^verbatim>\<open>i*magicP\<close> have values, different ones within each of the two
  ranges of \<^verbatim>\<open>i\<close>, no call fails, the program prints one line per call, as in the template \<^verbatim>\<open>u1t2.out\<close>, returns 0 and leaves no mutex taken.
  That is so when the products wrap around at 32 bits. But they do not fit, and where an overflow is undefined, as the C language has it, so is the program.
\<close>

theorem simple_many_wzorzec:
  assumes S: "polaczony E p S" and s: "main_start E = Some s"
  shows "((\<forall>i \<in> {1..2048}. razy_magicP h i = Some (f i)) \<and> inj_on f {1..1024} \<and> inj_on f {1025..2048} \<longrightarrow>
      (\<exists>k'. simple_many h S \<lparr>errno = e, swiat = s\<rparr> =
        Some (linie ''l: '' [1..1024] @ linie ''u: '' [1..1024] @ linie ''l: '' [1025..2048] @ linie ''u: '' (rev [1025..2048]) @
          linie ''l: '' [1..1024] @ linie ''u: '' (map (\<lambda>i. (i * 173) mod 1024 + 1) [1..1024]), 0, k') \<and> abstr (swiat k') = monitor0)) \<and>
    (\<forall>i. razy_magicP zawija i = Some (sint (word_of_int (i * magicP) :: 32 word))) \<and>
    inj_on (\<lambda>i. sint (word_of_int (i * magicP) :: 32 word)) {1..2048} \<and>
    simple_many (\<lambda>x. None) S \<lparr>errno = e, swiat = s\<rparr> = None"
proof (intro conjI impI allI razy_magicP_zawija zawijanie_inj)
  have k0: "sam E p {} \<lparr>errno = e, swiat = s\<rparr>" using sam_poczatek[OF s] by simp
  show "simple_many (\<lambda>x. None) S \<lparr>errno = e, swiat = s\<rparr> = None" by (rule simple_many_niezdefiniowany[OF S k0])
  assume h: "(\<forall>i \<in> {1..2048}. razy_magicP h i = Some (f i)) \<and> inj_on f {1..1024} \<and> inj_on f {1025..2048}"
  define a b c where "a = [1..1024::int]" and "b = [1025..2048::int]" and "c = map (\<lambda>i. (i * 173) mod 1024 + 1) a"
  have l: "distinct a" "set a = {1..1024}" "length a = MAX_MUTEX" "distinct b" "set b = {1025..2048}" "length b = MAX_MUTEX" "distinct c" "set c = {1..1024}" "length c = MAX_MUTEX"
    using permutacja_173 unfolding c_def a_def b_def length_upto length_map MAX_MUTEX_def by (simp_all only: distinct_upto set_upto)
  note a = cala_partia[OF S, of a h f] and b = cala_partia(1)[OF S, of b h f] and rb = cala_partia(2)[OF S, of "rev b" h f] and c = cala_partia(2)[OF S, of c h f]
  define o1 o2 o3 o4 o5 where "o1 = linie ''l: '' a" and "o2 = o1 @ linie ''u: '' a" and "o3 = o2 @ linie ''l: '' b"
    and "o4 = o3 @ linie ''u: '' (rev b)" and "o5 = o4 @ linie ''l: '' a"
  obtain k1 where k1: "petla ''l: '' (zajmij h S) a [] \<lparr>errno = e, swiat = s\<rparr> = Some (o1, 0, k1)" "sam E p (f ` set a) k1"
    using a(1)[OF _ _ _ _ k0, of "[]"] l h by (auto simp: o1_def)
  obtain k2 where k2: "petla ''u: '' (zwolnij h S) a o1 k1 = Some (o2, 0, k2)" "sam E p {} k2"
    using a(2)[OF _ _ _ _ k1(2), of o1] l h by (auto simp: o2_def)
  obtain k3 where k3: "petla ''l: '' (zajmij h S) b o2 k2 = Some (o3, 0, k3)" "sam E p (f ` set b) k3"
    using b[OF _ _ _ _ k2(2), of o2] l h by (auto simp: o3_def)
  obtain k4 where k4: "petla ''u: '' (zwolnij h S) (rev b) o3 k3 = Some (o4, 0, k4)" "sam E p {} k4"
    using rb[of k3 o3] k3(2) l h by (auto simp: o4_def)
  obtain k5 where k5: "petla ''l: '' (zajmij h S) a o4 k4 = Some (o5, 0, k5)" "sam E p (f ` set c) k5"
    using a(1)[OF _ _ _ _ k4(2), of o4] l h by (auto simp: o5_def)
  obtain k6 where k6: "petla ''u: '' (zwolnij h S) c o5 k5 = Some (o5 @ linie ''u: '' c, 0, k6)" "sam E p {} k6"
    using c[OF _ _ _ _ k5(2), of o5] l h by auto
  have "simple_many h S \<lparr>errno = e, swiat = s\<rparr> = Some (o5 @ linie ''u: '' c, 0, k6)"
    unfolding simple_many_def po_petli_def a_def[symmetric] b_def[symmetric] c_def[symmetric] by (simp add: k1 k2 k3 k4 k5 k6)
  moreover have "abstr (swiat k6) = monitor0" using k6(2) by (simp add: sam_def monitor0_def)
  ultimately show "\<exists>k'. simple_many h S \<lparr>errno = e, swiat = s\<rparr> =
        Some (linie ''l: '' [1..1024] @ linie ''u: '' [1..1024] @ linie ''l: '' [1025..2048] @ linie ''u: '' (rev [1025..2048]) @
          linie ''l: '' [1..1024] @ linie ''u: '' (map (\<lambda>i. (i * 173) mod 1024 + 1) [1..1024]), 0, k') \<and> abstr (swiat k') = monitor0"
    unfolding a_def[symmetric] b_def[symmetric] c_def[symmetric] o1_def o2_def o3_def o4_def o5_def append_assoc by blast
qed

theorem simple_many_wzorzec_przyklad:
  "\<exists>s k'. main_start srod0 = Some s \<and> abstr (swiat k') = monitor0 \<and> (\<exists>out. simple_many zawija (polacz srod0 20) \<lparr>errno = 0, swiat = s\<rparr> = Some (out, 0, k'))"
proof -
  let ?f = "\<lambda>i. sint (word_of_int (i * magicP) :: 32 word)"
  obtain s where s: "main_start srod0 = Some s" using main_start_ok[of srod0] by blast
  have "inj_on ?f {1..1024}" "inj_on ?f {1025..2048}" by (rule inj_on_subset[OF zawijanie_inj], simp)+
  with simple_many_wzorzec[OF polacz_polaczony s, of zawija ?f 20 0] razy_magicP_zawija s show ?thesis
    by fast
qed

end
