(* ===== verification/Para.thy ===== *)
theory Para
  imports Sekcja Przebieg Wydruk
begin

text \<open>
  Programs of a parent and one child that share one mutex and one event. The state of such a program with the server is a small
  configuration: the two processes, the mutex with its queue, the processes that wait for the event, and the output. The steps of
  the whole system are steps between configurations, so a set of configurations that is closed under them holds in every run.
\<close>

section \<open>Calls that leave a code in errno\<close>

text \<open>
  The calls of the client library as actions of a program that looks at \<^verbatim>\<open>errno\<close>. \<open>po_wywolaniu\<close> is its value after a call of \<^verbatim>\<open>_syscall\<close>, which
  is not among the sources: as \<open>wynik_syscall\<close> has it, a negative status \<open>r\<close> of the answer is stored there.
\<close>

definition po_wywolaniu :: "int \<Rightarrow> int \<Rightarrow> int" where
  "po_wywolaniu r e = (if r < 0 then - r else e)"

definition libe_cs_lock :: "int \<Rightarrow> int \<Rightarrow> (int \<Rightarrow> 'l) \<Rightarrow> (int \<Rightarrow> int \<Rightarrow> 'l) \<Rightarrow> 'l akcja" where
  "libe_cs_lock n e ponow k =
     Zadanie CS_LOCK n 0 (\<lambda>r. if r = - EINTR_klienta then ponow (po_wywolaniu r e) else k (status r) (po_wywolaniu r e))"

definition libe_cs_unlock :: "int \<Rightarrow> int \<Rightarrow> (int \<Rightarrow> int \<Rightarrow> 'l) \<Rightarrow> 'l akcja" where
  "libe_cs_unlock n e k = Zadanie CS_UNLOCK n 0 (\<lambda>r. k (status r) (po_wywolaniu r e))"

definition libe_cs_wait :: "int \<Rightarrow> int \<Rightarrow> int \<Rightarrow> (int \<Rightarrow> 'l) \<Rightarrow> (int \<Rightarrow> int \<Rightarrow> 'l) \<Rightarrow> 'l akcja" where
  "libe_cs_wait c n e przerwany k =
     Zadanie CS_WAIT n c (\<lambda>r. if r = - EINTR_klienta then przerwany (po_wywolaniu r e) else k (status r) (po_wywolaniu r e))"

definition libe_cs_broadcast :: "int \<Rightarrow> int \<Rightarrow> (int \<Rightarrow> int \<Rightarrow> 'l) \<Rightarrow> 'l akcja" where
  "libe_cs_broadcast c e k = Zadanie CS_BROADCAST 0 c (\<lambda>r. k (status r) (po_wywolaniu r e))"

lemmas libe_defs = libe_cs_lock_def libe_cs_unlock_def libe_cs_wait_def libe_cs_broadcast_def po_wywolaniu_def

text \<open>The actions of \<open>Uklad\<close> are those of a program that does not look at \<^verbatim>\<open>errno\<close>.\<close>

lemma lib_jako_libe:
  "lib_cs_lock n p k = libe_cs_lock n e (\<lambda>_. p) (\<lambda>r _. k r)" "lib_cs_unlock n k = libe_cs_unlock n e (\<lambda>r _. k r)"
  "lib_cs_wait c n p k = libe_cs_wait c n e (\<lambda>_. p) (\<lambda>r _. k r)" "lib_cs_broadcast c k = libe_cs_broadcast c e (\<lambda>r _. k r)"
  by (simp_all add: lib_defs libe_defs EINTR_klienta_def)

section \<open>The actions are the functions of the library\<close>

text \<open>
  The functions of \<open>Libc\<close> and the actions, on the same answers: a system that answers the requests of a process in turn, and a program
  that goes on with the same answers.
\<close>

definition odpowiada :: "int list system" where
  "odpowiada = \<lparr>minix_rs_lookup = (\<lambda>nazwa k. (0, k)), syscall = (\<lambda>cv t m k. wynik_syscall (hd (swiat k)) (tl (swiat k)) k)\<rparr>"

fun po_odpowiedziach :: "('l \<Rightarrow> 'l akcja) \<Rightarrow> int list \<Rightarrow> 'l \<Rightarrow> 'l option" where
  "po_odpowiedziach A [] l = Some l"
| "po_odpowiedziach A (r # rs) l = (case A l of Zadanie t n c f \<Rightarrow> po_odpowiedziach A rs (f r) | _ \<Rightarrow> None)"

lemma send_message_odpowiada:
  "send_message odpowiada t n c \<lparr>errno = e, swiat = r # ws\<rparr> = (status r, \<lparr>errno = po_wywolaniu r e, swiat = ws\<rparr>)"
  by (simp add: send_message_def get_cv_def odpowiada_def wynik_syscall_def status_def po_wywolaniu_def)

lemma libc_cs_lock_krok_odpowiedzi:
  "libc_cs_lock odpowiada n \<lparr>errno = e, swiat = r # ws\<rparr> =
     (if r = - EINTR_klienta then libc_cs_lock odpowiada n \<lparr>errno = EINTR_klienta, swiat = ws\<rparr>
      else Some (status r, \<lparr>errno = po_wywolaniu r e, swiat = ws\<rparr>))"
  by (subst libc_cs_lock.simps) (auto simp: send_message_odpowiada status_def po_wywolaniu_def EINTR_klienta_def)

text \<open>\<^verbatim>\<open>cs_lock\<close>, interrupted \<open>j\<close> times: both have the same result and leave the same \<^verbatim>\<open>errno\<close>.\<close>

lemma libe_cs_lock_zgodny:
  assumes A: "\<And>e. A (l e) = libe_cs_lock n e l k" and r: "r \<noteq> - EINTR_klienta"
  shows "\<exists>x e'. libc_cs_lock odpowiada n \<lparr>errno = e, swiat = replicate j (- EINTR_klienta) @ r # ws\<rparr> = Some (x, \<lparr>errno = e', swiat = ws\<rparr>) \<and>
    po_odpowiedziach A (replicate j (- EINTR_klienta) @ [r]) (l e) = Some (k x e')"
proof (induction j arbitrary: e)
  case 0
  show ?case using r by (simp add: libc_cs_lock_krok_odpowiedzi A libe_cs_lock_def)
next
  case (Suc j)
  have "po_wywolaniu (- EINTR_klienta) e = EINTR_klienta" by (simp add: po_wywolaniu_def EINTR_klienta_def)
  with Suc[of EINTR_klienta] show ?case by (simp add: libc_cs_lock_krok_odpowiedzi A libe_cs_lock_def)
qed

text \<open>\<^verbatim>\<open>cs_wait\<close>, in a program that takes the mutex again at the control point of an interruption and goes on with what \<^verbatim>\<open>cs_wait\<close> returns then.\<close>

lemma libe_cs_wait_zgodny:
  assumes A: "A l = libe_cs_wait c n e z k" and Z: "\<And>e. A (z e) = libe_cs_lock n e z (\<lambda>r. k (if - 1 = r then - 1 else 0))"
    and r: "r \<noteq> - EINTR_klienta"
  shows "\<exists>x e'. libc_cs_wait odpowiada c n \<lparr>errno = e, swiat = replicate j (- EINTR_klienta) @ r # ws\<rparr> = Some (x, \<lparr>errno = e', swiat = ws\<rparr>) \<and>
    po_odpowiedziach A (replicate j (- EINTR_klienta) @ [r]) l = Some (k x e')"
proof (cases j)
  case 0
  have "\<not> (status r = - 1 \<and> po_wywolaniu r e = EINTR_klienta)" using r by (auto simp: status_def po_wywolaniu_def)
  with r show ?thesis by (auto simp: 0 libc_cs_wait_def send_message_odpowiada A libe_cs_wait_def)
next
  case (Suc i)
  have e: "po_wywolaniu (- EINTR_klienta) e = EINTR_klienta" "status (- EINTR_klienta) = - 1"
    by (simp_all add: po_wywolaniu_def status_def EINTR_klienta_def)
  obtain x e' where
    "libc_cs_lock odpowiada n \<lparr>errno = EINTR_klienta, swiat = replicate i (- EINTR_klienta) @ r # ws\<rparr> = Some (x, \<lparr>errno = e', swiat = ws\<rparr>)"
    "po_odpowiedziach A (replicate i (- EINTR_klienta) @ [r]) (z EINTR_klienta) = Some (k (if - 1 = x then - 1 else 0) e')"
    using libe_cs_lock_zgodny[where A = A and l = z and j = i, OF Z r] by metis
  with e show ?thesis by (simp add: Suc libc_cs_wait_def send_message_odpowiada A libe_cs_wait_def)
qed

lemma lib_cs_wait_zgodny:
  assumes A: "A l = lib_cs_wait c n z k" and Z: "A z = lib_cs_lock n z (\<lambda>r. k (if - 1 = r then - 1 else 0))" and r: "r \<noteq> - EINTR_klienta"
  shows "\<exists>x e'. libc_cs_wait odpowiada c n \<lparr>errno = e, swiat = replicate j (- EINTR_klienta) @ r # ws\<rparr> = Some (x, \<lparr>errno = e', swiat = ws\<rparr>) \<and>
    po_odpowiedziach A (replicate j (- EINTR_klienta) @ [r]) l = Some (k x)"
  using libe_cs_wait_zgodny[where A = A and l = l and z = "\<lambda>_. z" and k = "\<lambda>r _. k r", OF _ _ r] A Z by (simp flip: lib_jako_libe)

lemma libe_pozostale_zgodne:
  "libc_cs_unlock odpowiada n \<lparr>errno = e, swiat = r # ws\<rparr> = (x, \<lparr>errno = e', swiat = ws\<rparr>) \<Longrightarrow>
     A l = libe_cs_unlock n e k \<Longrightarrow> po_odpowiedziach A [r] l = Some (k x e')"
  "libc_cs_broadcast odpowiada c \<lparr>errno = e, swiat = r # ws\<rparr> = (x, \<lparr>errno = e', swiat = ws\<rparr>) \<Longrightarrow>
     A l = libe_cs_broadcast c e k \<Longrightarrow> po_odpowiedziach A [r] l = Some (k x e')"
  by (simp_all add: libc_cs_unlock_def libc_cs_broadcast_def send_message_odpowiada libe_cs_unlock_def libe_cs_broadcast_def)

section \<open>Reports\<close>

text \<open>What \<^verbatim>\<open>report\<close> of \<^verbatim>\<open>utils.h\<close> prints.\<close>

definition report :: "string \<Rightarrow> int \<Rightarrow> int \<Rightarrow> string" where
  "report str res err =
     str @ '' '' @ dziesietnie res @ [CHR 0x0A] @ (if res \<noteq> 0 then ''errno:'' @ dziesietnie err @ [CHR 0x0A] else [])"

section \<open>Configurations\<close>

record 'l konfiguracja =
  k_rodzic :: "'l proces_k"
  k_dziecko :: "'l proces_k"
  k_mutex :: "(int \<times> int list) option"
  k_czekaja :: "(int \<times> int) list option"
  k_stdout :: string

text \<open>The two processes as a table, the mutex \<open>m\<close> and the event \<open>c\<close> as a monitor.\<close>

definition procesy_pary :: "int \<Rightarrow> int \<Rightarrow> 'l proces_k \<Rightarrow> 'l proces_k \<Rightarrow> int \<Rightarrow> 'l proces_k" where
  "procesy_pary p q P C = (\<lambda>_. Nie_ma)(p := P, q := C)"

definition monitor_pary :: "int \<Rightarrow> int \<Rightarrow> (int \<times> int list) option \<Rightarrow> (int \<times> int) list option \<Rightarrow> monitor" where
  "monitor_pary m c x w = \<lparr>mut = (\<lambda>_. None)(m := x), zdarz = (\<lambda>_. None)(c := w)\<rparr>"

definition obraz :: "int \<Rightarrow> int \<Rightarrow> int \<Rightarrow> int \<Rightarrow> 'l konfiguracja \<Rightarrow> 'l uklad \<Rightarrow> bool" where
  "obraz m c p q k u \<longleftrightarrow> p \<noteq> q \<and> stany u = procesy_pary p q (k_rodzic k) (k_dziecko k) \<and>
     abstr (serw u) = monitor_pary m c (k_mutex k) (k_czekaja k) \<and> stdout u = k_stdout k \<and>
     rodzic u p \<noteq> p \<and> (k_dziecko k \<noteq> Nie_ma \<longrightarrow> rodzic u q = p)"

text \<open>A request of the process \<open>r\<close>, which is \<open>p\<close> or \<open>q\<close>.\<close>

definition po_zadaniu :: "int \<Rightarrow> int \<Rightarrow> int \<Rightarrow> int \<Rightarrow> int \<Rightarrow> int \<Rightarrow> int \<Rightarrow> int \<Rightarrow> (int \<Rightarrow> 'l) \<Rightarrow> 'l konfiguracja \<Rightarrow> 'l konfiguracja" where
  "po_zadaniu m c p q r t n d f k =
     (let w = a_klient (zadanie r t n d) (monitor_pary m c (k_mutex k) (k_czekaja k));
          S = dorecz (fst w) ((procesy_pary p q (k_rodzic k) (k_dziecko k))(r := Zablokowany f))
      in k\<lparr>k_rodzic := S p, k_dziecko := S q, k_mutex := mut (snd w) m, k_czekaja := zdarz (snd w) c\<rparr>)"

text \<open>
  The steps between configurations; \<open>rodzica\<close> says whose step it is. Only the parent forks and waits, and it has at most one child.
\<close>

definition stan_z :: "bool \<Rightarrow> 'l konfiguracja \<Rightarrow> 'l proces_k" where
  "stan_z rodzica k = (if rodzica then k_rodzic k else k_dziecko k)"

definition ustaw :: "bool \<Rightarrow> 'l proces_k \<Rightarrow> 'l konfiguracja \<Rightarrow> 'l konfiguracja" where
  "ustaw rodzica x k = (if rodzica then k\<lparr>k_rodzic := x\<rparr> else k\<lparr>k_dziecko := x\<rparr>)"

definition ruch :: "('l \<Rightarrow> 'l akcja) \<Rightarrow> int \<Rightarrow> int \<Rightarrow> int \<Rightarrow> int \<Rightarrow> bool \<Rightarrow> 'l konfiguracja \<Rightarrow> 'l konfiguracja \<Rightarrow> bool" where
  "ruch A m c p q b k k' \<longleftrightarrow>
     (case stan_z b k of
        Dziala l \<Rightarrow>
          (case A l of
             Zadanie t n d f \<Rightarrow> k' = po_zadaniu m c p q (if b then p else q) t n d f k
           | Koniec j \<Rightarrow> k' = ustaw b (Zombie j) k
           | Pisz x l' \<Rightarrow> k' = (ustaw b (Dziala l') k)\<lparr>k_stdout := k_stdout k @ x\<rparr>
           | Dalej l' \<Rightarrow> k' = ustaw b (Dziala l') k
           | Rozwidl f \<Rightarrow> b \<and> ((\<exists>j > 0. k' = k\<lparr>k_rodzic := Dziala (f j), k_dziecko := Dziala (f 0)\<rparr>) \<or> k' = k\<lparr>k_rodzic := Dziala (f (- 1))\<rparr>)
           | Czekaj_dziecka f \<Rightarrow> b \<and>
               (case k_dziecko k of
                  Zombie i \<Rightarrow> \<exists>j > 0. k' = k\<lparr>k_rodzic := Dziala (f j), k_dziecko := Nie_ma\<rparr>
                | Nie_ma \<Rightarrow> k' = k\<lparr>k_rodzic := Dziala (f (- 1))\<rparr>
                | _ \<Rightarrow> False)
           | _ \<Rightarrow> False)
      | _ \<Rightarrow> False)"

text \<open>Some process can take a step.\<close>

definition ruchoma :: "('l \<Rightarrow> 'l akcja) \<Rightarrow> 'l konfiguracja \<Rightarrow> bool" where
  "ruchoma A k \<longleftrightarrow> (\<exists>b l. stan_z b k = Dziala l \<and> (\<forall>f. A l \<noteq> Czekaj_dziecka f)) \<or>
     (\<exists>l f. k_rodzic k = Dziala l \<and> A l = Czekaj_dziecka f \<and> (k_dziecko k = Nie_ma \<or> (\<exists>i. k_dziecko k = Zombie i)))"

text \<open>The laws of a program of this kind.\<close>

definition poprawna :: "('l \<Rightarrow> 'l akcja) \<Rightarrow> ('l \<Rightarrow> bool) \<Rightarrow> 'l konfiguracja \<Rightarrow> bool" where
  "poprawna A kryt k \<longleftrightarrow> k_czekaja k \<noteq> Some [] \<and>
     (\<forall>b l j. stan_z b k = Dziala l \<longrightarrow> A l = Koniec j \<longrightarrow> \<not> kryt l) \<and>
     (\<forall>l f. k_rodzic k = Dziala l \<longrightarrow> A l = Rozwidl f \<longrightarrow> k_dziecko k = Nie_ma) \<and>
     (\<forall>l f. k_dziecko k = Dziala l \<longrightarrow> A l \<noteq> Rozwidl f \<and> A l \<noteq> Czekaj_dziecka f)"

text \<open>The requests on the mutex and the event of a configuration, as far as such programs send them.\<close>

definition strona :: "int \<Rightarrow> int \<Rightarrow> bool \<Rightarrow> int" where
  "strona p q b = (if b then p else q)"

lemmas zadania_pary = po_zadaniu_def monitor_pary_def procesy_pary_def krok_monitora a_lock_def a_unlock_def a_wait_def a_broadcast_def
  a_budz_Cons czekajacy_na_def ma_mutex_def cs_defs errno_defs Let_def strona_def ustaw_def stan_z_def

lemma po_lock:
  "k_mutex k = None \<Longrightarrow> p \<noteq> q \<Longrightarrow>
    po_zadaniu m c p q (strona p q b) CS_LOCK m d f k = ustaw b (Dziala (f OK)) (k\<lparr>k_mutex := Some (strona p q b, [])\<rparr>)"
  "k_mutex k = Some (strona p q (\<not> b), qs) \<Longrightarrow> p \<noteq> q \<Longrightarrow>
    po_zadaniu m c p q (strona p q b) CS_LOCK m d f k = ustaw b (Zablokowany f) (k\<lparr>k_mutex := Some (strona p q (\<not> b), qs @ [strona p q b])\<rparr>)"
  by (cases b; simp add: zadania_pary)+

lemma po_unlock:
  "k_mutex k = Some (strona p q b, []) \<Longrightarrow> p \<noteq> q \<Longrightarrow>
    po_zadaniu m c p q (strona p q b) CS_UNLOCK m d f k = ustaw b (Dziala (f OK)) (k\<lparr>k_mutex := None\<rparr>)"
  "k_mutex k = Some (strona p q b, [strona p q (\<not> b)]) \<Longrightarrow> p \<noteq> q \<Longrightarrow> stan_z (\<not> b) k = Zablokowany g \<Longrightarrow>
    po_zadaniu m c p q (strona p q b) CS_UNLOCK m d f k =
      ustaw b (Dziala (f OK)) (ustaw (\<not> b) (Dziala (g OK)) (k\<lparr>k_mutex := Some (strona p q (\<not> b), [])\<rparr>))"
  by (cases b; simp add: zadania_pary)+

lemma po_wait:
  "k_mutex k = Some (strona p q b, []) \<Longrightarrow> p \<noteq> q \<Longrightarrow> k_czekaja k = None \<Longrightarrow>
    po_zadaniu m c p q (strona p q b) CS_WAIT m c f k =
      ustaw b (Zablokowany f) (k\<lparr>k_mutex := None, k_czekaja := Some [(strona p q b, m)]\<rparr>)"
  "k_mutex k = Some (strona p q b, [strona p q (\<not> b)]) \<Longrightarrow> p \<noteq> q \<Longrightarrow> k_czekaja k = None \<Longrightarrow> stan_z (\<not> b) k = Zablokowany g \<Longrightarrow>
    po_zadaniu m c p q (strona p q b) CS_WAIT m c f k =
      ustaw b (Zablokowany f) (ustaw (\<not> b) (Dziala (g OK))
        (k\<lparr>k_mutex := Some (strona p q (\<not> b), []), k_czekaja := Some [(strona p q b, m)]\<rparr>))"
  by (cases b; simp add: zadania_pary)+

lemma po_broadcast:
  "k_czekaja k = None \<Longrightarrow> p \<noteq> q \<Longrightarrow> po_zadaniu m c p q (strona p q b) CS_BROADCAST n c f k = ustaw b (Dziala (f OK)) k"
  "k_mutex k = Some (strona p q b, []) \<Longrightarrow> k_czekaja k = Some [(strona p q (\<not> b), m)] \<Longrightarrow> p \<noteq> q \<Longrightarrow>
    po_zadaniu m c p q (strona p q b) CS_BROADCAST n c f k =
      ustaw b (Dziala (f OK)) (k\<lparr>k_mutex := Some (strona p q b, [strona p q (\<not> b)]), k_czekaja := None\<rparr>)"
  by (cases b; simp add: zadania_pary)+

lemmas po_zadaniach =
  po_lock[where b = True, simplified strona_def if_True if_False not_True_eq_False]
  po_lock[where b = False, simplified strona_def if_True if_False not_False_eq_True]
  po_unlock[where b = True, simplified strona_def if_True if_False not_True_eq_False]
  po_unlock[where b = False, simplified strona_def if_True if_False not_False_eq_True]
  po_wait[where b = True, simplified strona_def if_True if_False not_True_eq_False]
  po_wait[where b = False, simplified strona_def if_True if_False not_False_eq_True]
  po_broadcast[where b = True, simplified strona_def if_True if_False not_True_eq_False]
  po_broadcast[where b = False, simplified strona_def if_True if_False not_False_eq_True]

section \<open>Runs\<close>

locale para = sekcja E A "endpointy E" MAX_CZEKA m "{c}" kryt
  for E :: srodowisko and A :: "'l \<Rightarrow> 'l akcja" and m c :: int and kryt :: "'l \<Rightarrow> bool" +
  fixes konf :: "int \<Rightarrow> int \<Rightarrow> 'l konfiguracja \<Rightarrow> bool"
    and l0 :: 'l
  assumes zwykla_akcja: "zwykla (A l)"
    and poczatek_poza: "\<not> kryt l0"
    and konf_poczatek: "p \<noteq> q \<Longrightarrow> konf p q \<lparr>k_rodzic = Dziala l0, k_dziecko = Nie_ma, k_mutex = None, k_czekaja = None, k_stdout = []\<rparr>"
    and konf_poprawna: "konf p q k \<Longrightarrow> poprawna A kryt k"
    and konf_bez_dziecka: "konf p q k \<Longrightarrow> k_dziecko k = Nie_ma \<Longrightarrow> r \<noteq> p \<Longrightarrow> konf p r k"
    and konf_ruch: "konf p q k \<Longrightarrow> p \<noteq> q \<Longrightarrow> ruch A m c p q b k k' \<Longrightarrow> konf p q k'"
begin

text \<open>The outcome of a request as a configuration.\<close>

lemma monitor_pary_rozpad:
  assumes "dom (mut \<sigma>) \<subseteq> {m}" "dom (zdarz \<sigma>) \<subseteq> {c}"
  shows "\<sigma> = monitor_pary m c (mut \<sigma> m) (zdarz \<sigma> c)"
proof -
  have "mut \<sigma> n = None" if "n \<noteq> m" for n using assms(1) that by blast
  moreover have "zdarz \<sigma> n = None" if "n \<noteq> c" for n using assms(2) that by blast
  ultimately have "mut \<sigma> = (\<lambda>_. None)(m := mut \<sigma> m)" "zdarz \<sigma> = (\<lambda>_. None)(c := zdarz \<sigma> c)" by (auto simp: fun_eq_iff)
  then show ?thesis by (cases \<sigma>) (simp add: monitor_pary_def)
qed

lemma procesy_pary_dorecz:
  assumes "p \<noteq> q" "r = p \<or> r = q"
  shows "dorecz out ((procesy_pary p q x y)(r := z)) =
    procesy_pary p q (dorecz out ((procesy_pary p q x y)(r := z)) p) (dorecz out ((procesy_pary p q x y)(r := z)) q)"
proof
  fix s
  show "dorecz out ((procesy_pary p q x y)(r := z)) s =
    procesy_pary p q (dorecz out ((procesy_pary p q x y)(r := z)) p) (dorecz out ((procesy_pary p q x y)(r := z)) q) s"
    using assms by (cases "s = p \<or> s = q") (auto simp: procesy_pary_def dorecz_niezablokowany)
qed

lemma obraz_start:
  assumes u: "poczatek_ukladu E p l0 u" and q: "p \<noteq> q"
  shows "obraz m c p q \<lparr>k_rodzic = Dziala l0, k_dziecko = Nie_ma, k_mutex = None, k_czekaja = None, k_stdout = []\<rparr> u"
proof -
  have "abstr (serw u) = monitor0" using u main_start_ok[of E] by (auto simp: poczatek_ukladu_def)
  with u q show ?thesis by (auto simp: obraz_def poczatek_ukladu_def procesy_pary_def monitor_pary_def monitor0_def fun_eq_iff)
qed

lemma kto_idzie:
  assumes "obraz m c p q k u" "stany u r = Dziala l"
  obtains b where "stan_z b k = Dziala l" "r = (if b then p else q)"
proof -
  consider "r = p" "k_rodzic k = Dziala l" | "r = q" "k_dziecko k = Dziala l"
    using assms by (auto simp: obraz_def procesy_pary_def split: if_splits)
  then show thesis by cases (use that[of True] that[of False] in \<open>auto simp: stan_z_def\<close>)
qed

lemma obraz_ustaw:
  assumes "obraz m c p q k u" "stany u' = (stany u)((if b then p else q) := x)" "abstr (serw u') = abstr (serw u)"
    "rodzic u' = rodzic u" "stan_z b k \<noteq> Nie_ma" "x \<noteq> Nie_ma"
  shows "obraz m c p q ((ustaw b x k)\<lparr>k_stdout := stdout u'\<rparr>) u'"
  using assms by (auto simp: obraz_def procesy_pary_def ustaw_def stan_z_def fun_upd_twist)

text \<open>Every step of the system is a step between configurations.\<close>

text \<open>A request and the end of a process, as steps between configurations.\<close>

lemma para_zadanie:
  assumes u: "spojny E (endpointy E) MAX_CZEKA {m} {c} u" and o: "obraz m c p q k u"
    and z: "stany u r = Dziala l" "A l = Zadanie t n d f" "obslugaWiadomosci E (zadanie r t n d) (serw u) = Some v"
      "wyslane v = wyslane (serw u) @ out" and u': "u' = u\<lparr>serw := v, stany := dorecz out ((stany u)(r := Zablokowany f))\<rparr>"
  shows "\<exists>b k'. ruch A m c p q b k k' \<and> obraz m c p q k' u'"
proof -
  have pq: "p \<noteq> q" and st: "stany u = procesy_pary p q (k_rodzic k) (k_dziecko k)"
    and ab: "abstr (serw u) = monitor_pary m c (k_mutex k) (k_czekaja k)" using o by (auto simp: obraz_def)
  from kto_idzie[OF o z(1)] obtain b where b: "stan_z b k = Dziala l" "r = (if b then p else q)" by blast
  note v = zadanie_wynik[OF u z]
  have "w_zasobach {m} {c} (abstr v)"
    using a_klient_zasoby[OF _ zadania[OF z(2)], of "abstr (serw u)" r] u by (simp add: v(1) spojny_def)
  then have "abstr v = monitor_pary m c (mut (abstr v) m) (zdarz (abstr v) c)" by (intro monitor_pary_rozpad) (auto simp: w_zasobach_def)
  moreover have "stany u' = procesy_pary p q (stany u' p) (stany u' q)"
  proof -
    have "r = p \<or> r = q" using b(2) by simp
    from procesy_pary_dorecz[OF pq this, of out "k_rodzic k" "k_dziecko k" "Zablokowany f"] show ?thesis by (simp add: u' st)
  qed
  moreover have "stany u' q = Nie_ma \<longleftrightarrow> k_dziecko k = Nie_ma"
  proof -
    have "((stany u)(r := Zablokowany f)) q = Nie_ma \<longleftrightarrow> k_dziecko k = Nie_ma"
      using b pq by (auto simp: st procesy_pary_def stan_z_def split: if_splits)
    then show ?thesis using u' by (cases rule: dorecz_przypadki[of out "(stany u)(r := Zablokowany f)" q]) auto
  qed
  ultimately have "obraz m c p q (po_zadaniu m c p q r t n d f k) u'"
    using o u' by (simp add: obraz_def po_zadaniu_def Let_def v ab st)
  moreover have "ruch A m c p q b k (po_zadaniu m c p q r t n d f k)" using b z(2) by (simp add: ruch_def)
  ultimately show ?thesis by blast
qed

lemma para_koniec:
  assumes u: "spojny E (endpointy E) MAX_CZEKA {m} {c} u" "wylaczny m kryt u" and o: "obraz m c p q k u" and P: "poprawna A kryt k"
    and z: "stany u r = Dziala l" "A l = Koniec j" "obslugaWiadomosci E (od_pm CS_EXIT r) (serw u) = Some v"
      "wyslane v = wyslane (serw u) @ out" and u': "u' = u\<lparr>serw := v, stany := dorecz out ((stany u)(r := Zombie j))\<rparr>"
  shows "\<exists>b k'. ruch A m c p q b k k' \<and> obraz m c p q k' u'"
proof -
  have ab: "abstr (serw u) = monitor_pary m c (k_mutex k) (k_czekaja k)" and so: "stdout u = k_stdout k" using o by (auto simp: obraz_def)
  from kto_idzie[OF o z(1)] obtain b where b: "stan_z b k = Dziala l" "r = (if b then p else q)" by blast
  have nk: "\<not> kryt l" using P[unfolded poprawna_def] b(1) z(2) by blast
  note v = koniec_wynik[OF u(1) z(1,3,4)]
  have S: "stany u' = (stany u)(r := Zombie j)" using koniec_sekcji(2)[OF u z(1) v, where u' = u' and k = j] u' nk by simp
  have "\<not> czeka r (abstr (serw u))" "\<not> ma_mutex r m (abstr (serw u))"
    using u z(1) nk by (auto simp: spojny_def wylaczny_def w_sekcji_def)
  then have "abstr v = abstr (serw u)"
    using P[unfolded poprawna_def] unfolding v(1) ab by (intro a_exit_obojetny) (auto simp: monitor_pary_def ma_mutex_def split: if_splits)
  with obraz_ustaw[OF o, of u' b "Zombie j"] S b u' so have "obraz m c p q (ustaw b (Zombie j) k) u'"
    by (cases b) (simp_all add: ustaw_def obraz_def)
  moreover have "ruch A m c p q b k (ustaw b (Zombie j) k)" using b(1) z(2) by (simp add: ruch_def)
  ultimately show ?thesis by blast
qed

text \<open>Only the parent forks and waits.\<close>

lemma para_rodzic:
  assumes o: "obraz m c p q k u" and P: "poprawna A kryt k" and l: "stany u r = Dziala l" "A l = Rozwidl f \<or> A l = Czekaj_dziecka f"
  shows "r = p" "k_rodzic k = Dziala l"
proof -
  from kto_idzie[OF o l(1)] obtain b where b: "stan_z b k = Dziala l" "r = (if b then p else q)" by blast
  then have "b" using P l(2) by (cases b) (auto simp: poprawna_def stan_z_def)
  with b show "r = p" "k_rodzic k = Dziala l" by (simp_all add: stan_z_def)
qed

lemma para_blad:
  assumes o: "obraz m c p q k u" and l: "k_rodzic k = Dziala l" and u': "u' = u\<lparr>stany := (stany u)(p := Dziala l')\<rparr>"
  shows "obraz m c p q (k\<lparr>k_rodzic := Dziala l'\<rparr>) u'"
  using obraz_ustaw[OF o, of u' True "Dziala l'"] l u' o by (simp add: ustaw_def stan_z_def obraz_def)

lemma krok_pary:
  assumes u: "spojny E (endpointy E) MAX_CZEKA {m} {c} u" "wylaczny m kryt u" and o: "obraz m c p q k u" and k: "konf p q k"
    and s: "krok_ukladu E A (endpointy E) MAX_CZEKA u u'"
  shows "\<exists>q' k'. konf p q' k' \<and> obraz m c p q' k' u'"
proof -
  have pq: "p \<noteq> q" and st: "stany u = procesy_pary p q (k_rodzic k) (k_dziecko k)"
    and ab: "abstr (serw u) = monitor_pary m c (k_mutex k) (k_czekaja k)" using o by (auto simp: obraz_def)
  note P = konf_poprawna[OF k, unfolded poprawna_def] and R = konf_ruch[OF k pq]
  have so: "stdout u = k_stdout k" using o by (simp add: obraz_def)
  from s show ?thesis
  proof cases
    case (zadanie r l t n d f v out)
    from para_zadanie[OF u(1) o zadanie(2-5,1)] R show ?thesis by blast
  next
    case (koniec r l j v out)
    from para_koniec[OF u o konf_poprawna[OF k] koniec(2-5,1)] R show ?thesis by blast
  next
    case (pisz r l x l')
    from kto_idzie[OF o pisz(2)] obtain b where b: "stan_z b k = Dziala l" "r = (if b then p else q)" by blast
    from obraz_ustaw[OF o, of u' b "Dziala l'"] pisz(1) b o have "obraz m c p q ((ustaw b (Dziala l') k)\<lparr>k_stdout := k_stdout k @ x\<rparr>) u'"
      by (simp add: obraz_def)
    moreover have "ruch A m c p q b k ((ustaw b (Dziala l') k)\<lparr>k_stdout := k_stdout k @ x\<rparr>)" using b(1) pisz(3) by (simp add: ruch_def)
    ultimately show ?thesis using R by blast
  next
    case (dalej r l l')
    from kto_idzie[OF o dalej(2)] obtain b where b: "stan_z b k = Dziala l" "r = (if b then p else q)" by blast
    from obraz_ustaw[OF o, of u' b "Dziala l'"] dalej(1) b o have "obraz m c p q (ustaw b (Dziala l') k) u'"
      by (cases b) (simp_all add: ustaw_def obraz_def)
    moreover have "ruch A m c p q b k (ustaw b (Dziala l') k)" using b(1) dalej(3) by (simp add: ruch_def)
    ultimately show ?thesis using R by blast
  next
    case (rozwidl r l f q' j)
    note l = para_rodzic[OF o konf_poprawna[OF k] rozwidl(2) disjI1[OF rozwidl(3)]]
    have d: "k_dziecko k = Nie_ma" using P l(2) rozwidl(3) by blast
    have q': "q' \<noteq> p" using rozwidl(2,4) l(1) by auto
    have "konf p q' (k\<lparr>k_rodzic := Dziala (f j), k_dziecko := Dziala (f 0)\<rparr>)"
      by (rule konf_ruch[OF konf_bez_dziecka[OF k d q'] q'[symmetric], where b = True]) (use l(2) rozwidl(3,7) in \<open>auto simp: ruch_def stan_z_def\<close>)
    moreover have "obraz m c p q' (k\<lparr>k_rodzic := Dziala (f j), k_dziecko := Dziala (f 0)\<rparr>) u'"
      using o rozwidl(1) l d q' by (auto simp: obraz_def procesy_pary_def fun_eq_iff)
    ultimately show ?thesis by blast
  next
    case (rozwidl_blad r l f)
    note l = para_rodzic[OF o konf_poprawna[OF k] rozwidl_blad(2) disjI1[OF rozwidl_blad(3)]]
    then have "ruch A m c p q True k (k\<lparr>k_rodzic := Dziala (f (- 1))\<rparr>)" using rozwidl_blad(3) by (simp add: ruch_def stan_z_def)
    with para_blad[OF o l(2), of u' "f (- 1)"] l(1) rozwidl_blad(1) R show ?thesis by blast
  next
    case (dziecko r l f q' i j)
    note l = para_rodzic[OF o konf_poprawna[OF k] dziecko(2) disjI2[OF dziecko(3)]]
    have q': "q' = q" "k_dziecko k = Zombie i" using dziecko(4) st l(2) pq by (auto simp: procesy_pary_def split: if_splits)
    have "obraz m c p q (k\<lparr>k_rodzic := Dziala (f j), k_dziecko := Nie_ma\<rparr>) u'"
      using o dziecko(1) l q' by (auto simp: obraz_def procesy_pary_def fun_eq_iff)
    moreover have "ruch A m c p q True k (k\<lparr>k_rodzic := Dziala (f j), k_dziecko := Nie_ma\<rparr>)" using l(2) dziecko(3,6) q'(2) by (auto simp: ruch_def stan_z_def)
    ultimately show ?thesis using R by blast
  next
    case (bez_dzieci r l f)
    note l = para_rodzic[OF o konf_poprawna[OF k] bez_dzieci(2) disjI2[OF bez_dzieci(3)]]
    have "k_dziecko k = Nie_ma" using bez_dzieci(4) o l(1) pq by (auto simp: obraz_def procesy_pary_def)
    then have "ruch A m c p q True k (k\<lparr>k_rodzic := Dziala (f (- 1))\<rparr>)" using l(2) bez_dzieci(3) by (simp add: ruch_def stan_z_def)
    with para_blad[OF o l(2), of u' "f (- 1)"] l(1) bez_dzieci(1) R show ?thesis by blast
  qed (use zwykla_akcja in \<open>metis zwykla.simps(1-3)\<close>)+
qed

text \<open>The configurations of the program are an invariant of its runs with the server.\<close>

sublocale bieg: maszyna "\<lambda>u. p \<in> endpointy E \<and> poczatek_ukladu E p l0 u" "krok_ukladu E A (endpointy E) MAX_CZEKA"
  "\<lambda>u. spojny E (endpointy E) MAX_CZEKA {m} {c} u \<and> wylaczny m kryt u \<and> (\<exists>q k. konf p q k \<and> obraz m c p q k u)" for p
proof
  fix u assume u: "p \<in> endpointy E \<and> poczatek_ukladu E p l0 u"
  then have "spojny E (endpointy E) MAX_CZEKA {m} {c} u" using spojny_start[of p l0 u] by (simp add: MAX_CZEKA_def)
  moreover have "abstr (serw u) = monitor0" using u main_start_ok[of E] by (auto simp: poczatek_ukladu_def)
  then have "wylaczny m kryt u" using u poczatek_poza by (simp add: wylaczny_def w_sekcji_def ma_mutex_def monitor0_def poczatek_ukladu_def)
  moreover have "p \<noteq> p + 1" by simp
  ultimately show "spojny E (endpointy E) MAX_CZEKA {m} {c} u \<and> wylaczny m kryt u \<and> (\<exists>q k. konf p q k \<and> obraz m c p q k u)"
    using obraz_start konf_poczatek u by blast
next
  fix u u' assume "spojny E (endpointy E) MAX_CZEKA {m} {c} u \<and> wylaczny m kryt u \<and> (\<exists>q k. konf p q k \<and> obraz m c p q k u)"
    "krok_ukladu E A (endpointy E) MAX_CZEKA u u'"
  with spojny_krok wylaczny_krok krok_pary
  show "spojny E (endpointy E) MAX_CZEKA {m} {c} u' \<and> wylaczny m kryt u' \<and> (\<exists>q k. konf p q k \<and> obraz m c p q k u')"
    by blast
qed

lemma osiagalna_konf:
  assumes "osiagalny (\<lambda>u. p \<in> endpointy E \<and> poczatek_ukladu E p l0 u) (krok_ukladu E A (endpointy E) MAX_CZEKA) u"
  obtains q k where "konf p q k" "obraz m c p q k u"
    "ruchoma A k \<Longrightarrow> \<exists>u'. krok_ukladu E A (endpointy E) MAX_CZEKA u u'"
proof -
  from bieg.osiagalny_inw[OF assms] obtain q k where u: "spojny E (endpointy E) MAX_CZEKA {m} {c} u" and k: "konf p q k" and o: "obraz m c p q k u"
    by blast
  have st: "stany u p = k_rodzic k" "stany u q = k_dziecko k" using o by (auto simp: obraz_def procesy_pary_def)
  have "\<exists>u'. krok_ukladu E A (endpointy E) MAX_CZEKA u u'" if "ruchoma A k"
    using that unfolding ruchoma_def
  proof (elim disjE exE conjE)
    fix b l assume b: "stan_z b k = Dziala l" "\<forall>f. A l \<noteq> Czekaj_dziecka f"
    then have "stany u (if b then p else q) = Dziala l" using st by (auto simp: stan_z_def split: if_splits)
    from krok_istnieje[OF u this] b(2) zwykla_akcja[of l] show ?thesis by fastforce
  next
    fix l f assume l: "k_rodzic k = Dziala l" "A l = Czekaj_dziecka f" "k_dziecko k = Nie_ma"
    then have "\<forall>r. rodzic u r = p \<longrightarrow> stany u r = Nie_ma" using o by (auto simp: obraz_def procesy_pary_def)
    with l st krok_ukladu.bez_dzieci[of u p l A] show ?thesis by metis
  next
    fix l f i assume l: "k_rodzic k = Dziala l" "A l = Czekaj_dziecka f" "k_dziecko k = Zombie i"
    then have "rodzic u q = p" using o by (simp add: obraz_def)
    with l st krok_ukladu.dziecko[of u p l A f q i 1] show ?thesis by fastforce
  qed
  with that k o show thesis by blast
qed

end

end
