(* ===== verification/Tictac.thy ===== *)
theory Tictac
  imports Para
begin

text \<open>
  The test program \<^verbatim>\<open>testy/src/tictac.c\<close>: a parent and a child that take turns over one event. Its output is the template of the
  test, in whatever order the processes run. The standard output of the test is a file, so \<^verbatim>\<open>printf\<close> fills a buffer of the
  process, which \<^verbatim>\<open>fork\<close> copies and \<^verbatim>\<open>exit\<close> writes; \<^verbatim>\<open>write\<close> does not go through it. \<^verbatim>\<open>sleep\<close> only takes time.
\<close>

section \<open>The program\<close>

definition MUTEX :: int where "MUTEX = 1"

definition CV_nr :: int where "CV_nr = 1"

definition MAX_DELAY :: int where "MAX_DELAY = 30"

text \<open>
  The control points: \<open>T\<close> before \<^verbatim>\<open>fork\<close>, \<open>R\<close> in the parent, \<open>D\<close> in the child, with the counter of turns and the buffer of the standard
  output. \<open>R_petla\<close> and \<open>D_petla\<close> are the tests of the loops, with the call that comes first on either branch;
  \<open>R_znow\<close> and \<open>D_znow\<close> take the mutex again after an interrupted \<^verbatim>\<open>cs_wait\<close>.
\<close>

datatype tt_lok =
    T_start | T_lock int | T_fork string
  | R_petla int string | R_znow int string | R_ti int string | R_c int string | R_oglos int string | R_dziecko string | R_exit string
  | D_lock string | D_oglos0 string | D_petla int string | D_znow int string | D_ta int string | D_c int string | D_oglos int string
  | D_exit string | Wyjscie | Fail

fun tictac :: "int \<Rightarrow> int \<Rightarrow> tt_lok \<Rightarrow> tt_lok akcja" where
  "tictac argc turns T_start = Dalej (if argc \<noteq> 2 then Fail else if turns < 0 \<or> turns > MAX_DELAY then Fail else T_lock 0)"
| "tictac argc turns (T_lock e) = libe_cs_lock MUTEX e T_lock (\<lambda>r e. T_fork (report ''p lock:'' r e))"
| "tictac argc turns (T_fork b) = Rozwidl (\<lambda>ch. if ch \<noteq> 0 then R_petla 0 b else D_lock b)"
| "tictac argc turns (R_petla i b) =
     (if i < turns then lib_cs_wait CV_nr MUTEX (R_znow i b) (\<lambda>r. R_ti i b) else lib_cs_unlock MUTEX (\<lambda>r. R_dziecko b))"
| "tictac argc turns (R_znow i b) = lib_cs_lock MUTEX (R_znow i b) (\<lambda>r. R_ti i b)"
| "tictac argc turns (R_ti i b) = Pisz ''TI'' (R_c i b)"
| "tictac argc turns (R_c i b) = Pisz (''C'' @ [CHR 0x0A]) (R_oglos i b)"
| "tictac argc turns (R_oglos i b) = lib_cs_broadcast CV_nr (\<lambda>r. R_petla (i + 1) b)"
| "tictac argc turns (R_dziecko b) = Czekaj_dziecka (\<lambda>r. R_exit b)"
| "tictac argc turns (R_exit b) = Pisz b Wyjscie"
| "tictac argc turns (D_lock b) = lib_cs_lock MUTEX (D_lock b) (\<lambda>r. D_oglos0 b)"
| "tictac argc turns (D_oglos0 b) = lib_cs_broadcast CV_nr (\<lambda>r. D_petla 0 b)"
| "tictac argc turns (D_petla i b) =
     (if i < turns then lib_cs_wait CV_nr MUTEX (D_znow i b) (\<lambda>r. D_ta i b) else lib_cs_unlock MUTEX (\<lambda>r. D_exit b))"
| "tictac argc turns (D_znow i b) = lib_cs_lock MUTEX (D_znow i b) (\<lambda>r. D_ta i b)"
| "tictac argc turns (D_ta i b) = Pisz ''TA'' (D_c i b)"
| "tictac argc turns (D_c i b) = Pisz (''C'' @ [CHR 0x0A]) (D_oglos i b)"
| "tictac argc turns (D_oglos i b) = lib_cs_broadcast CV_nr (\<lambda>r. D_petla (i + 1) b)"
| "tictac argc turns (D_exit b) = Pisz b Wyjscie"
| "tictac argc turns Wyjscie = Koniec 0"
| "tictac argc turns Fail = Koniec 2"

text \<open>\<open>R_petla\<close> with \<open>R_znow\<close>, and \<open>D_petla\<close> with \<open>D_znow\<close>, are the calls of \<^verbatim>\<open>cs_wait\<close>, however often they are interrupted.\<close>

lemma tictac_wait:
  assumes "r \<noteq> - EINTR_klienta" "i < turns"
  shows "\<exists>x e'. libc_cs_wait odpowiada CV_nr MUTEX \<lparr>errno = e, swiat = replicate j (- EINTR_klienta) @ r # ws\<rparr> = Some (x, \<lparr>errno = e', swiat = ws\<rparr>) \<and>
      po_odpowiedziach (tictac argc turns) (replicate j (- EINTR_klienta) @ [r]) (R_petla i b) = Some (R_ti i b)"
    "\<exists>x e'. libc_cs_wait odpowiada CV_nr MUTEX \<lparr>errno = e, swiat = replicate j (- EINTR_klienta) @ r # ws\<rparr> = Some (x, \<lparr>errno = e', swiat = ws\<rparr>) \<and>
      po_odpowiedziach (tictac argc turns) (replicate j (- EINTR_klienta) @ [r]) (D_petla i b) = Some (D_ta i b)"
  using lib_cs_wait_zgodny[of "tictac argc turns" "R_petla i b" CV_nr MUTEX "R_znow i b" "\<lambda>r. R_ti i b" r]
    lib_cs_wait_zgodny[of "tictac argc turns" "D_petla i b" CV_nr MUTEX "D_znow i b" "\<lambda>r. D_ta i b" r] assms by simp_all

fun tt_kryt :: "tt_lok \<Rightarrow> bool" where
  "tt_kryt (T_fork b) = True" | "tt_kryt (R_petla i b) = True" | "tt_kryt (R_ti i b) = True" | "tt_kryt (R_c i b) = True"
| "tt_kryt (R_oglos i b) = True" | "tt_kryt (D_oglos0 b) = True" | "tt_kryt (D_petla i b) = True" | "tt_kryt (D_ta i b) = True"
| "tt_kryt (D_c i b) = True" | "tt_kryt (D_oglos i b) = True" | "tt_kryt _ = False"

section \<open>Its configurations\<close>

definition tic :: string where "tic = ''TIC'' @ [CHR 0x0A]"

definition tac :: string where "tac = ''TAC'' @ [CHR 0x0A]"

definition tury :: "int \<Rightarrow> string" where
  "tury i = concat (replicate (nat i) (tic @ tac))"

definition p_lock :: string where "p_lock = ''p lock: 0'' @ [CHR 0x0A]"

text \<open>The processes that wait for the event, and the child that waits for the mutex.\<close>

definition r_czeka :: "int \<Rightarrow> tt_lok proces_k" where
  "r_czeka i = Zablokowany (\<lambda>r. if r = - EINTR_klienta then R_znow i p_lock else R_ti i p_lock)"

definition d_czeka :: "int \<Rightarrow> tt_lok proces_k" where
  "d_czeka i = Zablokowany (\<lambda>r. if r = - EINTR_klienta then D_znow i p_lock else D_ta i p_lock)"

definition d_lock :: "tt_lok proces_k" where
  "d_lock = Zablokowany (\<lambda>r. if r = - EINTR_klienta then D_lock p_lock else D_oglos0 p_lock)"

inductive tt_konf :: "int \<Rightarrow> int \<Rightarrow> int \<Rightarrow> tt_lok konfiguracja \<Rightarrow> bool" for turns p q where
  start: "tt_konf turns p q \<lparr>k_rodzic = Dziala T_start, k_dziecko = Nie_ma, k_mutex = None, k_czekaja = None, k_stdout = []\<rparr>"
| fail: "tt_konf turns p q \<lparr>k_rodzic = Dziala Fail, k_dziecko = Nie_ma, k_mutex = None, k_czekaja = None, k_stdout = []\<rparr>"
| koniec2: "tt_konf turns p q \<lparr>k_rodzic = Zombie 2, k_dziecko = Nie_ma, k_mutex = None, k_czekaja = None, k_stdout = []\<rparr>"
| lock: "0 \<le> turns \<Longrightarrow> tt_konf turns p q \<lparr>k_rodzic = Dziala (T_lock 0), k_dziecko = Nie_ma, k_mutex = None, k_czekaja = None, k_stdout = []\<rparr>"
| fork: "0 \<le> turns \<Longrightarrow> tt_konf turns p q \<lparr>k_rodzic = Dziala (T_fork p_lock), k_dziecko = Nie_ma, k_mutex = Some (p, []), k_czekaja = None, k_stdout = []\<rparr>"
| sam: "0 \<le> turns \<Longrightarrow> tt_konf turns p q \<lparr>k_rodzic = Dziala (R_petla 0 p_lock), k_dziecko = Nie_ma, k_mutex = Some (p, []), k_czekaja = None, k_stdout = []\<rparr>"
| sam_czeka: "0 < turns \<Longrightarrow> tt_konf turns p q \<lparr>k_rodzic = r_czeka 0, k_dziecko = Nie_ma, k_mutex = None, k_czekaja = Some [(p, MUTEX)], k_stdout = []\<rparr>"
| sam_koniec: "turns = 0 \<Longrightarrow> (P, out) \<in> {(Dziala (R_dziecko p_lock), []), (Dziala (R_exit p_lock), []), (Dziala Wyjscie, p_lock), (Zombie 0, p_lock)} \<Longrightarrow>
    tt_konf turns p q \<lparr>k_rodzic = P, k_dziecko = Nie_ma, k_mutex = None, k_czekaja = None, k_stdout = out\<rparr>"
| dwa: "0 \<le> turns \<Longrightarrow> (C, qs) \<in> {(Dziala (D_lock p_lock), []), (d_lock, [q])} \<Longrightarrow>
    tt_konf turns p q \<lparr>k_rodzic = Dziala (R_petla 0 p_lock), k_dziecko = C, k_mutex = Some (p, qs), k_czekaja = None, k_stdout = []\<rparr>"
| czeka_pierwszy: "0 < turns \<Longrightarrow> (C, x) \<in> {(Dziala (D_lock p_lock), None), (Dziala (D_oglos0 p_lock), Some (q, []))} \<Longrightarrow>
    tt_konf turns p q \<lparr>k_rodzic = r_czeka 0, k_dziecko = C, k_mutex = x, k_czekaja = Some [(p, MUTEX)], k_stdout = []\<rparr>"
| oddaje_d: "0 \<le> i \<Longrightarrow> i < turns \<Longrightarrow> out = tury i \<Longrightarrow>
    tt_konf turns p q \<lparr>k_rodzic = r_czeka i, k_dziecko = Dziala (D_petla i p_lock), k_mutex = Some (q, [p]), k_czekaja = None, k_stdout = out\<rparr>"
| tic: "0 \<le> i \<Longrightarrow> i < turns \<Longrightarrow>
    (l, out) \<in> {(R_ti i p_lock, tury i), (R_c i p_lock, tury i @ ''TI''), (R_oglos i p_lock, tury i @ tic)} \<Longrightarrow>
    tt_konf turns p q \<lparr>k_rodzic = Dziala l, k_dziecko = d_czeka i, k_mutex = Some (p, []), k_czekaja = Some [(q, MUTEX)], k_stdout = out\<rparr>"
| oddaje_r: "0 \<le> i \<Longrightarrow> i < turns \<Longrightarrow> out = tury i @ tic \<Longrightarrow>
    tt_konf turns p q \<lparr>k_rodzic = Dziala (R_petla (i + 1) p_lock), k_dziecko = d_czeka i, k_mutex = Some (p, [q]), k_czekaja = None, k_stdout = out\<rparr>"
| tac: "0 \<le> i \<Longrightarrow> i + 1 < turns \<Longrightarrow>
    (l, out) \<in> {(D_ta i p_lock, tury i @ tic), (D_c i p_lock, tury i @ tic @ ''TA''), (D_oglos i p_lock, tury (i + 1))} \<Longrightarrow>
    tt_konf turns p q \<lparr>k_rodzic = r_czeka (i + 1), k_dziecko = Dziala l, k_mutex = Some (q, []), k_czekaja = Some [(p, MUTEX)], k_stdout = out\<rparr>"
| ostatni: "0 \<le> i \<Longrightarrow> i + 1 = turns \<Longrightarrow>
    (l, out) \<in> {(D_ta i p_lock, tury i @ tic), (D_c i p_lock, tury i @ tic @ ''TA''), (D_oglos i p_lock, tury turns)} \<Longrightarrow>
    tt_konf turns p q \<lparr>k_rodzic = Dziala (R_dziecko p_lock), k_dziecko = Dziala l, k_mutex = Some (q, []), k_czekaja = None, k_stdout = out\<rparr>"
| bez_tur: "turns = 0 \<Longrightarrow> (C, x) \<in> {(Dziala (D_lock p_lock), None), (Dziala (D_oglos0 p_lock), Some (q, []))} \<Longrightarrow>
    tt_konf turns p q \<lparr>k_rodzic = Dziala (R_dziecko p_lock), k_dziecko = C, k_mutex = x, k_czekaja = None, k_stdout = []\<rparr>"
| po_turach: "0 \<le> turns \<Longrightarrow> i = turns \<Longrightarrow> out = tury turns \<Longrightarrow>
    tt_konf turns p q \<lparr>k_rodzic = Dziala (R_dziecko p_lock), k_dziecko = Dziala (D_petla i p_lock), k_mutex = Some (q, []), k_czekaja = None, k_stdout = out\<rparr>"
| koniec_d: "0 \<le> turns \<Longrightarrow>
    (C, out) \<in> {(Dziala (D_exit p_lock), tury turns), (Dziala Wyjscie, tury turns @ p_lock), (Zombie 0, tury turns @ p_lock)} \<Longrightarrow>
    tt_konf turns p q \<lparr>k_rodzic = Dziala (R_dziecko p_lock), k_dziecko = C, k_mutex = None, k_czekaja = None, k_stdout = out\<rparr>"
| koniec_r: "0 \<le> turns \<Longrightarrow>
    (P, out) \<in> {(Dziala (R_exit p_lock), tury turns @ p_lock), (Dziala Wyjscie, tury turns @ p_lock @ p_lock), (Zombie 0, tury turns @ p_lock @ p_lock)} \<Longrightarrow>
    tt_konf turns p q \<lparr>k_rodzic = P, k_dziecko = Nie_ma, k_mutex = None, k_czekaja = None, k_stdout = out\<rparr>"

text \<open>The steps between these configurations.\<close>

lemmas tt_czeka = r_czeka_def d_czeka_def d_lock_def

lemmas tt_ruch = ruch_def stan_z_def ustaw_def lib_defs libe_defs tt_czeka po_zadaniach

lemmas tt_wstep = tt_konf.intros[unfolded tt_czeka EINTR_klienta_def]

lemma tury_1: "0 \<le> i \<Longrightarrow> tury (i + 1) = tury i @ tic @ tac"
  by (simp add: tury_def nat_add_distrib replicate_append_same[symmetric])

lemma tury_0: "tury 0 = []"
  by (simp add: tury_def)

lemma p_lock_report: "report ''p lock:'' 0 e = p_lock"
proof -
  have "dziesietnie 0 = ''0''" by code_simp
  then show ?thesis by (simp add: report_def p_lock_def)
qed

lemma tt_konf_ruch:
  assumes "tt_konf turns p q k" "p \<noteq> q" "ruch (tictac argc turns) MUTEX CV_nr p q b k k'"
  shows "tt_konf turns p q k'"
  using assms
  by (cases rule: tt_konf.cases; clarsimp; (elim disjE)?; cases b; clarsimp simp: tt_ruch p_lock_report split: if_splits)
    (fastforce intro: tt_wstep simp: tury_1 tury_0 tic_def tac_def)+

lemma tt_konf_poprawna: "tt_konf turns p q k \<Longrightarrow> poprawna (tictac argc turns) tt_kryt k"
  by (erule tt_konf.cases; auto simp: poprawna_def tt_ruch split: if_splits)

lemma tt_konf_bez_dziecka:
  assumes "tt_konf turns p q k" "k_dziecko k = Nie_ma"
  shows "tt_konf turns p r k"
  using assms(1)
proof cases
  case (sam_koniec P out)
  then show ?thesis using tt_konf.sam_koniec by metis
next
  case (koniec_r P out)
  then show ?thesis using tt_konf.koniec_r by metis
qed (use assms(2) in \<open>auto simp: tt_konf.start tt_konf.fail tt_konf.koniec2 tt_konf.lock tt_konf.fork tt_konf.sam tt_konf.sam_czeka d_czeka_def d_lock_def\<close>)

interpretation tt: para E "tictac argc turns" MUTEX CV_nr tt_kryt "tt_konf turns" T_start for E argc turns
proof unfold_locales
  show "zadanie_w_zasobach {MUTEX} {CV_nr} t n d" if "tictac argc turns l = Zadanie t n d f" for l t n d f
    using that by (cases l) (auto simp: lib_defs libe_defs zadanie_w_zasobach_def cs_defs split: if_splits)
  show "prawo_sekcji MUTEX tt_kryt l (tictac argc turns l)" for l
    by (cases l) (auto simp: prawo_sekcji_def lib_defs libe_defs)
  show "zwykla (tictac argc turns l)" for l by (cases l) (simp_all add: lib_defs libe_defs)
qed (auto simp: endpointy_def MAX_MUTEX_def MAX_CV_def intro: tt_konf.start tt_konf_ruch tt_konf_poprawna tt_konf_bez_dziecka)

section \<open>What the test checks\<close>

text \<open>The template of the test.\<close>

definition tictac_wzorzec :: "int \<Rightarrow> string" where
  "tictac_wzorzec turns = tury turns @ p_lock @ p_lock"

text \<open>The states of the program when the process \<open>p\<close> runs its \<^verbatim>\<open>main\<close>.\<close>

definition tictac_stan :: "srodowisko \<Rightarrow> int \<Rightarrow> int \<Rightarrow> int \<Rightarrow> tt_lok uklad \<Rightarrow> bool" where
  "tictac_stan E argc turns p =
     osiagalny (\<lambda>u. p \<in> endpointy E \<and> poczatek_ukladu E p T_start u) (krok_ukladu E (tictac argc turns) (endpointy E) MAX_CZEKA)"

lemma tury_mniej:
  assumes "0 \<le> i" "i < turns"
  shows "\<exists>y. tury turns = tury i @ tic @ tac @ y"
proof -
  have "nat turns = Suc (nat i) + (nat turns - Suc (nat i))" using assms by simp
  then have "replicate (nat turns) (tic @ tac) = replicate (nat i) (tic @ tac) @ [tic @ tac] @ replicate (nat turns - Suc (nat i)) (tic @ tac)"
    by (metis append_Cons append_Nil replicate_Suc replicate_add replicate_append_same append_assoc)
  then show ?thesis by (auto simp: tury_def)
qed

lemma tt_konf_wynik:
  assumes "tt_konf turns p q k"
  shows "\<exists>y. tictac_wzorzec turns = k_stdout k @ y" "0 < turns \<Longrightarrow> k_rodzic k = Zombie 0 \<Longrightarrow> k_stdout k = tictac_wzorzec turns"
    "(\<exists>j. k_rodzic k = Zombie j) \<or> k_rodzic k = r_czeka 0 \<and> k_dziecko k = Nie_ma \<or> ruchoma (tictac argc turns) k"
proof -
  show "\<exists>y. tictac_wzorzec turns = k_stdout k @ y"
    using assms
  proof cases
    case (oddaje_d i out)
    with tury_mniej[of i turns] show ?thesis by (auto simp: tictac_wzorzec_def)
  next
    case (tic i l out)
    with tury_mniej[of i turns] show ?thesis by (auto simp: tictac_wzorzec_def tic_def)
  next
    case (oddaje_r i out)
    with tury_mniej[of i turns] show ?thesis by (auto simp: tictac_wzorzec_def)
  next
    case (tac i l out)
    with tury_mniej[of i turns] tury_1[of i] show ?thesis by (auto simp: tictac_wzorzec_def tac_def)
  next
    case (ostatni i l out)
    with tury_mniej[of i turns] show ?thesis by (auto simp: tictac_wzorzec_def tac_def)
  qed (auto simp: tictac_wzorzec_def tury_0)
  show "k_stdout k = tictac_wzorzec turns" if "0 < turns" "k_rodzic k = Zombie 0"
    using assms that by cases (auto simp: tictac_wzorzec_def tt_czeka)
  show "(\<exists>j. k_rodzic k = Zombie j) \<or> k_rodzic k = r_czeka 0 \<and> k_dziecko k = Nie_ma \<or> ruchoma (tictac argc turns) k"
    using assms unfolding ruchoma_def ex_bool_eq stan_z_def
    by cases (clarsimp simp: lib_defs libe_defs tt_czeka split: if_splits; (elim disjE)?; simp split: if_splits)+
qed

text \<open>
  C21. The test program \<^verbatim>\<open>tictac\<close>: whatever the order in which its two processes run, its output is at any time a beginning of the template of
  the test (as many times \<^verbatim>\<open>TIC\<close> and \<^verbatim>\<open>TAC\<close> in turn as it has turns, then the line that both processes had in their buffers), and with at least
  one turn it is the whole template when \<^verbatim>\<open>main\<close> has ended with status zero; until it has ended some process can take a step, except when
  \<^verbatim>\<open>fork\<close> failed and the parent waits alone.
\<close>

theorem tictac_zgodny_z_wzorcem:
  assumes "tictac_stan E argc turns p u"
  shows "(\<exists>y. tictac_wzorzec turns = stdout u @ y) \<and> (0 < turns \<and> stany u p = Zombie 0 \<longrightarrow> stdout u = tictac_wzorzec turns) \<and>
    ((\<exists>j. stany u p = Zombie j) \<or> (\<exists>f. stany u p = Zablokowany f) \<and> (\<forall>q. q \<noteq> p \<longrightarrow> stany u q = Nie_ma) \<or>
      (\<exists>u'. krok_ukladu E (tictac argc turns) (endpointy E) MAX_CZEKA u u'))"
proof -
  from assms obtain q k where k: "tt_konf turns p q k" and o: "obraz MUTEX CV_nr p q k u"
    and r: "ruchoma (tictac argc turns) k \<Longrightarrow> \<exists>u'. krok_ukladu E (tictac argc turns) (endpointy E) MAX_CZEKA u u'"
    unfolding tictac_stan_def by (rule tt.osiagalna_konf) blast
  have u: "stany u p = k_rodzic k" "stdout u = k_stdout k" "k_dziecko k = Nie_ma \<Longrightarrow> x \<noteq> p \<Longrightarrow> stany u x = Nie_ma" for x
    using o by (auto simp: obraz_def procesy_pary_def)
  from tt_konf_wynik(1,2)[OF k] tt_konf_wynik(3)[OF k, of argc] r show ?thesis unfolding u(1,2) using u(3) by (auto simp: r_czeka_def)
qed

definition tt_plan :: "wybor list" where
  "tt_plan = [Idz 10, Idz 10, Nowy 10 20, Idz 20, Idz 10, Idz 20, Idz 20] @ replicate 4 (Idz 10) @ replicate 6 (Idz 20) @ [Zbierz 10 20, Idz 10, Idz 10]"

lemma tictac_przebieg: "\<exists>u. tictac_stan srod0 2 1 10 u \<and> stany u 10 = Zombie 0"
  unfolding tictac_stan_def
proof (rule tt.plan_konczy[where ms = "[MUTEX]" and ws = tt_plan])
  show "case wykonaj_plan (tictac 2 1) [MUTEX] MAX_CZEKA tt_plan (przebieg0 10 T_start) of None \<Rightarrow> False | Some s \<Rightarrow> zakonczony 0 (p_stany s 10)"
    by code_simp
qed (auto simp: endpointy0 MAX_CZEKA_def dzieci_planu_def tt_plan_def)

theorem tictac_zgodny_z_wzorcem_przyklad:
  "\<exists>u. tictac_stan srod0 2 1 10 u \<and> stany u 10 = Zombie 0 \<and>
     stdout u = ''TIC'' @ [CHR 0x0A] @ ''TAC'' @ [CHR 0x0A] @ ''p lock: 0'' @ [CHR 0x0A] @ ''p lock: 0'' @ [CHR 0x0A]"
proof -
  obtain u where u: "tictac_stan srod0 2 1 10 u" "stany u 10 = Zombie 0" using tictac_przebieg by blast
  from tictac_zgodny_z_wzorcem[OF u(1)] u show ?thesis
    by (intro exI[of _ u]) (simp add: tictac_wzorzec_def tury_def tic_def tac_def p_lock_def)
qed

end
