(* ===== verification/Simple_Cv.thy ===== *)
theory Simple_Cv
  imports Para
begin

text \<open>
  The test program \<^verbatim>\<open>testy/src/simple_cv.c\<close>: a parent that waits for an event and a child that signals it. What the two processes
  report is the template of the test, in whatever order they run: the standard output of the test is a file, so the reports
  stay in the buffer of the process, which \<^verbatim>\<open>fork\<close> copies, until \<^verbatim>\<open>exit\<close> writes it, and the parent exits after its child. \<^verbatim>\<open>sleep\<close>
  only takes time.
\<close>

section \<open>The program\<close>

definition MUTEX :: int where "MUTEX = 1"

definition CV_nr :: int where "CV_nr = 1"

definition MAX_DELAY :: int where "MAX_DELAY = 30"

text \<open>
  The control points: \<open>T\<close> before \<^verbatim>\<open>fork\<close>, \<open>R\<close> in the parent, \<open>D\<close> in the child, with the buffer of the standard output and
  \<^verbatim>\<open>errno\<close>. \<open>R_znow\<close> takes the mutex again after an interrupted \<^verbatim>\<open>cs_wait\<close>.
\<close>

datatype sc_lok =
    T_start | T_lock string int | T_fork string int
  | R_spij string int | R_wait string int | R_znow string int | R_unlock string int | R_dziecko string int | R_exit string
  | D_lock string int | D_oglos string int | D_unlock string int | D_exit string | Wyjscie | Fail

fun simple_cv :: "int \<Rightarrow> int \<Rightarrow> sc_lok \<Rightarrow> sc_lok akcja" where
  "simple_cv argc pdelay T_start = Dalej (if argc = 2 \<and> (pdelay < 0 \<or> pdelay > MAX_DELAY) then Fail else T_lock [] 0)"
| "simple_cv argc pdelay (T_lock b e) = libe_cs_lock MUTEX e (T_lock b) (\<lambda>r e. T_fork (b @ report ''p lock:'' r e) e)"
| "simple_cv argc pdelay (T_fork b e) = Rozwidl (\<lambda>ch. if ch \<noteq> 0 then R_spij b e else D_lock b e)"
| "simple_cv argc pdelay (R_spij b e) = Dalej (R_wait b e)"
| "simple_cv argc pdelay (R_wait b e) = libe_cs_wait CV_nr MUTEX e (R_znow b) (\<lambda>r e. R_unlock (b @ report ''p wait:'' r e) e)"
| "simple_cv argc pdelay (R_znow b e) =
     libe_cs_lock MUTEX e (R_znow b) (\<lambda>r e. R_unlock (b @ report ''p wait:'' (if - 1 = r then - 1 else 0) e) e)"
| "simple_cv argc pdelay (R_unlock b e) = libe_cs_unlock MUTEX e (\<lambda>r e. R_dziecko (b @ report ''p unlock:'' r e) e)"
| "simple_cv argc pdelay (R_dziecko b e) = Czekaj_dziecka (\<lambda>r. R_exit b)"
| "simple_cv argc pdelay (R_exit b) = Pisz b Wyjscie"
| "simple_cv argc pdelay (D_lock b e) = libe_cs_lock MUTEX e (D_lock b) (\<lambda>r e. D_oglos (b @ report ''ch lock:'' r e) e)"
| "simple_cv argc pdelay (D_oglos b e) = libe_cs_broadcast CV_nr e (\<lambda>r e. D_unlock (b @ report ''ch broadcast:'' r e) e)"
| "simple_cv argc pdelay (D_unlock b e) = libe_cs_unlock MUTEX e (\<lambda>r e. D_exit (b @ report ''ch unlock:'' r e))"
| "simple_cv argc pdelay (D_exit b) = Pisz b Wyjscie"
| "simple_cv argc pdelay Wyjscie = Koniec 0"
| "simple_cv argc pdelay Fail = Koniec 2"

text \<open>The control points \<open>R_wait\<close> and \<open>R_znow\<close> together are the call of \<^verbatim>\<open>cs_wait\<close>, however often it is interrupted.\<close>

lemma simple_cv_wait:
  "r \<noteq> - EINTR_klienta \<Longrightarrow>
   \<exists>x e'. libc_cs_wait odpowiada CV_nr MUTEX \<lparr>errno = e, swiat = replicate j (- EINTR_klienta) @ r # ws\<rparr> = Some (x, \<lparr>errno = e', swiat = ws\<rparr>) \<and>
     po_odpowiedziach (simple_cv argc pdelay) (replicate j (- EINTR_klienta) @ [r]) (R_wait b e) = Some (R_unlock (b @ report ''p wait:'' x e') e')"
  using libe_cs_wait_zgodny[of "simple_cv argc pdelay" "R_wait b e" CV_nr MUTEX e "R_znow b" "\<lambda>r e. R_unlock (b @ report ''p wait:'' r e) e"] by simp

fun sc_kryt :: "sc_lok \<Rightarrow> bool" where
  "sc_kryt (T_fork b e) = True" | "sc_kryt (R_spij b e) = True" | "sc_kryt (R_wait b e) = True" | "sc_kryt (R_unlock b e) = True"
| "sc_kryt (D_oglos b e) = True" | "sc_kryt (D_unlock b e) = True" | "sc_kryt _ = False"

section \<open>Its configurations\<close>

text \<open>The lines of the two processes.\<close>

definition zero_wiersz :: "string \<Rightarrow> string" where
  "zero_wiersz x = x @ '' 0'' @ [CHR 0x0A]"

definition p_lock :: string where "p_lock = zero_wiersz ''p lock:''"

definition wiersze_rodzica :: string where
  "wiersze_rodzica = p_lock @ zero_wiersz ''p wait:'' @ zero_wiersz ''p unlock:''"

definition wiersze_dziecka :: string where
  "wiersze_dziecka = p_lock @ zero_wiersz ''ch lock:'' @ zero_wiersz ''ch broadcast:'' @ zero_wiersz ''ch unlock:''"

definition r_czeka :: "sc_lok proces_k" where
  "r_czeka = Zablokowany (\<lambda>r. if r = - EINTR_klienta then R_znow p_lock (po_wywolaniu r 0)
     else R_unlock (p_lock @ report ''p wait:'' (status r) (po_wywolaniu r 0)) (po_wywolaniu r 0))"

definition d_czeka :: "sc_lok proces_k" where
  "d_czeka = Zablokowany (\<lambda>r. if r = - EINTR_klienta then D_lock p_lock (po_wywolaniu r 0)
     else D_oglos (p_lock @ report ''ch lock:'' (status r) (po_wywolaniu r 0)) (po_wywolaniu r 0))"

definition d_lock :: "sc_lok proces_k" where "d_lock = Dziala (D_lock p_lock 0)"

definition d_oglos :: "sc_lok proces_k" where "d_oglos = Dziala (D_oglos (p_lock @ zero_wiersz ''ch lock:'') 0)"

definition d_unlock :: "sc_lok proces_k" where
  "d_unlock = Dziala (D_unlock (p_lock @ zero_wiersz ''ch lock:'' @ zero_wiersz ''ch broadcast:'') 0)"

inductive sc_konf :: "int \<Rightarrow> int \<Rightarrow> sc_lok konfiguracja \<Rightarrow> bool" for p q where
  start: "P \<in> {Dziala T_start, Dziala Fail, Zombie 2, Dziala (T_lock [] 0)} \<Longrightarrow>
    sc_konf p q \<lparr>k_rodzic = P, k_dziecko = Nie_ma, k_mutex = None, k_czekaja = None, k_stdout = []\<rparr>"
| sam: "P \<in> {Dziala (T_fork p_lock 0), Dziala (R_spij p_lock 0), Dziala (R_wait p_lock 0)} \<Longrightarrow>
    sc_konf p q \<lparr>k_rodzic = P, k_dziecko = Nie_ma, k_mutex = Some (p, []), k_czekaja = None, k_stdout = []\<rparr>"
| sam_czeka: "sc_konf p q \<lparr>k_rodzic = r_czeka, k_dziecko = Nie_ma, k_mutex = None, k_czekaja = Some [(p, MUTEX)], k_stdout = []\<rparr>"
| dwa: "P \<in> {Dziala (R_spij p_lock 0), Dziala (R_wait p_lock 0)} \<Longrightarrow> (C, qs) \<in> {(d_lock, []), (d_czeka, [q])} \<Longrightarrow>
    sc_konf p q \<lparr>k_rodzic = P, k_dziecko = C, k_mutex = Some (p, qs), k_czekaja = None, k_stdout = []\<rparr>"
| czeka: "(C, x) \<in> {(d_lock, None), (d_oglos, Some (q, []))} \<Longrightarrow>
    sc_konf p q \<lparr>k_rodzic = r_czeka, k_dziecko = C, k_mutex = x, k_czekaja = Some [(p, MUTEX)], k_stdout = []\<rparr>"
| obudzony: "sc_konf p q \<lparr>k_rodzic = r_czeka, k_dziecko = d_unlock, k_mutex = Some (q, [p]), k_czekaja = None, k_stdout = []\<rparr>"
| koniec_d: "(P, x) \<in> {(Dziala (R_unlock (p_lock @ zero_wiersz ''p wait:'') 0), Some (p, [])), (Dziala (R_dziecko wiersze_rodzica 0), None)} \<Longrightarrow>
    (C, out) \<in> {(Dziala (D_exit wiersze_dziecka), []), (Dziala Wyjscie, wiersze_dziecka), (Zombie 0, wiersze_dziecka)} \<Longrightarrow>
    sc_konf p q \<lparr>k_rodzic = P, k_dziecko = C, k_mutex = x, k_czekaja = None, k_stdout = out\<rparr>"
| koniec_r: "(P, out) \<in> {(Dziala (R_exit wiersze_rodzica), wiersze_dziecka), (Dziala Wyjscie, wiersze_dziecka @ wiersze_rodzica),
      (Zombie 0, wiersze_dziecka @ wiersze_rodzica)} \<Longrightarrow>
    sc_konf p q \<lparr>k_rodzic = P, k_dziecko = Nie_ma, k_mutex = None, k_czekaja = None, k_stdout = out\<rparr>"

text \<open>The steps between these configurations.\<close>

lemma report_0: "report x 0 e = zero_wiersz x"
proof -
  have "dziesietnie 0 = ''0''" by code_simp
  then show ?thesis by (simp add: report_def zero_wiersz_def)
qed

lemmas sc_stany = r_czeka_def d_czeka_def d_lock_def d_oglos_def d_unlock_def

lemmas sc_ruch = ruch_def stan_z_def ustaw_def lib_defs libe_defs sc_stany po_zadaniach report_0 p_lock_def[symmetric]

lemmas sc_wstep = sc_konf.intros[unfolded sc_stany EINTR_klienta_def]

lemma sc_konf_ruch:
  assumes "sc_konf p q k" "p \<noteq> q" "ruch (simple_cv argc pdelay) MUTEX CV_nr p q b k k'"
  shows "sc_konf p q k'"
  using assms
  by (cases rule: sc_konf.cases; clarsimp; (elim disjE conjE)?; cases b;
      clarsimp simp: sc_ruch wiersze_rodzica_def wiersze_dziecka_def split: if_splits)
    (fastforce intro: sc_wstep simp: wiersze_rodzica_def wiersze_dziecka_def)+

lemma sc_konf_poprawna: "sc_konf p q k \<Longrightarrow> poprawna (simple_cv argc pdelay) sc_kryt k"
  by (erule sc_konf.cases; auto simp: poprawna_def sc_ruch split: if_splits)

lemma sc_konf_bez_dziecka:
  assumes "sc_konf p q k" "k_dziecko k = Nie_ma"
  shows "sc_konf p r k"
  using assms(1)
proof cases
  case (start P)
  then show ?thesis using sc_konf.start by metis
next
  case (sam P)
  then show ?thesis using sc_konf.sam by metis
next
  case (koniec_r P out)
  then show ?thesis using sc_konf.koniec_r by metis
qed (use assms(2) in \<open>auto simp: sc_konf.sam_czeka d_czeka_def d_lock_def d_oglos_def d_unlock_def\<close>)

interpretation sc: para E "simple_cv argc pdelay" MUTEX CV_nr sc_kryt sc_konf T_start for E argc pdelay
proof unfold_locales
  show "zadanie_w_zasobach {MUTEX} {CV_nr} t n d" if "simple_cv argc pdelay l = Zadanie t n d f" for l t n d f
    using that by (cases l) (auto simp: libe_defs zadanie_w_zasobach_def cs_defs split: if_splits)
  show "prawo_sekcji MUTEX sc_kryt l (simple_cv argc pdelay l)" for l
    by (cases l) (auto simp: prawo_sekcji_def lib_defs libe_defs)
  show "zwykla (simple_cv argc pdelay l)" for l by (cases l) (simp_all add: libe_defs)
qed (auto simp: endpointy_def MAX_MUTEX_def MAX_CV_def intro: sc_konf.start sc_konf_ruch sc_konf_poprawna sc_konf_bez_dziecka)

section \<open>What the test checks\<close>

text \<open>The template of the test.\<close>

definition simple_cv_wzorzec :: string where
  "simple_cv_wzorzec = wiersze_dziecka @ wiersze_rodzica"

text \<open>The states of the program when the process \<open>p\<close> runs its \<^verbatim>\<open>main\<close>.\<close>

definition simple_cv_stan :: "srodowisko \<Rightarrow> int \<Rightarrow> int \<Rightarrow> int \<Rightarrow> sc_lok uklad \<Rightarrow> bool" where
  "simple_cv_stan E argc pdelay p =
     osiagalny (\<lambda>u. p \<in> endpointy E \<and> poczatek_ukladu E p T_start u) (krok_ukladu E (simple_cv argc pdelay) (endpointy E) MAX_CZEKA)"

lemma sc_konf_wynik:
  assumes "sc_konf p q k"
  shows "k_stdout k \<in> {[], wiersze_dziecka, simple_cv_wzorzec}" "k_rodzic k = Zombie 0 \<Longrightarrow> k_stdout k = simple_cv_wzorzec"
    "(\<exists>j. k_rodzic k = Zombie j) \<or> k_rodzic k = r_czeka \<and> k_dziecko k = Nie_ma \<or> ruchoma (simple_cv argc pdelay) k"
proof -
  show "k_stdout k \<in> {[], wiersze_dziecka, simple_cv_wzorzec}" using assms by cases (auto simp: simple_cv_wzorzec_def)
  show "k_stdout k = simple_cv_wzorzec" if "k_rodzic k = Zombie 0"
    using assms that by cases (auto simp: simple_cv_wzorzec_def sc_stany)
  show "(\<exists>j. k_rodzic k = Zombie j) \<or> k_rodzic k = r_czeka \<and> k_dziecko k = Nie_ma \<or> ruchoma (simple_cv argc pdelay) k"
    using assms unfolding ruchoma_def ex_bool_eq stan_z_def
    by cases (clarsimp simp: libe_defs sc_stany split: if_splits; (elim disjE)?; simp split: if_splits)+
qed

text \<open>
  C22. The test program \<^verbatim>\<open>simple_cv\<close>: whatever the order in which its two processes run, its output is nothing, the lines of the child,
  or the whole template of the test, and it is the template when \<^verbatim>\<open>main\<close> has ended with status zero: every call of the library
  returned 0. Until \<^verbatim>\<open>main\<close> has ended some process can take a step, except when \<^verbatim>\<open>fork\<close> failed and the parent waits alone.
\<close>

theorem simple_cv_zgodny_z_wzorcem:
  assumes "simple_cv_stan E argc pdelay p u"
  shows "stdout u \<in> {[], wiersze_dziecka, simple_cv_wzorzec} \<and> (stany u p = Zombie 0 \<longrightarrow> stdout u = simple_cv_wzorzec) \<and>
    ((\<exists>j. stany u p = Zombie j) \<or> (\<exists>f. stany u p = Zablokowany f) \<and> (\<forall>q. q \<noteq> p \<longrightarrow> stany u q = Nie_ma) \<or>
      (\<exists>u'. krok_ukladu E (simple_cv argc pdelay) (endpointy E) MAX_CZEKA u u'))"
proof -
  from assms obtain q k where k: "sc_konf p q k" and o: "obraz MUTEX CV_nr p q k u"
    and r: "ruchoma (simple_cv argc pdelay) k \<Longrightarrow> \<exists>u'. krok_ukladu E (simple_cv argc pdelay) (endpointy E) MAX_CZEKA u u'"
    unfolding simple_cv_stan_def by (rule sc.osiagalna_konf) blast
  have u: "stany u p = k_rodzic k" "stdout u = k_stdout k" "k_dziecko k = Nie_ma \<Longrightarrow> x \<noteq> p \<Longrightarrow> stany u x = Nie_ma" for x
    using o by (auto simp: obraz_def procesy_pary_def)
  from sc_konf_wynik(1,2)[OF k] sc_konf_wynik(3)[OF k, of argc pdelay] r show ?thesis unfolding u(1,2) using u(3) by (auto simp: r_czeka_def)
qed

definition sc_plan :: "wybor list" where
  "sc_plan = [Idz 10, Idz 10, Nowy 10 20, Idz 20, Idz 10, Idz 10, Idz 20, Idz 20, Idz 10, Idz 20, Idz 20, Zbierz 10 20, Idz 10, Idz 10]"

lemma simple_cv_przebieg: "\<exists>u. simple_cv_stan srod0 1 0 10 u \<and> stany u 10 = Zombie 0"
  unfolding simple_cv_stan_def
proof (rule sc.plan_konczy[where ms = "[MUTEX]" and ws = sc_plan])
  show "case wykonaj_plan (simple_cv 1 0) [MUTEX] MAX_CZEKA sc_plan (przebieg0 10 T_start) of None \<Rightarrow> False | Some s \<Rightarrow> zakonczony 0 (p_stany s 10)"
    by code_simp
qed (auto simp: endpointy0 MAX_CZEKA_def dzieci_planu_def sc_plan_def)

theorem simple_cv_zgodny_z_wzorcem_przyklad:
  "\<exists>u. simple_cv_stan srod0 1 0 10 u \<and> stany u 10 = Zombie 0 \<and>
     stdout u = concat (map zero_wiersz [''p lock:'', ''ch lock:'', ''ch broadcast:'', ''ch unlock:'', ''p lock:'', ''p wait:'', ''p unlock:''])"
proof -
  obtain u where u: "simple_cv_stan srod0 1 0 10 u" "stany u 10 = Zombie 0" using simple_cv_przebieg by blast
  from simple_cv_zgodny_z_wzorcem[OF u(1)] u show ?thesis
    by (intro exI[of _ u]) (simp add: simple_cv_wzorzec_def wiersze_rodzica_def wiersze_dziecka_def p_lock_def)
qed

end
