(* ===== verification/Rodzina.thy ===== *)
theory Rodzina
  imports Sekcja Przebieg Wydruk
begin

text \<open>
  Programs of a parent and any number of children. The state of such a program with the server is a configuration: the parent, its children in the
  order in which they were started, the monitor that the server implements, and the output. The steps of the whole system are steps between
  configurations, so a set of configurations that is closed under them holds in every run.
\<close>

section \<open>Configurations\<close>

record 'l rodzina =
  r_glowny :: "'l proces_k"
  r_lista :: "int list"
  r_dzieci :: "nat \<Rightarrow> 'l proces_k"
  r_mon :: monitor
  r_stdout :: string

text \<open>The number of a child, and the table of all processes.\<close>

definition nr_dziecka :: "int list \<Rightarrow> int \<Rightarrow> nat option" where
  "nr_dziecka ws = map_of (zip ws [0..<length ws])"

definition tabela :: "int \<Rightarrow> 'l rodzina \<Rightarrow> int \<Rightarrow> 'l proces_k" where
  "tabela p R = (\<lambda>x. if x = p then r_glowny R else case nr_dziecka (r_lista R) x of None \<Rightarrow> Nie_ma | Some j \<Rightarrow> r_dzieci R j)"

definition ulozona :: "int \<Rightarrow> 'l rodzina \<Rightarrow> bool" where
  "ulozona p R \<longleftrightarrow> distinct (r_lista R) \<and> p \<notin> set (r_lista R)"

definition obraz_rodziny :: "int \<Rightarrow> 'l rodzina \<Rightarrow> 'l uklad \<Rightarrow> bool" where
  "obraz_rodziny p R u \<longleftrightarrow> ulozona p R \<and> stany u = tabela p R \<and> abstr (serw u) = r_mon R \<and> stdout u = r_stdout R \<and>
     rodzic u p \<noteq> p \<and> (\<forall>x \<in> set (r_lista R). rodzic u x = p)"

lemma numer_nth: "distinct ws \<Longrightarrow> j < length ws \<Longrightarrow> nr_dziecka ws (ws ! j) = Some j"
  by (simp add: nr_dziecka_def map_of_zip_nth)

lemma numer_None: "nr_dziecka ws x = None \<longleftrightarrow> x \<notin> set ws"
  by (simp add: nr_dziecka_def map_of_zip_is_None)

lemma numer_Some: "nr_dziecka ws x = Some j \<Longrightarrow> j < length ws \<and> ws ! j = x"
  by (auto simp: nr_dziecka_def set_zip dest!: map_of_SomeD)

lemma numer_append: "q \<notin> set ws \<Longrightarrow> nr_dziecka (ws @ [q]) x = (if x = q then Some (length ws) else nr_dziecka ws x)"
proof -
  assume q: "q \<notin> set ws"
  have z: "zip (ws @ [q]) [0..<length (ws @ [q])] = zip ws [0..<length ws] @ [(q, length ws)]" by simp
  have "map_of (zip ws [0..<length ws] @ [(q, length ws)]) x = (case nr_dziecka ws x of None \<Rightarrow> if x = q then Some (length ws) else None | Some j \<Rightarrow> Some j)"
    unfolding nr_dziecka_def map_of_append map_add_def by (rule option.case_cong) simp_all
  moreover have "nr_dziecka ws q = None" using q by (simp add: numer_None)
  ultimately show ?thesis unfolding nr_dziecka_def[of "ws @ [q]"] z by (cases "nr_dziecka ws x") auto
qed

text \<open>Whose step it is: \<^term>\<open>None\<close> the parent's, \<^term>\<open>Some j\<close> that of the child \<open>j\<close>.\<close>

definition kto :: "int \<Rightarrow> nat option \<Rightarrow> 'l rodzina \<Rightarrow> int" where
  "kto p b R = (case b of None \<Rightarrow> p | Some j \<Rightarrow> r_lista R ! j)"

definition stan_r :: "nat option \<Rightarrow> 'l rodzina \<Rightarrow> 'l proces_k" where
  "stan_r b R = (case b of None \<Rightarrow> r_glowny R | Some j \<Rightarrow> if j < length (r_lista R) then r_dzieci R j else Nie_ma)"

definition ustaw_r :: "nat option \<Rightarrow> 'l proces_k \<Rightarrow> 'l rodzina \<Rightarrow> 'l rodzina" where
  "ustaw_r b x R = (case b of None \<Rightarrow> R\<lparr>r_glowny := x\<rparr> | Some j \<Rightarrow> R\<lparr>r_dzieci := (r_dzieci R)(j := x)\<rparr>)"

lemma tabela_cong: "r_glowny R = r_glowny R' \<Longrightarrow> r_lista R = r_lista R' \<Longrightarrow> r_dzieci R = r_dzieci R' \<Longrightarrow> tabela p R = tabela p R'"
  by (simp add: tabela_def fun_eq_iff split: option.split)

lemma tabela_kto:
  assumes "ulozona p R" "stan_r b R \<noteq> Nie_ma"
  shows "tabela p R (kto p b R) = stan_r b R"
proof (cases b)
  case (Some j)
  then have "j < length (r_lista R)" using assms(2) by (auto simp: stan_r_def split: if_splits)
  moreover from this have "r_lista R ! j \<noteq> p" using assms(1) nth_mem[of j "r_lista R"] by (auto simp: ulozona_def)
  ultimately show ?thesis using assms(1) Some by (simp add: tabela_def kto_def stan_r_def ulozona_def numer_nth)
qed (simp add: tabela_def kto_def stan_r_def)

lemma tabela_ustaw:
  assumes "ulozona p R" "stan_r b R \<noteq> Nie_ma"
  shows "tabela p (ustaw_r b x R) = (tabela p R)(kto p b R := x)"
proof (cases b)
  case (Some j)
  then have j: "j < length (r_lista R)" using assms by (auto simp: stan_r_def split: if_splits)
  then have p: "r_lista R ! j \<noteq> p" "nr_dziecka (r_lista R) (r_lista R ! j) = Some j"
    using assms(1) nth_mem[OF j] by (auto simp: ulozona_def numer_nth)
  show ?thesis
  proof
    fix y
    show "tabela p (ustaw_r b x R) y = ((tabela p R)(kto p b R := x)) y"
    proof (cases "nr_dziecka (r_lista R) y")
      case None
      then have "y \<noteq> r_lista R ! j" using p by auto
      with None Some show ?thesis by (simp add: tabela_def kto_def ustaw_r_def)
    next
      case (Some i)
      then have "i = j \<longleftrightarrow> y = r_lista R ! j" using p(2) numer_Some[OF Some] by (metis option.inject)
      with Some \<open>b = Some j\<close> p show ?thesis by (auto simp: tabela_def kto_def ustaw_r_def)
    qed
  qed
qed (simp add: fun_eq_iff tabela_def kto_def ustaw_r_def split: option.split)

lemma ulozona_nth:
  assumes "ulozona p R"
  shows "i < length (r_lista R) \<Longrightarrow> r_lista R ! i \<noteq> p" "i < length (r_lista R) \<Longrightarrow> p \<noteq> r_lista R ! i"
    "i < length (r_lista R) \<Longrightarrow> k < length (r_lista R) \<Longrightarrow> r_lista R ! i = r_lista R ! k \<longleftrightarrow> i = k"
  using assms nth_mem[of i "r_lista R"] by (auto simp: ulozona_def nth_eq_iff_index_eq)

lemma kto_idzie_w_rodzinie:
  assumes "obraz_rodziny p R u" "stany u r = Dziala l"
  obtains b where "stan_r b R = Dziala l" "r = kto p b R"
proof (cases "r = p")
  case True
  with assms that[of None] show thesis by (auto simp: obraz_rodziny_def tabela_def stan_r_def kto_def)
next
  case False
  with assms obtain j where "nr_dziecka (r_lista R) r = Some j" "r_dzieci R j = Dziala l"
    by (auto simp: obraz_rodziny_def tabela_def split: option.splits)
  with that[of "Some j"] numer_Some[of "r_lista R" r j] show thesis by (auto simp: stan_r_def kto_def)
qed

section \<open>Requests of a program that keeps to the protocol\<close>

lemma zadanie_lock:
  "mut \<sigma> n = None \<Longrightarrow> a_klient (zadanie r CS_LOCK n d) \<sigma> = ([(r, OK)], \<sigma>\<lparr>mut := (mut \<sigma>)(n \<mapsto> (r, []))\<rparr>)"
  "mut \<sigma> n = Some (w, qs) \<Longrightarrow> w \<noteq> r \<Longrightarrow> a_klient (zadanie r CS_LOCK n d) \<sigma> = ([], \<sigma>\<lparr>mut := (mut \<sigma>)(n \<mapsto> (w, qs @ [r]))\<rparr>)"
  by (simp_all add: krok_monitora a_lock_def cs_defs errno_defs)

lemma zadanie_unlock:
  "mut \<sigma> n = Some (r, []) \<Longrightarrow> a_klient (zadanie r CS_UNLOCK n d) \<sigma> = ([(r, OK)], \<sigma>\<lparr>mut := (mut \<sigma>)(n := None)\<rparr>)"
  "mut \<sigma> n = Some (r, x # xs) \<Longrightarrow> a_klient (zadanie r CS_UNLOCK n d) \<sigma> = ([(x, OK), (r, OK)], \<sigma>\<lparr>mut := (mut \<sigma>)(n \<mapsto> (x, xs))\<rparr>)"
  by (simp_all add: krok_monitora a_unlock_def cs_defs errno_defs)

lemma zadanie_wait:
  "mut \<sigma> n = Some (r, []) \<Longrightarrow> a_klient (zadanie r CS_WAIT n c) \<sigma> =
     ([], \<sigma>\<lparr>mut := (mut \<sigma>)(n := None), zdarz := (zdarz \<sigma>)(c \<mapsto> czekajacy_na c \<sigma> @ [(r, n)])\<rparr>)"
  "mut \<sigma> n = Some (r, x # xs) \<Longrightarrow> a_klient (zadanie r CS_WAIT n c) \<sigma> =
     ([(x, OK)], \<sigma>\<lparr>mut := (mut \<sigma>)(n \<mapsto> (x, xs)), zdarz := (zdarz \<sigma>)(c \<mapsto> czekajacy_na c \<sigma> @ [(r, n)])\<rparr>)"
  by (simp_all add: krok_monitora a_wait_def a_unlock_def ma_mutex_def czekajacy_na_def cs_defs errno_defs)

lemma a_budz_kolejka:
  "mut \<sigma> n = Some (r, qs) \<Longrightarrow> r \<notin> set ws \<Longrightarrow> a_budz (map (\<lambda>x. (x, n)) ws) \<sigma> = ([], \<sigma>\<lparr>mut := (mut \<sigma>)(n \<mapsto> (r, qs @ ws))\<rparr>)"
proof (induction ws arbitrary: \<sigma> qs)
  case Nil
  then show ?case by (simp add: fun_upd_idem)
next
  case (Cons w ws)
  then have "a_lock w n \<sigma> = (EDONTREPLY, \<sigma>\<lparr>mut := (mut \<sigma>)(n \<mapsto> (r, qs @ [w]))\<rparr>)" by (simp add: a_lock_def)
  moreover have "mut (\<sigma>\<lparr>mut := (mut \<sigma>)(n \<mapsto> (r, qs @ [w]))\<rparr>) n = Some (r, qs @ [w])" by simp
  ultimately show ?case using Cons.IH[of "\<sigma>\<lparr>mut := (mut \<sigma>)(n \<mapsto> (r, qs @ [w]))\<rparr>" "qs @ [w]"] Cons.prems(2)
    by (simp add: a_budz_Cons del: fun_upd_apply)
qed

lemma zadanie_broadcast:
  assumes "mut \<sigma> n = Some (r, qs)" "czekajacy_na c \<sigma> = map (\<lambda>x. (x, n)) ws" "r \<notin> set ws"
  shows "a_klient (zadanie r CS_BROADCAST d c) \<sigma> = ([(r, OK)], \<sigma>\<lparr>mut := (mut \<sigma>)(n \<mapsto> (r, qs @ ws)), zdarz := (zdarz \<sigma>)(c := None)\<rparr>)"
  using a_budz_kolejka[OF assms(1,3)] assms(2) by (simp add: krok_monitora a_broadcast_def cs_defs errno_defs)

lemmas zadania_rodziny = zadanie_lock zadanie_unlock zadanie_wait zadanie_broadcast

section \<open>Steps\<close>

definition po_zadaniu_r :: "int \<Rightarrow> nat option \<Rightarrow> int \<Rightarrow> int \<Rightarrow> int \<Rightarrow> (int \<Rightarrow> 'l) \<Rightarrow> 'l rodzina \<Rightarrow> 'l rodzina" where
  "po_zadaniu_r p b t n d f R =
     (let w = a_klient (zadanie (kto p b R) t n d) (r_mon R);
          S = dorecz (fst w) (tabela p (ustaw_r b (Zablokowany f) R))
      in R\<lparr>r_glowny := S p, r_dzieci := (\<lambda>j. S (r_lista R ! j)), r_mon := snd w\<rparr>)"

lemma po_zadaniu_r_pola:
  assumes "w = a_klient (zadanie (kto p b R) t n d) (r_mon R)"
  shows "r_glowny (po_zadaniu_r p b t n d f R) = dorecz (fst w) (tabela p (ustaw_r b (Zablokowany f) R)) p"
    "r_dzieci (po_zadaniu_r p b t n d f R) j = dorecz (fst w) (tabela p (ustaw_r b (Zablokowany f) R)) (r_lista R ! j)"
    "r_lista (po_zadaniu_r p b t n d f R) = r_lista R" "r_mon (po_zadaniu_r p b t n d f R) = snd w"
    "r_stdout (po_zadaniu_r p b t n d f R) = r_stdout R"
  by (simp_all add: assms po_zadaniu_r_def Let_def)

text \<open>The answers of the server as one process sees them, and the outcome of a request.\<close>

definition obudz :: "int \<Rightarrow> 'l proces_k \<Rightarrow> 'l proces_k" where
  "obudz r s = (case s of Zablokowany f \<Rightarrow> Dziala (f r) | _ \<Rightarrow> s)"

fun po_odpowiedziach :: "(int \<times> int) list \<Rightarrow> int \<Rightarrow> 'l proces_k \<Rightarrow> 'l proces_k" where
  "po_odpowiedziach [] x s = s"
| "po_odpowiedziach ((y, r) # out) x s = po_odpowiedziach out x (if y = x then obudz r s else s)"

lemma dorecz_punktowo: "dorecz out S x = po_odpowiedziach out x (S x)"
  by (induction out S rule: dorecz.induct) (auto simp: obudz_def split: proces_k.splits)

lemma po_zadaniu_r_stany:
  assumes u: "ulozona p R" and b: "stan_r b R = Dziala l" and w: "a_klient (zadanie (kto p b R) t n d) (r_mon R) = (out, \<sigma>)"
  shows "r_glowny (po_zadaniu_r p b t n d f R) = po_odpowiedziach out p (if b = None then Zablokowany f else r_glowny R)"
    "j < length (r_lista R) \<Longrightarrow> r_dzieci (po_zadaniu_r p b t n d f R) j =
      po_odpowiedziach out (r_lista R ! j) (if b = Some j then Zablokowany f else r_dzieci R j)"
    "r_mon (po_zadaniu_r p b t n d f R) = \<sigma>"
proof -
  have T: "tabela p (ustaw_r b (Zablokowany f) R) = (tabela p R)(kto p b R := Zablokowany f)" using tabela_ustaw[OF u, of b] b by simp
  have p: "r_lista R ! i \<noteq> p" if "i < length (r_lista R)" for i using u nth_mem[OF that] by (auto simp: ulozona_def)
  have k: "j < length (r_lista R) \<Longrightarrow> kto p b R = r_lista R ! j \<longleftrightarrow> b = Some j"
    using b p u by (auto simp: kto_def stan_r_def ulozona_def nth_eq_iff_index_eq split: option.splits if_splits)
  show "r_glowny (po_zadaniu_r p b t n d f R) = po_odpowiedziach out p (if b = None then Zablokowany f else r_glowny R)"
    using w by (cases b) (simp_all add: po_zadaniu_r_pola[OF refl] dorecz_punktowo tabela_def ustaw_r_def)
  show "r_mon (po_zadaniu_r p b t n d f R) = \<sigma>" by (simp add: po_zadaniu_r_pola[OF refl] w)
  assume j: "j < length (r_lista R)"
  then have "tabela p R (r_lista R ! j) = r_dzieci R j" using p[OF j] u by (simp add: tabela_def ulozona_def numer_nth)
  with k[OF j] show "r_dzieci (po_zadaniu_r p b t n d f R) j =
      po_odpowiedziach out (r_lista R ! j) (if b = Some j then Zablokowany f else r_dzieci R j)"
    by (auto simp: po_zadaniu_r_pola[OF refl] w T dorecz_punktowo)
qed

text \<open>The end of a process: who is first in the queue of a mutex of it gets an answer.\<close>

definition budzony :: "int \<Rightarrow> monitor \<Rightarrow> int \<Rightarrow> 'l proces_k \<Rightarrow> 'l proces_k" where
  "budzony k \<sigma> x s = (if nastepca k \<sigma> x then obudz OK s else s)"

definition po_koncu :: "int \<Rightarrow> nat option \<Rightarrow> int \<Rightarrow> 'l rodzina \<Rightarrow> 'l rodzina" where
  "po_koncu p b j R =
     (let R1 = ustaw_r b (Zombie j) R; B = budzony (kto p b R) (r_mon R)
      in R1\<lparr>r_glowny := B p (r_glowny R1), r_dzieci := (\<lambda>i. if i < length (r_lista R) then B (r_lista R ! i) (r_dzieci R1 i) else r_dzieci R1 i),
           r_mon := a_exit (kto p b R) (r_mon R)\<rparr>)"

lemma po_koncu_bez_nastepcy:
  assumes "\<And>x. \<not> nastepca (kto p b R) (r_mon R) x"
  shows "po_koncu p b j R = (ustaw_r b (Zombie j) R)\<lparr>r_mon := a_exit (kto p b R) (r_mon R)\<rparr>"
proof -
  have "budzony (kto p b R) (r_mon R) x s = s" for x and s :: "'a proces_k" using assms by (simp add: budzony_def)
  then show ?thesis by (cases b) (simp_all add: po_koncu_def ustaw_r_def Let_def cong: if_cong)
qed

lemma po_odpowiedziach_raz:
  "odpowiedzi x out = (if c then 1 else 0) \<Longrightarrow> (\<And>r. (x, r) \<in> set out \<Longrightarrow> r = OK) \<Longrightarrow>
    po_odpowiedziach out x s = (if c then obudz OK s else s)"
proof (induction out x s arbitrary: c rule: po_odpowiedziach.induct)
  case (2 y r out x s)
  show ?case
  proof (cases "y = x")
    case True
    with 2 have "odpowiedzi x out = (if False then 1 else 0)" "c" "r = OK" by (auto split: if_splits)
    with 2(1)[of False] 2(3) True show ?thesis by simp
  next
    case False
    with 2 show ?thesis by simp
  qed
qed (simp split: if_splits)

lemma tabela_po_koncu:
  assumes "ulozona p R"
  shows "tabela p (po_koncu p b j R) x = budzony (kto p b R) (r_mon R) x (tabela p (ustaw_r b (Zombie j) R) x)"
proof (cases "x = p")
  case True
  then show ?thesis by (simp add: tabela_def po_koncu_def Let_def)
next
  case False
  have l: "r_lista (po_koncu p b j R) = r_lista R" "r_lista (ustaw_r b (Zombie j) R) = r_lista R"
    by (cases b; simp add: po_koncu_def ustaw_r_def Let_def)+
  show ?thesis
  proof (cases "nr_dziecka (r_lista R) x")
    case None
    with False l show ?thesis by (simp add: tabela_def budzony_def obudz_def)
  next
    case (Some i)
    with False l numer_Some[OF Some] show ?thesis by (simp add: tabela_def) (simp add: po_koncu_def Let_def)
  qed
qed

text \<open>A step of one process, computed from its action.\<close>

definition ruch_r :: "('l \<Rightarrow> 'l akcja) \<Rightarrow> int \<Rightarrow> nat option \<Rightarrow> 'l rodzina \<Rightarrow> 'l rodzina \<Rightarrow> bool" where
  "ruch_r A p b R R' \<longleftrightarrow>
     (case stan_r b R of
        Dziala l \<Rightarrow>
          (case A l of
             Zadanie t n d f \<Rightarrow> R' = po_zadaniu_r p b t n d f R
           | Koniec j \<Rightarrow> R' = po_koncu p b j R
           | Pisz x l' \<Rightarrow> R' = (ustaw_r b (Dziala l') R)\<lparr>r_stdout := r_stdout R @ x\<rparr>
           | Dalej l' \<Rightarrow> R' = ustaw_r b (Dziala l') R
           | Rozwidl f \<Rightarrow> b = None \<and>
               ((\<exists>j q. 0 < j \<and> q \<noteq> p \<and> q \<notin> set (r_lista R) \<and> R' = R\<lparr>r_glowny := Dziala (f j), r_lista := r_lista R @ [q],
                   r_dzieci := (r_dzieci R)(length (r_lista R) := Dziala (f 0))\<rparr>) \<or>
                R' = R\<lparr>r_glowny := Dziala (f (- 1))\<rparr>)
           | Czekaj_dziecka f \<Rightarrow> b = None \<and>
               ((\<exists>i z j. i < length (r_lista R) \<and> r_dzieci R i = Zombie z \<and> 0 < j \<and>
                   R' = R\<lparr>r_glowny := Dziala (f j), r_dzieci := (r_dzieci R)(i := Nie_ma)\<rparr>) \<or>
                (\<forall>i < length (r_lista R). r_dzieci R i = Nie_ma) \<and> R' = R\<lparr>r_glowny := Dziala (f (- 1))\<rparr>)
           | _ \<Rightarrow> False)
      | _ \<Rightarrow> False)"

text \<open>The outcome of a request that a process makes.\<close>

lemma ruch_r_zadanie:
  assumes "ruch_r A p b R R'" "stan_r b R = Dziala l" "A l = Zadanie t n d f" "ulozona p R"
    and "a_klient (zadanie (kto p b R) t n d) (r_mon R) = (out, \<sigma>)"
  shows "r_glowny R' = po_odpowiedziach out p (if b = None then Zablokowany f else r_glowny R)"
    "j < length (r_lista R) \<Longrightarrow> r_dzieci R' j = po_odpowiedziach out (r_lista R ! j) (if b = Some j then Zablokowany f else r_dzieci R j)"
    "r_mon R' = \<sigma>" "r_lista R' = r_lista R" "r_stdout R' = r_stdout R"
proof -
  have R': "R' = po_zadaniu_r p b t n d f R" using assms(1-3) by (simp add: ruch_r_def)
  show "r_glowny R' = po_odpowiedziach out p (if b = None then Zablokowany f else r_glowny R)" "r_mon R' = \<sigma>"
    "j < length (r_lista R) \<Longrightarrow> r_dzieci R' j = po_odpowiedziach out (r_lista R ! j) (if b = Some j then Zablokowany f else r_dzieci R j)"
    unfolding R' by (rule po_zadaniu_r_stany[OF assms(4,2,5)])+
  show "r_lista R' = r_lista R" "r_stdout R' = r_stdout R" by (simp_all add: R' po_zadaniu_r_def Let_def)
qed

definition ruchoma_r :: "('l \<Rightarrow> 'l akcja) \<Rightarrow> 'l rodzina \<Rightarrow> bool" where
  "ruchoma_r A R \<longleftrightarrow> (\<exists>b l. stan_r b R = Dziala l \<and> (\<forall>f. A l \<noteq> Czekaj_dziecka f)) \<or>
     (\<exists>l f. r_glowny R = Dziala l \<and> A l = Czekaj_dziecka f \<and>
        ((\<exists>i < length (r_lista R). \<exists>z. r_dzieci R i = Zombie z) \<or> (\<forall>i < length (r_lista R). r_dzieci R i = Nie_ma)))"

text \<open>The laws of a program of this kind: only the parent forks, as long as no child is gone, and waits.\<close>

definition poprawna_r :: "('l \<Rightarrow> 'l akcja) \<Rightarrow> 'l rodzina \<Rightarrow> bool" where
  "poprawna_r A R \<longleftrightarrow>
     (\<forall>l f i. r_glowny R = Dziala l \<longrightarrow> A l = Rozwidl f \<longrightarrow> i < length (r_lista R) \<longrightarrow> r_dzieci R i \<noteq> Nie_ma) \<and>
     (\<forall>i l f. i < length (r_lista R) \<longrightarrow> r_dzieci R i = Dziala l \<longrightarrow> A l \<noteq> Rozwidl f \<and> A l \<noteq> Czekaj_dziecka f)"

text \<open>The number of children that the parent has not yet waited for.\<close>

definition zostalo :: "'l rodzina \<Rightarrow> nat" where
  "zostalo R = card {j. j < length (r_lista R) \<and> r_dzieci R j \<noteq> Nie_ma}"

lemma zostalo_wszystkie: "(\<And>j. j < length (r_lista R) \<Longrightarrow> r_dzieci R j \<noteq> Nie_ma) \<Longrightarrow> zostalo R = length (r_lista R)"
proof -
  assume "\<And>j. j < length (r_lista R) \<Longrightarrow> r_dzieci R j \<noteq> Nie_ma"
  then have "{j. j < length (r_lista R) \<and> r_dzieci R j \<noteq> Nie_ma} = {..<length (r_lista R)}" by auto
  then show ?thesis by (simp add: zostalo_def)
qed

lemma zostalo_0: "zostalo R = 0 \<longleftrightarrow> (\<forall>j < length (r_lista R). r_dzieci R j = Nie_ma)"
  by (auto simp: zostalo_def)

lemma zostalo_cong:
  assumes "length (r_lista R') = length (r_lista R)" "\<And>j. j < length (r_lista R) \<Longrightarrow> r_dzieci R' j = Nie_ma \<longleftrightarrow> r_dzieci R j = Nie_ma"
  shows "zostalo R' = zostalo R"
proof -
  have "{j. j < length (r_lista R') \<and> r_dzieci R' j \<noteq> Nie_ma} = {j. j < length (r_lista R) \<and> r_dzieci R j \<noteq> Nie_ma}" using assms by auto
  then show ?thesis by (simp add: zostalo_def)
qed

lemma zostalo_zebrane:
  assumes "i < length (r_lista R)" "r_dzieci R i \<noteq> Nie_ma"
  shows "Suc (zostalo (R\<lparr>r_glowny := P, r_dzieci := (r_dzieci R)(i := Nie_ma)\<rparr>)) = zostalo R"
proof -
  let ?Z = "{j. j < length (r_lista R) \<and> r_dzieci R j \<noteq> Nie_ma}"
  have "{j. j < length (r_lista R) \<and> ((r_dzieci R)(i := Nie_ma)) j \<noteq> Nie_ma} = ?Z - {i}" by auto
  moreover have "Suc (card (?Z - {i})) = card ?Z" by (rule card_Suc_Diff1) (use assms in auto)
  ultimately show ?thesis by (simp add: zostalo_def)
qed

section \<open>Runs\<close>

lemma obraz_ustaw_r:
  assumes "obraz_rodziny p R u" "stan_r b R \<noteq> Nie_ma" "stany u' = (stany u)(kto p b R := x)" "rodzic u' = rodzic u"
  shows "obraz_rodziny p ((ustaw_r b x R)\<lparr>r_mon := abstr (serw u'), r_stdout := stdout u'\<rparr>) u'"
proof -
  have "tabela p ((ustaw_r b x R)\<lparr>r_mon := abstr (serw u'), r_stdout := stdout u'\<rparr>) = tabela p (ustaw_r b x R)"
    by (rule tabela_cong) simp_all
  with assms tabela_ustaw[of p R b x] show ?thesis
    by (cases b) (auto simp: obraz_rodziny_def ulozona_def ustaw_r_def)
qed

locale rodzina = klienci E A "endpointy E" MAX_CZEKA MU CVs
  for E :: srodowisko and A :: "'l \<Rightarrow> 'l akcja" and MU CVs :: "int set" +
  fixes konf :: "int \<Rightarrow> 'l rodzina \<Rightarrow> bool"
    and l0 :: 'l
  assumes zwykla_akcja: "zwykla (A l)"
    and konf_poczatek: "konf p \<lparr>r_glowny = Dziala l0, r_lista = [], r_dzieci = (\<lambda>_. Nie_ma), r_mon = monitor0, r_stdout = []\<rparr>"
    and konf_poprawna: "konf p R \<Longrightarrow> poprawna_r A R"
    and konf_ruch: "konf p R \<Longrightarrow> ulozona p R \<Longrightarrow> ruch_r A p b R R' \<Longrightarrow> konf p R'"
begin

text \<open>Each kind of step of the system as a step between configurations.\<close>

lemma rodzina_zadanie:
  assumes u: "spojny E (endpointy E) MAX_CZEKA MU CVs u" and o: "obraz_rodziny p R u"
    and z: "stany u r = Dziala l" "A l = Zadanie t n d f" "obslugaWiadomosci E (zadanie r t n d) (serw u) = Some v"
      "wyslane v = wyslane (serw u) @ out" and u': "u' = u\<lparr>serw := v, stany := dorecz out ((stany u)(r := Zablokowany f))\<rparr>"
  shows "\<exists>b R'. ruch_r A p b R R' \<and> obraz_rodziny p R' u'"
proof -
  have ul: "ulozona p R" and st: "stany u = tabela p R" and ab: "abstr (serw u) = r_mon R" using o by (auto simp: obraz_rodziny_def)
  from kto_idzie_w_rodzinie[OF o z(1)] obtain b where b: "stan_r b R = Dziala l" "r = kto p b R" by blast
  note v = zadanie_wynik[OF u z]
  let ?S = "dorecz out (tabela p (ustaw_r b (Zablokowany f) R))" and ?R = "po_zadaniu_r p b t n d f R"
  have S: "stany u' = ?S" using u' tabela_ustaw[OF ul, of b] b by (simp add: st)
  have S': "?S y = tabela p ?R y" for y
  proof (cases "y = p \<or> (\<exists>j. nr_dziecka (r_lista R) y = Some j)")
    case True
    then show ?thesis using numer_Some[of "r_lista R" y] by (auto simp: tabela_def[of p ?R] po_zadaniu_r_pola[OF refl] v(2) ab b(2))
  next
    case False
    then have "tabela p (ustaw_r b (Zablokowany f) R) y = Nie_ma" by (cases b) (simp_all add: tabela_def ustaw_r_def)
    with False show ?thesis by (simp add: tabela_def[of p ?R] po_zadaniu_r_pola[OF refl] dorecz_niezablokowany)
  qed
  have "obraz_rodziny p ?R u'"
    using o u' v(1) ab b(2) unfolding obraz_rodziny_def S fun_eq_iff[of ?S] S' by (simp add: ulozona_def po_zadaniu_r_pola[OF refl])
  moreover have "ruch_r A p b R ?R" using b(1) z(2) by (simp add: ruch_r_def)
  ultimately show ?thesis by blast
qed

lemma rodzina_koniec:
  assumes u: "spojny E (endpointy E) MAX_CZEKA MU CVs u" and o: "obraz_rodziny p R u"
    and z: "stany u r = Dziala l" "A l = Koniec j" "obslugaWiadomosci E (od_pm CS_EXIT r) (serw u) = Some v"
      "wyslane v = wyslane (serw u) @ out" and u': "u' = u\<lparr>serw := v, stany := dorecz out ((stany u)(r := Zombie j))\<rparr>"
  shows "\<exists>b R'. ruch_r A p b R R' \<and> obraz_rodziny p R' u'"
proof -
  have ul: "ulozona p R" and st: "stany u = tabela p R" and ab: "abstr (serw u) = r_mon R" using o by (auto simp: obraz_rodziny_def)
  from kto_idzie_w_rodzinie[OF o z(1)] obtain b where b: "stan_r b R = Dziala l" "r = kto p b R" by blast
  note w = koniec_wynik[OF u z(1,3,4)]
  have "dorecz out S x = budzony r (abstr (serw u)) x (S x)" for S :: "int \<Rightarrow> 'l proces_k" and x
    unfolding dorecz_punktowo budzony_def by (rule po_odpowiedziach_raz) (use w(2,3) in auto)
  then have "stany u' = tabela p (po_koncu p b j R)"
    using u' b tabela_ustaw[OF ul, of b "Zombie j"] by (simp add: fun_eq_iff tabela_po_koncu[OF ul] st ab)
  moreover have "r_lista (po_koncu p b j R) = r_lista R" "r_stdout (po_koncu p b j R) = r_stdout R"
    "r_mon (po_koncu p b j R) = a_exit r (r_mon R)" by (cases b; simp add: po_koncu_def ustaw_r_def Let_def b(2))+
  ultimately have "obraz_rodziny p (po_koncu p b j R) u'" using o u' w(1) ab by (simp add: obraz_rodziny_def ulozona_def)
  moreover have "ruch_r A p b R (po_koncu p b j R)" using b(1) z(2) by (simp add: ruch_r_def)
  ultimately show ?thesis by blast
qed

lemma rodzina_lokalnie:
  assumes o: "obraz_rodziny p R u" and z: "stany u r = Dziala l"
    and u': "stany u' = (stany u)(r := Dziala l')" "serw u' = serw u" "rodzic u' = rodzic u" "stdout u' = stdout u @ x"
  shows "\<exists>b. stan_r b R = Dziala l \<and> r = kto p b R \<and> obraz_rodziny p ((ustaw_r b (Dziala l') R)\<lparr>r_stdout := r_stdout R @ x\<rparr>) u'"
proof -
  from kto_idzie_w_rodzinie[OF o z] obtain b where b: "stan_r b R = Dziala l" "r = kto p b R" by blast
  with obraz_ustaw_r[OF o, of b u' "Dziala l'"] u' o have "obraz_rodziny p ((ustaw_r b (Dziala l') R)\<lparr>r_stdout := r_stdout R @ x\<rparr>) u'"
    by (cases b) (simp_all add: ustaw_r_def obraz_rodziny_def)
  with b show ?thesis by blast
qed

lemma rodzina_glowny:
  assumes o: "obraz_rodziny p R u" and P: "poprawna_r A R" and l: "stany u r = Dziala l" "A l = Rozwidl f \<or> A l = Czekaj_dziecka f"
  shows "r = p" "r_glowny R = Dziala l"
proof -
  from kto_idzie_w_rodzinie[OF o l(1)] obtain b where b: "stan_r b R = Dziala l" "r = kto p b R" by blast
  have "b = None"
  proof (cases b)
    case (Some j)
    with b(1) have "j < length (r_lista R)" "r_dzieci R j = Dziala l" by (auto simp: stan_r_def split: if_splits)
    with P l(2) show ?thesis unfolding poprawna_r_def by blast
  qed
  with b show "r = p" "r_glowny R = Dziala l" by (simp_all add: stan_r_def kto_def)
qed

lemma rodzina_blad:
  assumes o: "obraz_rodziny p R u" and P: "poprawna_r A R" and l: "stany u r = Dziala l" "A l = Rozwidl f \<or> A l = Czekaj_dziecka f"
    and u': "u' = u\<lparr>stany := (stany u)(r := Dziala (f (- 1)))\<rparr>"
  shows "obraz_rodziny p (R\<lparr>r_glowny := Dziala (f (- 1))\<rparr>) u'"
  using obraz_ustaw_r[OF o, of None u' "Dziala (f (- 1))"] rodzina_glowny[OF o P l] u' o
  by (simp add: ustaw_r_def stan_r_def kto_def obraz_rodziny_def)

lemma rodzina_rozwidl:
  assumes o: "obraz_rodziny p R u" and P: "poprawna_r A R" and z: "stany u r = Dziala l" "A l = Rozwidl f" "stany u q = Nie_ma" "0 < j"
    and u': "u' = u\<lparr>stany := (stany u)(r := Dziala (f j), q := Dziala (f 0)), rodzic := (rodzic u)(q := r)\<rparr>"
  shows "\<exists>R'. ruch_r A p None R R' \<and> obraz_rodziny p R' u'"
proof -
  have st: "stany u = tabela p R" using o by (auto simp: obraz_rodziny_def)
  have l: "r = p" "r_glowny R = Dziala l" using rodzina_glowny[OF o P z(1)] z(2) by blast+
  have q: "q \<noteq> p" using z(1,3) l by auto
  have "r_dzieci R i \<noteq> Nie_ma" if "i < length (r_lista R)" for i using P l(2) z(2) that unfolding poprawna_r_def by blast
  with z(3) numer_Some[of "r_lista R" q] numer_None[of "r_lista R" q] q have q': "q \<notin> set (r_lista R)"
    by (fastforce simp: st tabela_def split: option.splits)
  let ?R = "R\<lparr>r_glowny := Dziala (f j), r_lista := r_lista R @ [q], r_dzieci := (r_dzieci R)(length (r_lista R) := Dziala (f 0))\<rparr>"
  have "stany u' y = tabela p ?R y" for y
    using u' l q numer_append[OF q', of y] numer_Some[of "r_lista R" y] by (auto simp: st tabela_def split: option.splits)
  then have "stany u' = tabela p ?R" by (rule ext)
  then have "obraz_rodziny p ?R u'" using o u' l q q' unfolding obraz_rodziny_def by (simp add: ulozona_def)
  moreover have "ruch_r A p None R ?R" using l z(2,4) q q' by (auto simp: ruch_r_def stan_r_def)
  ultimately show ?thesis by blast
qed

lemma rodzina_dziecko:
  assumes o: "obraz_rodziny p R u" and P: "poprawna_r A R" and d: "stany u r = Dziala l" "A l = Czekaj_dziecka f" "stany u q = Zombie z" "0 < j"
    and u': "u' = u\<lparr>stany := (stany u)(q := Nie_ma, r := Dziala (f j))\<rparr>"
  shows "\<exists>R'. ruch_r A p None R R' \<and> obraz_rodziny p R' u'"
proof -
  have ul: "ulozona p R" and st: "stany u = tabela p R" using o by (auto simp: obraz_rodziny_def)
  have l: "r = p" "r_glowny R = Dziala l" using rodzina_glowny[OF o P d(1)] d(2) by blast+
  then have "q \<noteq> p" using d(1,3) by auto
  with d(3) obtain i where i: "nr_dziecka (r_lista R) q = Some i" "r_dzieci R i = Zombie z"
    by (auto simp: st tabela_def split: option.splits)
  note i' = numer_Some[OF i(1)]
  let ?R = "R\<lparr>r_glowny := Dziala (f j), r_dzieci := (r_dzieci R)(i := Nie_ma)\<rparr>"
  have "tabela p ?R = (tabela p R)(q := Nie_ma, p := Dziala (f j))"
    using tabela_ustaw[OF ul, of "Some i" Nie_ma] tabela_ustaw[of p "ustaw_r (Some i) Nie_ma R" None "Dziala (f j)"] ul i i' l(2)
      tabela_cong[of ?R "R\<lparr>r_dzieci := (r_dzieci R)(i := Nie_ma), r_glowny := Dziala (f j)\<rparr>"]
    by (simp add: stan_r_def ustaw_r_def kto_def ulozona_def)
  then have "obraz_rodziny p ?R u'" using o u' l(1) by (auto simp: obraz_rodziny_def ulozona_def)
  moreover have "ruch_r A p None R ?R" using l d(2,4) i i' by (auto simp: ruch_r_def stan_r_def)
  ultimately show ?thesis by blast
qed

lemma rodzina_bez_dzieci:
  assumes o: "obraz_rodziny p R u" and l: "r_glowny R = Dziala l" "A l = Czekaj_dziecka f" "\<forall>q. rodzic u q = p \<longrightarrow> stany u q = Nie_ma"
  shows "ruch_r A p None R (R\<lparr>r_glowny := Dziala (f (- 1))\<rparr>)"
proof -
  have "r_dzieci R i = Nie_ma" if "i < length (r_lista R)" for i
  proof (rule ccontr)
    assume "r_dzieci R i \<noteq> Nie_ma"
    with that tabela_kto[of p R "Some i"] o have "stany u (r_lista R ! i) \<noteq> Nie_ma" by (simp add: obraz_rodziny_def stan_r_def kto_def)
    with l(3) o that show False by (auto simp: obraz_rodziny_def)
  qed
  with l show ?thesis by (simp add: ruch_r_def stan_r_def)
qed

lemma krok_rodziny:
  assumes u: "spojny E (endpointy E) MAX_CZEKA MU CVs u" and o: "obraz_rodziny p R u" and k: "konf p R"
    and s: "krok_ukladu E A (endpointy E) MAX_CZEKA u u'"
  shows "\<exists>b R'. ruch_r A p b R R' \<and> konf p R' \<and> obraz_rodziny p R' u'"
proof -
  note P = konf_poprawna[OF k]
  from s have "\<exists>b R'. ruch_r A p b R R' \<and> obraz_rodziny p R' u'"
  proof cases
    case (zadanie r l t n d f v out)
    from rodzina_zadanie[OF u o zadanie(2-5,1)] show ?thesis .
  next
    case (koniec r l j v out)
    from rodzina_koniec[OF u o koniec(2-5,1)] show ?thesis .
  next
    case (pisz r l x l')
    with rodzina_lokalnie[OF o pisz(2), of u' l' x] obtain b where "stan_r b R = Dziala l"
      "obraz_rodziny p ((ustaw_r b (Dziala l') R)\<lparr>r_stdout := r_stdout R @ x\<rparr>) u'" by auto
    with pisz(3) show ?thesis by (intro exI[of _ b] exI) (auto simp: ruch_r_def)
  next
    case (dalej r l l')
    with rodzina_lokalnie[OF o dalej(2), of u' l' "[]"] obtain b where b: "stan_r b R = Dziala l"
      "obraz_rodziny p ((ustaw_r b (Dziala l') R)\<lparr>r_stdout := r_stdout R\<rparr>) u'" by auto
    moreover have "(ustaw_r b (Dziala l') R)\<lparr>r_stdout := r_stdout R\<rparr> = ustaw_r b (Dziala l') R" by (cases b) (simp_all add: ustaw_r_def)
    ultimately show ?thesis using dalej(3) by (intro exI[of _ b] exI[of _ "ustaw_r b (Dziala l') R"]) (auto simp: ruch_r_def)
  next
    case (rozwidl r l f q j)
    from rodzina_rozwidl[OF o P rozwidl(2-4,7,1)] show ?thesis by blast
  next
    case (rozwidl_blad r l f)
    with rodzina_blad[OF o P rozwidl_blad(2), of f] rodzina_glowny(2)[OF o P rozwidl_blad(2)] show ?thesis
      by (intro exI[of _ None] exI[of _ "R\<lparr>r_glowny := Dziala (f (- 1))\<rparr>"]) (auto simp: ruch_r_def stan_r_def)
  next
    case (dziecko r l f q z j)
    from rodzina_dziecko[OF o P dziecko(2-4,6,1)] show ?thesis by blast
  next
    case (bez_dzieci r l f)
    note l = rodzina_glowny[OF o P bez_dzieci(2), of f]
    with rodzina_blad[OF o P bez_dzieci(2), of f] rodzina_bez_dzieci[OF o, of l f] bez_dzieci(1,3,4) show ?thesis by blast
  qed (use zwykla_akcja in \<open>metis zwykla.simps(1-3)\<close>)+
  moreover have "ulozona p R" using o by (simp add: obraz_rodziny_def)
  ultimately show ?thesis using konf_ruch[OF k] by blast
qed

sublocale bieg: maszyna "\<lambda>u. p \<in> endpointy E \<and> poczatek_ukladu E p l0 u" "krok_ukladu E A (endpointy E) MAX_CZEKA"
  "\<lambda>u. spojny E (endpointy E) MAX_CZEKA MU CVs u \<and> (\<exists>R. konf p R \<and> obraz_rodziny p R u)" for p
proof
  fix u assume u: "p \<in> endpointy E \<and> poczatek_ukladu E p l0 u"
  then have "spojny E (endpointy E) MAX_CZEKA MU CVs u" using spojny_start[of p l0 u] by (simp add: MAX_CZEKA_def)
  moreover have "abstr (serw u) = monitor0" using u main_start_ok[of E] by (auto simp: poczatek_ukladu_def)
  then have "obraz_rodziny p \<lparr>r_glowny = Dziala l0, r_lista = [], r_dzieci = (\<lambda>_. Nie_ma), r_mon = monitor0, r_stdout = []\<rparr> u"
    using u by (auto simp: obraz_rodziny_def ulozona_def poczatek_ukladu_def tabela_def nr_dziecka_def fun_eq_iff)
  ultimately show "spojny E (endpointy E) MAX_CZEKA MU CVs u \<and> (\<exists>R. konf p R \<and> obraz_rodziny p R u)" using konf_poczatek by blast
next
  fix u u' assume "spojny E (endpointy E) MAX_CZEKA MU CVs u \<and> (\<exists>R. konf p R \<and> obraz_rodziny p R u)"
    "krok_ukladu E A (endpointy E) MAX_CZEKA u u'"
  with spojny_krok krok_rodziny show "spojny E (endpointy E) MAX_CZEKA MU CVs u' \<and> (\<exists>R. konf p R \<and> obraz_rodziny p R u')" by blast
qed

text \<open>
  A quantity of the configurations that grows with every step between them grows along every run.
\<close>

lemma rosnie_w_rodzinie:
  assumes "\<And>b R R'. konf p R \<Longrightarrow> ulozona p R \<Longrightarrow> ruch_r A p b R R' \<Longrightarrow> ulozona p R' \<Longrightarrow> \<exists>y. g R' = g R @ y"
    and "osiagalny (\<lambda>u. p \<in> endpointy E \<and> poczatek_ukladu E p l0 u) (krok_ukladu E A (endpointy E) MAX_CZEKA) u"
    and "(krok_ukladu E A (endpointy E) MAX_CZEKA)\<^sup>*\<^sup>* u u'"
    and g: "\<And>R u. obraz_rodziny p R u \<Longrightarrow> h u = g R"
  shows "\<exists>y. h u' = h u @ y"
proof -
  from bieg.osiagalny_inw[OF assms(2)] obtain R where u: "spojny E (endpointy E) MAX_CZEKA MU CVs u" and R: "konf p R" "obraz_rodziny p R u" by blast
  from assms(3) have "spojny E (endpointy E) MAX_CZEKA MU CVs u' \<and> (\<exists>R' y. konf p R' \<and> obraz_rodziny p R' u' \<and> g R' = g R @ y)"
  proof (induction rule: rtranclp_induct)
    case base
    with u R show ?case by (intro conjI exI[of _ R] exI[of _ "[]"]) simp_all
  next
    case (step v w)
    then obtain R' y where R': "konf p R'" "obraz_rodziny p R' v" "g R' = g R @ y" and v: "spojny E (endpointy E) MAX_CZEKA MU CVs v" by blast
    from krok_rodziny[OF v R'(2,1) step(2)] obtain b R'' where R'': "ruch_r A p b R' R''" "konf p R''" "obraz_rodziny p R'' w" by blast
    have "ulozona p R'" "ulozona p R''" using R'(2) R''(3) by (simp_all add: obraz_rodziny_def)
    from assms(1)[OF R'(1) this(1) R''(1) this(2)] obtain z where "g R'' = g R' @ z" by blast
    with R'(3) R''(2,3) spojny_krok[OF v step(2)] show ?case by auto
  qed
  with g[OF R(2)] show ?thesis by (metis g)
qed

lemma osiagalna_rodzina:
  assumes "osiagalny (\<lambda>u. p \<in> endpointy E \<and> poczatek_ukladu E p l0 u) (krok_ukladu E A (endpointy E) MAX_CZEKA) u"
  obtains R where "konf p R" "obraz_rodziny p R u" "ruchoma_r A R \<Longrightarrow> \<exists>u'. krok_ukladu E A (endpointy E) MAX_CZEKA u u'"
proof -
  from bieg.osiagalny_inw[OF assms] obtain R where u: "spojny E (endpointy E) MAX_CZEKA MU CVs u" and k: "konf p R" and o: "obraz_rodziny p R u"
    by blast
  have st: "stan_r b R = x \<Longrightarrow> x \<noteq> Nie_ma \<Longrightarrow> stany u (kto p b R) = x" for b x
    using tabela_kto[of p R b] o by (simp add: obraz_rodziny_def)
  have "\<exists>u'. krok_ukladu E A (endpointy E) MAX_CZEKA u u'" if "ruchoma_r A R"
    using that unfolding ruchoma_r_def
  proof (elim disjE exE conjE)
    fix b l assume b: "stan_r b R = Dziala l" "\<forall>f. A l \<noteq> Czekaj_dziecka f"
    from krok_istnieje[OF u st[OF b(1)]] b(2) zwykla_akcja[of l] show ?thesis by fastforce
  next
    fix l f i z assume l: "r_glowny R = Dziala l" "A l = Czekaj_dziecka f" "i < length (r_lista R)" "r_dzieci R i = Zombie z"
    then have "rodzic u (r_lista R ! i) = p" using o by (simp add: obraz_rodziny_def)
    moreover have "stany u p = Dziala l" "stany u (r_lista R ! i) = Zombie z"
      using st[of None "Dziala l"] st[of "Some i" "Zombie z"] l by (simp_all add: stan_r_def kto_def)
    ultimately show ?thesis using krok_ukladu.dziecko[of u p l A f "r_lista R ! i" z 1] l(2) by fastforce
  next
    fix l f assume l: "r_glowny R = Dziala l" "A l = Czekaj_dziecka f" "\<forall>i < length (r_lista R). r_dzieci R i = Nie_ma"
    then have "\<forall>r. rodzic u r = p \<longrightarrow> stany u r = Nie_ma"
      using o numer_Some by (fastforce simp: obraz_rodziny_def tabela_def split: option.splits)
    moreover have "stany u p = Dziala l" using st[of None "Dziala l"] l by (simp add: stan_r_def kto_def)
    ultimately show ?thesis using krok_ukladu.bez_dzieci[of u p l A] l(2) by metis
  qed
  with that k o show thesis by blast
qed

end

end
