(* ===== verification/Many_Cv2.thy ===== *)
theory Many_Cv2
  imports Rodzina
begin

text \<open>
  The test program \<^verbatim>\<open>testy/src/many_cv2.c\<close>: children that all wait for one event, started one after the other with the help of a second
  event. They print their lines in the order in which they began to wait. The numbers of the mutex and of the events come from \<^verbatim>\<open>rand\<close> and are
  parameters, as are the arguments.
\<close>

section \<open>The program\<close>

definition MAX_CVS :: int where "MAX_CVS = 32"

record cv2_arg =
  cv2_argc :: int
  cv2_procs :: int
  cv1 :: int
  cv2 :: int
  mutex_id :: int

text \<open>What a child prints and flushes.\<close>

definition wiersz_c :: "int \<Rightarrow> string" where
  "wiersz_c i = ''c:'' @ dziesietnie i @ [CHR 0x0A]"

text \<open>
  The control points of \<^verbatim>\<open>main\<close> (\<open>V\<close>) and of a child with its number (\<open>D\<close>). \<open>V_petla\<close> is the test of the first loop, with the call that comes
  first on either branch; \<open>V_znow\<close> and \<open>D_znow\<close> take the mutex again after an interrupted \<^verbatim>\<open>cs_wait\<close>; \<open>Fail_sekcja\<close> is \<^verbatim>\<open>fail("fork failed")\<close>.
\<close>

datatype cv2_lok =
    V_start | V_lock | V_petla int | V_wait int | V_znow int | V_unlock | V_dzieci int
  | D_lock int | D_oglos int | D_wait int | D_znow int | D_pisz int | D_unlock int | D_exit | Fail | Fail_sekcja

fun many_cv2 :: "cv2_arg \<Rightarrow> cv2_lok \<Rightarrow> cv2_lok akcja" where
  "many_cv2 X V_start = Dalej (if cv2_argc X \<noteq> 2 then Fail else if cv2_procs X < 0 \<or> cv2_procs X > MAX_CVS then Fail else V_lock)"
| "many_cv2 X V_lock = lib_cs_lock (mutex_id X) V_lock (\<lambda>r. V_petla 0)"
| "many_cv2 X (V_petla i) =
     (if i < cv2_procs X then Rozwidl (\<lambda>ch. if ch < 0 then Fail_sekcja else if ch = 0 then D_lock i else V_wait i)
      else lib_cs_broadcast (cv1 X) (\<lambda>r. V_unlock))"
| "many_cv2 X (V_wait i) = lib_cs_wait (cv2 X) (mutex_id X) (V_znow i) (\<lambda>r. V_petla (i + 1))"
| "many_cv2 X (V_znow i) = lib_cs_lock (mutex_id X) (V_znow i) (\<lambda>r. V_petla (i + 1))"
| "many_cv2 X V_unlock = lib_cs_unlock (mutex_id X) (\<lambda>r. V_dzieci (cv2_procs X))"
| "many_cv2 X (V_dzieci k) = (if k > 0 then Czekaj_dziecka (\<lambda>r. if r > 0 then V_dzieci (k - 1) else V_dzieci k) else Koniec 0)"
| "many_cv2 X (D_lock i) = lib_cs_lock (mutex_id X) (D_lock i) (\<lambda>r. D_oglos i)"
| "many_cv2 X (D_oglos i) = lib_cs_broadcast (cv2 X) (\<lambda>r. D_wait i)"
| "many_cv2 X (D_wait i) = lib_cs_wait (cv1 X) (mutex_id X) (D_znow i) (\<lambda>r. D_pisz i)"
| "many_cv2 X (D_znow i) = lib_cs_lock (mutex_id X) (D_znow i) (\<lambda>r. D_pisz i)"
| "many_cv2 X (D_pisz i) = Pisz (wiersz_c i) (D_unlock i)"
| "many_cv2 X (D_unlock i) = lib_cs_unlock (mutex_id X) (\<lambda>r. D_exit)"
| "many_cv2 X D_exit = Koniec 0"
| "many_cv2 X Fail = Koniec 2"
| "many_cv2 X Fail_sekcja = Koniec 2"

section \<open>Its configurations\<close>

definition mon :: "cv2_arg \<Rightarrow> (int \<times> int list) option \<Rightarrow> (int \<times> int) list option \<Rightarrow> (int \<times> int) list option \<Rightarrow> monitor" where
  "mon X x w1 w2 = \<lparr>mut = (\<lambda>_. None)(mutex_id X := x), zdarz = (\<lambda>_. None)(cv1 X := w1, cv2 X := w2)\<rparr>"

definition czekajacy :: "cv2_arg \<Rightarrow> int list \<Rightarrow> (int \<times> int) list option" where
  "czekajacy X ws = (if ws = [] then None else Some (map (\<lambda>x. (x, mutex_id X)) ws))"

definition v_czeka :: "nat \<Rightarrow> cv2_lok proces_k" where
  "v_czeka i = Zablokowany (\<lambda>r. if r = - EINTR_klienta then V_znow (int i) else V_petla (int i + 1))"

definition d_lock :: "nat \<Rightarrow> cv2_lok proces_k" where
  "d_lock i = Zablokowany (\<lambda>r. if r = - EINTR_klienta then D_lock (int i) else D_oglos (int i))"

definition d_czeka :: "nat \<Rightarrow> cv2_lok proces_k" where
  "d_czeka i = Zablokowany (\<lambda>r. if r = - EINTR_klienta then D_znow (int i) else D_pisz (int i))"

definition linie_c :: "nat \<Rightarrow> string" where
  "linie_c k = concat (map (\<lambda>i. wiersz_c (int i)) [0..<k])"

text \<open>The first \<open>n\<close> children wait for the event \<^verbatim>\<open>cv1\<close>.\<close>

definition czekaja_do :: "nat \<Rightarrow> cv2_lok rodzina \<Rightarrow> bool" where
  "czekaja_do n R \<longleftrightarrow> (\<forall>j < n. r_dzieci R j = d_czeka j)"

text \<open>The child \<open>j\<close> is the next to leave the critical section; those before it have left it.\<close>

definition wychodza :: "nat \<Rightarrow> cv2_lok rodzina \<Rightarrow> bool" where
  "wychodza j R \<longleftrightarrow> j \<le> length (r_lista R) \<and> (\<forall>i < j. r_dzieci R i \<in> {Dziala D_exit, Zombie 0, Nie_ma}) \<and>
     (\<forall>i. j < i \<longrightarrow> i < length (r_lista R) \<longrightarrow> r_dzieci R i = d_czeka i) \<and>
     (if j < length (r_lista R)
      then (r_dzieci R j, r_stdout R) \<in> {(Dziala (D_pisz (int j)), linie_c j), (Dziala (D_unlock (int j)), linie_c (Suc j))}
      else r_stdout R = linie_c j)"

inductive cv2_konf :: "cv2_arg \<Rightarrow> int \<Rightarrow> cv2_lok rodzina \<Rightarrow> bool" for X p where
  start: "r_glowny R \<in> {Dziala V_start, Dziala V_lock, Dziala Fail, Zombie 2} \<Longrightarrow> r_lista R = [] \<Longrightarrow> r_stdout R = [] \<Longrightarrow>
    r_mon R = mon X None None None \<Longrightarrow> (r_glowny R = Dziala V_lock \<longrightarrow> 0 \<le> cv2_procs X) \<Longrightarrow> cv2_konf X p R"
| petla: "r_glowny R = Dziala (V_petla (int i)) \<Longrightarrow> length (r_lista R) = i \<Longrightarrow> int i \<le> cv2_procs X \<Longrightarrow> czekaja_do i R \<Longrightarrow> r_stdout R = [] \<Longrightarrow>
    r_mon R = mon X (Some (p, [])) (czekajacy X (r_lista R)) None \<Longrightarrow> cv2_konf X p R"
| porzucone: "(r_glowny R, x) \<in> {(Dziala Fail_sekcja, Some (p, [])), (Zombie 2, None)} \<Longrightarrow> czekaja_do (length (r_lista R)) R \<Longrightarrow>
    r_stdout R = [] \<Longrightarrow> r_mon R = mon X x (czekajacy X (r_lista R)) None \<Longrightarrow> cv2_konf X p R"
| nowe: "r_glowny R = Dziala (V_wait (int i)) \<Longrightarrow> length (r_lista R) = Suc i \<Longrightarrow> int i < cv2_procs X \<Longrightarrow> czekaja_do i R \<Longrightarrow> r_stdout R = [] \<Longrightarrow>
    (r_dzieci R i, qs) \<in> {(Dziala (D_lock (int i)), []), (d_lock i, [r_lista R ! i])} \<Longrightarrow>
    r_mon R = mon X (Some (p, qs)) (czekajacy X (take i (r_lista R))) None \<Longrightarrow> cv2_konf X p R"
| czeka: "r_glowny R = v_czeka i \<Longrightarrow> length (r_lista R) = Suc i \<Longrightarrow> int i < cv2_procs X \<Longrightarrow> czekaja_do i R \<Longrightarrow> r_stdout R = [] \<Longrightarrow>
    (r_dzieci R i, x) \<in> {(Dziala (D_lock (int i)), None), (Dziala (D_oglos (int i)), Some (r_lista R ! i, []))} \<Longrightarrow>
    r_mon R = mon X x (czekajacy X (take i (r_lista R))) (Some [(p, mutex_id X)]) \<Longrightarrow> cv2_konf X p R"
| oddaje: "r_glowny R = v_czeka i \<Longrightarrow> length (r_lista R) = Suc i \<Longrightarrow> int i < cv2_procs X \<Longrightarrow> czekaja_do i R \<Longrightarrow> r_stdout R = [] \<Longrightarrow>
    r_dzieci R i = Dziala (D_wait (int i)) \<Longrightarrow> r_mon R = mon X (Some (r_lista R ! i, [p])) (czekajacy X (take i (r_lista R))) None \<Longrightarrow> cv2_konf X p R"
| zwalnia: "r_glowny R = Dziala V_unlock \<Longrightarrow> int (length (r_lista R)) = cv2_procs X \<Longrightarrow> czekaja_do (length (r_lista R)) R \<Longrightarrow> r_stdout R = [] \<Longrightarrow>
    r_mon R = mon X (Some (p, r_lista R)) None None \<Longrightarrow> cv2_konf X p R"
| wychodza: "r_glowny R = Dziala (V_dzieci (int (zostalo R))) \<Longrightarrow> int (length (r_lista R)) = cv2_procs X \<Longrightarrow> wychodza j R \<Longrightarrow>
    r_mon R = mon X (if j < length (r_lista R) then Some (r_lista R ! j, drop (Suc j) (r_lista R)) else None) None None \<Longrightarrow> cv2_konf X p R"
| koniec: "r_glowny R = Zombie 0 \<Longrightarrow> int (length (r_lista R)) = cv2_procs X \<Longrightarrow> zostalo R = 0 \<Longrightarrow> r_stdout R = linie_c (length (r_lista R)) \<Longrightarrow>
    r_mon R = mon X None None None \<Longrightarrow> cv2_konf X p R"

text \<open>The requests of the program.\<close>

lemma czekajacy_na_mon:
  assumes "cv1 X \<noteq> cv2 X"
  shows "czekajacy_na (cv1 X) (mon X x (czekajacy X ws) w2) = map (\<lambda>x. (x, mutex_id X)) ws"
    "czekajacy_na (cv2 X) (mon X x w1 None) = []" "czekajacy_na (cv2 X) (mon X x w1 (Some w)) = w"
  using assms by (auto simp: czekajacy_na_def mon_def czekajacy_def)

lemma mon_mut: "mut (mon X x w1 w2) (mutex_id X) = x"
  by (simp add: mon_def)

lemma mon_upd:
  assumes "cv1 X \<noteq> cv2 X"
  shows "(mon X x w1 w2)\<lparr>mut := (mut (mon X x w1 w2))(mutex_id X := y)\<rparr> = mon X y w1 w2"
    "(mon X y w1 w2)\<lparr>zdarz := (zdarz (mon X x w1 w2))(cv1 X := v)\<rparr> = mon X y v w2"
    "(mon X y w1 w2)\<lparr>zdarz := (zdarz (mon X x w1 w2))(cv2 X := v)\<rparr> = mon X y w1 v"
  using assms by (simp_all add: mon_def fun_upd_twist)

lemma mon_zadania:
  assumes "cv1 X \<noteq> cv2 X"
  shows "a_klient (zadanie r CS_LOCK (mutex_id X) d) (mon X None w1 w2) = ([(r, OK)], mon X (Some (r, [])) w1 w2)"
    "w \<noteq> r \<Longrightarrow> a_klient (zadanie r CS_LOCK (mutex_id X) d) (mon X (Some (w, qs)) w1 w2) = ([], mon X (Some (w, qs @ [r])) w1 w2)"
    "a_klient (zadanie r CS_UNLOCK (mutex_id X) d) (mon X (Some (r, [])) w1 w2) = ([(r, OK)], mon X None w1 w2)"
    "a_klient (zadanie r CS_UNLOCK (mutex_id X) d) (mon X (Some (r, x # xs)) w1 w2) = ([(x, OK), (r, OK)], mon X (Some (x, xs)) w1 w2)"
    "a_klient (zadanie r CS_WAIT (mutex_id X) (cv2 X)) (mon X (Some (r, [])) w1 None) = ([], mon X None w1 (Some [(r, mutex_id X)]))"
    "a_klient (zadanie r CS_WAIT (mutex_id X) (cv2 X)) (mon X (Some (r, x # xs)) w1 None) = ([(x, OK)], mon X (Some (x, xs)) w1 (Some [(r, mutex_id X)]))"
    "a_klient (zadanie r CS_WAIT (mutex_id X) (cv1 X)) (mon X (Some (r, x # xs)) (czekajacy X ws) w2) =
       ([(x, OK)], mon X (Some (x, xs)) (czekajacy X (ws @ [r])) w2)"
    "p \<noteq> r \<Longrightarrow> a_klient (zadanie r CS_BROADCAST d (cv2 X)) (mon X (Some (r, qs)) w1 (Some [(p, mutex_id X)])) =
       ([(r, OK)], mon X (Some (r, qs @ [p])) w1 None)"
    "r \<notin> set ws \<Longrightarrow> a_klient (zadanie r CS_BROADCAST d (cv1 X)) (mon X (Some (r, [])) (czekajacy X ws) w2) =
       ([(r, OK)], mon X (Some (r, ws)) None w2)"
proof -
  note c = czekajacy_na_mon[OF assms]
  have p: "czekajacy_na (cv2 X) (mon X (Some (r, qs)) w1 (Some [(p, mutex_id X)])) = map (\<lambda>x. (x, mutex_id X)) [p]" by (simp add: c)
  show "a_klient (zadanie r CS_BROADCAST d (cv2 X)) (mon X (Some (r, qs)) w1 (Some [(p, mutex_id X)])) =
       ([(r, OK)], mon X (Some (r, qs @ [p])) w1 None)" if "p \<noteq> r"
    using zadanie_broadcast[OF mon_mut p] that by (simp add: mon_upd[OF assms])
  show "a_klient (zadanie r CS_LOCK (mutex_id X) d) (mon X (Some (w, qs)) w1 w2) = ([], mon X (Some (w, qs @ [r])) w1 w2)" if "w \<noteq> r"
    using zadanie_lock(2)[OF mon_mut that] by (simp add: mon_upd[OF assms])
  show "a_klient (zadanie r CS_BROADCAST d (cv1 X)) (mon X (Some (r, [])) (czekajacy X ws) w2) =
       ([(r, OK)], mon X (Some (r, ws)) None w2)" if "r \<notin> set ws"
    using zadanie_broadcast[OF mon_mut c(1) that] by (simp add: mon_upd[OF assms])
qed (simp_all only: zadania_rodziny[OF mon_mut] mon_upd[OF assms] czekajacy_na_mon[OF assms], simp_all add: czekajacy_def)

text \<open>The end of a process.\<close>

lemma nastepca_mon: "nastepca r (mon X x w1 w2) q \<longleftrightarrow> (\<exists>xs. x = Some (r, q # xs))"
  by (auto simp: nastepca_def mon_def split: if_splits)

lemmas konce_cv2 = po_koncu_bez_nastepcy nastepca_mon

lemma mon_exit:
  assumes "x = None \<or> (\<exists>w qs. x = Some (w, qs) \<and> w \<noteq> r \<and> r \<notin> set qs)"
  shows "a_exit r (mon X x None None) = mon X x None None"
  using assms by (intro a_exit_obojetny) (auto simp: mon_def ma_mutex_def czeka_def miejsca_def)

lemma mon_exit_sekcja:
  assumes "r \<notin> set ws"
  shows "a_exit r (mon X (Some (r, [])) (czekajacy X ws) None) = mon X None (czekajacy X ws) None"
proof -
  have "r \<notin> fst ` set vs \<Longrightarrow> usun_pare r vs = vs" for vs by (induction r vs rule: usun_pare.induct) auto
  with assms have "usun_pare r (map (\<lambda>x. (x, mutex_id X)) ws) = map (\<lambda>x. (x, mutex_id X)) ws" by force
  then show ?thesis by (auto simp: a_exit_def mon_def czekajacy_def bez_zdarzen_def przekaz_def fun_eq_iff)
qed

section \<open>Every step leads to a configuration\<close>

lemma czekaja_do_ruch: "czekaja_do n R \<Longrightarrow> i < n \<Longrightarrow> r_dzieci R i \<noteq> Dziala l \<and> r_dzieci R i \<noteq> Nie_ma"
  by (simp add: czekaja_do_def d_czeka_def)

lemma krok_start:
  assumes "cv1 X \<noteq> cv2 X" "ulozona p R" "ruch_r (many_cv2 X) p b R R'"
    and "r_glowny R \<in> {Dziala V_start, Dziala V_lock, Dziala Fail, Zombie 2}" "r_lista R = []" "r_stdout R = []"
    "r_mon R = mon X None None None" "r_glowny R = Dziala V_lock \<longrightarrow> 0 \<le> cv2_procs X"
  shows "cv2_konf X p R'"
proof -
  have b: "b = None" using assms(3,5) by (auto simp: ruch_r_def stan_r_def split: option.splits)
  consider "r_glowny R = Dziala V_start" | "r_glowny R = Dziala V_lock" | "r_glowny R = Dziala Fail" | "r_glowny R = Zombie 2"
    using assms(4) by auto
  then show ?thesis
  proof cases
    case 1
    then show ?thesis using assms(3,5-7) b by (intro cv2_konf.start) (auto simp: ruch_r_def stan_r_def ustaw_r_def)
  next
    case 2
    note r = ruch_r_zadanie[OF assms(3), where l = V_lock, OF _ _ assms(2), unfolded assms(7) kto_def b, simplified]
    from 2 show ?thesis using assms(5,6,8) mon_zadania(1)[OF assms(1)]
      by (intro cv2_konf.petla[of _ 0]) (auto simp: r lib_defs stan_r_def obudz_def czekaja_do_def czekajacy_def)
  next
    case 3
    then show ?thesis using assms(3,5-7) b mon_exit[of None p X] by (intro cv2_konf.start) (auto simp: ruch_r_def stan_r_def ustaw_r_def kto_def konce_cv2)
  next
    case 4
    then show ?thesis using assms(3) b by (auto simp: ruch_r_def stan_r_def)
  qed
qed

lemma krok_petla:
  assumes "cv1 X \<noteq> cv2 X" "ulozona p R" "ruch_r (many_cv2 X) p b R R'"
    and R: "r_glowny R = Dziala (V_petla (int i))" "length (r_lista R) = i" "int i \<le> cv2_procs X" "czekaja_do i R" "r_stdout R = []"
    "r_mon R = mon X (Some (p, [])) (czekajacy X (r_lista R)) None"
  shows "cv2_konf X p R'"
proof -
  have b: "b = None" using assms(3) R(2) czekaja_do_ruch[OF R(4)] by (cases b) (auto simp: ruch_r_def stan_r_def split: proces_k.splits if_splits)
  show ?thesis
  proof (cases "int i < cv2_procs X")
    case True
    with assms(3) R b consider
      q where "q \<noteq> p" "q \<notin> set (r_lista R)" "R' = R\<lparr>r_glowny := Dziala (V_wait (int i)), r_lista := r_lista R @ [q],
                   r_dzieci := (r_dzieci R)(length (r_lista R) := Dziala (D_lock (int i)))\<rparr>"
      | "R' = R\<lparr>r_glowny := Dziala Fail_sekcja\<rparr>" by (fastforce simp: ruch_r_def stan_r_def)
    then show ?thesis
    proof cases
      case 1
      then show ?thesis using R True by (intro cv2_konf.nowe[of _ i _ "[]"]) (auto simp: czekaja_do_def)
    next
      case 2
      then show ?thesis using R by (intro cv2_konf.porzucone[of _ "Some (p, [])"]) (auto simp: czekaja_do_def)
    qed
  next
    case False
    note r = ruch_r_zadanie[OF assms(3), where l = "V_petla (int i)", OF _ _ assms(2), unfolded R(6) kto_def b, simplified]
    have "p \<notin> set (r_lista R)" using assms(2) by (simp add: ulozona_def)
    with False R show ?thesis using mon_zadania(9)[OF assms(1)]
      by (intro cv2_konf.zwalnia) (auto simp: r lib_defs stan_r_def obudz_def czekaja_do_def)
  qed
qed

lemma krok_porzucone:
  assumes "ulozona p R" "ruch_r (many_cv2 X) p b R R'"
    and R: "(r_glowny R, x) \<in> {(Dziala Fail_sekcja, Some (p, [])), (Zombie 2, None)}" "czekaja_do (length (r_lista R)) R" "r_stdout R = []"
    "r_mon R = mon X x (czekajacy X (r_lista R)) None"
  shows "cv2_konf X p R'"
proof -
  have b: "b = None" using assms(2) czekaja_do_ruch[OF R(2)] by (cases b) (auto simp: ruch_r_def stan_r_def split: proces_k.splits if_splits)
  have p: "p \<notin> set (r_lista R)" using assms(1) by (simp add: ulozona_def)
  from R(1) show ?thesis
  proof (elim insertE emptyE)
    assume x: "(r_glowny R, x) = (Dziala Fail_sekcja, Some (p, []))"
    with assms(2) R b show ?thesis using mon_exit_sekcja[OF p, of X]
      by (intro cv2_konf.porzucone[of _ None]) (auto simp: ruch_r_def stan_r_def ustaw_r_def kto_def czekaja_do_def konce_cv2)
  next
    assume "(r_glowny R, x) = (Zombie 2, None)"
    with assms(2) b show ?thesis by (auto simp: ruch_r_def stan_r_def)
  qed
qed

lemma krok_nowe:
  assumes "cv1 X \<noteq> cv2 X" "ulozona p R" "ruch_r (many_cv2 X) p b R R'"
    and R: "r_glowny R = Dziala (V_wait (int i))" "length (r_lista R) = Suc i" "int i < cv2_procs X" "czekaja_do i R" "r_stdout R = []"
    "(r_dzieci R i, qs) \<in> {(Dziala (D_lock (int i)), []), (d_lock i, [r_lista R ! i])}"
    "r_mon R = mon X (Some (p, qs)) (czekajacy X (take i (r_lista R))) None"
  shows "cv2_konf X p R'"
proof -
  have u: "r_lista R ! i \<noteq> p" "\<And>j. j < i \<Longrightarrow> r_lista R ! i \<noteq> r_lista R ! j"
    using assms(2) R(2) nth_mem[of i "r_lista R"] by (auto simp: ulozona_def nth_eq_iff_index_eq)
  have c: "r_dzieci R j = d_czeka j" if "j < i" for j using R(4) that by (simp add: czekaja_do_def)
  have "b = None \<or> b = Some i" using assms(3) R(2) czekaja_do_ruch[OF R(4)]
    by (cases b) (auto simp: ruch_r_def stan_r_def less_Suc_eq split: proces_k.splits if_splits)
  then show ?thesis
  proof
    assume b: "b = None"
    note r = ruch_r_zadanie[OF assms(3), where l = "V_wait (int i)", OF _ _ assms(2), unfolded R(7) kto_def b, simplified]
    from R(6) show ?thesis
    proof (elim insertE emptyE)
      assume x: "(r_dzieci R i, qs) = (Dziala (D_lock (int i)), [])"
      then show ?thesis using R c mon_zadania(5)[OF assms(1)]
        by (intro cv2_konf.czeka[of _ i _ None]) (auto simp: r lib_defs stan_r_def v_czeka_def czekaja_do_def)
    next
      assume x: "(r_dzieci R i, qs) = (d_lock i, [r_lista R ! i])"
      then show ?thesis using R c u(1) mon_zadania(6)[OF assms(1)]
        by (intro cv2_konf.czeka[of _ i _ "Some (r_lista R ! i, [])"])
          (auto simp: r lib_defs stan_r_def v_czeka_def d_lock_def obudz_def czekaja_do_def u(2) errno_defs EINTR_klienta_def)
    qed
  next
    assume b: "b = Some i"
    note r = ruch_r_zadanie[OF assms(3), where l = "D_lock (int i)", OF _ _ assms(2), unfolded R(7) kto_def b, simplified]
    from R(6) show ?thesis
    proof (elim insertE emptyE)
      assume x: "(r_dzieci R i, qs) = (Dziala (D_lock (int i)), [])"
      then show ?thesis using R c u mon_zadania(2)[OF assms(1) u(1)[symmetric]]
        by (intro cv2_konf.nowe[of _ i _ "[r_lista R ! i]"]) (auto simp: r lib_defs stan_r_def d_lock_def czekaja_do_def)
    next
      assume x: "(r_dzieci R i, qs) = (d_lock i, [r_lista R ! i])"
      then show ?thesis using assms(3) b R(2) by (auto simp: ruch_r_def stan_r_def d_lock_def)
    qed
  qed
qed

lemma ruch_ostatniego:
  assumes "ruch_r A p b R R'" "length (r_lista R) = Suc i" "czekaja_do i R" "r_glowny R = v_czeka n"
  shows "b = Some i"
  using assms(1,2,4) czekaja_do_ruch[OF assms(3)]
  by (cases b) (auto simp: ruch_r_def stan_r_def v_czeka_def less_Suc_eq split: proces_k.splits if_splits)

lemma krok_czeka:
  assumes "cv1 X \<noteq> cv2 X" "ulozona p R" "ruch_r (many_cv2 X) p b R R'"
    and R: "r_glowny R = v_czeka i" "length (r_lista R) = Suc i" "int i < cv2_procs X" "czekaja_do i R" "r_stdout R = []"
    "(r_dzieci R i, x) \<in> {(Dziala (D_lock (int i)), None), (Dziala (D_oglos (int i)), Some (r_lista R ! i, []))}"
    "r_mon R = mon X x (czekajacy X (take i (r_lista R))) (Some [(p, mutex_id X)])"
  shows "cv2_konf X p R'"
proof -
  have u: "p \<noteq> r_lista R ! i" "\<And>j. j < i \<Longrightarrow> r_lista R ! i \<noteq> r_lista R ! j"
    using assms(2) R(2) nth_mem[of i "r_lista R"] by (auto simp: ulozona_def nth_eq_iff_index_eq)
  have c: "r_dzieci R j = d_czeka j" if "j < i" for j using R(4) that by (simp add: czekaja_do_def)
  note b = ruch_ostatniego[OF assms(3) R(2,4,1)]
  note r = ruch_r_zadanie[OF assms(3) _ _ assms(2), unfolded R(7) kto_def b, simplified]
  from R(6) show ?thesis
  proof (elim insertE emptyE)
    assume x: "(r_dzieci R i, x) = (Dziala (D_lock (int i)), None)"
    then show ?thesis using R(1-5) c u(1) mon_zadania(1)[OF assms(1)]
      by (intro cv2_konf.czeka[of _ i _ "Some (r_lista R ! i, [])"])
        (auto simp: r[where l = "D_lock (int i)"] u(2) lib_defs stan_r_def obudz_def czekaja_do_def errno_defs EINTR_klienta_def)
  next
    assume x: "(r_dzieci R i, x) = (Dziala (D_oglos (int i)), Some (r_lista R ! i, []))"
    then show ?thesis using R(1-5) c u(1) mon_zadania(8)[OF assms(1) u(1)]
      by (intro cv2_konf.oddaje[of _ i])
        (auto simp: r[where l = "D_oglos (int i)"] u(2) lib_defs stan_r_def obudz_def czekaja_do_def)
  qed
qed

lemma krok_oddaje:
  assumes "cv1 X \<noteq> cv2 X" "ulozona p R" "ruch_r (many_cv2 X) p b R R'"
    and R: "r_glowny R = v_czeka i" "length (r_lista R) = Suc i" "int i < cv2_procs X" "czekaja_do i R" "r_stdout R = []"
    "r_dzieci R i = Dziala (D_wait (int i))" "r_mon R = mon X (Some (r_lista R ! i, [p])) (czekajacy X (take i (r_lista R))) None"
  shows "cv2_konf X p R'"
proof -
  have u: "p \<noteq> r_lista R ! j" if "j < Suc i" for j using assms(2) R(2) nth_mem[of j "r_lista R"] that by (auto simp: ulozona_def)
  have c: "r_dzieci R j = d_czeka j" if "j < i" for j using R(4) that by (simp add: czekaja_do_def)
  have t: "take i (r_lista R) @ [r_lista R ! i] = r_lista R" using R(2) by (metis lessI order_refl take_Suc_conv_app_nth take_all)
  note b = ruch_ostatniego[OF assms(3) R(2,4,1)]
  note r = ruch_r_zadanie[OF assms(3), where l = "D_wait (int i)", OF _ _ assms(2), unfolded R(7) kto_def b, simplified]
  show ?thesis using R(1-6) c mon_zadania(7)[OF assms(1), of "r_lista R ! i" p "[]" "take i (r_lista R)" None]
    by (intro cv2_konf.petla[of _ "Suc i"])
      (auto simp: r u lib_defs stan_r_def obudz_def czekaja_do_def t less_Suc_eq d_czeka_def v_czeka_def add.commute errno_defs EINTR_klienta_def)
qed

lemma krok_zwalnia:
  assumes "cv1 X \<noteq> cv2 X" "ulozona p R" "ruch_r (many_cv2 X) p b R R'"
    and R: "r_glowny R = Dziala V_unlock" "int (length (r_lista R)) = cv2_procs X" "czekaja_do (length (r_lista R)) R" "r_stdout R = []"
    "r_mon R = mon X (Some (p, r_lista R)) None None"
  shows "cv2_konf X p R'"
proof -
  have b: "b = None" using assms(3) czekaja_do_ruch[OF R(3)] by (cases b) (auto simp: ruch_r_def stan_r_def split: proces_k.splits if_splits)
  have c: "r_dzieci R j = d_czeka j" if "j < length (r_lista R)" for j using R(3) that by (simp add: czekaja_do_def)
  note r = ruch_r_zadanie[OF assms(3), where l = V_unlock, OF _ _ assms(2), unfolded R(5) kto_def b, simplified]
  show ?thesis
  proof (cases "r_lista R")
    case Nil
    then show ?thesis using R mon_zadania(3)[OF assms(1)]
      by (intro cv2_konf.wychodza[where j = 0]) (auto simp: r lib_defs stan_r_def obudz_def wychodza_def linie_c_def zostalo_def)
  next
    case (Cons x xs)
    have u: "x \<noteq> p" "\<And>j. 0 < j \<Longrightarrow> j < Suc (length xs) \<Longrightarrow> (x # xs) ! j \<noteq> x" "\<And>j. j < Suc (length xs) \<Longrightarrow> (x # xs) ! j \<noteq> p"
      using assms(2) Cons nth_mem[of _ "x # xs"] nth_mem[of _ xs] by (auto simp: ulozona_def nth_Cons')
    have dz: "r_dzieci R' j = (if j = 0 then Dziala (D_pisz 0) else d_czeka j)" if "j < Suc (length xs)" for j
      using that R(1,2,4) Cons mon_zadania(4)[OF assms(1)] u(1) u(2,3)[of j] c
      by (cases "j = 0") (auto simp: r lib_defs stan_r_def obudz_def d_czeka_def errno_defs EINTR_klienta_def)
    have k: "r_glowny R' = Dziala (V_dzieci (cv2_procs X))" "r_lista R' = x # xs" "r_mon R' = mon X (Some (x, xs)) None None" "r_stdout R' = []"
      using R(1,4) Cons mon_zadania(4)[OF assms(1)] u(1) by (auto simp: r lib_defs stan_r_def obudz_def)
    with dz have "zostalo R' = length (r_lista R)" by (subst zostalo_wszystkie) (auto simp: Cons d_czeka_def)
    with dz k R(2) Cons show ?thesis by (intro cv2_konf.wychodza[where j = 0]) (auto simp: wychodza_def linie_c_def)
  qed
qed

text \<open>The children leave the critical section one after the other.\<close>

lemma krok_wychodzi:
  assumes "cv1 X \<noteq> cv2 X" "ulozona p R" "ruch_r (many_cv2 X) p (Some j) R R'"
    and R: "r_glowny R = Dziala (V_dzieci (int (zostalo R)))" "int (length (r_lista R)) = cv2_procs X" "wychodza j R"
    "r_mon R = mon X (Some (r_lista R ! j, drop (Suc j) (r_lista R))) None None" and j: "j < length (r_lista R)"
  shows "cv2_konf X p R'"
proof -
  have w: "r_dzieci R i \<in> {Dziala D_exit, Zombie 0, Nie_ma}" if "i < j" for i using R(3) that by (simp add: wychodza_def)
  have c: "r_dzieci R i = d_czeka i" if "j < i" "i < length (r_lista R)" for i using R(3) that by (simp add: wychodza_def)
  have u: "r_lista R ! i \<noteq> p" if "i < length (r_lista R)" for i using assms(2) that nth_mem[of i "r_lista R"] by (auto simp: ulozona_def)
  have d: "r_lista R ! i = r_lista R ! k \<longleftrightarrow> i = k" if "i < length (r_lista R)" "k < length (r_lista R)" for i k
    using assms(2) that by (simp add: ulozona_def nth_eq_iff_index_eq)
  consider "r_dzieci R j = Dziala (D_pisz (int j))" "r_stdout R = linie_c j" | "r_dzieci R j = Dziala (D_unlock (int j))" "r_stdout R = linie_c (Suc j)"
    using R(3) j by (auto simp: wychodza_def)
  then show ?thesis
  proof cases
    case 1
    then have R': "R' = R\<lparr>r_dzieci := (r_dzieci R)(j := Dziala (D_unlock (int j))), r_stdout := linie_c (Suc j)\<rparr>"
      using assms(3) j by (simp add: ruch_r_def stan_r_def ustaw_r_def linie_c_def)
    have "zostalo R' = zostalo R" using 1 by (intro zostalo_cong) (auto simp: R')
    then show ?thesis using R w c j unfolding R' by (intro cv2_konf.wychodza[where j = j]) (auto simp: wychodza_def)
  next
    case 2
    note r = ruch_r_zadanie[OF assms(3), where l = "D_unlock (int j)", OF _ _ assms(2), unfolded R(4) kto_def, simplified]
    show ?thesis
    proof (cases "Suc j < length (r_lista R)")
      case False
      then have e: "drop (Suc j) (r_lista R) = []" "Suc j = length (r_lista R)" using j by simp_all
      note z = r[where out = "[(r_lista R ! j, OK)]" and \<sigma> = "mon X None None None"]
      have k: "r_glowny R' = r_glowny R" "r_lista R' = r_lista R" "r_stdout R' = r_stdout R" "r_mon R' = mon X None None None"
        using 2 j e mon_zadania(3)[OF assms(1)] u by (auto simp: z lib_defs stan_r_def)
      have dz: "r_dzieci R' i = (if i = j then Dziala D_exit else r_dzieci R i)" if "i < length (r_lista R)" for i
        using 2 j e mon_zadania(3)[OF assms(1)] d that by (auto simp: z lib_defs stan_r_def obudz_def)
      have "zostalo R' = zostalo R" using 2 by (intro zostalo_cong) (auto simp: k dz)
      then show ?thesis using R w 2 e dz by (intro cv2_konf.wychodza[where j = "Suc j"]) (auto simp: wychodza_def k less_Suc_eq)
    next
      case True
      then have e: "drop (Suc j) (r_lista R) = r_lista R ! Suc j # drop (Suc (Suc j)) (r_lista R)" by (simp add: Cons_nth_drop_Suc)
      note z = r[where out = "[(r_lista R ! Suc j, OK), (r_lista R ! j, OK)]" and \<sigma> = "mon X (Some (r_lista R ! Suc j, drop (Suc (Suc j)) (r_lista R))) None None"]
      have k: "r_glowny R' = r_glowny R" "r_lista R' = r_lista R" "r_stdout R' = r_stdout R"
        "r_mon R' = mon X (Some (r_lista R ! Suc j, drop (Suc (Suc j)) (r_lista R))) None None"
        using 2 j e True mon_zadania(4)[OF assms(1)] u by (auto simp: z lib_defs stan_r_def)
      have dz: "r_dzieci R' i = (if i = j then Dziala D_exit else if i = Suc j then Dziala (D_pisz (int i)) else r_dzieci R i)" if "i < length (r_lista R)" for i
        using 2 j e True mon_zadania(4)[OF assms(1)] d that c[of "Suc j"]
        by (auto simp: z lib_defs stan_r_def obudz_def d_czeka_def errno_defs EINTR_klienta_def)
      have "zostalo R' = zostalo R" using 2 True c[of "Suc j"] by (intro zostalo_cong) (auto simp: k dz d_czeka_def)
      then show ?thesis using R w c 2 True dz by (intro cv2_konf.wychodza[where j = "Suc j"]) (auto simp: wychodza_def k less_Suc_eq)
    qed
  qed
qed

lemma krok_konczy:
  assumes "ulozona p R" "ruch_r (many_cv2 X) p (Some i) R R'"
    and R: "r_glowny R = Dziala (V_dzieci (int (zostalo R)))" "int (length (r_lista R)) = cv2_procs X" "wychodza j R"
    "r_mon R = mon X (if j < length (r_lista R) then Some (r_lista R ! j, drop (Suc j) (r_lista R)) else None) None None" and i: "i \<noteq> j"
  shows "cv2_konf X p R'"
proof -
  have l: "i < length (r_lista R)" using assms(2) by (auto simp: ruch_r_def stan_r_def split: if_splits)
  then have ij: "i < j" and D: "r_dzieci R i = Dziala D_exit"
    using assms(2) i R(3) by (auto simp: ruch_r_def stan_r_def wychodza_def d_czeka_def linorder_neq_iff)
  have d: "r_lista R ! i \<noteq> r_lista R ! j \<and> r_lista R ! i \<notin> set (drop (Suc j) (r_lista R))" if "j < length (r_lista R)"
    using assms(1) that ij l by (auto simp: ulozona_def nth_eq_iff_index_eq in_set_conv_nth)
  have "a_exit (r_lista R ! i) (r_mon R) = r_mon R" unfolding R(4) using d by (intro mon_exit) auto
  moreover have "\<not> nastepca (kto p (Some i) R) (r_mon R) x" for x using d unfolding R(4) by (auto simp: kto_def nastepca_mon)
  ultimately have R': "R' = R\<lparr>r_dzieci := (r_dzieci R)(i := Zombie 0)\<rparr>"
    using assms(2) l D by (simp add: ruch_r_def stan_r_def ustaw_r_def po_koncu_bez_nastepcy) (simp add: kto_def)
  have "zostalo R' = zostalo R" using D by (intro zostalo_cong) (auto simp: R')
  then show ?thesis using R ij unfolding R' by (intro cv2_konf.wychodza[where j = j]) (auto simp: wychodza_def)
qed

text \<open>The parent waits for its children.\<close>

lemma krok_zbiera:
  assumes "ulozona p R" "ruch_r (many_cv2 X) p None R R'"
    and R: "r_glowny R = Dziala (V_dzieci (int (zostalo R)))" "int (length (r_lista R)) = cv2_procs X" "wychodza j R"
    "r_mon R = mon X (if j < length (r_lista R) then Some (r_lista R ! j, drop (Suc j) (r_lista R)) else None) None None"
  shows "cv2_konf X p R'"
proof (cases "zostalo R = 0")
  case True
  then have j: "j = length (r_lista R)" using R(3) by (auto simp: wychodza_def zostalo_0 split: if_splits)
  then have "R' = R\<lparr>r_glowny := Zombie 0\<rparr>"
    using assms(2) R(1,4) True mon_exit[of None p X] by (simp add: ruch_r_def stan_r_def ustaw_r_def kto_def konce_cv2)
  with R(2-4) True j show ?thesis by (intro cv2_konf.koniec) (auto simp: zostalo_def wychodza_def)
next
  case False
  then obtain k where k: "k < length (r_lista R)" "r_dzieci R k \<noteq> Nie_ma" by (auto simp: zostalo_0)
  from assms(2) R(1) False k obtain i z where i: "i < length (r_lista R)" "r_dzieci R i = Zombie z"
    and R': "R' = R\<lparr>r_glowny := Dziala (V_dzieci (int (zostalo R) - 1)), r_dzieci := (r_dzieci R)(i := Nie_ma)\<rparr>"
    by (fastforce simp: ruch_r_def stan_r_def)
  have ij: "i < j" using i R(3) by (cases "i = j") (auto simp: wychodza_def d_czeka_def linorder_neq_iff)
  have "int (zostalo R) - 1 = int (zostalo R')" using zostalo_zebrane[OF i(1), of "r_glowny R'"] i(2) by (simp add: R' flip: of_nat_Suc)
  with ij R(2-4) show ?thesis by (intro cv2_konf.wychodza[where j = j]) (auto simp: R' wychodza_def)
qed

lemma krok_koniec:
  assumes "ruch_r A p b R R'" "r_glowny R = Zombie 0" "zostalo R = 0"
  shows False
  using assms by (cases b) (auto simp: ruch_r_def stan_r_def zostalo_0 split: if_splits)

lemma cv2_konf_ruch:
  assumes "cv2_konf X p R" "cv1 X \<noteq> cv2 X" "ulozona p R" "ruch_r (many_cv2 X) p b R R'"
  shows "cv2_konf X p R'"
  using assms(1)
proof cases
  case start
  with krok_start[OF assms(2-4)] show ?thesis .
next
  case (petla i)
  with krok_petla[OF assms(2-4)] show ?thesis .
next
  case (porzucone x)
  with krok_porzucone[OF assms(3,4)] show ?thesis .
next
  case (nowe i qs)
  with krok_nowe[OF assms(2-4)] show ?thesis .
next
  case (czeka i x)
  with krok_czeka[OF assms(2-4)] show ?thesis .
next
  case (oddaje i)
  with krok_oddaje[OF assms(2-4)] show ?thesis .
next
  case zwalnia
  with krok_zwalnia[OF assms(2-4)] show ?thesis .
next
  case (wychodza j)
  show ?thesis
  proof (cases b)
    case None
    with assms(4) krok_zbiera[OF assms(3) _ wychodza] show ?thesis by simp
  next
    case (Some i)
    show ?thesis
    proof (cases "i = j")
      case True
      then have "j < length (r_lista R)" using assms(4) Some by (auto simp: ruch_r_def stan_r_def split: if_splits)
      with assms(4) Some True wychodza krok_wychodzi[OF assms(2,3) _ wychodza(1-3)] show ?thesis by simp
    next
      case False
      with assms(4) Some krok_konczy[OF assms(3) _ wychodza] show ?thesis by simp
    qed
  qed
next
  case koniec
  with krok_koniec[OF assms(4)] show ?thesis by blast
qed

lemma many_cv2_rozwidl: "many_cv2 X l = Rozwidl f \<Longrightarrow> \<exists>i. l = V_petla i"
  by (cases l) (auto simp: lib_defs split: if_splits)

lemma many_cv2_czekaj: "many_cv2 X l = Czekaj_dziecka f \<Longrightarrow> \<exists>k. l = V_dzieci k"
  by (cases l) (auto simp: lib_defs split: if_splits)

lemma cv2_konf_dzieci:
  assumes "cv2_konf X p R" "i < length (r_lista R)" "r_dzieci R i = Dziala l"
  shows "(\<forall>k. l \<noteq> V_petla k \<and> l \<noteq> V_dzieci k) \<and> l \<noteq> Fail \<and> l \<noteq> Fail_sekcja"
  using assms(1)
proof cases
  case (wychodza j)
  with assms(2,3) show ?thesis by (cases i j rule: linorder_cases) (auto simp: wychodza_def d_czeka_def)
qed (use assms(2,3) in \<open>auto simp: czekaja_do_def d_czeka_def d_lock_def zostalo_0 less_Suc_eq\<close>)

lemma cv2_konf_poprawna:
  assumes k: "cv2_konf X p R"
  shows "poprawna_r (many_cv2 X) R"
proof -
  have "r_dzieci R i \<noteq> Nie_ma" if "r_glowny R = Dziala l" "many_cv2 X l = Rozwidl f" "i < length (r_lista R)" for l f i
  proof -
    from many_cv2_rozwidl[OF that(2)] obtain n where "l = V_petla n" by blast
    with k that show ?thesis by cases (auto simp: v_czeka_def dest: czekaja_do_ruch)
  qed
  moreover have "many_cv2 X l \<noteq> Rozwidl f \<and> many_cv2 X l \<noteq> Czekaj_dziecka f" if "i < length (r_lista R)" "r_dzieci R i = Dziala l" for i l f
    using cv2_konf_dzieci[OF k that] many_cv2_rozwidl[of X l] many_cv2_czekaj[of X l] by metis
  ultimately show ?thesis unfolding poprawna_r_def by blast
qed

text \<open>
  The laws are those of a program whose events have different numbers; when \<^verbatim>\<open>rand\<close> gives one number twice, the second event is taken to be
  another one.
\<close>

definition rozne :: "cv2_arg \<Rightarrow> cv2_arg" where
  "rozne X = (if cv1 X = cv2 X then X\<lparr>cv2 := cv1 X + 1\<rparr> else X)"

lemma rozne_cv: "cv1 (rozne X) \<noteq> cv2 (rozne X)"
  by (simp add: rozne_def)

interpretation mc: rodzina E "many_cv2 (rozne X)" "{mutex_id (rozne X)}" "{cv1 (rozne X), cv2 (rozne X)}" "cv2_konf (rozne X)" V_start for E X
proof unfold_locales
  show "zadanie_w_zasobach {mutex_id (rozne X)} {cv1 (rozne X), cv2 (rozne X)} t n d" if "many_cv2 (rozne X) l = Zadanie t n d f" for l t n d f
    using that by (cases l) (auto simp: lib_defs zadanie_w_zasobach_def cs_defs split: if_splits)
  show "zwykla (many_cv2 (rozne X) l)" for l by (cases l) (simp_all add: lib_defs)
  show "cv2_konf (rozne X) p \<lparr>r_glowny = Dziala V_start, r_lista = [], r_dzieci = (\<lambda>_. Nie_ma), r_mon = monitor0, r_stdout = []\<rparr>" for p
    by (rule cv2_konf.start) (simp_all add: mon_def monitor0_def)
  show "cv2_konf (rozne X) p R'" if "cv2_konf (rozne X) p R" "ulozona p R" "ruch_r (many_cv2 (rozne X)) p b R R'" for p b R R'
    by (rule cv2_konf_ruch[OF that(1) rozne_cv that(2,3)])
qed (auto simp: endpointy_def MAX_MUTEX_def MAX_CV_def card_insert_if intro: cv2_konf_poprawna)

section \<open>What the test checks\<close>

text \<open>The states of the program when the process \<open>p\<close> runs its \<^verbatim>\<open>main\<close>.\<close>

definition many_cv2_stan :: "srodowisko \<Rightarrow> cv2_arg \<Rightarrow> int \<Rightarrow> cv2_lok uklad \<Rightarrow> bool" where
  "many_cv2_stan E X p =
     osiagalny (\<lambda>u. p \<in> endpointy E \<and> poczatek_ukladu E p V_start u) (krok_ukladu E (many_cv2 X) (endpointy E) MAX_CZEKA)"

lemma cv2_konf_stdout:
  assumes "cv2_konf X p R"
  shows "\<exists>k \<le> nat (cv2_procs X). r_stdout R = linie_c k"
proof -
  have 0: "\<exists>k \<le> nat (cv2_procs X). r_stdout R = linie_c k" if "r_stdout R = []" using that by (intro exI[of _ 0]) (simp add: linie_c_def)
  from assms show ?thesis
  proof cases
    case (wychodza j)
    then have "nat (cv2_procs X) = length (r_lista R)" by linarith
    with wychodza(3) show ?thesis by (auto simp: wychodza_def Suc_le_eq split: if_splits intro: exI[of _ j] exI[of _ "Suc j"])
  next
    case koniec
    then have "nat (cv2_procs X) = length (r_lista R)" by linarith
    with koniec show ?thesis by auto
  qed (use 0 in auto)
qed

lemma cv2_konf_koniec: "cv2_konf X p R \<Longrightarrow> r_glowny R = Zombie 0 \<Longrightarrow> r_stdout R = linie_c (nat (cv2_procs X))"
  by (erule cv2_konf.cases) (auto simp: v_czeka_def dest: arg_cong[of "int _" _ nat])

lemma cv2_konf_ruchoma:
  assumes "cv2_konf X p R"
  shows "(\<exists>j. r_glowny R = Zombie j) \<or> ruchoma_r (many_cv2 X) R"
proof -
  have D: "ruchoma_r (many_cv2 X) R" if "i < length (r_lista R)" "r_dzieci R i = Dziala l" "\<forall>k. l \<noteq> V_dzieci k" for i l
    using that many_cv2_czekaj[of X l] unfolding ruchoma_r_def by (intro disjI1 exI[of _ "Some i"]) (auto simp: stan_r_def)
  have V: "ruchoma_r (many_cv2 X) R" if "r_glowny R = Dziala l" "\<forall>k. l \<noteq> V_dzieci k" for l
    using that many_cv2_czekaj[of X l] unfolding ruchoma_r_def by (intro disjI1 exI[of _ None]) (auto simp: stan_r_def)
  from assms show ?thesis
  proof cases
    case (czeka i x)
    then show ?thesis using D[of i] by auto
  next
    case (oddaje i)
    then show ?thesis using D[of i] by auto
  next
    case (wychodza j)
    show ?thesis
    proof (cases "j < length (r_lista R)")
      case True
      with wychodza(3) D[of j] show ?thesis by (auto simp: wychodza_def)
    next
      case False
      then have w: "\<forall>i < length (r_lista R). r_dzieci R i \<in> {Dziala D_exit, Zombie 0, Nie_ma}" using wychodza(3) by (auto simp: wychodza_def)
      consider i where "i < length (r_lista R)" "r_dzieci R i = Dziala D_exit" | i where "i < length (r_lista R)" "r_dzieci R i = Zombie 0"
        | "\<forall>i < length (r_lista R). r_dzieci R i = Nie_ma" using w by blast
      then show ?thesis
      proof cases
        case 1
        with D[of i D_exit] show ?thesis by simp
      next
        case 2
        then have "zostalo R > 0" using zostalo_0[of R] by (metis gr0I proces_k.distinct(5))
        with 2 wychodza(1) show ?thesis unfolding ruchoma_r_def by auto
      next
        case 3
        then have "zostalo R = 0" by (simp add: zostalo_0)
        with wychodza(1) show ?thesis unfolding ruchoma_r_def by (intro disjI2 disjI1 exI[of _ None]) (auto simp: stan_r_def)
      qed
    qed
  qed (use V in auto)
qed

text \<open>
  C23. The test program \<^verbatim>\<open>many_cv2\<close>, for any number of processes and any two different events: whatever the order in which its processes
  run, what they print is always the first lines \<^verbatim>\<open>c:0\<close>, \<^verbatim>\<open>c:1\<close>, and so on, in this order, so the event wakes its processes in the order in which
  they began to wait; when \<^verbatim>\<open>main\<close> has ended with status zero it is one line for every process. Until \<^verbatim>\<open>main\<close> has ended some process can take a
  step: no process waits in vain.
\<close>

theorem many_cv2_w_kolejnosci:
  assumes "many_cv2_stan E X p u" "cv1 X \<noteq> cv2 X"
  shows "(\<exists>k \<le> nat (cv2_procs X). stdout u = linie_c k) \<and> (stany u p = Zombie 0 \<longrightarrow> stdout u = linie_c (nat (cv2_procs X))) \<and>
    ((\<exists>j. stany u p = Zombie j) \<or> (\<exists>u'. krok_ukladu E (many_cv2 X) (endpointy E) MAX_CZEKA u u'))"
proof -
  have X: "rozne X = X" using assms(2) by (simp add: rozne_def)
  from assms(1) obtain R where R: "cv2_konf X p R" "obraz_rodziny p R u"
    and r: "ruchoma_r (many_cv2 X) R \<Longrightarrow> \<exists>u'. krok_ukladu E (many_cv2 X) (endpointy E) MAX_CZEKA u u'"
    unfolding many_cv2_stan_def by (rule mc.osiagalna_rodzina[of p E X u, unfolded X]) blast
  have "stany u p = r_glowny R" "stdout u = r_stdout R" using R(2) by (simp_all add: obraz_rodziny_def tabela_def)
  with cv2_konf_stdout[OF R(1)] cv2_konf_koniec[OF R(1)] cv2_konf_ruchoma[OF R(1)] r show ?thesis by auto
qed

definition cv2_plan :: "wybor list" where
  "cv2_plan = [Idz 10, Idz 10, Nowy 10 20, Idz 20, Idz 10, Idz 20, Idz 20, Nowy 10 30, Idz 10, Idz 30, Idz 30, Idz 30,
     Idz 10, Idz 10, Idz 20, Idz 20, Idz 30, Idz 30, Idz 30, Zbierz 10 30, Idz 20, Zbierz 10 20, Idz 10]"

definition cv2_dane :: cv2_arg where
  "cv2_dane = \<lparr>cv2_argc = 2, cv2_procs = 2, cv1 = 17, cv2 = 4, mutex_id = 999\<rparr>"

lemma many_cv2_przebieg: "\<exists>u. many_cv2_stan srod0 cv2_dane 10 u \<and> stany u 10 = Zombie 0"
proof -
  have X: "rozne cv2_dane = cv2_dane" by (simp add: rozne_def cv2_dane_def)
  show ?thesis unfolding many_cv2_stan_def
  proof (rule mc.plan_konczy[where X = cv2_dane and ms = "[999]" and ws = cv2_plan, unfolded X])
    show "case wykonaj_plan (many_cv2 cv2_dane) [999] MAX_CZEKA cv2_plan (przebieg0 10 V_start) of None \<Rightarrow> False | Some s \<Rightarrow> zakonczony 0 (p_stany s 10)"
      by code_simp
  qed (auto simp: endpointy0 MAX_CZEKA_def dzieci_planu_def cv2_plan_def cv2_dane_def)
qed

theorem many_cv2_w_kolejnosci_przyklad:
  "\<exists>u. many_cv2_stan srod0 cv2_dane 10 u \<and> stany u 10 = Zombie 0 \<and> stdout u = wiersz_c 0 @ wiersz_c 1"
proof -
  obtain u where u: "many_cv2_stan srod0 cv2_dane 10 u" "stany u 10 = Zombie 0" using many_cv2_przebieg by blast
  have "linie_c 2 = wiersz_c 0 @ wiersz_c 1" by (simp add: linie_c_def numeral_2_eq_2)
  with many_cv2_w_kolejnosci[OF u(1)] u show ?thesis by (auto simp: cv2_dane_def)
qed

end
