(* ===== verification/Check_Fifo.thy ===== *)
theory Check_Fifo
  imports Rodzina
begin

text \<open>
  The test program \<^verbatim>\<open>testy/src/check_fifo.c\<close>: children that ask for one mutex while the parent holds it, and write a line each when they get
  it. Their lines come out in the order in which they asked. \<^verbatim>\<open>sleep\<close> only takes time, so any order of asking is possible.
\<close>

section \<open>The program\<close>

definition MAX_PROCS :: int where "MAX_PROCS = 32"

record cf_arg =
  cf_argc :: int
  cf_procs :: int
  cf_mutex :: int

text \<open>The two bytes that a child writes.\<close>

definition cf_wiersz :: "int \<Rightarrow> string" where
  "cf_wiersz n = [char_of (97 + nat n), CHR 0x0A]"

text \<open>The control points of \<^verbatim>\<open>main\<close> (\<open>P\<close>) and of \<^verbatim>\<open>child\<close> with its number (\<open>Cf\<close>); \<open>P_petla\<close> is the test of the first loop, with the call that comes first on either branch.\<close>

datatype cf_lok =
  P_start | P_lock | P_petla int | P_spij int | P_dzieci int | Cf_lock int | Cf_pisz int | Cf_unlock int | Cf_exit | Fail

fun check_fifo :: "cf_arg \<Rightarrow> cf_lok \<Rightarrow> cf_lok akcja" where
  "check_fifo X P_start = Dalej (if cf_argc X \<noteq> 2 then Fail else if cf_procs X < 0 \<or> cf_procs X > MAX_PROCS then Fail else P_lock)"
| "check_fifo X P_lock = lib_cs_lock (cf_mutex X) P_lock (\<lambda>r. if r \<noteq> 0 then Fail else P_petla 0)"
| "check_fifo X (P_petla i) =
     (if i < cf_procs X then Rozwidl (\<lambda>ch. if ch < 0 then Fail else if ch = 0 then Cf_lock i else P_spij i)
      else lib_cs_unlock (cf_mutex X) (\<lambda>r. if r \<noteq> 0 then Fail else P_dzieci (cf_procs X)))"
| "check_fifo X (P_spij i) = Dalej (P_petla (i + 1))"
| "check_fifo X (P_dzieci k) = (if k > 0 then Czekaj_dziecka (\<lambda>r. if r > 0 then P_dzieci (k - 1) else P_dzieci k) else Koniec 0)"
| "check_fifo X (Cf_lock n) = lib_cs_lock (cf_mutex X) (Cf_lock n) (\<lambda>r. if r \<noteq> 0 then Fail else Cf_pisz n)"
| "check_fifo X (Cf_pisz n) = Pisz (cf_wiersz n) (Cf_unlock n)"
| "check_fifo X (Cf_unlock n) = lib_cs_unlock (cf_mutex X) (\<lambda>r. if r \<noteq> 0 then Fail else Cf_exit)"
| "check_fifo X Cf_exit = Koniec 0"
| "check_fifo X Fail = Koniec 2"

section \<open>Its configurations\<close>

definition mon1 :: "cf_arg \<Rightarrow> (int \<times> int list) option \<Rightarrow> monitor" where
  "mon1 X x = \<lparr>mut = (\<lambda>_. None)(cf_mutex X := x), zdarz = (\<lambda>_. None)\<rparr>"

definition f_czeka :: "nat \<Rightarrow> cf_lok proces_k" where
  "f_czeka j = Zablokowany (\<lambda>r. if r = - EINTR_klienta then Cf_lock (int j) else if status r \<noteq> 0 then Fail else Cf_pisz (int j))"

definition linie_f :: "nat list \<Rightarrow> string" where
  "linie_f ks = concat (map (\<lambda>j. cf_wiersz (int j)) ks)"

text \<open>The children \<open>ks\<close> have asked for the mutex, in this order, which the parent has.\<close>

definition pytaja :: "cf_arg \<Rightarrow> int \<Rightarrow> nat list \<Rightarrow> cf_lok rodzina \<Rightarrow> bool" where
  "pytaja X p ks R \<longleftrightarrow> distinct ks \<and> set ks \<subseteq> {..<length (r_lista R)} \<and> r_stdout R = [] \<and>
     (\<forall>j < length (r_lista R). r_dzieci R j = (if j \<in> set ks then f_czeka j else Dziala (Cf_lock (int j)))) \<and>
     r_mon R = mon1 X (Some (p, map ((!) (r_lista R)) ks))"

text \<open>The first \<open>d\<close> of them have released it, the next one has it.\<close>

definition pisza :: "cf_arg \<Rightarrow> nat list \<Rightarrow> nat \<Rightarrow> cf_lok rodzina \<Rightarrow> bool" where
  "pisza X ks d R \<longleftrightarrow> distinct ks \<and> set ks \<subseteq> {..<length (r_lista R)} \<and> d \<le> length ks \<and>
     (\<forall>j < length (r_lista R). j \<notin> set ks \<longrightarrow> r_dzieci R j = Dziala (Cf_lock (int j))) \<and>
     (\<forall>i < d. r_dzieci R (ks ! i) \<in> {Dziala Cf_exit, Zombie 0, Nie_ma}) \<and>
     (\<forall>i. d < i \<longrightarrow> i < length ks \<longrightarrow> r_dzieci R (ks ! i) = f_czeka (ks ! i)) \<and>
     (if d < length ks
      then (r_dzieci R (ks ! d), r_stdout R) \<in>
        {(Dziala (Cf_pisz (int (ks ! d))), linie_f (take d ks)), (Dziala (Cf_unlock (int (ks ! d))), linie_f (take (Suc d) ks))}
      else r_stdout R = linie_f ks) \<and>
     r_mon R = mon1 X (if d < length ks then Some (r_lista R ! (ks ! d), map ((!) (r_lista R)) (drop (Suc d) ks)) else None)"

text \<open>The parent after that: it waits for its children, or has ended.\<close>

definition rodzic_czeka :: "cf_arg \<Rightarrow> cf_lok rodzina \<Rightarrow> bool" where
  "rodzic_czeka X R \<longleftrightarrow>
     (r_glowny R = Dziala (P_dzieci (int (zostalo R))) \<or> r_glowny R = Zombie 0 \<and> zostalo R = 0) \<and> int (length (r_lista R)) = cf_procs X \<or>
     r_glowny R = Zombie 2"

inductive cf_konf :: "cf_arg \<Rightarrow> int \<Rightarrow> nat list \<Rightarrow> cf_lok rodzina \<Rightarrow> bool" for X p where
  start: "r_glowny R \<in> {Dziala P_start, Dziala P_lock, Dziala Fail, Zombie 2} \<Longrightarrow> r_lista R = [] \<Longrightarrow> r_stdout R = [] \<Longrightarrow>
    r_mon R = mon1 X None \<Longrightarrow> (r_glowny R = Dziala P_lock \<longrightarrow> 0 \<le> cf_procs X) \<Longrightarrow> cf_konf X p [] R"
| trzyma: "r_glowny R = Dziala l \<Longrightarrow> l \<in> {P_petla (int (length (r_lista R))), P_spij (int (length (r_lista R)) - 1), Fail} \<Longrightarrow>
    int (length (r_lista R)) \<le> cf_procs X \<Longrightarrow> pytaja X p ks R \<Longrightarrow> cf_konf X p ks R"
| puszczony: "rodzic_czeka X R \<Longrightarrow> pisza X ks d R \<Longrightarrow> cf_konf X p ks R"

text \<open>The requests of the program and the end of its processes.\<close>

lemma mon1_mut: "mut (mon1 X x) (cf_mutex X) = x"
  by (simp add: mon1_def)

lemma mon1_upd: "(mon1 X x)\<lparr>mut := (mut (mon1 X x))(cf_mutex X := y)\<rparr> = mon1 X y"
  by (simp add: mon1_def)

lemmas mon1_zadania = zadanie_lock[OF mon1_mut, unfolded mon1_upd] zadanie_unlock[OF mon1_mut, unfolded mon1_upd]

lemma nastepca_mon1: "nastepca r (mon1 X x) q \<longleftrightarrow> (\<exists>xs. x = Some (r, q # xs))"
  by (auto simp: nastepca_def mon1_def split: if_splits)

lemma mon1_exit:
  assumes "x = None \<or> (\<exists>w qs. x = Some (w, qs) \<and> w \<noteq> r \<and> r \<notin> set qs)"
  shows "a_exit r (mon1 X x) = mon1 X x"
  using assms by (intro a_exit_obojetny) (auto simp: mon1_def ma_mutex_def czeka_def miejsca_def)

lemma mon1_exit_sekcja:
  assumes "r \<notin> set qs"
  shows "a_exit r (mon1 X (Some (r, qs))) = mon1 X (case qs of [] \<Rightarrow> None | x # xs \<Rightarrow> Some (x, xs))"
  using assms by (auto simp: a_exit_def mon1_def bez_zdarzen_def przekaz_def fun_eq_iff remove1_idem split: list.split)

section \<open>Every step leads to a configuration\<close>

lemma pytaja_numery: "pytaja X p ks R \<Longrightarrow> i < length ks \<Longrightarrow> ks ! i < length (r_lista R)"
  unfolding pytaja_def by (meson lessThan_iff nth_mem subsetD)

lemma pisza_numery: "pisza X ks d R \<Longrightarrow> i < length ks \<Longrightarrow> ks ! i < length (r_lista R)"
  unfolding pisza_def by (meson lessThan_iff nth_mem subsetD)

text \<open>The parent releases the mutex, by \<^verbatim>\<open>cs_unlock\<close> or because it ends.\<close>

lemma puszcza:
  assumes "pytaja X p ks R" "r_lista R' = r_lista R" "r_stdout R' = []"
    and "\<And>j. j < length (r_lista R) \<Longrightarrow> r_dzieci R' j = (if ks \<noteq> [] \<and> j = hd ks then Dziala (Cf_pisz (int j)) else r_dzieci R j)"
    and "r_mon R' = mon1 X (case map ((!) (r_lista R)) ks of [] \<Rightarrow> None | x # xs \<Rightarrow> Some (x, xs))"
  shows "pisza X ks 0 R'"
proof (cases ks)
  case Nil
  with assms show ?thesis by (auto simp: pisza_def pytaja_def linie_f_def)
next
  case (Cons k ks')
  have "r_dzieci R' (ks ! i) = f_czeka (ks ! i)" if "0 < i" "i < length ks" for i
  proof -
    have "ks ! i \<noteq> hd ks" using assms(1) that Cons nth_eq_iff_index_eq[of ks i 0] by (simp add: pytaja_def)
    then show ?thesis using assms(1) assms(4)[of "ks ! i"] pytaja_numery[OF assms(1) that(2)] that(2) by (auto simp: pytaja_def)
  qed
  then show ?thesis using assms Cons by (auto simp: pisza_def pytaja_def linie_f_def)
qed

lemma krok_fifo_start:
  assumes "ulozona p R" "ruch_r (check_fifo X) p b R R'"
    and "r_glowny R \<in> {Dziala P_start, Dziala P_lock, Dziala Fail, Zombie 2}" "r_lista R = []" "r_stdout R = []"
    "r_mon R = mon1 X None" "r_glowny R = Dziala P_lock \<longrightarrow> 0 \<le> cf_procs X"
  shows "cf_konf X p [] R'"
proof -
  have b: "b = None" using assms(2,4) by (auto simp: ruch_r_def stan_r_def split: option.splits)
  consider "r_glowny R = Dziala P_start" | "r_glowny R = Dziala P_lock" | "r_glowny R = Dziala Fail" | "r_glowny R = Zombie 2"
    using assms(3) by auto
  then show ?thesis
  proof cases
    case 1
    then show ?thesis using assms(2,4-6) b by (intro cf_konf.start) (auto simp: ruch_r_def stan_r_def ustaw_r_def)
  next
    case 2
    note r = ruch_r_zadanie[OF assms(2), where l = P_lock, OF _ _ assms(1), unfolded assms(6) kto_def b, simplified]
    from 2 show ?thesis using assms(4,5,7) mon1_zadania(1)
      by (intro cf_konf.trzyma[of _ "P_petla 0"]) (auto simp: r lib_defs stan_r_def obudz_def pytaja_def)
  next
    case 3
    then show ?thesis using assms(2,4-6) b mon1_exit[of None p X]
      by (intro cf_konf.start) (auto simp: ruch_r_def stan_r_def ustaw_r_def kto_def po_koncu_bez_nastepcy nastepca_mon1)
  next
    case 4
    then show ?thesis using assms(2) b by (auto simp: ruch_r_def stan_r_def)
  qed
qed

text \<open>While the parent has the mutex, children ask for it.\<close>

lemma krok_pyta:
  assumes "ulozona p R" "ruch_r (check_fifo X) p (Some j) R R'"
    and R: "r_glowny R = Dziala l" "l \<in> {P_petla (int (length (r_lista R))), P_spij (int (length (r_lista R)) - 1), Fail}"
      "int (length (r_lista R)) \<le> cf_procs X" "pytaja X p ks R"
  shows "cf_konf X p (ks @ [j]) R'"
proof -
  have j: "j < length (r_lista R)" "j \<notin> set ks" "r_dzieci R j = Dziala (Cf_lock (int j))"
    using assms(2) R(4) by (auto simp: ruch_r_def stan_r_def pytaja_def f_czeka_def split: if_splits)
  have m: "r_mon R = mon1 X (Some (p, map ((!) (r_lista R)) ks))" using R(4) by (simp add: pytaja_def)
  have s: "stan_r (Some j) R = Dziala (Cf_lock (int j))" using j by (simp add: stan_r_def)
  have z: "a_klient (zadanie (kto p (Some j) R) CS_LOCK (cf_mutex X) 0) (r_mon R) = ([], mon1 X (Some (p, map ((!) (r_lista R)) (ks @ [j]))))"
    using mon1_zadania(2)[OF ulozona_nth(2)[OF assms(1) j(1)]] by (simp add: m kto_def)
  note r = ruch_r_zadanie[OF assms(2) s _ assms(1) z]
  have dz: "r_dzieci R' i = (if i = j then f_czeka j else r_dzieci R i)" if "i < length (r_lista R)" for i
    using r(2)[OF _ that] by (auto simp: lib_defs f_czeka_def)
  have k: "r_glowny R' = r_glowny R" "r_lista R' = r_lista R" "r_stdout R' = r_stdout R" "r_mon R' = mon1 X (Some (p, map ((!) (r_lista R)) (ks @ [j])))"
    using r(1,3-5) by (auto simp: lib_defs)
  show ?thesis using R j dz by (intro cf_konf.trzyma[of _ l]) (auto simp: k pytaja_def)
qed

lemma krok_odblokowuje:
  assumes "ulozona p R" "ruch_r (check_fifo X) p None R R'"
    and R: "r_glowny R = Dziala (P_petla (int (length (r_lista R))))" "int (length (r_lista R)) = cf_procs X" "pytaja X p ks R"
  shows "cf_konf X p ks R'"
proof -
  have m: "r_mon R = mon1 X (Some (p, map ((!) (r_lista R)) ks))" using R(3) by (simp add: pytaja_def)
  have s: "stan_r None R = Dziala (P_petla (int (length (r_lista R))))" using R(1) by (simp add: stan_r_def)
  have c: "r_dzieci R j = f_czeka j" if "j \<in> set ks" for j using R(3) that by (auto simp: pytaja_def)
  show ?thesis
  proof (cases ks)
    case Nil
    then have z: "a_klient (zadanie (kto p None R) CS_UNLOCK (cf_mutex X) 0) (r_mon R) = ([(p, OK)], mon1 X None)"
      using mon1_zadania(3) by (simp add: m kto_def)
    note r = ruch_r_zadanie[OF assms(2) s _ assms(1) z]
    have k: "r_glowny R' = Dziala (P_dzieci (cf_procs X))" "r_lista R' = r_lista R" "r_stdout R' = r_stdout R" "r_mon R' = mon1 X None"
      using r(1,3-5) R(2) by (auto simp: lib_defs obudz_def status_def errno_defs EINTR_klienta_def)
    have dz: "r_dzieci R' i = r_dzieci R i" if "i < length (r_lista R)" for i
      using r(2)[OF _ that] R(2) ulozona_nth(2)[OF assms(1) that] by (auto simp: lib_defs)
    have "pisza X ks 0 R'" by (rule puszcza[OF R(3)]) (use R(3) Nil in \<open>auto simp: k dz pytaja_def\<close>)
    moreover have "zostalo R' = length (r_lista R)"
      by (subst zostalo_wszystkie) (use R(3) Nil in \<open>auto simp: k dz pytaja_def\<close>)
    ultimately show ?thesis using R(2) by (intro cf_konf.puszczony) (auto simp: rodzic_czeka_def k)
  next
    case (Cons x xs)
    then have z: "a_klient (zadanie (kto p None R) CS_UNLOCK (cf_mutex X) 0) (r_mon R) =
        ([(r_lista R ! x, OK), (p, OK)], mon1 X (Some (r_lista R ! x, map ((!) (r_lista R)) xs)))"
      using mon1_zadania(4) by (simp add: m kto_def)
    note r = ruch_r_zadanie[OF assms(2) s _ assms(1) z]
    have x: "x < length (r_lista R)" using pytaja_numery[OF R(3), of 0] Cons by simp
    have k: "r_glowny R' = Dziala (P_dzieci (cf_procs X))" "r_lista R' = r_lista R" "r_stdout R' = r_stdout R"
      "r_mon R' = mon1 X (Some (r_lista R ! x, map ((!) (r_lista R)) xs))"
      using r(1,3-5) R(2) ulozona_nth(1)[OF assms(1) x] by (auto simp: lib_defs obudz_def status_def errno_defs EINTR_klienta_def)
    have dz: "r_dzieci R' i = (if i = x then Dziala (Cf_pisz (int i)) else r_dzieci R i)" if "i < length (r_lista R)" for i
      using r(2)[OF _ that] R(2) ulozona_nth(2)[OF assms(1) that] ulozona_nth(3)[OF assms(1) x that] c[of x] Cons
      by (auto simp: lib_defs obudz_def f_czeka_def status_def errno_defs EINTR_klienta_def)
    have "pisza X ks 0 R'" by (rule puszcza[OF R(3)]) (use R(3) Cons in \<open>auto simp: k dz pytaja_def\<close>)
    moreover have "zostalo R' = length (r_lista R)"
      by (subst zostalo_wszystkie) (use R(3) in \<open>auto simp: k dz pytaja_def f_czeka_def\<close>)
    ultimately show ?thesis using R(2) by (intro cf_konf.puszczony) (auto simp: rodzic_czeka_def k)
  qed
qed

lemma krok_porzuca:
  assumes "ulozona p R" "ruch_r (check_fifo X) p None R R'" and R: "r_glowny R = Dziala Fail" "pytaja X p ks R"
  shows "cf_konf X p ks R'"
proof -
  have m: "r_mon R = mon1 X (Some (p, map ((!) (r_lista R)) ks))" using R(2) by (simp add: pytaja_def)
  have p: "p \<notin> set (map ((!) (r_lista R)) ks)" using R(2) ulozona_nth(2)[OF assms(1)] by (auto simp: pytaja_def)
  have c: "r_dzieci R j = f_czeka j" if "j \<in> set ks" for j using R(2) that by (auto simp: pytaja_def)
  have R': "R' = po_koncu p None 2 R" using assms(2) R(1) by (simp add: ruch_r_def stan_r_def)
  have n: "nastepca p (r_mon R) y \<longleftrightarrow> ks \<noteq> [] \<and> y = r_lista R ! hd ks" for y by (cases ks) (auto simp: m nastepca_mon1)
  have "pisza X ks 0 R'"
  proof (rule puszcza[OF R(2)])
    show "r_mon R' = mon1 X (case map ((!) (r_lista R)) ks of [] \<Rightarrow> None | x # xs \<Rightarrow> Some (x, xs))"
      using mon1_exit_sekcja[OF p] by (simp add: R' po_koncu_def kto_def m Let_def)
    show "r_dzieci R' j = (if ks \<noteq> [] \<and> j = hd ks then Dziala (Cf_pisz (int j)) else r_dzieci R j)" if "j < length (r_lista R)" for j
    proof -
      have "r_dzieci R' j = budzony p (r_mon R) (r_lista R ! j) (r_dzieci R j)" using that by (simp add: R' po_koncu_def kto_def ustaw_r_def Let_def)
      moreover have "nastepca p (r_mon R) (r_lista R ! j) \<longleftrightarrow> ks \<noteq> [] \<and> j = hd ks"
        using ulozona_nth(3)[OF assms(1) that, of "hd ks"] pytaja_numery[OF R(2), of 0] unfolding n by (cases ks) auto
      moreover have "obudz OK (f_czeka j) = Dziala (Cf_pisz (int j))" by (simp add: obudz_def f_czeka_def status_def errno_defs EINTR_klienta_def)
      ultimately show ?thesis using c[of j] by (auto simp: budzony_def)
    qed
  qed (use R(2) in \<open>auto simp: R' po_koncu_def ustaw_r_def pytaja_def Let_def\<close>)
  moreover have "r_glowny R' = Zombie 2" by (simp add: R' po_koncu_def budzony_def ustaw_r_def obudz_def Let_def)
  ultimately show ?thesis by (intro cf_konf.puszczony) (auto simp: rodzic_czeka_def)
qed

lemma krok_rodzica:
  assumes "ulozona p R" "ruch_r (check_fifo X) p None R R'"
    and R: "r_glowny R = Dziala l" "l \<in> {P_petla (int (length (r_lista R))), P_spij (int (length (r_lista R)) - 1), Fail}"
      "int (length (r_lista R)) \<le> cf_procs X" "pytaja X p ks R"
  shows "cf_konf X p ks R'"
proof -
  have m: "r_mon R = mon1 X (Some (p, map ((!) (r_lista R)) ks))" using R(4) by (simp add: pytaja_def)
  from R(2) consider "l = P_petla (int (length (r_lista R)))" "int (length (r_lista R)) < cf_procs X"
    | "l = P_petla (int (length (r_lista R)))" "int (length (r_lista R)) = cf_procs X"
    | "l = P_spij (int (length (r_lista R)) - 1)" | "l = Fail" using R(3) by fastforce
  then show ?thesis
  proof cases
    case 1
    with assms(2) R(1) consider
      q where "q \<notin> set (r_lista R)" "R' = R\<lparr>r_glowny := Dziala (P_spij (int (length (r_lista R)))), r_lista := r_lista R @ [q],
                   r_dzieci := (r_dzieci R)(length (r_lista R) := Dziala (Cf_lock (int (length (r_lista R)))))\<rparr>"
      | "R' = R\<lparr>r_glowny := Dziala Fail\<rparr>" by (fastforce simp: ruch_r_def stan_r_def)
    then show ?thesis
    proof cases
      case (1 q)
      have "map ((!) (r_lista R @ [q])) ks = map ((!) (r_lista R)) ks" using R(4) by (auto simp: pytaja_def nth_append)
      then have "r_mon R' = mon1 X (Some (p, map ((!) (r_lista R')) ks))" using 1 by (simp add: m del: map_eq_conv)
      with R(4) 1 have "pytaja X p ks R'" by (auto simp: pytaja_def less_Suc_eq)
      with 1 \<open>int (length (r_lista R)) < cf_procs X\<close> show ?thesis
        by (intro cf_konf.trzyma[of _ "P_spij (int (length (r_lista R)))"]) auto
    next
      case 2
      then show ?thesis using R by (intro cf_konf.trzyma[of _ Fail]) (auto simp: pytaja_def)
    qed
  next
    case 2
    with assms R krok_odblokowuje[OF assms(1,2) _ _ R(4)] show ?thesis by simp
  next
    case 3
    then show ?thesis using assms(2) R
      by (intro cf_konf.trzyma[of _ "P_petla (int (length (r_lista R)))"]) (auto simp: ruch_r_def stan_r_def ustaw_r_def pytaja_def)
  next
    case 4
    with R krok_porzuca[OF assms(1,2) _ R(4)] show ?thesis by simp
  qed
qed

text \<open>After that the children ask, write, release the mutex and end.\<close>

lemma rodzic_czeka_cong:
  assumes "rodzic_czeka X R" "r_glowny R' = r_glowny R" "r_lista R' = r_lista R"
    and "\<And>j. j < length (r_lista R) \<Longrightarrow> r_dzieci R' j = Nie_ma \<longleftrightarrow> r_dzieci R j = Nie_ma"
  shows "rodzic_czeka X R'"
  using assms zostalo_cong[of R' R] by (simp add: rodzic_czeka_def)

lemma krok_pyta_pozniej:
  assumes "ulozona p R" "ruch_r (check_fifo X) p (Some j) R R'" and R: "rodzic_czeka X R" "pisza X ks d R"
    and j: "j < length (r_lista R)" "j \<notin> set ks"
  shows "cf_konf X p (ks @ [j]) R'"
proof -
  have dj: "r_dzieci R j = Dziala (Cf_lock (int j))" using R(2) j by (simp add: pisza_def)
  have s: "stan_r (Some j) R = Dziala (Cf_lock (int j))" using j dj by (simp add: stan_r_def)
  show ?thesis
  proof (cases "d < length ks")
    case True
    then have n: "ks ! d < length (r_lista R)" "ks ! d \<noteq> j" using pisza_numery[OF R(2)] j(2) by auto
    have z: "a_klient (zadanie (kto p (Some j) R) CS_LOCK (cf_mutex X) 0) (r_mon R) =
        ([], mon1 X (Some (r_lista R ! (ks ! d), map ((!) (r_lista R)) (drop (Suc d) (ks @ [j])))))"
      using mon1_zadania(2)[of "r_lista R ! (ks ! d)" "r_lista R ! j"] n ulozona_nth(3)[OF assms(1) n(1) j(1)] R(2) True
      by (simp add: pisza_def kto_def)
    note r = ruch_r_zadanie[OF assms(2) s _ assms(1) z]
    have dz: "r_dzieci R' i = (if i = j then f_czeka j else r_dzieci R i)" if "i < length (r_lista R)" for i
      using r(2)[OF _ that] by (auto simp: lib_defs f_czeka_def)
    have k: "r_glowny R' = r_glowny R" "r_lista R' = r_lista R" "r_stdout R' = r_stdout R"
      "r_mon R' = mon1 X (Some (r_lista R ! (ks ! d), map ((!) (r_lista R)) (drop (Suc d) (ks @ [j]))))" using r(1,3-5) by (auto simp: lib_defs)
    have e: "r_dzieci R' (ks ! i) = r_dzieci R (ks ! i)" if "i < length ks" for i using dz[OF pisza_numery[OF R(2) that]] that j(2) nth_mem[OF that] by auto
    have "pisza X (ks @ [j]) d R'" using R(2) True j n dz by (auto simp: pisza_def k e nth_append less_Suc_eq)
    moreover have "rodzic_czeka X R'" by (rule rodzic_czeka_cong[OF R(1)]) (auto simp: k dz dj f_czeka_def)
    ultimately show ?thesis by (intro cf_konf.puszczony)
  next
    case False
    then have d: "d = length ks" using R(2) by (simp add: pisza_def)
    have z: "a_klient (zadanie (kto p (Some j) R) CS_LOCK (cf_mutex X) 0) (r_mon R) = ([(r_lista R ! j, OK)], mon1 X (Some (r_lista R ! j, [])))"
      using mon1_zadania(1) R(2) d by (simp add: pisza_def kto_def)
    note r = ruch_r_zadanie[OF assms(2) s _ assms(1) z]
    have dz: "r_dzieci R' i = (if i = j then Dziala (Cf_pisz (int j)) else r_dzieci R i)" if "i < length (r_lista R)" for i
      using r(2)[OF _ that] ulozona_nth(3)[OF assms(1) j(1) that] by (auto simp: lib_defs obudz_def status_def errno_defs EINTR_klienta_def)
    have k: "r_glowny R' = r_glowny R" "r_lista R' = r_lista R" "r_stdout R' = r_stdout R" "r_mon R' = mon1 X (Some (r_lista R ! j, []))"
      using r(1,3-5) ulozona_nth(1)[OF assms(1) j(1)] by (auto simp: lib_defs)
    have e: "r_dzieci R' (ks ! i) = r_dzieci R (ks ! i)" if "i < length ks" for i using dz[OF pisza_numery[OF R(2) that]] that j(2) nth_mem[OF that] by auto
    have "pisza X (ks @ [j]) d R'" using R(2) j dz by (auto simp: pisza_def k e nth_append d)
    moreover have "rodzic_czeka X R'" by (rule rodzic_czeka_cong[OF R(1)]) (auto simp: k dz dj)
    ultimately show ?thesis by (intro cf_konf.puszczony)
  qed
qed

lemma krok_fifo_oddaje:
  assumes "ulozona p R" "ruch_r (check_fifo X) p (Some (ks ! d)) R R'" and R: "rodzic_czeka X R" "pisza X ks d R" and d: "d < length ks"
    and 2: "r_dzieci R (ks ! d) = Dziala (Cf_unlock (int (ks ! d)))" "r_stdout R = linie_f (take (Suc d) ks)"
  shows "cf_konf X p ks R'"
proof -
  let ?j = "ks ! d"
  have j: "?j < length (r_lista R)" using pisza_numery[OF R(2) d] .
  have inne: "ks ! i = ?j \<longleftrightarrow> i = d" if "i < length ks" for i using R(2) that d by (simp add: pisza_def nth_eq_iff_index_eq)
  have s: "stan_r (Some ?j) R = Dziala (Cf_unlock (int ?j))" using j 2 by (simp add: stan_r_def)
  have m: "r_mon R = mon1 X (Some (r_lista R ! ?j, map ((!) (r_lista R)) (drop (Suc d) ks)))" using R(2) d by (simp add: pisza_def)
  show ?thesis
  proof (cases "Suc d < length ks")
    case False
    then have e: "Suc d = length ks" using d by simp
    then have z: "a_klient (zadanie (kto p (Some ?j) R) CS_UNLOCK (cf_mutex X) 0) (r_mon R) = ([(r_lista R ! ?j, OK)], mon1 X None)"
      using mon1_zadania(3) by (simp add: m kto_def)
    note r = ruch_r_zadanie[OF assms(2) s _ assms(1) z]
    have dz: "r_dzieci R' i = (if i = ?j then Dziala Cf_exit else r_dzieci R i)" if "i < length (r_lista R)" for i
      using r(2)[OF _ that] ulozona_nth(3)[OF assms(1) j that] by (auto simp: lib_defs obudz_def status_def errno_defs)
    have k: "r_glowny R' = r_glowny R" "r_lista R' = r_lista R" "r_stdout R' = r_stdout R" "r_mon R' = mon1 X None"
      using r(1,3-5) ulozona_nth(1)[OF assms(1) j] by (auto simp: lib_defs)
    have "rodzic_czeka X R'" by (rule rodzic_czeka_cong[OF R(1)]) (auto simp: k dz 2)
    moreover have "pisza X ks (Suc d) R'" using R(2) d inne e 2 dz[OF pisza_numery[OF R(2)]] by (auto simp: pisza_def k dz less_Suc_eq)
    ultimately show ?thesis by (intro cf_konf.puszczony)
  next
    case True
    let ?k = "ks ! Suc d"
    have e: "drop (Suc d) ks = ?k # drop (Suc (Suc d)) ks" using True by (simp add: Cons_nth_drop_Suc)
    have n: "?k < length (r_lista R)" "?k \<noteq> ?j" "r_dzieci R ?k = f_czeka ?k" using pisza_numery[OF R(2) True] inne[OF True] R(2) True by (auto simp: pisza_def)
    have z: "a_klient (zadanie (kto p (Some ?j) R) CS_UNLOCK (cf_mutex X) 0) (r_mon R) =
        ([(r_lista R ! ?k, OK), (r_lista R ! ?j, OK)], mon1 X (Some (r_lista R ! ?k, map ((!) (r_lista R)) (drop (Suc (Suc d)) ks))))"
      using mon1_zadania(4) by (simp add: m e kto_def)
    note r = ruch_r_zadanie[OF assms(2) s _ assms(1) z]
    have dz: "r_dzieci R' i = (if i = ?j then Dziala Cf_exit else if i = ?k then Dziala (Cf_pisz (int ?k)) else r_dzieci R i)"
      if "i < length (r_lista R)" for i
      using r(2)[OF _ that] ulozona_nth(3)[OF assms(1) j that] ulozona_nth(3)[OF assms(1) n(1) that] n(2,3)
      by (auto simp: lib_defs obudz_def f_czeka_def status_def errno_defs EINTR_klienta_def)
    have k: "r_glowny R' = r_glowny R" "r_lista R' = r_lista R" "r_stdout R' = r_stdout R"
      "r_mon R' = mon1 X (Some (r_lista R ! ?k, map ((!) (r_lista R)) (drop (Suc (Suc d)) ks)))"
      using r(1,3-5) ulozona_nth(1)[OF assms(1)] j n(1) by (auto simp: lib_defs)
    have "rodzic_czeka X R'" by (rule rodzic_czeka_cong[OF R(1)]) (auto simp: k dz 2 n(3) f_czeka_def)
    moreover have "pisza X ks (Suc d) R'"
      using R(2) d True inne nth_eq_iff_index_eq[of ks _ "Suc d"] 2 dz[OF pisza_numery[OF R(2)]] by (auto simp: pisza_def k dz less_Suc_eq)
    ultimately show ?thesis by (intro cf_konf.puszczony)
  qed
qed

lemma krok_w_sekcji:
  assumes "ulozona p R" "ruch_r (check_fifo X) p (Some (ks ! d)) R R'" and R: "rodzic_czeka X R" "pisza X ks d R" and d: "d < length ks"
  shows "cf_konf X p ks R'"
proof -
  let ?j = "ks ! d"
  have j: "?j < length (r_lista R)" using pisza_numery[OF R(2) d] .
  have inne: "ks ! i = ?j \<longleftrightarrow> i = d" if "i < length ks" for i using R(2) that d by (simp add: pisza_def nth_eq_iff_index_eq)
  consider "r_dzieci R ?j = Dziala (Cf_pisz (int ?j))" "r_stdout R = linie_f (take d ks)"
    | "r_dzieci R ?j = Dziala (Cf_unlock (int ?j))" "r_stdout R = linie_f (take (Suc d) ks)" using R(2) d by (auto simp: pisza_def)
  then show ?thesis
  proof cases
    case 1
    then have R': "R' = R\<lparr>r_dzieci := (r_dzieci R)(?j := Dziala (Cf_unlock (int ?j))), r_stdout := linie_f (take (Suc d) ks)\<rparr>"
      using assms(2) j d by (simp add: ruch_r_def stan_r_def ustaw_r_def linie_f_def take_Suc_conv_app_nth)
    have "rodzic_czeka X R'" by (rule rodzic_czeka_cong[OF R(1)]) (auto simp: R' 1)
    moreover have "pisza X ks d R'" using R(2) d inne by (auto simp: pisza_def R')
    ultimately show ?thesis by (intro cf_konf.puszczony)
  next
    case 2
    from krok_fifo_oddaje[OF assms 2] show ?thesis .
  qed
qed

lemma pisza_glowny: "pisza X ks d (R\<lparr>r_glowny := P\<rparr>) = pisza X ks d R"
  by (simp add: pisza_def)

lemma pisza_po_sekcji:
  assumes "pisza X ks d R" "a < d" "x \<in> {Zombie 0, Nie_ma}"
  shows "pisza X ks d (R\<lparr>r_dzieci := (r_dzieci R)(ks ! a := x)\<rparr>)"
proof -
  have a: "a < length ks" using assms by (simp add: pisza_def)
  have "ks ! k = ks ! a \<longleftrightarrow> k = a" if "k < length ks" for k using assms(1) that a by (simp add: pisza_def nth_eq_iff_index_eq)
  moreover have "(ks ! k = ks ! a) = (k = a)" if "k < d" for k using calculation[of k] that assms(1) by (simp add: pisza_def)
  ultimately show ?thesis using assms nth_mem[OF a] unfolding pisza_def by (simp split del: if_split) (auto split: if_splits)
qed

lemma krok_po_sekcji:
  assumes "ulozona p R" "ruch_r (check_fifo X) p (Some (ks ! i)) R R'" and R: "rodzic_czeka X R" "pisza X ks d R" and i: "i < d"
  shows "cf_konf X p ks R'"
proof -
  let ?j = "ks ! i"
  have l: "i < length ks" "?j < length (r_lista R)" using i R(2) pisza_numery[OF R(2), of i] by (auto simp: pisza_def)
  have D: "r_dzieci R ?j = Dziala Cf_exit" using assms(2) R(2) i l by (auto simp: ruch_r_def stan_r_def pisza_def)
  have q: "r_lista R ! ?j \<noteq> r_lista R ! (ks ! k)" if "i < k" "k < length ks" for k
    using ulozona_nth(3)[OF assms(1) l(2) pisza_numery[OF R(2) that(2)]] R(2) that by (simp add: pisza_def nth_eq_iff_index_eq)
  have q': "r_lista R ! ?j \<notin> set (map ((!) (r_lista R)) (drop (Suc d) ks))"
  proof
    assume "r_lista R ! ?j \<in> set (map ((!) (r_lista R)) (drop (Suc d) ks))"
    then obtain a where "a < length ks - Suc d" "r_lista R ! ?j = r_lista R ! (ks ! (Suc d + a))" by (auto simp: in_set_conv_nth)
    moreover from this(1) have "Suc d + a < length ks" by linarith
    ultimately show False using q[of "Suc d + a"] i by simp
  qed
  have m: "r_mon R = mon1 X (if d < length ks then Some (r_lista R ! (ks ! d), map ((!) (r_lista R)) (drop (Suc d) ks)) else None)"
    using R(2) by (simp add: pisza_def)
  have "a_exit (r_lista R ! ?j) (r_mon R) = r_mon R" unfolding m using q[OF i] q' by (intro mon1_exit) auto
  moreover have "\<not> nastepca (kto p (Some ?j) R) (r_mon R) x" for x unfolding m using q[OF i] by (auto simp: kto_def nastepca_mon1)
  ultimately have R': "R' = R\<lparr>r_dzieci := (r_dzieci R)(?j := Zombie 0)\<rparr>"
    using assms(2) l D by (simp add: ruch_r_def stan_r_def ustaw_r_def po_koncu_bez_nastepcy) (simp add: kto_def)
  have "rodzic_czeka X R'" by (rule rodzic_czeka_cong[OF R(1)]) (auto simp: R' D)
  moreover have "pisza X ks d R'" using pisza_po_sekcji[OF R(2) i] by (simp add: R')
  ultimately show ?thesis by (intro cf_konf.puszczony)
qed

lemma krok_fifo_zbiera:
  assumes "ruch_r (check_fifo X) p None R R'" and R: "rodzic_czeka X R" "pisza X ks d R"
  shows "cf_konf X p ks R'"
proof -
  have G: "r_glowny R = Dziala (P_dzieci (int (zostalo R)))" "int (length (r_lista R)) = cf_procs X"
    using assms(1) R(1) by (auto simp: rodzic_czeka_def ruch_r_def stan_r_def)
  show ?thesis
  proof (cases "zostalo R = 0")
    case True
    then have "\<not> d < length ks" using R(2) pisza_numery[OF R(2), of d] by (auto simp: pisza_def zostalo_0)
    then have "r_mon R = mon1 X None" using R(2) by (simp add: pisza_def)
    then have R': "R' = R\<lparr>r_glowny := Zombie 0\<rparr>"
      using assms(1) G(1) True mon1_exit[of None p X] by (simp add: ruch_r_def stan_r_def ustaw_r_def kto_def po_koncu_bez_nastepcy nastepca_mon1)
    then show ?thesis using R(2) G(2) True by (intro cf_konf.puszczony[where d = d]) (simp_all add: rodzic_czeka_def zostalo_def pisza_glowny)
  next
    case False
    then obtain k where k: "k < length (r_lista R)" "r_dzieci R k \<noteq> Nie_ma" by (auto simp: zostalo_0)
    from assms(1) G(1) False k obtain i z where i: "i < length (r_lista R)" "r_dzieci R i = Zombie z"
      and R': "R' = R\<lparr>r_glowny := Dziala (P_dzieci (int (zostalo R) - 1)), r_dzieci := (r_dzieci R)(i := Nie_ma)\<rparr>"
      by (fastforce simp: ruch_r_def stan_r_def)
    have "i \<in> set ks" using R(2) i by (auto simp: pisza_def)
    then obtain a where a: "a < length ks" "i = ks ! a" by (auto simp: in_set_conv_nth)
    have "a < d" using R(2) i(2) a by (cases a d rule: linorder_cases) (auto simp: pisza_def f_czeka_def)
    then have "pisza X ks d (R\<lparr>r_dzieci := (r_dzieci R)(i := Nie_ma), r_glowny := Dziala (P_dzieci (int (zostalo R) - 1))\<rparr>)"
      using pisza_po_sekcji[OF R(2), of a Nie_ma] by (simp only: pisza_glowny a(2) insertI1 insertI2)
    moreover have "R' = R\<lparr>r_dzieci := (r_dzieci R)(i := Nie_ma), r_glowny := Dziala (P_dzieci (int (zostalo R) - 1))\<rparr>" by (simp add: R')
    ultimately have "pisza X ks d R'" by simp
    moreover have "int (zostalo R) - 1 = int (zostalo R')" using zostalo_zebrane[OF i(1), of "r_glowny R'"] i(2) by (simp add: R' flip: of_nat_Suc)
    moreover have "r_glowny R' = Dziala (P_dzieci (int (zostalo R) - 1))" "r_lista R' = r_lista R" by (simp_all add: R')
    ultimately show ?thesis using G(2) by (intro cf_konf.puszczony[where d = d]) (simp_all only: rodzic_czeka_def simp_thms)
  qed
qed

lemma cf_konf_ruch:
  assumes "cf_konf X p ks R" "ulozona p R" "ruch_r (check_fifo X) p b R R'"
  shows "\<exists>zs. cf_konf X p (ks @ zs) R'"
  using assms(1)
proof cases
  case start
  with krok_fifo_start[OF assms(2,3)] show ?thesis by (intro exI[of _ "[]"]) simp
next
  case (trzyma l)
  show ?thesis
  proof (cases b)
    case None
    with krok_rodzica[OF assms(2) _ trzyma] assms(3) show ?thesis by (intro exI[of _ "[]"]) simp
  next
    case (Some j)
    with krok_pyta[OF assms(2) _ trzyma] assms(3) show ?thesis by blast
  qed
next
  case (puszczony d)
  show ?thesis
  proof (cases b)
    case None
    with krok_fifo_zbiera[OF _ puszczony] assms(3) show ?thesis by (intro exI[of _ "[]"]) simp
  next
    case (Some j)
    then have j: "j < length (r_lista R)" using assms(3) by (auto simp: ruch_r_def stan_r_def split: if_splits)
    show ?thesis
    proof (cases "j \<in> set ks")
      case False
      with krok_pyta_pozniej[OF assms(2) _ puszczony j] assms(3) Some show ?thesis by blast
    next
      case True
      then obtain i where i: "i < length ks" "j = ks ! i" by (auto simp: in_set_conv_nth)
      have "\<not> d < i" using assms(3) Some j i puszczony(2) by (auto simp: ruch_r_def stan_r_def pisza_def f_czeka_def)
      then consider "i < d" | "i = d" by linarith
      then have "cf_konf X p ks R'"
      proof cases
        case 1
        with krok_po_sekcji[OF assms(2) _ puszczony 1] assms(3) Some i(2) show ?thesis by simp
      next
        case 2
        with krok_w_sekcji[OF assms(2) _ puszczony] assms(3) Some i show ?thesis by simp
      qed
      then show ?thesis by (intro exI[of _ "[]"]) simp
    qed
  qed
qed

lemma check_fifo_rozwidl: "check_fifo X l = Rozwidl f \<Longrightarrow> \<exists>i. l = P_petla i"
  by (cases l) (auto simp: lib_defs split: if_splits)

lemma check_fifo_czekaj: "check_fifo X l = Czekaj_dziecka f \<Longrightarrow> \<exists>k. l = P_dzieci k"
  by (cases l) (auto simp: lib_defs split: if_splits)

lemma cf_konf_dzieci:
  assumes "cf_konf X p ks R" "i < length (r_lista R)" "r_dzieci R i = Dziala l"
  shows "l \<in> {Cf_lock (int i), Cf_pisz (int i), Cf_unlock (int i), Cf_exit}"
  using assms(1)
proof cases
  case (puszczony d)
  show ?thesis
  proof (cases "i \<in> set ks")
    case True
    then obtain a where "a < length ks" "i = ks ! a" by (auto simp: in_set_conv_nth)
    with puszczony(2) assms(3) show ?thesis by (cases a d rule: linorder_cases) (auto simp: pisza_def f_czeka_def)
  qed (use puszczony(2) assms(2,3) in \<open>auto simp: pisza_def\<close>)
qed (use assms(2,3) in \<open>auto simp: pytaja_def f_czeka_def split: if_splits\<close>)

lemma cf_konf_poprawna:
  assumes k: "cf_konf X p ks R"
  shows "poprawna_r (check_fifo X) R"
proof -
  have "r_dzieci R i \<noteq> Nie_ma" if "r_glowny R = Dziala l" "check_fifo X l = Rozwidl f" "i < length (r_lista R)" for l f i
  proof -
    from check_fifo_rozwidl[OF that(2)] obtain n where "l = P_petla n" by blast
    with k that show ?thesis by cases (auto simp: pytaja_def rodzic_czeka_def f_czeka_def)
  qed
  moreover have "check_fifo X l \<noteq> Rozwidl f \<and> check_fifo X l \<noteq> Czekaj_dziecka f" if "i < length (r_lista R)" "r_dzieci R i = Dziala l" for i l f
    using cf_konf_dzieci[OF k that] check_fifo_rozwidl[of X l] check_fifo_czekaj[of X l] by auto
  ultimately show ?thesis unfolding poprawna_r_def by blast
qed

interpretation cf: rodzina E "check_fifo X" "{cf_mutex X}" "{}" "\<lambda>p R. \<exists>ks. cf_konf X p ks R" P_start for E X
proof unfold_locales
  show "zadanie_w_zasobach {cf_mutex X} {} t n d" if "check_fifo X l = Zadanie t n d f" for l t n d f
    using that by (cases l) (auto simp: lib_defs zadanie_w_zasobach_def cs_defs split: if_splits)
  show "zwykla (check_fifo X l)" for l by (cases l) (simp_all add: lib_defs)
  show "\<exists>ks. cf_konf X p ks \<lparr>r_glowny = Dziala P_start, r_lista = [], r_dzieci = (\<lambda>_. Nie_ma), r_mon = monitor0, r_stdout = []\<rparr>" for p
    by (rule exI, rule cf_konf.start) (simp_all add: mon1_def monitor0_def fun_eq_iff)
  show "\<exists>ks. cf_konf X p ks R'" if "\<exists>ks. cf_konf X p ks R" "ulozona p R" "ruch_r (check_fifo X) p b R R'" for p b R R'
    using that cf_konf_ruch by blast
qed (auto simp: endpointy_def MAX_MUTEX_def intro: cf_konf_poprawna)

section \<open>What the test checks\<close>

text \<open>
  What a process is going to write in the critical section that it is in or waits for, and the output with what the owner of the mutex and the
  processes in its queue are going to write.
\<close>

fun zapowiedz :: "cf_lok proces_k \<Rightarrow> string" where
  "zapowiedz (Dziala (Cf_pisz n)) = cf_wiersz n"
| "zapowiedz (Zablokowany f) = (case f OK of Cf_pisz n \<Rightarrow> cf_wiersz n | _ \<Rightarrow> [])"
| "zapowiedz _ = []"

definition w_kolejce :: "(int \<times> int list) option \<Rightarrow> (int \<Rightarrow> cf_lok proces_k) \<Rightarrow> string" where
  "w_kolejce x S = (case x of None \<Rightarrow> [] | Some (w, qs) \<Rightarrow> concat (map (\<lambda>r. zapowiedz (S r)) (w # qs)))"

definition wyjscie_z_kolejka :: "cf_arg \<Rightarrow> cf_lok uklad \<Rightarrow> string" where
  "wyjscie_z_kolejka X u = stdout u @ w_kolejce (mut (abstr (serw u)) (cf_mutex X)) (stany u)"

text \<open>The states of the program when the process \<open>p\<close> runs its \<^verbatim>\<open>main\<close>.\<close>

definition check_fifo_stan :: "srodowisko \<Rightarrow> cf_arg \<Rightarrow> int \<Rightarrow> cf_lok uklad \<Rightarrow> bool" where
  "check_fifo_stan E X p =
     osiagalny (\<lambda>u. p \<in> endpointy E \<and> poczatek_ukladu E p P_start u) (krok_ukladu E (check_fifo X) (endpointy E) MAX_CZEKA)"

lemma zapowiedz_czeka: "zapowiedz (f_czeka j) = cf_wiersz (int j)"
  by (simp add: f_czeka_def status_def errno_defs EINTR_klienta_def)

definition wyjscie_r :: "cf_arg \<Rightarrow> int \<Rightarrow> cf_lok rodzina \<Rightarrow> string" where
  "wyjscie_r X p R = r_stdout R @ w_kolejce (mut (r_mon R) (cf_mutex X)) (tabela p R)"

lemma wyjscie_obrazu: "obraz_rodziny p R u \<Longrightarrow> wyjscie_z_kolejka X u = wyjscie_r X p R"
  by (simp add: obraz_rodziny_def wyjscie_z_kolejka_def wyjscie_r_def)

lemma cf_konf_wyjscie:
  assumes k: "cf_konf X p ks R" and ul: "ulozona p R"
  shows "wyjscie_r X p R = linie_f ks"
proof -
  note w = wyjscie_r_def[of X p R]
  have t: "tabela p R (r_lista R ! j) = r_dzieci R j" if "j < length (r_lista R)" for j
    using ulozona_nth(1)[OF ul that] ul that by (simp add: tabela_def ulozona_def numer_nth)
  from k show ?thesis
  proof cases
    case start
    then show ?thesis by (simp add: w mon1_mut w_kolejce_def linie_f_def)
  next
    case (trzyma l)
    then have "tabela p R p = Dziala l" by (simp add: tabela_def)
    moreover have "zapowiedz (tabela p R (r_lista R ! j)) = cf_wiersz (int j)" if "j \<in> set ks" for j
      using trzyma(4) that by (auto simp: t pytaja_def zapowiedz_czeka)
    ultimately show ?thesis using trzyma(2,4) by (auto simp: w pytaja_def mon1_mut w_kolejce_def linie_f_def comp_def cong: map_cong)
  next
    case (puszczony d)
    have z: "zapowiedz (tabela p R (r_lista R ! j)) = cf_wiersz (int j)" if "j \<in> set (drop (Suc d) ks)" for j
    proof -
      from that obtain a where "a < length ks - Suc d" "j = ks ! (Suc d + a)" by (auto simp: in_set_conv_nth)
      moreover from this(1) have "Suc d + a < length ks" by linarith
      ultimately show ?thesis using puszczony(2) pisza_numery[OF puszczony(2), of "Suc d + a"] by (simp add: t pisza_def zapowiedz_czeka)
    qed
    show ?thesis
    proof (cases "d < length ks")
      case False
      with puszczony(2) show ?thesis by (simp add: w pisza_def mon1_mut w_kolejce_def)
    next
      case True
      then have e: "linie_f ks = linie_f (take d ks) @ cf_wiersz (int (ks ! d)) @ linie_f (drop (Suc d) ks)"
        by (metis id_take_nth_drop linie_f_def concat.simps(2) concat_append list.simps(9) map_append)
      have o: "t' = linie_f (drop (Suc d) ks)" if "t' = concat (map (\<lambda>r. zapowiedz (tabela p R r)) (map ((!) (r_lista R)) (drop (Suc d) ks)))" for t'
        using z that by (auto simp: linie_f_def comp_def cong: map_cong)
      from True puszczony(2) consider "r_dzieci R (ks ! d) = Dziala (Cf_pisz (int (ks ! d)))" "r_stdout R = linie_f (take d ks)"
        | "r_dzieci R (ks ! d) = Dziala (Cf_unlock (int (ks ! d)))" "r_stdout R = linie_f (take (Suc d) ks)" by (auto simp: pisza_def)
      then show ?thesis
        using True puszczony(2) o[OF refl] e t[OF pisza_numery[OF puszczony(2) True]]
        by cases (simp_all add: w pisza_def mon1_mut w_kolejce_def linie_f_def take_Suc_conv_app_nth)
    qed
  qed
qed

lemma cf_konf_koniec:
  assumes "cf_konf X p ks R" "r_glowny R = Zombie 0"
  shows "r_stdout R = linie_f ks \<and> distinct ks \<and> set ks = {..<nat (cf_procs X)}"
  using assms(1)
proof cases
  case (puszczony d)
  then have z: "zostalo R = 0" "nat (cf_procs X) = length (r_lista R)" using assms(2) by (auto simp: rodzic_czeka_def)
  then have n: "r_dzieci R j = Nie_ma" if "j < length (r_lista R)" for j using that by (simp add: zostalo_0)
  have "\<not> d < length ks" using puszczony(2) n[OF pisza_numery[OF puszczony(2), of d]] by (auto simp: pisza_def)
  moreover have "j \<in> set ks" if "j < length (r_lista R)" for j using puszczony(2) n[OF that] that by (fastforce simp: pisza_def)
  ultimately show ?thesis using puszczony(2) z(2) by (auto simp: pisza_def)
qed (use assms(2) in auto)

lemma cf_konf_ruchoma:
  assumes "cf_konf X p ks R"
  shows "(\<exists>j. r_glowny R = Zombie j) \<or> ruchoma_r (check_fifo X) R"
proof -
  have V: "ruchoma_r (check_fifo X) R" if "r_glowny R = Dziala l" "\<forall>k. l \<noteq> P_dzieci k" for l
    using that check_fifo_czekaj[of X l] unfolding ruchoma_r_def by (intro disjI1 exI[of _ None]) (auto simp: stan_r_def)
  from assms show ?thesis
  proof cases
    case (puszczony d)
    show ?thesis
    proof (cases "\<exists>i < length (r_lista R). \<exists>l. r_dzieci R i = Dziala l")
      case True
      then obtain i l where i: "i < length (r_lista R)" "r_dzieci R i = Dziala l" by blast
      with cf_konf_dzieci[OF assms i] check_fifo_czekaj[of X l] show ?thesis
        unfolding ruchoma_r_def by (intro disjI2 disjI1 exI[of _ "Some i"]) (auto simp: stan_r_def)
    next
      case False
      have ks: "set ks \<subseteq> {..<length (r_lista R)}" "\<forall>j < length (r_lista R). j \<in> set ks" "d = length ks"
        using puszczony(2) False pisza_numery[OF puszczony(2), of d] by (auto simp: pisza_def split: if_splits)
      then have z: "r_dzieci R j \<in> {Zombie 0, Nie_ma}" if "j < length (r_lista R)" for j
        using puszczony(2) False that unfolding pisza_def by (metis (no_types, opaque_lifting) in_set_conv_nth insert_iff)
      show ?thesis
      proof (cases "zostalo R = 0")
        case True
        with puszczony(1) show ?thesis unfolding ruchoma_r_def rodzic_czeka_def
          by (elim disjE conjE) (auto simp: stan_r_def intro!: exI[of _ None])
      next
        case z0: False
        then obtain i where "i < length (r_lista R)" "r_dzieci R i \<noteq> Nie_ma" by (auto simp: zostalo_0)
        with z[of i] have "i < length (r_lista R)" "r_dzieci R i = Zombie 0" by auto
        with puszczony(1) z0 show ?thesis unfolding ruchoma_r_def rodzic_czeka_def by auto
      qed
    qed
  qed (use V in auto)
qed

text \<open>
  C24. The test program \<^verbatim>\<open>check_fifo\<close>, for any number of processes: the mutex is handed on in the order in which the processes ask for
  it. From any state of a run on, the output with the lines of those who have the mutex or wait for it in its queue is only ever
  extended at its end, so a process that asked later writes later. When \<^verbatim>\<open>main\<close> has ended with status zero this is all of
  the output, one line for every process; until it has ended some process can take a step.
\<close>

theorem check_fifo_kolejka:
  assumes "check_fifo_stan E X p u" and "(krok_ukladu E (check_fifo X) (endpointy E) MAX_CZEKA)\<^sup>*\<^sup>* u u'"
  shows "(\<exists>y. wyjscie_z_kolejka X u' = wyjscie_z_kolejka X u @ y) \<and>
    (stany u' p = Zombie 0 \<longrightarrow> stdout u' = wyjscie_z_kolejka X u' \<and>
       (\<exists>ks. distinct ks \<and> set ks = {..<nat (cf_procs X)} \<and> stdout u' = linie_f ks)) \<and>
    ((\<exists>j. stany u' p = Zombie j) \<or> (\<exists>v. krok_ukladu E (check_fifo X) (endpointy E) MAX_CZEKA u' v))"
proof -
  let ?S = "\<lambda>u. p \<in> endpointy E \<and> poczatek_ukladu E p P_start u" and ?K = "krok_ukladu E (check_fifo X) (endpointy E) MAX_CZEKA"
  have s: "osiagalny ?S ?K u" using assms(1) by (simp add: check_fifo_stan_def)
  from assms(2) s have s': "osiagalny ?S ?K u'" by (induction rule: rtranclp_induct) (auto intro: osiagalny.dalej)
  from s' obtain R ks where R: "cf_konf X p ks R" "obraz_rodziny p R u'" and r: "ruchoma_r (check_fifo X) R \<Longrightarrow> \<exists>v. ?K u' v"
    by (rule cf.osiagalna_rodzina) blast
  have "stany u' p = r_glowny R" "stdout u' = r_stdout R" using R(2) by (simp_all add: obraz_rodziny_def tabela_def)
  moreover have "\<exists>y. wyjscie_z_kolejka X u' = wyjscie_z_kolejka X u @ y"
  proof (rule cf.rosnie_w_rodzinie[OF _ s assms(2), where g = "wyjscie_r X p"])
    fix b R R' assume k: "\<exists>ks. cf_konf X p ks R" "ulozona p R" "ruch_r (check_fifo X) p b R R'" "ulozona p R'"
    then obtain ks zs where ks: "cf_konf X p ks R" "cf_konf X p (ks @ zs) R'" using cf_konf_ruch by blast
    show "\<exists>y. wyjscie_r X p R' = wyjscie_r X p R @ y"
      using cf_konf_wyjscie[OF ks(1) k(2)] cf_konf_wyjscie[OF ks(2) k(4)] by (simp add: linie_f_def)
  qed (rule wyjscie_obrazu)
  ultimately show ?thesis using cf_konf_koniec[OF R(1)] cf_konf_ruchoma[OF R(1)] cf_konf_wyjscie[OF R(1)] wyjscie_obrazu[OF R(2)] r R(2)
    by (auto simp: obraz_rodziny_def)
qed

definition cf_plan :: "wybor list" where
  "cf_plan = [Idz 10, Idz 10, Nowy 10 20, Idz 10, Nowy 10 30, Idz 30, Idz 20, Idz 10, Idz 10, Idz 30, Idz 30, Idz 20, Idz 20, Idz 20,
     Zbierz 10 20, Idz 30, Zbierz 10 30, Idz 10]"

definition cf_dane :: cf_arg where
  "cf_dane = \<lparr>cf_argc = 2, cf_procs = 2, cf_mutex = 73\<rparr>"

lemma check_fifo_przebieg: "\<exists>u. check_fifo_stan srod0 cf_dane 10 u \<and> stany u 10 = Zombie 0"
  unfolding check_fifo_stan_def
proof (rule cf.plan_konczy[where X = cf_dane and ms = "[73]" and ws = cf_plan])
  show "case wykonaj_plan (check_fifo cf_dane) [73] MAX_CZEKA cf_plan (przebieg0 10 P_start) of None \<Rightarrow> False | Some s \<Rightarrow> zakonczony 0 (p_stany s 10)"
    by code_simp
qed (auto simp: endpointy0 MAX_CZEKA_def dzieci_planu_def cf_plan_def cf_dane_def)

theorem check_fifo_kolejka_przyklad:
  "\<exists>u. check_fifo_stan srod0 cf_dane 10 u \<and> stany u 10 = Zombie 0 \<and> stdout u = wyjscie_z_kolejka cf_dane u \<and>
     (\<exists>ks. distinct ks \<and> set ks = {0, 1} \<and> stdout u = linie_f ks)"
proof -
  obtain u where u: "check_fifo_stan srod0 cf_dane 10 u" "stany u 10 = Zombie 0" using check_fifo_przebieg by blast
  have "{..<nat (cf_procs cf_dane)} = {0, 1}" by (auto simp: cf_dane_def)
  with check_fifo_kolejka[OF u(1) rtranclp.rtrancl_refl] u show ?thesis by (intro exI[of _ u]) auto
qed

end
