(* ===== verification/Sprawiedliwosc.thy ===== *)
theory Sprawiedliwosc
  imports Wlasnosci
begin

text \<open>
  Waiting for a mutex is bounded: a process in the queue of a mutex is overtaken by nobody, and every hand-over of
  the mutex brings it one place forward.
\<close>

section \<open>One message\<close>

text \<open>The processes that get the mutex before \<open>p\<close>: the owner is not among them.\<close>

definition przed :: "int \<Rightarrow> int list \<Rightarrow> int list" where
  "przed p q = takeWhile (\<lambda>r. r \<noteq> p) q"

text \<open>What a message does to a mutex whose queue holds \<open>p\<close>, unless it removes \<open>p\<close>.\<close>

definition usuwa :: "int \<Rightarrow> message \<Rightarrow> bool" where
  "usuwa p m \<longleftrightarrow> (m_type m = CS_EINTR \<or> m_type m = CS_EXIT) \<and> PM_PROC m = p"

inductive zmiana :: "int \<Rightarrow> int \<times> int list \<Rightarrow> int \<times> int list \<Rightarrow> bool" for p where
  dopisanie: "zmiana p (w, q) (w, q @ xs)"
| przekazanie: "zmiana p (w, r # q) (r, q)"
| ubytek: "r \<noteq> p \<Longrightarrow> zmiana p (w, q) (w, remove1 r q)"

inductive_cases zmianaE: "zmiana p (w, q) st"

lemma zmiana_bez: "zmiana p st st"
  by (cases st) (use dopisanie[of p _ _ "[]"] in simp)

lemma a_unlock_zmiana:
  assumes "mut \<sigma> n = Some (w, q)" "q \<noteq> []"
  shows "\<exists>st. mut (snd (snd (a_unlock r k \<sigma>))) n = Some st \<and> zmiana p (w, q) st"
proof (cases rule: a_unlock_przypadki[of r k \<sigma>])
  case (nastepny x xs)
  then show ?thesis using assms zmiana_bez przekazanie by (cases "k = n") auto
qed (use assms zmiana_bez in auto)

lemma a_krok_zmiana:
  assumes P: "prot \<sigma>" and n: "mut \<sigma> n = Some (w, q)" "p \<in> set q" and m: "\<not> usuwa p m"
  shows "\<exists>st. mut (a_krok m \<sigma>) n = Some st \<and> zmiana p (w, q) st"
proof -
  let ?r = "m_source m" and ?k = "m1_i1 m" and ?c = "m1_i2 m"
  have q: "q \<noteq> []" using n(2) by auto
  have bez: "\<exists>st. Some (w, q) = Some st \<and> zmiana p (w, q) st" using zmiana_bez by blast
  consider "m_type m < 1 \<or> m_type m > 6" | "m_type m = CS_LOCK" | "m_type m = CS_UNLOCK" | "m_type m = CS_WAIT"
    | "m_type m = CS_BROADCAST" | "m_type m = CS_EINTR" "PM_PROC m \<noteq> p" | "m_type m = CS_EXIT" "PM_PROC m \<noteq> p"
    using m unfolding usuwa_def cs_defs by linarith
  then show ?thesis
  proof cases
    case 1
    with n bez show ?thesis by (simp add: a_krok_def)
  next
    case 2
    have "\<exists>st. mut (snd (a_lock ?r ?k \<sigma>)) n = Some st \<and> zmiana p (w, q) st"
      using n bez dopisanie[of p w q "[?r]"] by (auto simp: a_lock_def split: option.split)
    with 2 show ?thesis by (simp add: a_krok_def krok_monitora cs_defs)
  next
    case 3
    with a_unlock_zmiana[OF n(1) q, of ?r ?k p] show ?thesis
      by (simp add: a_krok_def krok_monitora cs_defs)
  next
    case 4
    with a_unlock_zmiana[OF n(1) q, of ?r ?k p] n bez show ?thesis
      by (simp add: a_krok_def krok_monitora a_wait_def cs_defs)
  next
    case 5
    with a_broadcast_mut(1)[OF P, of ?c n] n dopisanie show ?thesis
      by (simp add: a_krok_def krok_monitora cs_defs ustaw_w_kolejce_def)
  next
    case 6
    with n ubytek show ?thesis by (simp add: a_krok_def a_eintr_def cs_defs)
  next
    case 7
    show ?thesis
    proof (cases "w = PM_PROC m")
      case True
      then obtain x xs where x: "q = x # xs" "PM_PROC m \<notin> set xs" using q protD(2)[OF P n(1)] by (cases q) auto
      with 7 True n przekazanie show ?thesis by (simp add: a_krok_def a_exit_def przekaz_def cs_defs remove1_idem)
    next
      case False
      with 7 n ubytek show ?thesis by (simp add: a_krok_def a_exit_def przekaz_def cs_defs)
    qed
  qed
qed

text \<open>After the change \<open>p\<close> owns the mutex, or fewer or the same processes are before it, and fewer when the owner changed.\<close>

lemma zmiana_przed:
  assumes "zmiana p (w, q) (w', q')" "p \<in> set q"
  shows "w' = p \<or> p \<in> set q' \<and> length (przed p q') \<le> length (przed p q) \<and> (w' \<noteq> w \<longrightarrow> length (przed p q') < length (przed p q))"
  using assms(1)
proof (cases rule: zmiana.cases)
  case (dopisanie xs)
  with assms(2) show ?thesis by (auto simp: przed_def takeWhile_append1)
next
  case (przekazanie)
  with assms(2) show ?thesis by (auto simp: przed_def)
next
  case (ubytek r)
  have "length (przed p (remove1 r q)) \<le> length (przed p q)"
    unfolding przed_def using \<open>r \<noteq> p\<close> by (induction q) auto
  with ubytek assms(2) show ?thesis by auto
qed

section \<open>A run\<close>

text \<open>How often a mutex changes its owner in a run.\<close>

fun przekazania :: "int \<Rightarrow> message option list \<Rightarrow> monitor \<Rightarrow> nat" where
  "przekazania n [] \<sigma> = 0"
| "przekazania n (None # rs) \<sigma> = przekazania n rs \<sigma>"
| "przekazania n (Some m # rs) \<sigma> =
     (if map_option fst (mut (a_krok m \<sigma>) n) \<noteq> map_option fst (mut \<sigma> n) then 1 else 0) + przekazania n rs (a_krok m \<sigma>)"

lemma czekanie_monitora:
  assumes "prot \<sigma>" "ciag_ok G rs \<sigma>" "mut \<sigma> n = Some (w, q)" "p \<in> set q" "\<forall>m. Some m \<in> set rs \<longrightarrow> \<not> usuwa p m"
    and "length (przed p q) < przekazania n rs \<sigma>"
  shows "\<exists>rs1 rs2. rs = rs1 @ rs2 \<and> ma_mutex p n (a_petla rs1 \<sigma>) \<and> przekazania n rs1 \<sigma> \<le> Suc (length (przed p q))"
  using assms
proof (induction rs arbitrary: \<sigma> w q)
  case (Cons r rs)
  show ?case
  proof (cases r)
    case None
    with Cons.IH[OF Cons.prems(1) _ Cons.prems(3,4)] Cons.prems(2,5,6) obtain rs1 rs2 where
      "rs = rs1 @ rs2" "ma_mutex p n (a_petla rs1 \<sigma>)" "przekazania n rs1 \<sigma> \<le> Suc (length (przed p q))" by auto
    with None show ?thesis by (intro exI[of _ "None # rs1"] exI[of _ rs2]) simp
  next
    case (Some m)
    let ?\<sigma> = "a_krok m \<sigma>"
    obtain w' q' where st: "mut ?\<sigma> n = Some (w', q')" "zmiana p (w, q) (w', q')"
      using a_krok_zmiana[OF Cons.prems(1,3,4), of m] Cons.prems(5) Some by fastforce
    have P: "prot ?\<sigma>" using a_krok_prot[OF Cons.prems(1), of m] Cons.prems(2) Some by simp
    show ?thesis
    proof (cases "w' = p")
      case True
      then have "ma_mutex p n (a_petla [Some m] \<sigma>)" using st(1) by (simp add: ma_mutex_def)
      with Some show ?thesis by (intro exI[of _ "[Some m]"] exI[of _ rs]) simp
    next
      case False
      with zmiana_przed[OF st(2) Cons.prems(4)] have z: "p \<in> set q'"
        "length (przed p q') + (if w' \<noteq> w then 1 else 0) \<le> length (przed p q)" by auto
      have "length (przed p q') < przekazania n rs ?\<sigma>" using z(2) Cons.prems(3,6) Some st(1) by (auto split: if_splits)
      with Cons.IH[OF P _ st(1) z(1)] Cons.prems(2,5) Some obtain rs1 rs2 where
        "rs = rs1 @ rs2" "ma_mutex p n (a_petla rs1 ?\<sigma>)" "przekazania n rs1 ?\<sigma> \<le> Suc (length (przed p q'))" by auto
      with Some z(2) st(1) Cons.prems(3) show ?thesis by (intro exI[of _ "Some m # rs1"] exI[of _ rs2]) auto
    qed
  qed
qed simp

lemma ciag_ok_append: "ciag_ok G (rs1 @ rs2) \<sigma> \<Longrightarrow> ciag_ok G rs1 \<sigma>"
  by (induction G rs1 \<sigma> rule: ciag_ok.induct) auto

text \<open>
  C10. Waiting is bounded: take a process in the queue of a mutex, and a run of the server in which the process
  manager reports neither a signal nor the exit of that process. If the mutex changes its owner more often than
  there are processes before it in the queue, the process becomes the owner during the run, after at most one more
  change than there were processes before it.
\<close>

theorem ograniczone_czekanie:
  assumes "stan_serwera E s" "ciag_ok (set (straznicy s)) rs (abstr s)"
    and "mut (abstr s) n = Some (w, q)" "p \<in> set q" "\<forall>m. Some m \<in> set rs \<longrightarrow> \<not> usuwa p m"
    and "length (przed p q) < przekazania n rs (abstr s)"
  shows "\<exists>rs1 rs2 s1. rs = rs1 @ rs2 \<and> main_petla E rs1 s = Some s1 \<and> stan_serwera E s1 \<and>
    ma_mutex p n (abstr s1) \<and> przekazania n rs1 (abstr s) \<le> Suc (length (przed p q))"
proof -
  have "prot (abstr s)" using stan_serwera_zdrowy[OF assms(1)] by simp
  from czekanie_monitora[OF this assms(2-6)] obtain rs1 rs2 where r: "rs = rs1 @ rs2"
    "ma_mutex p n (a_petla rs1 (abstr s))" "przekazania n rs1 (abstr s) \<le> Suc (length (przed p q))" by blast
  with assms(2) have "ciag_ok (set (straznicy s)) rs1 (abstr s)" using ciag_ok_append by blast
  with main_petla_zgodne[OF assms(1)] r show ?thesis by metis
qed

text \<open>The process 30 is behind 20 in the queue of the mutex 5: the unlocks of 10 and of 20 make it the owner.\<close>

definition dwa_unlocki :: "message option list" where
  "dwa_unlocki = [Some (zadanie 10 CS_UNLOCK 5 0), Some (zadanie 20 CS_UNLOCK 5 0)]"

lemma ciag_dwa_unlocki: "ciag_ok {0} dwa_unlocki monitor1" "przekazania 5 dwa_unlocki monitor1 = 2"
  by (auto simp: dwa_unlocki_def zadanie_defs a_defs monitor1_def cs_defs errno_defs dopuszczalny_def
      zadanie_klienta_def czeka_def miejsca_def miesci_sie_def MAX_MUTEX_def MAX_CV_def MAX_CZEKA_def)

theorem ograniczone_czekanie_przyklad:
  "\<exists>s rs1 s1. stan_serwera srod0 s \<and> abstr s = monitor1 \<and> main_petla srod0 rs1 s = Some s1 \<and> ma_mutex 30 5 (abstr s1) \<and>
     przekazania 5 rs1 monitor1 \<le> 2"
proof -
  obtain s where s: "stan_serwera srod0 s" "abstr s = monitor1" "set (straznicy s) = {0}" by (rule przyklad)
  have "\<forall>m. Some m \<in> set dwa_unlocki \<longrightarrow> \<not> usuwa 30 m"
    by (auto simp: dwa_unlocki_def usuwa_def cs_defs)
  with ograniczone_czekanie[OF s(1), of dwa_unlocki 5 10 "[20, 30]" 30] s ciag_dwa_unlocki show ?thesis
    by (fastforce simp: przed_def)
qed

end
