(* ===== verification/Pm_Stan.thy ===== *)
theory Pm_Stan
  imports Komunikaty "HOL-Library.Word"
begin

text \<open>
  The process manager, part one: its process table and global variables, the calls it makes
  to the kernel and the other servers, and the parts of MINIX that are not among the sources.

  A pointer into the table \<^verbatim>\<open>mproc\<close> is an index. The bits of \<^verbatim>\<open>mp_flags\<close> and of the signal sets are
  elements of sets. A \<^verbatim>\<open>panic\<close> and an access outside the table are the outcome \<^term>\<open>None\<close>. Every call
  that leaves the process manager is appended to a log, and the answers come from a
  function of the environment that sees the log; constants of the MINIX headers and the
  functions of the files of the process manager that are not among the sources are fields
  of the environment. A line printed is logged with its format and its numeric arguments.
\<close>

section \<open>The process table\<close>

datatype flaga =
  IN_USE | WAITING | ZOMBIE | PAUSED | ALARM_ON | EXITING | TOLD_PARENT | STOPPED | SIGSUSPENDED | REPLY
  | VFS_CALL | PM_SIG_PENDING | UNPAUSED | TRACE_EXIT | TRACE_ZOMBIE | DELAY_CALL | TAINTED | PRIV_PROC

record sigaction =
  sa_handler :: int
  sa_mask :: "int set"
  sa_flags :: int

record odpowiedz =
  reply_res :: int
  reply_res2 :: int
  reply_mask :: "int set"
  reply_trace :: int

record mproc =
  mp_pid :: int
  mp_procgrp :: int
  mp_endpoint :: int
  mp_name :: string
  mp_flags :: "flaga set"
  mp_parent :: int
  mp_tracer :: int
  mp_trace_flags :: int
  mp_sigtrace :: "int set"
  mp_scheduler :: int
  mp_nice :: int
  mp_child_utime :: int
  mp_child_stime :: int
  mp_exitstatus :: int
  mp_sigstatus :: int
  mp_interval :: "int list"
  mp_wpid :: int
  mp_realuid :: int
  mp_effuid :: int
  mp_realgid :: int
  mp_effgid :: int
  mp_ignore :: "int set"
  mp_catch :: "int set"
  mp_sigmask :: "int set"
  mp_sigmask2 :: "int set"
  mp_sigpending :: "int set"
  mp_ksigpending :: "int set"
  mp_sigact :: "int \<Rightarrow> sigaction"
  mp_sigreturn :: int
  mp_reply :: odpowiedz
  mp_timer :: int
  mp_magic :: int

text \<open>The requests that the process manager receives and those it sends; a field that the code leaves unset is \<^term>\<open>None\<close>.\<close>

record pm_message = message +
  status :: int
  pid :: int
  sig_nr :: int
  sig_osa :: int
  sig_nsa :: int
  sig_ret :: int
  sig_how :: int
  sig_set :: "int set"
  sig_context :: int
  PM_STATUS :: int
  PM_PC :: int
  PM_NEWSP :: int
  PM_TRACED_PROC :: int
  NOTIFY_TIMESTAMP :: int

record wyjsciowa =
  w_type :: int
  w_PM_PROC :: int
  w_PM_PPROC :: "int option"
  w_PM_CPID :: "int option"
  w_PM_REUID :: "int option"
  w_PM_REGID :: "int option"
  w_PM_TRACED_PROC :: "int option"
  w_PM_TERM_SIG :: "int option"
  w_PM_PATH :: "string option"

definition pusta_wyjsciowa :: "int \<Rightarrow> int \<Rightarrow> wyjsciowa" where
  "pusta_wyjsciowa t p = \<lparr>w_type = t, w_PM_PROC = p, w_PM_PPROC = None, w_PM_CPID = None, w_PM_REUID = None,
     w_PM_REGID = None, w_PM_TRACED_PROC = None, w_PM_TERM_SIG = None, w_PM_PATH = None\<rparr>"

record sigmsg =
  sm_mask :: "int set"
  sm_signo :: int
  sm_sighandler :: int
  sm_sigreturn :: int

datatype wolanie =
    Asynsend3 int wyjsciowa
  | Sys_times int
  | Sys_stop int
  | Sys_delay_stop int
  | Sys_resume int
  | Sys_clear int
  | Sys_kill int int
  | Sys_sigsend int sigmsg
  | Sys_sigreturn int int
  | Sys_stacktrace int
  | Sys_datacopy int int int int
  | Sys_abort
  | Vm_fork int int
  | Vm_willexit int
  | Vm_exit int
  | Vm_notify_sig int int
  | Sched_stop int int
  | Sendnb int odpowiedz
  | Powiadom_sygnal int int
  | Sys_getmonparams
  | Sys_getkinfo
  | Sys_getimage
  | Send_init int int int
  | Sendrec_init int
  | Sched_init
  | Drukuj string "int list"

record pm =
  mproc :: "mproc list"
  procs_in_use :: int
  next_pid :: int
  next_child :: nat
  next_child_srv :: nat
  mp :: nat
  who_p :: int
  who_e :: int
  call_nr :: int
  m_in :: pm_message
  core_sset :: "int set"
  ign_sset :: "int set"
  noign_sset :: "int set"
  log :: "wolanie list"
  calls_stats :: "int \<Rightarrow> 32 word"
  uts_machine :: string
  system_hz :: int

section \<open>The environment\<close>

text \<open>
  The functions \<open>uid_t\<close>, \<open>gid_t\<close> and \<open>clock_t\<close> convert a value to the type of that name, whose width and sign the
  headers outside the sources fix.
\<close>

record pm_env =
  NR_PROCS :: nat
  NR_TASKS :: int
  NR_PIDS :: int
  NR_ITIMERS :: nat
  NSIG :: int
  INIT_PID :: int
  INIT_PROC_NR :: int
  PM_PROC_NR :: int
  VFS_PROC_NR :: int
  RS_PROC_NR :: int
  VM_PROC_NR :: int
  SCHED_PROC_NR :: int
  CLOCK :: int
  NO_TRACER :: int
  NONE :: int
  KERNEL :: int
  SUPER_USER :: int
  TO_TRACEFORK :: int
  WNOHANG :: int
  DUMPED :: int
  SIG_DFL :: int
  SIG_IGN :: int
  SA_NODEFER :: int
  SA_RESETHAND :: int
  SIG_BLOCK :: int
  SIG_UNBLOCK :: int
  SIG_SETMASK :: int
  SIG_INQUIRE :: int
  SIGHUP :: int
  SIGINT :: int
  SIGQUIT :: int
  SIGKILL :: int
  SIGTERM :: int
  SIGSTOP :: int
  SIGCHLD :: int
  SIGWINCH :: int
  SIGVTALRM :: int
  SIGPROF :: int
  SIGSNDELAY :: int
  SIGS_SIGNAL_RECEIVED :: int
  SIGS_IS_LETHAL :: "int \<Rightarrow> bool"
  SIGS_IS_STACKTRACE :: "int \<Rightarrow> bool"
  SIGS_IS_TERMINATION :: "int \<Rightarrow> bool"
  PM_EXIT :: int
  PM_DUMPCORE :: int
  PM_UNPAUSE :: int
  PM_FORK :: int
  PM_SRV_FORK :: int
  WAIT :: int
  SUSPEND :: int
  EAGAIN :: int
  ENOSYS :: int
  ECHILD :: int
  ESRCH :: int
  EBUSY :: int
  EFAULT :: int
  ENOMEM :: int
  EDEADEPT :: int
  PRIO_MIN :: int
  PRIO_MAX :: int
  MAX_USER_Q :: int
  MIN_USER_Q :: int
  USER_Q :: int
  ENDPOINT_P :: "int \<Rightarrow> int"
  uid_t :: "int \<Rightarrow> int"
  gid_t :: "int \<Rightarrow> int"
  clock_t :: "int \<Rightarrow> int"
  odp :: "wolanie list \<Rightarrow> wolanie \<Rightarrow> int"
  czasy :: "wolanie list \<Rightarrow> int \<Rightarrow> int \<times> int"
  child_ep :: "wolanie list \<Rightarrow> int"
  odczytane :: "wolanie list \<Rightarrow> int \<Rightarrow> sigaction"

text \<open>Functions of the process manager whose files are not among the sources.\<close>

record pm_obce =
  set_alarm :: "nat \<Rightarrow> int \<Rightarrow> pm \<Rightarrow> pm option"
  stop_proc :: "nat \<Rightarrow> int \<Rightarrow> pm \<Rightarrow> pm option"
  check_vtimer :: "int \<Rightarrow> int \<Rightarrow> pm \<Rightarrow> pm option"
  exec_restart :: "nat \<Rightarrow> int \<Rightarrow> int \<Rightarrow> int \<Rightarrow> pm \<Rightarrow> pm option"
  sched_start_user :: "int \<Rightarrow> nat \<Rightarrow> pm \<Rightarrow> (int \<times> pm) option"

section \<open>Access\<close>

text \<open>The record of a slot, a field of it, and a change of it.\<close>

definition zmien :: "nat \<Rightarrow> (mproc \<Rightarrow> mproc) \<Rightarrow> pm \<Rightarrow> pm" where
  "zmien i f s = s\<lparr>mproc := (mproc s)[i := f (mproc s ! i)]\<rparr>"

definition flaga_jest :: "nat \<Rightarrow> flaga \<Rightarrow> pm \<Rightarrow> bool" where
  "flaga_jest i F s \<longleftrightarrow> F \<in> mp_flags (mproc s ! i)"

definition flagi_dodaj :: "nat \<Rightarrow> flaga set \<Rightarrow> pm \<Rightarrow> pm" where
  "flagi_dodaj i F s = zmien i (\<lambda>p. p\<lparr>mp_flags := mp_flags p \<union> F\<rparr>) s"

definition flagi_zdejmij :: "nat \<Rightarrow> flaga set \<Rightarrow> pm \<Rightarrow> pm" where
  "flagi_zdejmij i F s = zmien i (\<lambda>p. p\<lparr>mp_flags := mp_flags p - F\<rparr>) s"

definition w_tablicy :: "int \<Rightarrow> pm \<Rightarrow> nat option" where
  "w_tablicy k s = (if 0 \<le> k \<and> k < int (length (mproc s)) then Some (nat k) else None)"

definition wolaj :: "pm_env \<Rightarrow> wolanie \<Rightarrow> pm \<Rightarrow> int \<times> pm" where
  "wolaj E c s = (odp E (log s) c, s\<lparr>log := log s @ [c]\<rparr>)"

text \<open>A call whose failure is a panic.\<close>

definition wolaj_ok :: "pm_env \<Rightarrow> wolanie \<Rightarrow> pm \<Rightarrow> pm option" where
  "wolaj_ok E c s = (let (r, s) = wolaj E c s in if r \<noteq> OK then None else Some s)"

definition drukuj :: "string \<Rightarrow> int list \<Rightarrow> pm \<Rightarrow> pm" where
  "drukuj t xs s = s\<lparr>log := log s @ [Drukuj t xs]\<rparr>"

text \<open>The conversion to a signed \<^verbatim>\<open>char\<close>.\<close>

definition na_char :: "int \<Rightarrow> int" where
  "na_char x = (x + 128) mod 256 - 128"

end
