(* ===== verification/Pm_Utility.thy ===== *)
theory Pm_Utility
  imports Pm_Stan
begin

text \<open>
  The process manager, part two: \<^verbatim>\<open>servers/pm/utility.c\<close>, and \<^verbatim>\<open>setreply\<close>, \<^verbatim>\<open>sendreply\<close> and
  \<^verbatim>\<open>get_nice_value\<close> of \<^verbatim>\<open>main.c\<close>, \<^verbatim>\<open>vm_notify_sig_wrapper\<close> of \<^verbatim>\<open>signal.c\<close>.
\<close>

section \<open>Operations\<close>

text \<open>
  \<^verbatim>\<open>get_free_pid\<close>: the \<^verbatim>\<open>do ... while\<close> loop; \<open>zajety\<close> is its inner loop over the table. A loop that
  never finds a free number has no result.
\<close>

definition zajety :: "int \<Rightarrow> pm \<Rightarrow> bool" where
  "zajety p s \<longleftrightarrow> list_ex (\<lambda>r. mp_pid r = p \<or> mp_procgrp r = p) (mproc s)"

definition nastepny_pid :: "pm_env \<Rightarrow> int \<Rightarrow> int" where
  "nastepny_pid E p = (if p < NR_PIDS E then p + 1 else INIT_PID E + 1)"

partial_function (option) get_free_pid :: "pm_env \<Rightarrow> pm \<Rightarrow> (int \<times> pm) option" where
  "get_free_pid E s =
     (let s = s\<lparr>next_pid := nastepny_pid E (next_pid s)\<rparr> in
      if zajety (next_pid s) s then get_free_pid E s else Some (next_pid s, s))"

definition no_sys :: "pm_env \<Rightarrow> int" where
  "no_sys E = ENOSYS E"

text \<open>
  \<^verbatim>\<open>find_param\<close> walks through the block \<^verbatim>\<open>monitor_params\<close>: parameters ended by zero characters, the last of them
  followed by one more. A pointer into the block is the rest of it. The outer \<^term>\<open>None\<close> is a read outside the
  block, the inner one the result \<^verbatim>\<open>NULL\<close>. \<open>przedrostek\<close> is the comparison loop, with the rests of both strings.
\<close>

definition NUL :: char where "NUL = CHR 0x00"

fun przedrostek :: "string \<Rightarrow> string \<Rightarrow> string \<times> string" where
  "przedrostek (n # ns) (e # es) = (if n = e then przedrostek ns es else (n # ns, e # es))"
| "przedrostek ns es = (ns, es)"

lemma przedrostek_dlugosc: "length (snd (przedrostek ns es)) \<le> length es"
  by (induction ns es rule: przedrostek.induct) (auto simp: le_SucI)

lemma reszta_krotsza:
  assumes "przedrostek name envp = (ns, es)" "dropWhile P es = d # r"
  shows "length r < length envp"
proof -
  have "length (d # r) \<le> length es" using assms(2) by (metis length_dropWhile_le)
  also have "\<dots> \<le> length envp" using przedrostek_dlugosc[of name envp] assms(1) by simp
  finally show ?thesis by simp
qed

function find_param :: "string \<Rightarrow> string \<Rightarrow> string option option" where
  "find_param name envp =
     (case envp of
        [] \<Rightarrow> None
      | c # _ \<Rightarrow>
          if c = NUL then Some None
          else let (namep, envp') = przedrostek name envp in
            case envp' of
              [] \<Rightarrow> None
            | e # es \<Rightarrow>
                if namep = [] \<and> e = CHR ''='' then Some (Some es)
                else case dropWhile (\<lambda>c. c \<noteq> NUL) envp' of [] \<Rightarrow> None | _ # reszta \<Rightarrow> find_param name reszta)"
  by pat_completeness auto
termination
proof (relation "measure (\<lambda>(name, envp). length envp)", goal_cases)
  case (2 name envp c cs x ns es e es' d r)
  have "przedrostek name envp = (ns, es)" using 2 by simp
  from reszta_krotsza[OF this] 2 show ?case by simp
qed simp

declare find_param.simps [simp del]

definition find_proc :: "int \<Rightarrow> pm \<Rightarrow> nat option" where
  "find_proc lpid s =
     (let i = FOR_szukaj 0 (length (mproc s)) (\<lambda>i. flaga_jest i IN_USE s \<and> mp_pid (mproc s ! i) = lpid)
      in if i < length (mproc s) then Some i else None)"

text \<open>The division of C truncates toward zero.\<close>

definition dziel :: "int \<Rightarrow> int \<Rightarrow> int" where
  "dziel a b = sgn a * sgn b * (\<bar>a\<bar> div \<bar>b\<bar>)"

definition nice_to_priority :: "pm_env \<Rightarrow> int \<Rightarrow> int \<times> int option" where
  "nice_to_priority E nice =
     (if nice < PRIO_MIN E \<or> nice > PRIO_MAX E then (EINVAL, None)
      else
        let q = MAX_USER_Q E + dziel ((nice - PRIO_MIN E) * (MIN_USER_Q E - MAX_USER_Q E + 1))
                  (PRIO_MAX E - PRIO_MIN E + 1);
            q = (if q < MAX_USER_Q E then MAX_USER_Q E else q);
            q = (if q > MIN_USER_Q E then MIN_USER_Q E else q)
        in (OK, Some q))"

definition pm_isokendpt :: "pm_env \<Rightarrow> int \<Rightarrow> pm \<Rightarrow> int \<times> int" where
  "pm_isokendpt E endpoint s =
     (let p = ENDPOINT_P E endpoint in
      (if p < - NR_TASKS E \<or> p \<ge> int (NR_PROCS E) then EINVAL
       else if p \<ge> 0 \<and> endpoint \<noteq> mp_endpoint (mproc s ! nat p) then EDEADEPT E
       else if p \<ge> 0 \<and> \<not> flaga_jest (nat p) IN_USE s then EDEADEPT E
       else OK, p))"

definition tell_vfs :: "pm_env \<Rightarrow> nat \<Rightarrow> wyjsciowa \<Rightarrow> pm \<Rightarrow> pm option" where
  "tell_vfs E rmp m s =
     (if flaga_jest rmp VFS_CALL s then None
      else do {
        s \<leftarrow> wolaj_ok E (Asynsend3 (VFS_PROC_NR E) m) s;
        Some (flagi_dodaj rmp {VFS_CALL} s)
      })"

text \<open>\<^verbatim>\<open>tell_cv\<close> overwrites its parameter \<^verbatim>\<open>rmp\<close> with the search for the server, so it is not an argument here.\<close>

definition tell_cv :: "pm_env \<Rightarrow> wyjsciowa \<Rightarrow> int \<Rightarrow> pm \<Rightarrow> pm option" where
  "tell_cv E m signal s =
     (let i = FOR_szukaj 0 (length (mproc s)) (\<lambda>i. flaga_jest i IN_USE s \<and> mp_name (mproc s ! i) = ''cv'') in
      if i < length (mproc s)
      then wolaj_ok E (Asynsend3 (mp_endpoint (mproc s ! i)) (m\<lparr>w_type := signal\<rparr>)) s
      else Some s)"

definition vm_notify_sig_wrapper :: "pm_env \<Rightarrow> int \<Rightarrow> pm \<Rightarrow> pm" where
  "vm_notify_sig_wrapper E ep s =
     (let i = FOR_szukaj 0 (length (mproc s)) (\<lambda>i. flaga_jest i IN_USE s \<and> mp_name (mproc s ! i) = ''ipc'') in
      if i < length (mproc s) then snd (wolaj E (Vm_notify_sig ep (mp_endpoint (mproc s ! i))) s) else s)"

definition setreply :: "int \<Rightarrow> int \<Rightarrow> pm \<Rightarrow> pm option" where
  "setreply proc_nr result s = do {
     i \<leftarrow> w_tablicy proc_nr s;
     Some (flagi_dodaj i {REPLY} (zmien i (\<lambda>p. p\<lparr>mp_reply := (mp_reply p)\<lparr>reply_res := result\<rparr>\<rparr>) s))
   }"

text \<open>One round of the loop of \<^verbatim>\<open>sendreply\<close>, and the loop.\<close>

definition sendreply_slot :: "pm_env \<Rightarrow> nat \<Rightarrow> pm \<Rightarrow> pm option" where
  "sendreply_slot E i s =
     (if flaga_jest i REPLY s \<and> flaga_jest i IN_USE s \<and> \<not> flaga_jest i EXITING s then
        let (r, s) = wolaj E (Sendnb (mp_endpoint (mproc s ! i)) (mp_reply (mproc s ! i))) s;
            s = (if r \<noteq> OK then drukuj ''PM can't reply to %d (%s): %d'' [mp_endpoint (mproc s ! i), r] s else s)
        in Some (flagi_zdejmij i {REPLY} s)
      else Some s)"

definition sendreply :: "pm_env \<Rightarrow> pm \<Rightarrow> pm option" where
  "sendreply E s = FOR 0 (length (mproc s)) (sendreply_slot E) s"

definition get_nice_value :: "pm_env \<Rightarrow> int \<Rightarrow> int" where
  "get_nice_value E queue =
     (let nice_val = dziel ((queue - USER_Q E) * (PRIO_MAX E - PRIO_MIN E + 1)) (MIN_USER_Q E - MAX_USER_Q E + 1);
          nice_val = (if nice_val > PRIO_MAX E then PRIO_MAX E else nice_val);
          nice_val = (if nice_val < PRIO_MIN E then PRIO_MIN E else nice_val)
      in nice_val)"

end
