(* ===== verification/Pm_Signal.thy ===== *)
theory Pm_Signal
  imports Pm_Utility
begin

text \<open>
  The process manager, part three: \<^verbatim>\<open>servers/pm/signal.c\<close>. Sending a signal may end a process, and
  the end of a process may send signals: \<^verbatim>\<open>sig_proc\<close> and \<^verbatim>\<open>exit_proc\<close> of \<^verbatim>\<open>forkexit.c\<close> call each
  other. Here the callee is an argument (\<open>exit_proc\<close> of \<open>sig_proc_tresc\<close>, \<open>sig_proc\<close> of \<open>check_sig\<close> and
  \<open>check_pending\<close>); the theory \<open>Pm_Rekurencja\<close> ties the knot.
\<close>

unbundle bit_operations_syntax

section \<open>Interrupting a process\<close>

definition flagi_zadna :: "nat \<Rightarrow> flaga set \<Rightarrow> pm \<Rightarrow> bool" where
  "flagi_zadna i F s \<longleftrightarrow> mp_flags (mproc s ! i) \<inter> F = {}"

definition zywy :: "nat \<Rightarrow> pm \<Rightarrow> bool" where
  "zywy i s \<longleftrightarrow> flaga_jest i IN_USE s \<and> \<not> flaga_jest i EXITING s"

definition unpause :: "pm_env \<Rightarrow> nat \<Rightarrow> pm \<Rightarrow> pm option" where
  "unpause E rmp s =
     (if flaga_jest rmp DELAY_CALL s then Some s
      else if \<not> flagi_zadna rmp {PAUSED, WAITING, SIGSUSPENDED} s then do {
        s \<leftarrow> wolaj_ok E (Sys_stop (mp_endpoint (mproc s ! rmp))) s;
        Some (flagi_dodaj rmp {UNPAUSED} s)
      }
      else do {
        (dalej, s) \<leftarrow>
          (if \<not> flaga_jest rmp PM_SIG_PENDING s then
             let (r, s) = wolaj E (Sys_delay_stop (mp_endpoint (mproc s ! rmp))) s in
             if r = EBUSY E then Some (False, flagi_dodaj rmp {DELAY_CALL} s)
             else if r \<noteq> OK then None
             else Some (True, flagi_dodaj rmp {PM_SIG_PENDING} s)
           else Some (True, s));
        if dalej then do {
          let m = pusta_wyjsciowa (PM_UNPAUSE E) (mp_endpoint (mproc s ! rmp));
          s \<leftarrow> tell_vfs E rmp m s;
          s \<leftarrow> tell_cv E m 5 s;
          Some (vm_notify_sig_wrapper E (mp_endpoint (mproc s ! rmp)) s)
        }
        else Some s
      })"

text \<open>\<^verbatim>\<open>sig_send\<close>: the changes to the slot before the call of the kernel, then the call.\<close>

definition ustaw_obsluge :: "pm_env \<Rightarrow> int \<Rightarrow> mproc \<Rightarrow> mproc" where
  "ustaw_obsluge E signo p =
     (let a = mp_sigact p signo;
          p = p\<lparr>mp_sigmask := mp_sigmask p \<union> sa_mask a\<rparr>;
          p = (if sa_flags a AND SA_NODEFER E \<noteq> 0
               then p\<lparr>mp_sigmask := mp_sigmask p - {signo}\<rparr>
               else p\<lparr>mp_sigmask := insert signo (mp_sigmask p)\<rparr>);
          p = (if sa_flags a AND SA_RESETHAND E \<noteq> 0
               then p\<lparr>mp_catch := mp_catch p - {signo},
                      mp_sigact := (mp_sigact p)(signo := (mp_sigact p signo)\<lparr>sa_handler := SIG_DFL E\<rparr>)\<rparr>
               else p)
      in p\<lparr>mp_sigpending := mp_sigpending p - {signo}, mp_ksigpending := mp_ksigpending p - {signo}\<rparr>)"

definition sig_send :: "pm_env \<Rightarrow> nat \<Rightarrow> int \<Rightarrow> pm \<Rightarrow> (bool \<times> pm) option" where
  "sig_send E rmp signo s =
     (if \<not> flaga_jest rmp UNPAUSED s then None
      else
        let p = mproc s ! rmp;
            sm = \<lparr>sm_mask = (if flaga_jest rmp SIGSUSPENDED s then mp_sigmask2 p else mp_sigmask p),
                  sm_signo = signo, sm_sighandler = sa_handler (mp_sigact p signo), sm_sigreturn = mp_sigreturn p\<rparr>;
            s = zmien rmp (ustaw_obsluge E signo) s;
            (r, s) = wolaj E (Sys_sigsend (mp_endpoint (mproc s ! rmp)) sm) s
        in if r = EFAULT E \<or> r = ENOMEM E then Some (False, s)
           else if r \<noteq> OK then None
           else do {
             s \<leftarrow> (if \<not> flagi_zadna rmp {PAUSED, WAITING, SIGSUSPENDED} s
                  then setreply (int rmp) EINTR (flagi_zdejmij rmp {PAUSED, WAITING, SIGSUSPENDED} s)
                  else Some s);
             s \<leftarrow> (if flaga_jest rmp UNPAUSED s \<and> \<not> flaga_jest rmp PM_SIG_PENDING s
                  then wolaj_ok E (Sys_resume (mp_endpoint (mproc s ! rmp))) (flagi_zdejmij rmp {UNPAUSED} s)
                  else Some s);
             Some (True, s)
           })"

section \<open>Sending a signal\<close>

definition sig_proc_exit ::
  "pm_env \<Rightarrow> (nat \<Rightarrow> int \<Rightarrow> bool \<Rightarrow> pm \<Rightarrow> pm option) \<Rightarrow> nat \<Rightarrow> int \<Rightarrow> pm \<Rightarrow> pm option" where
  "sig_proc_exit E exit_proc rmp signo s =
     (let s = zmien rmp (\<lambda>p. p\<lparr>mp_sigstatus := na_char signo\<rparr>) s in
      if signo \<in> core_sset s then
        let s = (if \<not> flaga_jest rmp PRIV_PROC s
                 then snd (wolaj E (Sys_stacktrace (mp_endpoint (mproc s ! rmp)))
                   (drukuj ''PM: coredump signal %d for %d / %s'' [signo, mp_pid (mproc s ! rmp)] s))
                 else s)
        in exit_proc rmp 0 True s
      else exit_proc rmp 0 False s)"

text \<open>The signal is kept for later.\<close>

definition odloz :: "nat \<Rightarrow> int \<Rightarrow> bool \<Rightarrow> pm \<Rightarrow> pm" where
  "odloz rmp signo ksig s = zmien rmp (\<lambda>p. p\<lparr>mp_sigpending := insert signo (mp_sigpending p),
     mp_ksigpending := (if ksig then insert signo (mp_ksigpending p) else mp_ksigpending p)\<rparr>) s"

definition sig_proc_tresc ::
  "pm_env \<Rightarrow> pm_obce \<Rightarrow> (nat \<Rightarrow> int \<Rightarrow> bool \<Rightarrow> pm \<Rightarrow> pm option) \<Rightarrow>
   nat \<Rightarrow> int \<Rightarrow> bool \<Rightarrow> bool \<Rightarrow> pm \<Rightarrow> pm option" where
  "sig_proc_tresc E B exit_proc rmp signo trace ksig s =
     (let p = mproc s ! rmp in
      if \<not> zywy rmp s then None
      else if trace \<and> mp_tracer p \<noteq> NO_TRACER E \<and> signo \<noteq> SIGKILL E then
        let s = zmien rmp (\<lambda>p. p\<lparr>mp_sigtrace := insert signo (mp_sigtrace p)\<rparr>) s
        in if \<not> flaga_jest rmp STOPPED s then stop_proc B rmp signo s else Some s
      else if flaga_jest rmp VFS_CALL s then
        let s = odloz rmp signo ksig s in
        if \<not> flaga_jest rmp PM_SIG_PENDING s then do {
          s \<leftarrow> wolaj_ok E (Sys_stop (mp_endpoint p)) s;
          Some (flagi_dodaj rmp {PM_SIG_PENDING} s)
        }
        else Some s
      else if flaga_jest rmp PRIV_PROC s then
        (if mp_endpoint p = PM_PROC_NR E then Some s
         else if \<not> ksig then Some (snd (wolaj E (Sys_kill (mp_endpoint p) signo) s))
         else
           let s = (if SIGS_IS_STACKTRACE E signo then snd (wolaj E (Sys_stacktrace (mp_endpoint p)) s) else s) in
           if \<not> SIGS_IS_TERMINATION E signo
           then Some (s\<lparr>log := log s @ [Powiadom_sygnal (mp_endpoint p) signo]\<rparr>)
           else sig_proc_exit E exit_proc rmp signo s)
      else
        let badignore = (ksig \<and> signo \<in> noign_sset s \<and> (signo \<in> mp_ignore p \<or> signo \<in> mp_sigmask p)) in
        if \<not> badignore \<and> signo \<in> mp_ignore p then Some s
        else if \<not> badignore \<and> signo \<in> mp_sigmask p then Some (odloz rmp signo ksig s)
        else if flaga_jest rmp STOPPED s \<and> signo \<noteq> SIGKILL E then Some (odloz rmp signo ksig s)
        else if \<not> badignore \<and> signo \<in> mp_catch p then do {
          s \<leftarrow> (if \<not> flaga_jest rmp UNPAUSED s then unpause E rmp s else Some s);
          if \<not> flaga_jest rmp UNPAUSED s then Some (odloz rmp signo ksig s)
          else do {
            (ok, s) \<leftarrow> sig_send E rmp signo s;
            if ok then Some s
            else sig_proc_exit E exit_proc rmp signo
              (drukuj ''PM: %d can't catch signal %d - killing'' [mp_pid (mproc s ! rmp), signo] s)
          }
        }
        else if \<not> badignore \<and> signo \<in> ign_sset s then Some s
        else sig_proc_exit E exit_proc rmp signo s)"

section \<open>Choosing the processes\<close>

text \<open>The conditions of \<^verbatim>\<open>check_sig\<close> on a slot: selected by the argument, and permitted for the caller.\<close>

definition wybrany :: "pm_env \<Rightarrow> int \<Rightarrow> int \<Rightarrow> nat \<Rightarrow> pm \<Rightarrow> bool" where
  "wybrany E proc_id signo i s =
     (let r = mproc s ! i in
      flaga_jest i IN_USE s \<and>
      \<not> (proc_id > 0 \<and> proc_id \<noteq> mp_pid r) \<and>
      \<not> (proc_id = 0 \<and> mp_procgrp (mproc s ! mp s) \<noteq> mp_procgrp r) \<and>
      \<not> (proc_id = - 1 \<and> mp_pid r \<le> INIT_PID E) \<and>
      \<not> (proc_id < - 1 \<and> mp_procgrp r \<noteq> - proc_id) \<and>
      \<not> (proc_id = - 1 \<and> signo = SIGKILL E \<and> flaga_jest i PRIV_PROC s) \<and>
      mp_endpoint r \<noteq> VM_PROC_NR E)"

definition uprawniony :: "pm_env \<Rightarrow> nat \<Rightarrow> pm \<Rightarrow> bool" where
  "uprawniony E i s =
     (let c = mproc s ! mp s; r = mproc s ! i in
      mp_effuid c = SUPER_USER E \<or> mp_realuid c = mp_realuid r \<or> mp_effuid c = mp_realuid r \<or>
      mp_realuid c = mp_effuid r \<or> mp_effuid c = mp_effuid r)"

fun check_sig_petla ::
  "pm_env \<Rightarrow> (nat \<Rightarrow> int \<Rightarrow> bool \<Rightarrow> bool \<Rightarrow> pm \<Rightarrow> pm option) \<Rightarrow> int \<Rightarrow> int \<Rightarrow> bool \<Rightarrow>
   nat \<Rightarrow> int \<Rightarrow> int \<Rightarrow> pm \<Rightarrow> (int \<times> int \<times> pm) option" where
  "check_sig_petla E sig_proc proc_id signo ksig 0 count error_code s = Some (count, error_code, s)"
| "check_sig_petla E sig_proc proc_id signo ksig (Suc i) count error_code s =
     (if \<not> wybrany E proc_id signo i s then check_sig_petla E sig_proc proc_id signo ksig i count error_code s
      else if \<not> ksig \<and> SIGS_IS_LETHAL E signo \<and> flaga_jest i PRIV_PROC s
        then check_sig_petla E sig_proc proc_id signo ksig i count EPERM s
      else if \<not> uprawniony E i s then check_sig_petla E sig_proc proc_id signo ksig i count EPERM s
      else if signo = 0 \<or> flaga_jest i EXITING s
        then check_sig_petla E sig_proc proc_id signo ksig i (count + 1) error_code s
      else do {
        s \<leftarrow> sig_proc i signo True ksig s;
        if proc_id > 0 then Some (count + 1, error_code, s)
        else check_sig_petla E sig_proc proc_id signo ksig i (count + 1) error_code s
      })"

definition check_sig ::
  "pm_env \<Rightarrow> (nat \<Rightarrow> int \<Rightarrow> bool \<Rightarrow> bool \<Rightarrow> pm \<Rightarrow> pm option) \<Rightarrow> int \<Rightarrow> int \<Rightarrow> bool \<Rightarrow> pm \<Rightarrow> (int \<times> pm) option" where
  "check_sig E sig_proc proc_id signo ksig s =
     (if signo < 0 \<or> signo \<ge> NSIG E then Some (EINVAL, s)
      else if proc_id = INIT_PID E \<and> signo = SIGKILL E then Some (EINVAL, s)
      else do {
        let s = (if proc_id = - 1 \<and> signo = SIGTERM E then snd (wolaj E (Sys_kill (RS_PROC_NR E) signo) s) else s);
        (count, error_code, s) \<leftarrow> check_sig_petla E sig_proc proc_id signo ksig (length (mproc s)) 0 (ESRCH E) s;
        Some (if \<not> zywy (mp s) s then SUSPEND E else if count > 0 then OK else error_code, s)
      })"

section \<open>Pending signals\<close>

text \<open>The loop of \<^verbatim>\<open>check_pending\<close> over the signal numbers.\<close>

fun check_pending_petla ::
  "(nat \<Rightarrow> int \<Rightarrow> bool \<Rightarrow> bool \<Rightarrow> pm \<Rightarrow> pm option) \<Rightarrow> nat \<Rightarrow> int list \<Rightarrow> pm \<Rightarrow> pm option" where
  "check_pending_petla sig_proc rmp [] s = Some s"
| "check_pending_petla sig_proc rmp (i # is) s =
     (let p = mproc s ! rmp in
      if i \<in> mp_sigpending p \<and> i \<notin> mp_sigmask p then do {
        let ksig = (i \<in> mp_ksigpending p);
        s \<leftarrow> sig_proc rmp i False ksig (zmien rmp (\<lambda>p. p\<lparr>mp_sigpending := mp_sigpending p - {i},
               mp_ksigpending := mp_ksigpending p - {i}\<rparr>) s);
        if flaga_jest rmp VFS_CALL s then Some s else check_pending_petla sig_proc rmp is s
      }
      else check_pending_petla sig_proc rmp is s)"

definition check_pending ::
  "pm_env \<Rightarrow> (nat \<Rightarrow> int \<Rightarrow> bool \<Rightarrow> bool \<Rightarrow> pm \<Rightarrow> pm option) \<Rightarrow> nat \<Rightarrow> pm \<Rightarrow> pm option" where
  "check_pending E sig_proc rmp s = check_pending_petla sig_proc rmp [1..NSIG E - 1] s"

definition restart_sigs ::
  "pm_env \<Rightarrow> (nat \<Rightarrow> int \<Rightarrow> bool \<Rightarrow> bool \<Rightarrow> pm \<Rightarrow> pm option) \<Rightarrow>
   (nat \<Rightarrow> int \<Rightarrow> bool \<Rightarrow> pm \<Rightarrow> pm option) \<Rightarrow> nat \<Rightarrow> pm \<Rightarrow> pm option" where
  "restart_sigs E sig_proc exit_proc rmp s =
     (if flaga_jest rmp VFS_CALL s \<or> flaga_jest rmp EXITING s then Some s
      else if flaga_jest rmp TRACE_EXIT s then exit_proc rmp (mp_exitstatus (mproc s ! rmp)) False s
      else if flaga_jest rmp PM_SIG_PENDING s then do {
        s \<leftarrow> check_pending E sig_proc rmp s;
        if \<not> flaga_jest rmp VFS_CALL s
        then wolaj_ok E (Sys_resume (mp_endpoint (mproc s ! rmp))) (flagi_zdejmij rmp {PM_SIG_PENDING, UNPAUSED} s)
        else Some s
      }
      else Some s)"

section \<open>System calls\<close>

definition do_sigaction :: "pm_env \<Rightarrow> pm \<Rightarrow> int \<times> pm" where
  "do_sigaction E s =
     (let m = m_in s; n = sig_nr m; c = mp s in
      if n = SIGKILL E then (OK, s)
      else if n < 1 \<or> n \<ge> NSIG E then (EINVAL, s)
      else
        let (r, s) = (if sig_osa m \<noteq> 0 then wolaj E (Sys_datacopy (PM_PROC_NR E) n (who_e s) (sig_osa m)) s else (OK, s)) in
        if r \<noteq> OK then (r, s)
        else if sig_nsa m = 0 then (OK, s)
        else
          let (r, s) = wolaj E (Sys_datacopy (who_e s) (sig_nsa m) (PM_PROC_NR E) 0) s in
          if r \<noteq> OK then (r, s)
          else
            let svec = odczytane E (log s) (sig_nsa m);
                s = zmien c (\<lambda>p.
                  if sa_handler svec = SIG_IGN E
                  then p\<lparr>mp_ignore := insert n (mp_ignore p), mp_sigpending := mp_sigpending p - {n},
                         mp_ksigpending := mp_ksigpending p - {n}, mp_catch := mp_catch p - {n}\<rparr>
                  else if sa_handler svec = SIG_DFL E
                  then p\<lparr>mp_ignore := mp_ignore p - {n}, mp_catch := mp_catch p - {n}\<rparr>
                  else p\<lparr>mp_ignore := mp_ignore p - {n}, mp_catch := insert n (mp_catch p)\<rparr>) s;
                s = zmien c (\<lambda>p. p\<lparr>mp_sigact := (mp_sigact p)(n :=
                  \<lparr>sa_handler = sa_handler svec, sa_mask = sa_mask svec - {SIGKILL E, SIGSTOP E}, sa_flags = sa_flags svec\<rparr>),
                  mp_sigreturn := sig_ret m\<rparr>) s
            in (OK, s))"

definition do_sigpending :: "pm \<Rightarrow> int \<times> pm" where
  "do_sigpending s = (OK, zmien (mp s) (\<lambda>p. p\<lparr>mp_reply := (mp_reply p)\<lparr>reply_mask := mp_sigpending p\<rparr>\<rparr>) s)"

definition do_sigprocmask ::
  "pm_env \<Rightarrow> (nat \<Rightarrow> int \<Rightarrow> bool \<Rightarrow> bool \<Rightarrow> pm \<Rightarrow> pm option) \<Rightarrow> pm \<Rightarrow> (int \<times> pm) option" where
  "do_sigprocmask E sig_proc s =
     (let m = m_in s; c = mp s; zbior = {i \<in> sig_set m. 1 \<le> i \<and> i < NSIG E};
          s = zmien c (\<lambda>p. p\<lparr>mp_reply := (mp_reply p)\<lparr>reply_mask := mp_sigmask p\<rparr>\<rparr>) s in
      if sig_how m = SIG_BLOCK E then
        Some (OK, zmien c (\<lambda>p. p\<lparr>mp_sigmask := mp_sigmask p \<union> (zbior - {SIGKILL E, SIGSTOP E})\<rparr>) s)
      else if sig_how m = SIG_UNBLOCK E then do {
        s \<leftarrow> check_pending E sig_proc c (zmien c (\<lambda>p. p\<lparr>mp_sigmask := mp_sigmask p - zbior\<rparr>) s);
        Some (OK, s)
      }
      else if sig_how m = SIG_SETMASK E then do {
        s \<leftarrow> check_pending E sig_proc c (zmien c (\<lambda>p. p\<lparr>mp_sigmask := sig_set m - {SIGKILL E, SIGSTOP E}\<rparr>) s);
        Some (OK, s)
      }
      else if sig_how m = SIG_INQUIRE E then Some (OK, s)
      else Some (EINVAL, s))"

definition do_sigsuspend ::
  "pm_env \<Rightarrow> (nat \<Rightarrow> int \<Rightarrow> bool \<Rightarrow> bool \<Rightarrow> pm \<Rightarrow> pm option) \<Rightarrow> pm \<Rightarrow> (int \<times> pm) option" where
  "do_sigsuspend E sig_proc s = do {
     let c = mp s;
     let s = zmien c (\<lambda>p. p\<lparr>mp_sigmask2 := mp_sigmask p, mp_sigmask := sig_set (m_in s) - {SIGKILL E, SIGSTOP E}\<rparr>) s;
     s \<leftarrow> check_pending E sig_proc c (flagi_dodaj c {SIGSUSPENDED} s);
     Some (SUSPEND E, s)
   }"

definition do_sigreturn ::
  "pm_env \<Rightarrow> (nat \<Rightarrow> int \<Rightarrow> bool \<Rightarrow> bool \<Rightarrow> pm \<Rightarrow> pm option) \<Rightarrow> pm \<Rightarrow> (int \<times> pm) option" where
  "do_sigreturn E sig_proc s = do {
     let c = mp s;
     let s = zmien c (\<lambda>p. p\<lparr>mp_sigmask := sig_set (m_in s) - {SIGKILL E, SIGSTOP E}\<rparr>) s;
     let (r, s) = wolaj E (Sys_sigreturn (who_e s) (sig_context (m_in s))) s;
     s \<leftarrow> check_pending E sig_proc c s;
     Some (r, s)
   }"

definition do_kill ::
  "pm_env \<Rightarrow> (nat \<Rightarrow> int \<Rightarrow> bool \<Rightarrow> bool \<Rightarrow> pm \<Rightarrow> pm option) \<Rightarrow> pm \<Rightarrow> (int \<times> pm) option" where
  "do_kill E sig_proc s = check_sig E sig_proc (pid (m_in s)) (sig_nr (m_in s)) False s"

definition do_srv_kill ::
  "pm_env \<Rightarrow> (nat \<Rightarrow> int \<Rightarrow> bool \<Rightarrow> bool \<Rightarrow> pm \<Rightarrow> pm option) \<Rightarrow> pm \<Rightarrow> (int \<times> pm) option" where
  "do_srv_kill E sig_proc s =
     (if mp_endpoint (mproc s ! mp s) \<noteq> RS_PROC_NR E then Some (EPERM, s)
      else check_sig E sig_proc (pid (m_in s)) (sig_nr (m_in s)) True s)"

definition do_pause :: "pm_env \<Rightarrow> pm \<Rightarrow> int \<times> pm" where
  "do_pause E s = (SUSPEND E, flagi_dodaj (mp s) {PAUSED} s)"

text \<open>\<^verbatim>\<open>process_ksig\<close>: its last part, for a process whose delayed call has ended.\<close>

definition po_opoznieniu ::
  "pm_env \<Rightarrow> (nat \<Rightarrow> int \<Rightarrow> bool \<Rightarrow> bool \<Rightarrow> pm \<Rightarrow> pm option) \<Rightarrow> nat \<Rightarrow> int \<Rightarrow> pm \<Rightarrow> (bool \<times> pm) option" where
  "po_opoznieniu E sig_proc rmp signo s =
     (if signo = SIGSNDELAY E \<and> flaga_jest rmp DELAY_CALL s then
        let s = flagi_zdejmij rmp {DELAY_CALL} s in
        if flaga_jest rmp VFS_CALL s then Some (True, s)
        else if flaga_jest rmp PM_SIG_PENDING s then None
        else do {
          s \<leftarrow> check_pending E sig_proc rmp s;
          if flaga_jest rmp DELAY_CALL s then None else Some (False, s)
        }
      else Some (False, s))"

definition process_ksig ::
  "pm_env \<Rightarrow> pm_obce \<Rightarrow> (nat \<Rightarrow> int \<Rightarrow> bool \<Rightarrow> bool \<Rightarrow> pm \<Rightarrow> pm option) \<Rightarrow> int \<Rightarrow> int \<Rightarrow> pm \<Rightarrow> (int \<times> pm) option" where
  "process_ksig E B sig_proc proc_nr_e signo s =
     (let (r, proc_nr) = pm_isokendpt E proc_nr_e s in
      if r \<noteq> OK \<or> proc_nr < 0 then Some (EDEADEPT E, drukuj ''PM: process_ksig: %d?? not ok'' [proc_nr_e] s)
      else
        let rmp = nat proc_nr in
        if \<not> zywy rmp s then Some (EDEADEPT E, s)
        else do {
          let proc_id = mp_pid (mproc s ! rmp);
          let grupa = mp_procgrp (mproc s ! rmp);
          let s = zmien 0 (\<lambda>p. p\<lparr>mp_procgrp := grupa\<rparr>) (s\<lparr>mp := 0\<rparr>);
          s \<leftarrow> (if signo = SIGVTALRM E \<or> signo = SIGPROF E then check_vtimer B proc_nr signo s else Some s);
          let id = (if signo = SIGINT E \<or> signo = SIGQUIT E \<or> signo = SIGWINCH E then 0 else proc_id);
          (_, s) \<leftarrow> check_sig E sig_proc id signo True s;
          (koniec, s) \<leftarrow> po_opoznieniu E sig_proc rmp signo s;
          Some (if koniec then OK else if zywy rmp s then OK else EDEADEPT E, s)
        })"

end
