(* ===== verification/Pm_Forkexit.thy ===== *)
theory Pm_Forkexit
  imports Pm_Signal
begin

text \<open>
  The process manager, part four: \<^verbatim>\<open>servers/pm/forkexit.c\<close>, with process tracing compiled in. The
  functions that send signals take \<^verbatim>\<open>sig_proc\<close> as their argument \<open>sig_proc\<close>.
\<close>

type_synonym sygnal_f = "nat \<Rightarrow> int \<Rightarrow> bool \<Rightarrow> bool \<Rightarrow> pm \<Rightarrow> pm option"

section \<open>The end of a process\<close>

definition cleanup :: "nat \<Rightarrow> pm \<Rightarrow> pm" where
  "cleanup rmp s =
     (zmien rmp (\<lambda>p. p\<lparr>mp_pid := 0, mp_flags := {}, mp_child_utime := 0, mp_child_stime := 0\<rparr>) s)
       \<lparr>procs_in_use := procs_in_use s - 1\<rparr>"

definition wait_test :: "nat \<Rightarrow> nat \<Rightarrow> pm \<Rightarrow> bool" where
  "wait_test rmp child s =
     (let pidarg = mp_wpid (mproc s ! rmp); parent_waiting = flaga_jest rmp WAITING s;
          right_child = (pidarg = - 1 \<or> pidarg = mp_pid (mproc s ! child) \<or> - pidarg = mp_procgrp (mproc s ! child))
      in parent_waiting \<and> right_child)"

text \<open>The status word: the exit status in the second byte, the signal in the first.\<close>

definition slowo_stanu :: "mproc \<Rightarrow> int" where
  "slowo_stanu p = mp_exitstatus p * 256 + mp_sigstatus p mod 256"

definition tell_parent :: "nat \<Rightarrow> pm \<Rightarrow> pm option" where
  "tell_parent child s =
     (let c = mproc s ! child in
      if mp_parent c \<le> 0 then None
      else if \<not> flaga_jest child ZOMBIE s then None
      else if flaga_jest child TOLD_PARENT s then None
      else do {
        parent \<leftarrow> w_tablicy (mp_parent c) s;
        let s = zmien parent (\<lambda>p. p\<lparr>mp_reply := (mp_reply p)\<lparr>reply_res2 := slowo_stanu c\<rparr>\<rparr>) s;
        s \<leftarrow> setreply (mp_parent c) (mp_pid c) s;
        let s = flagi_zdejmij parent {WAITING} s;
        let s = flagi_zdejmij child {ZOMBIE} s;
        Some (flagi_dodaj child {TOLD_PARENT} s)
      })"

definition tell_tracer :: "nat \<Rightarrow> pm \<Rightarrow> pm option" where
  "tell_tracer child s =
     (let c = mproc s ! child in
      if mp_tracer c \<le> 0 then None
      else if \<not> flaga_jest child TRACE_ZOMBIE s then None
      else do {
        tracer \<leftarrow> w_tablicy (mp_tracer c) s;
        let s = zmien tracer (\<lambda>p. p\<lparr>mp_reply := (mp_reply p)\<lparr>reply_res2 := slowo_stanu c\<rparr>\<rparr>) s;
        s \<leftarrow> setreply (mp_tracer c) (mp_pid c) s;
        let s = flagi_zdejmij tracer {WAITING} s;
        let s = flagi_zdejmij child {TRACE_ZOMBIE} s;
        Some (flagi_dodaj child {ZOMBIE} s)
      })"

definition check_parent :: "pm_env \<Rightarrow> sygnal_f \<Rightarrow> nat \<Rightarrow> bool \<Rightarrow> pm \<Rightarrow> pm option" where
  "check_parent E sig_proc child try_cleanup s = do {
     p_mp \<leftarrow> w_tablicy (mp_parent (mproc s ! child)) s;
     if flaga_jest p_mp EXITING s then Some s
     else if wait_test p_mp child s then do {
       s \<leftarrow> tell_parent child s;
       Some (if try_cleanup \<and> \<not> flaga_jest child VFS_CALL s then cleanup child s else s)
     }
     else sig_proc p_mp (SIGCHLD E) True False s
   }"

definition zombify :: "pm_env \<Rightarrow> sygnal_f \<Rightarrow> nat \<Rightarrow> pm \<Rightarrow> pm option" where
  "zombify E sig_proc rmp s =
     (let r = mproc s ! rmp in
      if flaga_jest rmp TRACE_ZOMBIE s \<or> flaga_jest rmp ZOMBIE s then None
      else if mp_tracer r \<noteq> NO_TRACER E \<and> mp_tracer r \<noteq> mp_parent r then do {
        let s = flagi_dodaj rmp {TRACE_ZOMBIE} s;
        t_mp \<leftarrow> w_tablicy (mp_tracer r) s;
        if \<not> wait_test t_mp rmp s then Some s
        else do {
          s \<leftarrow> tell_tracer rmp s;
          check_parent E sig_proc rmp False s
        }
      }
      else check_parent E sig_proc rmp False (flagi_dodaj rmp {ZOMBIE} s))"

definition tracer_died :: "pm_env \<Rightarrow> sygnal_f \<Rightarrow> nat \<Rightarrow> pm \<Rightarrow> pm option" where
  "tracer_died E sig_proc child s =
     (let s = flagi_zdejmij child {TRACE_EXIT} (zmien child (\<lambda>p. p\<lparr>mp_tracer := NO_TRACER E\<rparr>) s) in
      if \<not> flaga_jest child EXITING s then sig_proc child (SIGKILL E) True False s
      else if flaga_jest child TRACE_ZOMBIE s
        then check_parent E sig_proc child True (flagi_dodaj child {ZOMBIE} (flagi_zdejmij child {TRACE_ZOMBIE} s))
      else Some s)"

text \<open>One round of the loop of \<^verbatim>\<open>exit_proc\<close> that gives the children of a process to \<^verbatim>\<open>INIT\<close>.\<close>

definition oddaj_dziecko :: "pm_env \<Rightarrow> sygnal_f \<Rightarrow> nat \<Rightarrow> nat \<Rightarrow> pm \<Rightarrow> pm option" where
  "oddaj_dziecko E sig_proc proc_nr i s =
     (if \<not> flaga_jest i IN_USE s then Some s
      else do {
        s \<leftarrow> (if mp_tracer (mproc s ! i) = int proc_nr then tracer_died E sig_proc i s else Some s);
        if mp_parent (mproc s ! i) = int proc_nr then
          let s = zmien i (\<lambda>p. p\<lparr>mp_parent := INIT_PROC_NR E\<rparr>) s in
          if flaga_jest i ZOMBIE s then check_parent E sig_proc i True s else Some s
        else Some s
      })"

text \<open>\<^verbatim>\<open>exit_proc\<close> up to the point where the process is stopped, then what follows when it is not \<^verbatim>\<open>INIT\<close>.\<close>

definition rozlicz :: "pm_env \<Rightarrow> pm_obce \<Rightarrow> nat \<Rightarrow> pm \<Rightarrow> pm option" where
  "rozlicz E B rmp s = do {
     let proc_nr_e = mp_endpoint (mproc s ! rmp);
     s \<leftarrow> (if flaga_jest rmp ALARM_ON s then set_alarm B rmp 0 s else Some s);
     s \<leftarrow> wolaj_ok E (Sys_times proc_nr_e) s;
     let (user_time, sys_time) = czasy E (log s) proc_nr_e;
     p_mp \<leftarrow> w_tablicy (mp_parent (mproc s ! rmp)) s;
     let s = (let c = mp_child_utime (mproc s ! rmp)
              in zmien p_mp (\<lambda>p. p\<lparr>mp_child_utime := clock_t E (mp_child_utime p + clock_t E (user_time + c))\<rparr>) s);
     let s = (let c = mp_child_stime (mproc s ! rmp)
              in zmien p_mp (\<lambda>p. p\<lparr>mp_child_stime := clock_t E (mp_child_stime p + clock_t E (sys_time + c))\<rparr>) s);
     s \<leftarrow> wolaj_ok E (Sys_stop proc_nr_e) s;
     s \<leftarrow> wolaj_ok E (Vm_willexit proc_nr_e) s;
     Some (vm_notify_sig_wrapper E (mp_endpoint (mproc s ! rmp)) s)
   }"

definition wiadomosc_konca :: "pm_env \<Rightarrow> bool \<Rightarrow> mproc \<Rightarrow> wyjsciowa" where
  "wiadomosc_konca E dump_core r =
     (let m = (pusta_wyjsciowa (if dump_core then PM_DUMPCORE E else PM_EXIT E) (mp_endpoint r))
                \<lparr>w_PM_TRACED_PROC := Some (mp_endpoint r)\<rparr>
      in if dump_core then m\<lparr>w_PM_TERM_SIG := Some (mp_sigstatus r), w_PM_PATH := Some (mp_name r)\<rparr> else m)"

definition zawiadom_o_koncu :: "pm_env \<Rightarrow> nat \<Rightarrow> int \<Rightarrow> bool \<Rightarrow> pm \<Rightarrow> pm option" where
  "zawiadom_o_koncu E rmp exit_status dump_core s = do {
     let m = wiadomosc_konca E dump_core (mproc s ! rmp);
     s \<leftarrow> tell_vfs E rmp m s;
     s \<leftarrow> tell_cv E m 6 s;
     s \<leftarrow> (if flaga_jest rmp PRIV_PROC s then wolaj_ok E (Sys_clear (mp_endpoint (mproc s ! rmp))) s else Some s);
     Some (zmien rmp (\<lambda>p. p\<lparr>mp_flags := mp_flags p \<inter> {IN_USE, VFS_CALL, PRIV_PROC, TRACE_EXIT} \<union> {EXITING},
       mp_exitstatus := na_char exit_status\<rparr>) s)
   }"

definition exit_proc_tresc ::
  "pm_env \<Rightarrow> pm_obce \<Rightarrow> sygnal_f \<Rightarrow> nat \<Rightarrow> int \<Rightarrow> bool \<Rightarrow> pm \<Rightarrow> pm option" where
  "exit_proc_tresc E B sig_proc rmp exit_status dump_core s =
     (let r = mproc s ! rmp;
          dump_core = (dump_core \<and> mp_realuid r = mp_effuid r \<and> \<not> flaga_jest rmp PRIV_PROC s);
          proc_nr_e = mp_endpoint r;
          procgrp = (if mp_pid r = mp_procgrp (mproc s ! mp s) then mp_procgrp (mproc s ! mp s) else 0)
      in do {
        s \<leftarrow> rozlicz E B rmp s;
        if proc_nr_e = INIT_PROC_NR E then Some (drukuj ''PM: INIT died'' [] s)
        else if proc_nr_e = VFS_PROC_NR E then None
        else do {
          s \<leftarrow> zawiadom_o_koncu E rmp exit_status dump_core s;
          s \<leftarrow> (if \<not> dump_core then zombify E sig_proc rmp s else Some s);
          s \<leftarrow> FOR 0 (length (mproc s)) (oddaj_dziecko E sig_proc rmp) s;
          if procgrp \<noteq> 0 then map_option snd (check_sig E sig_proc (- procgrp) (SIGHUP E) False s) else Some s
        }
      })"

text \<open>\<^verbatim>\<open>exit_restart\<close>: the second half, after the reply of VFS.\<close>

definition exit_restart :: "pm_env \<Rightarrow> sygnal_f \<Rightarrow> nat \<Rightarrow> bool \<Rightarrow> pm \<Rightarrow> pm option" where
  "exit_restart E sig_proc rmp dump_core s = do {
     let (r, s) = wolaj E (Sched_stop (mp_scheduler (mproc s ! rmp)) (mp_endpoint (mproc s ! rmp))) s;
     let s = (if r \<noteq> OK
              then drukuj ''PM: The scheduler did not want to give up scheduling %s, ret=%d.'' [r] s else s);
     let s = zmien rmp (\<lambda>p. p\<lparr>mp_scheduler := NONE E\<rparr>) s;
     s \<leftarrow> (if dump_core then zombify E sig_proc rmp s else Some s);
     s \<leftarrow> (if \<not> flaga_jest rmp PRIV_PROC s then wolaj_ok E (Sys_clear (mp_endpoint (mproc s ! rmp))) s else Some s);
     s \<leftarrow> wolaj_ok E (Vm_exit (mp_endpoint (mproc s ! rmp))) s;
     s \<leftarrow> (if flaga_jest rmp TRACE_EXIT s then do {
            t \<leftarrow> w_tablicy (mp_tracer (mproc s ! rmp)) s;
            setreply (mp_tracer (mproc s ! rmp)) OK
              (zmien t (\<lambda>p. p\<lparr>mp_reply := (mp_reply p)\<lparr>reply_trace := 0\<rparr>\<rparr>) s)
          }
          else Some s);
     Some (if flaga_jest rmp TOLD_PARENT s then cleanup rmp s else s)
   }"

section \<open>Waiting for a child\<close>

text \<open>
  The loop of \<^verbatim>\<open>do_waitpid\<close> over the slots: it either ends the call with a result or counts the
  children that qualify.
\<close>

definition kwalifikuje :: "int \<Rightarrow> nat \<Rightarrow> pm \<Rightarrow> bool" where
  "kwalifikuje pidarg i s =
     (let rp = mproc s ! i in
      flaga_jest i IN_USE s \<and> \<not> flaga_jest i TOLD_PARENT s \<and>
      \<not> (mp_parent rp \<noteq> who_p s \<and> mp_tracer rp \<noteq> who_p s) \<and>
      \<not> (mp_parent rp \<noteq> who_p s \<and> flaga_jest i ZOMBIE s) \<and>
      \<not> (pidarg > 0 \<and> pidarg \<noteq> mp_pid rp) \<and>
      \<not> (pidarg < - 1 \<and> - pidarg \<noteq> mp_procgrp rp))"

fun waitpid_petla ::
  "pm_env \<Rightarrow> sygnal_f \<Rightarrow> int \<Rightarrow> nat list \<Rightarrow> int \<Rightarrow> pm \<Rightarrow> ((int + int) \<times> pm) option" where
  "waitpid_petla E sig_proc pidarg [] children s = Some (Inl children, s)"
| "waitpid_petla E sig_proc pidarg (i # is) children s =
     (let rp = mproc s ! i in
      if \<not> kwalifikuje pidarg i s then waitpid_petla E sig_proc pidarg is children s
      else if mp_tracer rp = who_p s \<and> flaga_jest i TRACE_ZOMBIE s then do {
        s \<leftarrow> tell_tracer i s;
        s \<leftarrow> check_parent E sig_proc i True s;
        Some (Inr (SUSPEND E), s)
      }
      else case (if mp_tracer rp = who_p s \<and> flaga_jest i STOPPED s
                 then List.find (\<lambda>n. n \<in> mp_sigtrace rp) [1..NSIG E - 1] else None) of
        Some n \<Rightarrow>
          let s = zmien i (\<lambda>p. p\<lparr>mp_sigtrace := mp_sigtrace p - {n}\<rparr>) s;
              s = zmien (mp s) (\<lambda>p. p\<lparr>mp_reply := (mp_reply p)\<lparr>reply_res2 := 127 + n * 256\<rparr>\<rparr>) s
          in Some (Inr (mp_pid (mproc s ! i)), s)
      | None \<Rightarrow>
          if mp_parent rp = who_p s \<and> flaga_jest i ZOMBIE s then do {
            s \<leftarrow> tell_parent i s;
            Some (Inr (SUSPEND E), if \<not> flaga_jest i VFS_CALL s then cleanup i s else s)
          }
          else waitpid_petla E sig_proc pidarg is (children + 1) s)"

definition do_waitpid :: "pm_env \<Rightarrow> sygnal_f \<Rightarrow> pm \<Rightarrow> (int \<times> pm) option" where
  "do_waitpid E sig_proc s = do {
     let pidarg = (if call_nr s = WAIT E then - 1 else pid (m_in s));
     let options = (if call_nr s = WAIT E then 0 else sig_nr (m_in s));
     let pidarg = (if pidarg = 0 then - mp_procgrp (mproc s ! mp s) else pidarg);
     (w, s) \<leftarrow> waitpid_petla E sig_proc pidarg [0..<length (mproc s)] 0 s;
     case w of
       Inr r \<Rightarrow> Some (r, s)
     | Inl children \<Rightarrow>
         if children > 0 then
           if options AND WNOHANG E \<noteq> 0 then Some (0, s)
           else Some (SUSPEND E, zmien (mp s) (\<lambda>p. p\<lparr>mp_wpid := pidarg\<rparr>) (flagi_dodaj (mp s) {WAITING} s))
         else Some (ECHILD E, s)
   }"

section \<open>Creating a process\<close>

definition LAST_FEW :: int where "LAST_FEW = 2"

text \<open>The search for a free slot: the number of tries and the slot of the last one.\<close>

function szukaj_slotu :: "pm \<Rightarrow> nat \<Rightarrow> nat \<Rightarrow> nat \<times> nat" where
  "szukaj_slotu s n c =
     (let c = (c + 1) mod length (mproc s); n = n + 1 in
      if flaga_jest c IN_USE s \<and> n \<le> length (mproc s) then szukaj_slotu s n c else (n, c))"
  by pat_completeness auto
termination
  by (relation "measure (\<lambda>(s, n, c). Suc (length (mproc s)) - n)") auto

declare szukaj_slotu.simps [simp del]

definition pelna_tablica :: "pm_env \<Rightarrow> pm \<Rightarrow> bool" where
  "pelna_tablica E s \<longleftrightarrow> procs_in_use s = int (NR_PROCS E) \<or>
     procs_in_use s \<ge> int (NR_PROCS E) - LAST_FEW \<and> mp_effuid (mproc s ! mp s) \<noteq> 0"

text \<open>The slot of the child that both calls share: a copy of the parent with its own administration.\<close>

definition slot_dziecka :: "pm_env \<Rightarrow> pm \<Rightarrow> int \<Rightarrow> mproc" where
  "slot_dziecka E s ep =
     (let p = (mproc s ! mp s)\<lparr>mp_parent := who_p s\<rparr>;
          p = (if mp_trace_flags p AND TO_TRACEFORK E = 0
               then p\<lparr>mp_tracer := NO_TRACER E, mp_trace_flags := 0, mp_sigtrace := {}\<rparr> else p)
      in p\<lparr>mp_child_utime := 0, mp_child_stime := 0, mp_exitstatus := 0, mp_sigstatus := 0, mp_endpoint := ep,
           mp_interval := replicate (NR_ITIMERS E) 0\<rparr>)"

definition zglos_sledzacemu :: "pm_env \<Rightarrow> sygnal_f \<Rightarrow> nat \<Rightarrow> pm \<Rightarrow> pm option" where
  "zglos_sledzacemu E sig_proc rmc s =
     (if mp_tracer (mproc s ! rmc) \<noteq> NO_TRACER E then sig_proc rmc (SIGSTOP E) True False s else Some s)"

definition do_fork :: "pm_env \<Rightarrow> sygnal_f \<Rightarrow> pm \<Rightarrow> (int \<times> pm) option" where
  "do_fork E sig_proc s =
     (if pelna_tablica E s then Some (EAGAIN E, drukuj ''PM: warning, process table is full!'' [] s)
      else
        let (n, c) = szukaj_slotu s 0 (next_child s); s = s\<lparr>next_child := c\<rparr> in
        if n > length (mproc s) then None
        else if c \<ge> length (mproc s) \<or> flaga_jest c IN_USE s then None
        else
          let (r, s) = wolaj E (Vm_fork (mp_endpoint (mproc s ! mp s)) (int c)) s in
          if r \<noteq> OK then Some (r, s)
          else do {
            let rmc = slot_dziecka E s (child_ep E (log s));
            rmc \<leftarrow> (if PRIV_PROC \<in> mp_flags rmc
                   then if mp_scheduler rmc = NONE E then Some (rmc\<lparr>mp_scheduler := SCHED_PROC_NR E\<rparr>) else None
                   else Some rmc);
            let rmc = rmc\<lparr>mp_flags := mp_flags rmc \<inter> {IN_USE, DELAY_CALL, TAINTED}\<rparr>;
            let rodzic = mp_endpoint (mproc s ! mp s);
            let s = zmien c (\<lambda>_. rmc) (s\<lparr>procs_in_use := procs_in_use s + 1\<rparr>);
            (new_pid, s) \<leftarrow> get_free_pid E s;
            let s = zmien c (\<lambda>p. p\<lparr>mp_pid := new_pid\<rparr>) s;
            let m = (pusta_wyjsciowa (PM_FORK E) (mp_endpoint rmc))\<lparr>w_PM_PPROC := Some rodzic,
                     w_PM_CPID := Some new_pid, w_PM_REUID := Some (- 1), w_PM_REGID := Some (- 1)\<rparr>;
            s \<leftarrow> tell_vfs E c m s;
            s \<leftarrow> zglos_sledzacemu E sig_proc c s;
            Some (SUSPEND E, s)
          })"

definition do_srv_fork :: "pm_env \<Rightarrow> sygnal_f \<Rightarrow> pm \<Rightarrow> (int \<times> pm) option" where
  "do_srv_fork E sig_proc s =
     (if mp_endpoint (mproc s ! mp s) \<noteq> RS_PROC_NR E then Some (EPERM, s)
      else if pelna_tablica E s then Some (EAGAIN E, drukuj ''PM: warning, process table is full!'' [] s)
      else
        let (n, c) = szukaj_slotu s 0 (next_child_srv s); s = s\<lparr>next_child_srv := c\<rparr> in
        if n > length (mproc s) then None
        else if c \<ge> length (mproc s) \<or> flaga_jest c IN_USE s then None
        else
          let (r, s) = wolaj E (Vm_fork (mp_endpoint (mproc s ! mp s)) (int c)) s in
          if r \<noteq> OK then Some (r, s)
          else do {
            let u = m1_i1 (m_in s);
            let g = m1_i2 (m_in s);
            let rmc = slot_dziecka E s (child_ep E (log s));
            let rmc = rmc\<lparr>mp_flags := mp_flags rmc \<inter> {IN_USE, PRIV_PROC, DELAY_CALL}, mp_realuid := uid_t E u, mp_effuid := uid_t E u,
                          mp_realgid := gid_t E (uid_t E g), mp_effgid := gid_t E (uid_t E g)\<rparr>;
            let rodzic = mp_endpoint (mproc s ! mp s);
            let s = zmien c (\<lambda>_. rmc) (s\<lparr>procs_in_use := procs_in_use s + 1\<rparr>);
            (new_pid, s) \<leftarrow> get_free_pid E s;
            let s = zmien c (\<lambda>p. p\<lparr>mp_pid := new_pid\<rparr>) s;
            let m = (pusta_wyjsciowa (PM_SRV_FORK E) (mp_endpoint rmc))\<lparr>w_PM_PPROC := Some rodzic,
                     w_PM_CPID := Some new_pid, w_PM_REUID := Some u, w_PM_REGID := Some g\<rparr>;
            s \<leftarrow> tell_vfs E c m s;
            s \<leftarrow> zglos_sledzacemu E sig_proc c s;
            s \<leftarrow> setreply (int c) OK s;
            Some (mp_pid (mproc s ! c), s)
          })"

end
