(* ===== verification/Pm_Rekurencja.thy ===== *)
theory Pm_Rekurencja
  imports Pm_Forkexit
begin

text \<open>
  The process manager, part five: the recursion between \<^verbatim>\<open>sig_proc\<close> and \<^verbatim>\<open>exit_proc\<close>. A signal can end a
  process, its end can send signals to other processes, and so on. \<open>sig_proc_n\<close> bounds the depth
  of that recursion; a call that would exceed the bound has the outcome of the argument \<open>z\<close>, which tells it from a
  panic. Every nested call happens after one more process has been marked as exiting, so as many levels as the table
  has slots, and one, are enough: with them the result is the same for every \<open>z\<close> (\<open>Pm_Paliwo\<close>), so no call exceeds
  the bound, and \<open>sig_proc\<close> may take any \<open>z\<close>.
\<close>

section \<open>The knot\<close>

fun sig_proc_n :: "sygnal_f \<Rightarrow> pm_env \<Rightarrow> pm_obce \<Rightarrow> nat \<Rightarrow> sygnal_f" where
  "sig_proc_n z E B 0 rmp signo trace ksig s = z rmp signo trace ksig s"
| "sig_proc_n z E B (Suc f) rmp signo trace ksig s =
     sig_proc_tresc E B (exit_proc_tresc E B (sig_proc_n z E B f)) rmp signo trace ksig s"

definition brak_wyniku :: sygnal_f where
  "brak_wyniku rmp signo trace ksig s = None"

definition sig_proc :: "pm_env \<Rightarrow> pm_obce \<Rightarrow> sygnal_f" where
  "sig_proc E B rmp signo trace ksig s = sig_proc_n brak_wyniku E B (Suc (length (mproc s))) rmp signo trace ksig s"

definition exit_proc :: "pm_env \<Rightarrow> pm_obce \<Rightarrow> nat \<Rightarrow> int \<Rightarrow> bool \<Rightarrow> pm \<Rightarrow> pm option" where
  "exit_proc E B = exit_proc_tresc E B (sig_proc E B)"

definition do_exit :: "pm_env \<Rightarrow> pm_obce \<Rightarrow> pm \<Rightarrow> (int \<times> pm) option" where
  "do_exit E B s =
     (let c = mproc s ! mp s in
      if flaga_jest (mp s) PRIV_PROC s then
        let s = drukuj ''PM: system process %d (%s) tries to exit(), sending SIGKILL'' [mp_endpoint c] s
        in Some (SUSPEND E, snd (wolaj E (Sys_kill (mp_endpoint c) (SIGKILL E)) s))
      else do {
        s \<leftarrow> exit_proc E B (mp s) (status (m_in s)) False s;
        Some (SUSPEND E, s)
      })"

end
