(* ===== verification/Pm_Main.thy ===== *)
theory Pm_Main
  imports Pm_Rekurencja Wydruk
begin

text \<open>
  The process manager, part six: \<^verbatim>\<open>servers/pm/main.c\<close>: the replies of VFS, the signals of the kernel,
  and the main loop. The table \<^verbatim>\<open>call_vec\<close>, the numbers of the calls and the functions that are
  defined in files outside the sources are fields of a record.
\<close>

unbundle bit_operations_syntax

section \<open>Replies of VFS\<close>

datatype vfs_reply =
  PM_SETUID_REPLY | PM_SETGID_REPLY | PM_SETSID_REPLY | PM_EXEC_REPLY | PM_EXIT_REPLY | PM_CORE_REPLY
  | PM_FORK_REPLY | PM_SRV_FORK_REPLY | PM_UNPAUSE_REPLY | PM_REBOOT_REPLY | PM_SETGROUPS_REPLY

text \<open>The \<^verbatim>\<open>switch\<close> of \<^verbatim>\<open>handle_vfs_reply\<close>.\<close>

definition po_odpowiedzi_vfs :: "pm_env \<Rightarrow> pm_obce \<Rightarrow> vfs_reply \<Rightarrow> nat \<Rightarrow> pm \<Rightarrow> pm option" where
  "po_odpowiedzi_vfs E B t rmp s =
     (case t of
        PM_SETUID_REPLY \<Rightarrow> setreply (int rmp) OK s
      | PM_SETGID_REPLY \<Rightarrow> setreply (int rmp) OK s
      | PM_SETGROUPS_REPLY \<Rightarrow> setreply (int rmp) OK s
      | PM_SETSID_REPLY \<Rightarrow> setreply (int rmp) (mp_procgrp (mproc s ! rmp)) s
      | PM_EXEC_REPLY \<Rightarrow> exec_restart B rmp (PM_STATUS (m_in s)) (PM_PC (m_in s)) (PM_NEWSP (m_in s)) s
      | PM_EXIT_REPLY \<Rightarrow> exit_restart E (sig_proc E B) rmp False s
      | PM_CORE_REPLY \<Rightarrow>
          (let s = (if PM_STATUS (m_in s) = OK
                    then zmien rmp (\<lambda>p. p\<lparr>mp_sigstatus := na_char (mp_sigstatus p OR DUMPED E)\<rparr>) s else s)
           in if PM_PROC (m_in s) = PM_TRACED_PROC (m_in s) then exit_restart E (sig_proc E B) rmp True s
              else setreply (int rmp) (mp_procgrp (mproc s ! rmp)) s)
      | PM_FORK_REPLY \<Rightarrow> do {
          let sch = mp_scheduler (mproc s ! rmp);
          (r, s) \<leftarrow> (if sch \<noteq> KERNEL E \<and> sch \<noteq> NONE E then sched_start_user B sch rmp s else Some (OK, s));
          if r \<noteq> OK then do {
            s \<leftarrow> exit_proc E B rmp (- 1) False (zmien rmp (\<lambda>p. p\<lparr>mp_scheduler := NONE E\<rparr>) s);
            setreply (mp_parent (mproc s ! rmp)) (- 1) s
          }
          else do {
            s \<leftarrow> setreply (int rmp) OK s;
            setreply (mp_parent (mproc s ! rmp)) (mp_pid (mproc s ! rmp)) s
          }
        }
      | PM_SRV_FORK_REPLY \<Rightarrow> Some s
      | PM_UNPAUSE_REPLY \<Rightarrow> Some (flagi_dodaj rmp {UNPAUSED} s)
      | PM_REBOOT_REPLY \<Rightarrow> None)"

definition handle_vfs_reply :: "pm_env \<Rightarrow> pm_obce \<Rightarrow> vfs_reply \<Rightarrow> pm \<Rightarrow> pm option" where
  "handle_vfs_reply E B t s =
     (if t = PM_REBOOT_REPLY then Some (snd (wolaj E Sys_abort s))
      else
        let (r, proc_n) = pm_isokendpt E (PM_PROC (m_in s)) s in
        if r \<noteq> OK then None
        else do {
          rmp \<leftarrow> w_tablicy proc_n s;
          if \<not> flaga_jest rmp VFS_CALL s then None
          else do {
            let s = flagi_zdejmij rmp {VFS_CALL} s;
            if flaga_jest rmp UNPAUSED s then None
            else do {
              s \<leftarrow> po_odpowiedzi_vfs E B t rmp s;
              if zywy rmp s then restart_sigs E (sig_proc E B) (exit_proc E B) rmp s else Some s
            }
          }
        })"

definition sef_cb_signal_manager :: "pm_env \<Rightarrow> pm_obce \<Rightarrow> int \<Rightarrow> int \<Rightarrow> pm \<Rightarrow> (int \<times> pm) option" where
  "sef_cb_signal_manager E B target signo s = do {
     (r, s) \<leftarrow> process_ksig E B (sig_proc E B) target signo s;
     s \<leftarrow> sendreply E s;
     Some (r, s)
   }"

section \<open>Initialisation\<close>

text \<open>
  An entry of the kernel's table of the boot image, and what the initialisation takes from
  outside the sources: that table, the type of the reply of VFS, and the remaining constants.
\<close>

record boot_image =
  proc_nr :: int
  proc_name :: string
  endpoint :: int

datatype architektura = I386 | Arm | Inna

record pm_boot =
  image_tab :: "boot_image list"
  typ_odpowiedzi :: "wolanie list \<Rightarrow> int"
  PROC_NAME_LEN :: nat
  USR_Q :: int
  SRV_Q :: int
  SIGILL :: int
  SIGTRAP :: int
  SIGABRT :: int
  SIGEMT :: int
  SIGFPE :: int
  SIGBUS :: int
  SIGSEGV :: int
  SIGCONT :: int
  init_timer :: int
  MP_MAGIC :: int
  arch :: architektura
  getprocessor :: int
  sys_hz :: int

definition core_sigs :: "pm_env \<Rightarrow> pm_boot \<Rightarrow> int list" where
  "core_sigs E P = [SIGQUIT E, SIGILL P, SIGTRAP P, SIGABRT P, SIGEMT P, SIGFPE P, SIGBUS P, SIGSEGV P]"

definition ign_sigs :: "pm_env \<Rightarrow> pm_boot \<Rightarrow> int list" where
  "ign_sigs E P = [SIGCHLD E, SIGWINCH E, SIGCONT P]"

definition noign_sigs :: "pm_boot \<Rightarrow> int list" where
  "noign_sigs P = [SIGILL P, SIGTRAP P, SIGEMT P, SIGFPE P, SIGBUS P, SIGSEGV P]"

text \<open>The body of the loop over the boot image; tasks have negative numbers and no slot.\<close>

definition zaloz_slot :: "pm_env \<Rightarrow> pm_boot \<Rightarrow> boot_image \<Rightarrow> pm \<Rightarrow> pm option" where
  "zaloz_slot E P ip s =
     (if proc_nr ip \<ge> 0 then do {
        let s = s\<lparr>procs_in_use := procs_in_use s + 1\<rparr>;
        i \<leftarrow> w_tablicy (proc_nr ip) s;
        let s = zmien i (\<lambda>p. p\<lparr>mp_name := take (PROC_NAME_LEN P - 1) (proc_name ip), mp_ignore := {}, mp_sigmask := {}, mp_catch := {}\<rparr>) s;
        s \<leftarrow> (if proc_nr ip = INIT_PROC_NR E then
                Some (zmien i (\<lambda>p. p\<lparr>mp_parent := INIT_PROC_NR E, mp_procgrp := INIT_PID E, mp_pid := INIT_PID E,
                  mp_flags := mp_flags p \<union> {IN_USE}, mp_scheduler := KERNEL E, mp_nice := get_nice_value E (USR_Q P)\<rparr>) s)
              else do {
                let s = zmien i (\<lambda>p. p\<lparr>mp_parent := (if proc_nr ip = RS_PROC_NR E then INIT_PROC_NR E else RS_PROC_NR E)\<rparr>) s;
                (k, s) \<leftarrow> get_free_pid E s;
                Some (zmien i (\<lambda>p. p\<lparr>mp_pid := k, mp_flags := mp_flags p \<union> {IN_USE, PRIV_PROC}, mp_scheduler := NONE E,
                  mp_nice := get_nice_value E (SRV_Q P)\<rparr>) s)
              });
        let s = zmien i (\<lambda>p. p\<lparr>mp_endpoint := endpoint ip\<rparr>) s;
        wolaj_ok E (Send_init (proc_nr ip) (mp_pid (mproc s ! i)) (endpoint ip)) s
      }
      else Some s)"

fun zaloz_sloty :: "pm_env \<Rightarrow> pm_boot \<Rightarrow> boot_image list \<Rightarrow> pm \<Rightarrow> pm option" where
  "zaloz_sloty E P [] s = Some s"
| "zaloz_sloty E P (ip # ips) s = do { s \<leftarrow> zaloz_slot E P ip s; zaloz_sloty E P ips s }"

text \<open>The first loop, over the whole process table, and the name of the machine, which depends on the architecture compiled for.\<close>

definition zeruj_sloty :: "pm_boot \<Rightarrow> pm \<Rightarrow> pm" where
  "zeruj_sloty P s = s\<lparr>mproc := map (\<lambda>p. p\<lparr>mp_timer := init_timer P, mp_magic := MP_MAGIC P\<rparr>) (mproc s)\<rparr>"

definition nazwa_maszyny :: "pm_boot \<Rightarrow> pm \<Rightarrow> string" where
  "nazwa_maszyny P s = (case arch P of I386 \<Rightarrow> CHR ''i'' # dziesietnie (getprocessor P) | Arm \<Rightarrow> ''arm'' | Inna \<Rightarrow> uts_machine s)"

definition sef_cb_init_fresh :: "pm_env \<Rightarrow> pm_boot \<Rightarrow> pm \<Rightarrow> (int \<times> pm) option" where
  "sef_cb_init_fresh E P s = do {
     let s = zeruj_sloty P s;
     let s = s\<lparr>core_sset := set (core_sigs E P), ign_sset := set (ign_sigs E P), noign_sset := set (noign_sigs P)\<rparr>;
     s \<leftarrow> wolaj_ok E Sys_getmonparams s;
     s \<leftarrow> wolaj_ok E Sys_getkinfo s;
     s \<leftarrow> wolaj_ok E Sys_getimage s;
     s \<leftarrow> zaloz_sloty E P (image_tab P) (s\<lparr>procs_in_use := 0\<rparr>);
     let (r, s) = wolaj E (Sendrec_init (NONE E)) s;
     if r \<noteq> OK \<or> typ_odpowiedzi P (log s) \<noteq> OK then None
     else do {
       let s = s\<lparr>uts_machine := nazwa_maszyny P s\<rparr>;
       let s = s\<lparr>system_hz := sys_hz P\<rparr>;
       Some (OK, snd (wolaj E Sched_init s))
     }
   }"

text \<open>
  The start-up: the callbacks that \<^verbatim>\<open>sef_local_startup\<close> registers, as a record that it hands to \<^verbatim>\<open>sef_startup\<close> of the library, which is an
  argument, as is the library's callback \<^verbatim>\<open>sef_cb_init_fail\<close>.
\<close>

record sef_callbacks =
  cb_init_fresh :: "pm \<Rightarrow> (int \<times> pm) option"
  cb_init_restart :: "pm \<Rightarrow> (int \<times> pm) option"
  cb_signal_manager :: "int \<Rightarrow> int \<Rightarrow> pm \<Rightarrow> (int \<times> pm) option"

definition sef_local_startup ::
  "pm_env \<Rightarrow> pm_obce \<Rightarrow> pm_boot \<Rightarrow> (pm \<Rightarrow> (int \<times> pm) option) \<Rightarrow> (sef_callbacks \<Rightarrow> pm \<Rightarrow> pm option) \<Rightarrow> pm \<Rightarrow> pm option" where
  "sef_local_startup E B P sef_cb_init_fail sef_startup =
     sef_startup \<lparr>cb_init_fresh = sef_cb_init_fresh E P, cb_init_restart = sef_cb_init_fail,
       cb_signal_manager = sef_cb_signal_manager E B\<rparr>"

section \<open>The main loop\<close>

text \<open>
  What \<^verbatim>\<open>main\<close> takes from outside the sources: the codes of the replies of VFS, \<^verbatim>\<open>COMMON_GETSYSINFO\<close>
  and \<^verbatim>\<open>NCALLS\<close>, the table of the handlers, \<^verbatim>\<open>do_getsysinfo\<close> and \<^verbatim>\<open>expire_timers\<close>.
\<close>

record pm_tablica =
  kod_vfs :: "int \<Rightarrow> vfs_reply option"
  COMMON_GETSYSINFO :: int
  NCALLS :: int
  call_vec :: "int \<Rightarrow> pm \<Rightarrow> (int \<times> pm) option"
  do_getsysinfo :: "pm \<Rightarrow> (int \<times> pm) option"
  expire_timers :: "int \<Rightarrow> pm \<Rightarrow> pm option"
  ENABLE_SYSCALL_STATS :: bool

text \<open>The counter of a call, an unsigned number of 32 bits.\<close>

definition licz_wolanie :: "pm \<Rightarrow> pm" where
  "licz_wolanie s = s\<lparr>calls_stats := (calls_stats s)(call_nr s := calls_stats s (call_nr s) + 1)\<rparr>"

text \<open>The \<^verbatim>\<open>switch\<close> of \<^verbatim>\<open>main\<close>; the comparison with \<^verbatim>\<open>NCALLS\<close> is unsigned.\<close>

definition wykonaj_pm :: "pm_env \<Rightarrow> pm_obce \<Rightarrow> pm_tablica \<Rightarrow> pm \<Rightarrow> (int \<times> pm) option" where
  "wykonaj_pm E B T s =
     (case kod_vfs T (call_nr s) of
        Some t \<Rightarrow>
          if who_e s = VFS_PROC_NR E then do { s \<leftarrow> handle_vfs_reply E B t s; Some (SUSPEND E, s) }
          else Some (ENOSYS E, s)
      | None \<Rightarrow>
          if call_nr s = COMMON_GETSYSINFO T then do_getsysinfo T s
          else if call_nr s < 0 \<or> call_nr s \<ge> NCALLS T then Some (ENOSYS E, s)
          else call_vec T (call_nr s) (if ENABLE_SYSCALL_STATS T then licz_wolanie s else s))"

text \<open>One round of the loop: the message received and whether it is a notification.\<close>

definition main_pm_krok :: "pm_env \<Rightarrow> pm_obce \<Rightarrow> pm_tablica \<Rightarrow> pm_message \<times> bool \<Rightarrow> pm \<Rightarrow> pm option" where
  "main_pm_krok E B T x s =
     (let (m, is_ipc_notify) = x;
          s = s\<lparr>m_in := m, who_e := m_source m\<rparr>;
          (r, p) = pm_isokendpt E (who_e s) s;
          s = s\<lparr>who_p := p, call_nr := m_type m\<rparr> in
      if r \<noteq> OK then None
      else do {
        c \<leftarrow> w_tablicy (if who_p s < 0 then PM_PROC_NR E else who_p s) s;
        let s = s\<lparr>mp := c\<rparr>;
        if who_p s \<ge> 0 \<and> mp_endpoint (mproc s ! c) \<noteq> who_e s then None
        else if flaga_jest c EXITING s then Some s
        else if is_ipc_notify then do {
          s \<leftarrow> (if who_p s = CLOCK E then expire_timers T (NOTIFY_TIMESTAMP (m_in s)) s else Some s);
          sendreply E s
        }
        else do {
          (result, s) \<leftarrow> wykonaj_pm E B T s;
          s \<leftarrow> (if result \<noteq> SUSPEND E then setreply (who_p s) result s else Some s);
          sendreply E s
        }
      })"

fun main_pm :: "pm_env \<Rightarrow> pm_obce \<Rightarrow> pm_tablica \<Rightarrow> (pm_message \<times> bool) list \<Rightarrow> pm \<Rightarrow> pm option" where
  "main_pm E B T [] s = Some s"
| "main_pm E B T (x # xs) s = do { s \<leftarrow> main_pm_krok E B T x s; main_pm E B T xs s }"

end
