(* ===== verification/Pm_Zmiany.thy ===== *)
theory Pm_Zmiany
  imports Pm_Rekurencja
begin

text \<open>
  What every function of the process manager keeps. A state follows another when the table has
  the same size, every slot keeps its endpoint, name and owner and its parent unless that becomes
  \<^verbatim>\<open>INIT\<close>, no process comes back to life, no
  call made is forgotten, and a slot that cannot block, ignore or catch \<^verbatim>\<open>SIGKILL\<close> stays so. One
  lemma per function carries the relation through it; the external functions are assumed to
  keep it.
\<close>

section \<open>The relation\<close>

definition zyje :: "mproc \<Rightarrow> bool" where
  "zyje p \<longleftrightarrow> IN_USE \<in> mp_flags p \<and> EXITING \<notin> mp_flags p"

definition bez_kill :: "pm_env \<Rightarrow> mproc \<Rightarrow> bool" where
  "bez_kill E p \<longleftrightarrow> SIGKILL E \<notin> mp_ignore p \<and> SIGKILL E \<notin> mp_catch p \<and> SIGKILL E \<notin> mp_sigmask p \<and>
     SIGKILL E \<notin> mp_sigmask2 p \<and> (\<forall>n. SIGKILL E \<notin> sa_mask (mp_sigact p n))"

definition slot_po :: "pm_env \<Rightarrow> mproc \<Rightarrow> mproc \<Rightarrow> bool" where
  "slot_po E p p' \<longleftrightarrow> mp_endpoint p' = mp_endpoint p \<and> mp_name p' = mp_name p \<and>
     mp_realuid p' = mp_realuid p \<and> mp_effuid p' = mp_effuid p \<and>
     (mp_parent p' = mp_parent p \<or> mp_parent p' = INIT_PROC_NR E) \<and>
     (zyje p' \<longrightarrow> zyje p) \<and> (bez_kill E p \<longrightarrow> bez_kill E p')"

declare zyje_def [slot_pm] bez_kill_def [slot_pm] slot_po_def [slot_pm]

definition po :: "pm_env \<Rightarrow> pm \<Rightarrow> pm \<Rightarrow> bool" where
  "po E s t \<longleftrightarrow> length (mproc t) = length (mproc s) \<and>
     (\<forall>i < length (mproc s). slot_po E (mproc s ! i) (mproc t ! i)) \<and>
     (\<exists>c. log t = log s @ c) \<and> mp t = mp s"

lemma slot_po_refl [simp]: "slot_po E p p"
  by (simp add: slot_po_def)

lemma slot_po_trans: "slot_po E p q \<Longrightarrow> slot_po E q r \<Longrightarrow> slot_po E p r"
  by (auto simp: slot_po_def)

lemma po_refl [simp]: "po E s s"
  by (simp add: po_def)

lemma po_trans: "po E s t \<Longrightarrow> po E t u \<Longrightarrow> po E s u"
  unfolding po_def by (auto intro: slot_po_trans)

lemma po_zmien:
  assumes "po E s0 s" and "i < length (mproc s) \<Longrightarrow> slot_po E (mproc s ! i) (f (mproc s ! i))"
  shows "po E s0 (zmien i f s)"
proof -
  have "po E s (zmien i f s)"
    using assms(2) by (cases "i < length (mproc s)") (auto simp: po_def zmien_def nth_list_update)
  with assms(1) show ?thesis by (rule po_trans)
qed

lemma po_pola:
  assumes "mproc t = mproc s" "log t = log s @ c" "mp t = mp s" "po E s0 s"
  shows "po E s0 t"
  using assms unfolding po_def by auto

lemma po_log: "po E s0 s \<Longrightarrow> po E s0 (s\<lparr>log := log s @ c\<rparr>)"
  by (rule po_pola) auto

lemma po_flagi_dodaj: "po E s0 s \<Longrightarrow> IN_USE \<notin> F \<Longrightarrow> po E s0 (flagi_dodaj i F s)"
  unfolding flagi_dodaj_def by (rule po_zmien) (auto simp: slot_pm)

lemma po_flagi_zdejmij: "po E s0 s \<Longrightarrow> EXITING \<notin> F \<Longrightarrow> po E s0 (flagi_zdejmij i F s)"
  unfolding flagi_zdejmij_def by (rule po_zmien) (auto simp: slot_pm)

lemma po_wolaj: "po E s0 s \<Longrightarrow> po E s0 (snd (wolaj E c s))"
  by (simp add: wolaj_def po_log)

lemma po_drukuj: "po E s0 s \<Longrightarrow> po E s0 (drukuj t xs s)"
  by (simp add: drukuj_def po_log)

section \<open>Partial functions\<close>

text \<open>Whatever state an operation leaves, it satisfies \<open>P\<close>; the rules follow the operations.\<close>

lemma pred_bind: "pred_option P (Option.bind x f) = pred_option (\<lambda>y. pred_option P (f y)) x"
  by (cases x) auto

lemma pred_mono: "pred_option P x \<Longrightarrow> (\<And>y. P y \<Longrightarrow> Q y) \<Longrightarrow> pred_option Q x"
  by (cases x) auto

lemma pred_SomeD: "pred_option P x \<Longrightarrow> x = Some y \<Longrightarrow> P y"
  by simp

lemma pred_bindI:
  "pred_option P x \<Longrightarrow> (\<And>y. P y \<Longrightarrow> pred_option Q (f y)) \<Longrightarrow> pred_option Q (Option.bind x f)"
  by (cases x) auto

lemma pred_if:
  "(c \<Longrightarrow> pred_option P x) \<Longrightarrow> (\<not> c \<Longrightarrow> pred_option P y) \<Longrightarrow> pred_option P (if c then x else y)"
  by simp

lemma pred_FOR:
  assumes "P s" and "\<And>i t. i < n \<Longrightarrow> P t \<Longrightarrow> pred_option P (body i t)"
  shows "pred_option P (FOR 0 n body s)"
proof (cases "FOR 0 n body s")
  case (Some s')
  have "P s'"
    by (rule FOR_rule_Some[where I = "\<lambda>_. P", OF Some]) (use assms in \<open>auto dest: pred_SomeD\<close>)
  with Some show ?thesis by simp
qed simp

lemma po_wolaj_ok: "po E s0 s \<Longrightarrow> pred_option (po E s0) (wolaj_ok E c s)"
  by (simp add: wolaj_ok_def wolaj_def Let_def po_log)

lemma po_setreply: "po E s0 s \<Longrightarrow> pred_option (po E s0) (setreply k r s)"
  unfolding setreply_def w_tablicy_def
  by (auto intro!: po_flagi_dodaj po_zmien simp: slot_pm)

lemma po_tell_vfs: "po E s0 s \<Longrightarrow> pred_option (po E s0) (tell_vfs E rmp m s)"
  unfolding tell_vfs_def by (auto intro!: pred_bindI[OF po_wolaj_ok] po_flagi_dodaj)

lemma po_tell_cv: "po E s0 s \<Longrightarrow> pred_option (po E s0) (tell_cv E m t s)"
  unfolding tell_cv_def by (auto intro!: po_wolaj_ok simp: Let_def)

lemma po_vm_notify: "po E s0 s \<Longrightarrow> po E s0 (vm_notify_sig_wrapper E ep s)"
  unfolding vm_notify_sig_wrapper_def by (auto intro!: po_wolaj simp: Let_def)

lemma po_unpause: "po E s0 s \<Longrightarrow> pred_option (po E s0) (unpause E rmp s)"
proof -
  assume s: "po E s0 s"
  have reszta: "pred_option (po E s0) (do { s \<leftarrow> tell_vfs E rmp m t; s \<leftarrow> tell_cv E m 5 s;
      Some (vm_notify_sig_wrapper E (mp_endpoint (mproc s ! rmp)) s) })" if "po E s0 t" for t m
    by (rule pred_bindI[OF po_tell_vfs[OF that]], rule pred_bindI[OF po_tell_cv]) (auto intro: po_vm_notify)
  have w: "po E s0 (snd (wolaj E c s))" for c using s by (rule po_wolaj)
  show ?thesis
    unfolding unpause_def
    using s w reszta
    by (auto simp: Let_def split_def intro!: pred_bindI[OF po_wolaj_ok] po_flagi_dodaj reszta)
qed

text \<open>\<^verbatim>\<open>unpause\<close> and what it calls change nothing but flags.\<close>

definition flagi_tylko :: "pm \<Rightarrow> pm \<Rightarrow> bool" where
  "flagi_tylko s t \<longleftrightarrow> length (mproc t) = length (mproc s) \<and>
     (\<forall>i. mproc t ! i = (mproc s ! i)\<lparr>mp_flags := mp_flags (mproc t ! i)\<rparr>)"

lemma flagi_tylko_flagi_dodaj: "flagi_tylko s0 s \<Longrightarrow> flagi_tylko s0 (flagi_dodaj i F s)"
proof -
  assume s: "flagi_tylko s0 s"
  have "mproc (flagi_dodaj i F s) ! j = (mproc s0 ! j)\<lparr>mp_flags := mp_flags (mproc (flagi_dodaj i F s) ! j)\<rparr>" for j
  proof (cases "j = i \<and> i < length (mproc s)")
    case True
    have "mproc s ! i = (mproc s0 ! i)\<lparr>mp_flags := mp_flags (mproc s ! i)\<rparr>" using s by (simp add: flagi_tylko_def)
    then have "(mproc s ! i)\<lparr>mp_flags := g\<rparr> = (mproc s0 ! i)\<lparr>mp_flags := g\<rparr>" for g
      by (metis mproc.surjective mproc.update_convs(5))
    with True show ?thesis by (simp add: flagi_dodaj_def zmien_def)
  next
    case False
    then have "mproc (flagi_dodaj i F s) ! j = mproc s ! j"
      by (cases "i < length (mproc s)") (auto simp: flagi_dodaj_def zmien_def list_update_beyond)
    with s show ?thesis by (simp add: flagi_tylko_def)
  qed
  with s show ?thesis by (simp add: flagi_tylko_def flagi_dodaj_def zmien_def)
qed

lemma flagi_tylko_wolaj:
  "flagi_tylko s0 s \<Longrightarrow> flagi_tylko s0 (snd (wolaj E c s))"
  "flagi_tylko s0 s \<Longrightarrow> pred_option (flagi_tylko s0) (wolaj_ok E c s)"
  by (auto simp: flagi_tylko_def wolaj_def wolaj_ok_def Let_def)

lemma flagi_tylko_tell:
  "flagi_tylko s0 s \<Longrightarrow> pred_option (flagi_tylko s0) (tell_vfs E rmp m s)"
  "flagi_tylko s0 s \<Longrightarrow> pred_option (flagi_tylko s0) (tell_cv E m t s)"
  "flagi_tylko s0 s \<Longrightarrow> flagi_tylko s0 (vm_notify_sig_wrapper E ep s)"
  by (auto simp: tell_vfs_def tell_cv_def vm_notify_sig_wrapper_def Let_def
      intro!: pred_bindI[OF flagi_tylko_wolaj(2)] flagi_tylko_wolaj flagi_tylko_flagi_dodaj)

lemma flagi_tylko_unpause: "pred_option (flagi_tylko s) (unpause E rmp s)"
proof -
  have s: "flagi_tylko s s" by (simp add: flagi_tylko_def)
  have reszta: "pred_option (flagi_tylko s) (do { s \<leftarrow> tell_vfs E rmp m t; s \<leftarrow> tell_cv E m 5 s;
      Some (vm_notify_sig_wrapper E (mp_endpoint (mproc s ! rmp)) s) })" if "flagi_tylko s t" for t m
    by (rule pred_bindI[OF flagi_tylko_tell(1)[OF that]], rule pred_bindI[OF flagi_tylko_tell(2)])
      (auto intro: flagi_tylko_tell(3))
  show ?thesis
    unfolding unpause_def using s
    by (auto simp: Let_def split_def intro!: pred_bindI[OF flagi_tylko_wolaj(2)] flagi_tylko_flagi_dodaj
        flagi_tylko_wolaj(1) reszta)
qed

lemma flagi_tylko_catch: "flagi_tylko s t \<Longrightarrow> mp_catch (mproc t ! i) = mp_catch (mproc s ! i)"
  unfolding flagi_tylko_def by (metis mproc.select_convs(23) mproc.surjective mproc.update_convs(5))

lemma bez_kill_ustaw_obsluge:
  "signo \<noteq> SIGKILL E \<Longrightarrow> bez_kill E p \<Longrightarrow> bez_kill E (ustaw_obsluge E signo p)"
  by (auto simp: bez_kill_def ustaw_obsluge_def Let_def)

lemma ustaw_obsluge_pola [simp]:
  "mp_endpoint (ustaw_obsluge E n p) = mp_endpoint p" "mp_name (ustaw_obsluge E n p) = mp_name p"
  "mp_realuid (ustaw_obsluge E n p) = mp_realuid p" "mp_effuid (ustaw_obsluge E n p) = mp_effuid p"
  "mp_flags (ustaw_obsluge E n p) = mp_flags p" "mp_parent (ustaw_obsluge E n p) = mp_parent p"
  by (simp_all add: ustaw_obsluge_def Let_def)

lemma po_sig_send:
  assumes s: "po E s0 s" and n: "rmp < length (mproc s) \<Longrightarrow> bez_kill E (mproc s ! rmp) \<Longrightarrow> signo \<noteq> SIGKILL E"
  shows "pred_option (\<lambda>(b, t). po E s0 t) (sig_send E rmp signo s)"
proof -
  have 1: "po E s0 (snd (wolaj E c (zmien rmp (ustaw_obsluge E signo) s)))" for c
    by (intro po_wolaj po_zmien s) (use n in \<open>auto simp: slot_po_def zyje_def bez_kill_ustaw_obsluge\<close>)
  have 2: "pred_option (\<lambda>(b, t). po E s0 t) (do {
      t \<leftarrow> (if \<not> flagi_zadna rmp {PAUSED, WAITING, SIGSUSPENDED} t
           then setreply (int rmp) EINTR (flagi_zdejmij rmp {PAUSED, WAITING, SIGSUSPENDED} t) else Some t);
      t \<leftarrow> (if flaga_jest rmp UNPAUSED t \<and> \<not> flaga_jest rmp PM_SIG_PENDING t
           then wolaj_ok E (Sys_resume (mp_endpoint (mproc t ! rmp))) (flagi_zdejmij rmp {UNPAUSED} t) else Some t);
      Some (True, t) })" if t: "po E s0 t" for t
    by (rule pred_bindI[where P = "po E s0"], use t in \<open>simp add: po_setreply po_flagi_zdejmij\<close>,
        rule pred_bindI[where P = "po E s0"]) (auto intro: po_wolaj_ok po_flagi_zdejmij)
  show ?thesis
    unfolding sig_send_def using 1 2 by (auto simp: Let_def split_def)
qed

lemma po_odloz: "po E s0 s \<Longrightarrow> po E s0 (odloz rmp signo ksig s)"
  unfolding odloz_def by (rule po_zmien) (auto simp: slot_pm)

lemma po_cleanup: "po E s0 s \<Longrightarrow> po E s0 (cleanup rmp s)"
proof -
  assume "po E s0 s"
  then have "po E s0 (zmien rmp (\<lambda>p. p\<lparr>mp_pid := 0, mp_flags := {}, mp_child_utime := 0, mp_child_stime := 0\<rparr>) s)"
    by (rule po_zmien) (auto simp: slot_pm)
  then show ?thesis unfolding cleanup_def by (rule po_pola[rotated 3, where c = "[]"]) (simp_all add: zmien_def)
qed

lemma po_tell_parent: "po E s0 s \<Longrightarrow> pred_option (po E s0) (tell_parent child s)"
  unfolding tell_parent_def w_tablicy_def
  by (auto simp: Let_def intro!: pred_bindI[OF po_setreply] po_flagi_dodaj po_flagi_zdejmij po_zmien)
    (auto simp: slot_pm)

lemma po_tell_tracer: "po E s0 s \<Longrightarrow> pred_option (po E s0) (tell_tracer child s)"
  unfolding tell_tracer_def w_tablicy_def
  by (auto simp: Let_def intro!: pred_bindI[OF po_setreply] po_flagi_dodaj po_flagi_zdejmij po_zmien)
    (auto simp: slot_pm)

lemma po_zawiadom: "po E s0 s \<Longrightarrow> pred_option (po E s0) (zawiadom_o_koncu E rmp x d s)"
  unfolding zawiadom_o_koncu_def Let_def
  by (rule pred_bindI[OF po_tell_vfs], assumption, rule pred_bindI[OF po_tell_cv], assumption,
      rule pred_bindI[where P = "po E s0"])
    (auto intro!: po_wolaj_ok po_zmien simp: slot_pm)

section \<open>Functions that send signals\<close>

text \<open>
  The functions outside the sources that are called during the recursion: setting a timer and
  stopping a process for its tracer keep the relation and free no slot.
\<close>

definition te_same_sloty :: "pm \<Rightarrow> pm \<Rightarrow> bool" where
  "te_same_sloty s t \<longleftrightarrow> length (mproc t) = length (mproc s) \<and>
     (\<forall>i < length (mproc s). flaga_jest i IN_USE t = flaga_jest i IN_USE s)"

definition obce_ok :: "pm_env \<Rightarrow> pm_obce \<Rightarrow> bool" where
  "obce_ok E B \<longleftrightarrow> (\<forall>i t s. pred_option (\<lambda>s'. po E s s' \<and> te_same_sloty s s') (set_alarm B i t s)) \<and>
     (\<forall>i n s. pred_option (\<lambda>s'. po E s s' \<and> te_same_sloty s s') (stop_proc B i n s))"

lemma obce_okD:
  assumes "obce_ok E B" "po E s0 s"
  shows "pred_option (po E s0) (set_alarm B i t s)" "pred_option (po E s0) (stop_proc B i n s)"
proof -
  have "pred_option (\<lambda>s'. po E s s' \<and> te_same_sloty s s') (set_alarm B i t s)"
    "pred_option (\<lambda>s'. po E s s' \<and> te_same_sloty s s') (stop_proc B i n s)"
    using assms(1) by (simp_all add: obce_ok_def)
  then show "pred_option (po E s0) (set_alarm B i t s)" "pred_option (po E s0) (stop_proc B i n s)"
    using po_trans[OF assms(2)] by (auto elim: pred_mono)
qed

lemma po_rozlicz:
  assumes B: "obce_ok E B" and s: "po E s0 s"
  shows "pred_option (po E s0) (rozlicz E B rmp s)"
proof -
  have czas: "po E s0 (zmien i (\<lambda>p. p\<lparr>mp_child_utime := f p\<rparr>) t)" "po E s0 (zmien i (\<lambda>p. p\<lparr>mp_child_stime := f p\<rparr>) t)"
    if "po E s0 t" for i f t
    using that by (auto intro!: po_zmien simp: slot_pm)
  show ?thesis
    unfolding rozlicz_def Let_def split_def w_tablicy_def
    by (rule pred_bindI[where P = "po E s0"], use s obce_okD(1)[OF B s] in simp,
        rule pred_bindI[OF po_wolaj_ok], assumption)
      (auto intro!: pred_bindI[OF po_wolaj_ok] po_vm_notify czas)
qed

locale sygnal_po =
  fixes E :: pm_env and B :: pm_obce and sig :: sygnal_f
  assumes sig_po: "obce_ok E B \<Longrightarrow> po E s0 s \<Longrightarrow> pred_option (po E s0) (sig rmp signo tr ks s)"
begin

lemma po_check_parent:
  "obce_ok E B \<Longrightarrow> po E s0 s \<Longrightarrow> pred_option (po E s0) (check_parent E sig child tc s)"
  unfolding check_parent_def w_tablicy_def
  by (auto intro!: pred_bindI[OF po_tell_parent] sig_po po_cleanup)

lemma po_zombify: "obce_ok E B \<Longrightarrow> po E s0 s \<Longrightarrow> pred_option (po E s0) (zombify E sig rmp s)"
  unfolding zombify_def w_tablicy_def Let_def
  by (auto intro!: pred_bindI[OF po_tell_tracer] po_check_parent po_flagi_dodaj)

lemma po_tracer_died: "obce_ok E B \<Longrightarrow> po E s0 s \<Longrightarrow> pred_option (po E s0) (tracer_died E sig child s)"
  unfolding tracer_died_def Let_def
  by (auto intro!: sig_po po_check_parent po_flagi_dodaj po_flagi_zdejmij po_zmien)
    (auto simp: slot_pm)

lemma po_oddaj_dziecko:
  assumes B: "obce_ok E B" and s: "po E s0 s"
  shows "pred_option (po E s0) (oddaj_dziecko E sig p i s)"
proof -
  have dalej: "pred_option (po E s0) (if mp_parent (mproc t ! i) = int p then
      let t = zmien i (\<lambda>p. p\<lparr>mp_parent := INIT_PROC_NR E\<rparr>) t
      in if flaga_jest i ZOMBIE t then check_parent E sig i True t else Some t else Some t)"
    if "po E s0 t" for t
  proof -
    have "po E s0 (zmien i (\<lambda>p. p\<lparr>mp_parent := INIT_PROC_NR E\<rparr>) t)"
      using that by (rule po_zmien) (simp add: slot_pm)
    with that B show ?thesis by (simp add: Let_def po_check_parent)
  qed
  have "pred_option (po E s0) (if mp_tracer (mproc s ! i) = int p then tracer_died E sig i s else Some s)"
    using B s by (simp add: po_tracer_died)
  with s dalej show ?thesis unfolding oddaj_dziecko_def by (auto intro: pred_bindI)
qed

lemma po_check_sig_petla:
  assumes "obce_ok E B"
  shows "po E s0 s \<Longrightarrow> pred_option (\<lambda>(c, e, t). po E s0 t) (check_sig_petla E sig q n k i c e s)"
  by (induction i arbitrary: c e s)
    (auto simp: case_prod_beta' intro!: pred_bindI[OF sig_po[OF assms]])

lemma po_check_sig:
  assumes "obce_ok E B" "po E s0 s"
  shows "pred_option (\<lambda>(r, t). po E s0 t) (check_sig E sig q n k s)"
  unfolding check_sig_def Let_def
  using assms(2) by (auto intro!: pred_bindI[OF po_check_sig_petla[OF assms(1)]] po_wolaj)

lemma po_exit_proc:
  assumes B: "obce_ok E B" and s: "po E s0 s"
  shows "pred_option (po E s0) (exit_proc_tresc E B sig rmp x d s)"
proof -
  have cs: "pred_option (po E s0) (map_option snd (check_sig E sig q n k t))" if "po E s0 t" for q n k t
    using po_check_sig[OF B that, of q n k] by (cases "check_sig E sig q n k t") auto
  have petla: "pred_option (po E s0) (FOR 0 m (oddaj_dziecko E sig rmp) t)" if "po E s0 t" for m t
    using that B by (intro pred_FOR po_oddaj_dziecko)
  have zmb: "pred_option (po E s0) (if d' then zombify E sig rmp t else Some t)" if "po E s0 t" for d' t
    using that B by (simp add: po_zombify)
  show ?thesis
    unfolding exit_proc_tresc_def Let_def
    by (rule pred_bindI[OF po_rozlicz[OF B s]])
      (auto intro!: po_drukuj pred_bindI[OF po_zawiadom] pred_bindI[OF zmb] pred_bindI[OF petla] petla cs)
qed

end

section \<open>The recursion\<close>

text \<open>The contract of \<^verbatim>\<open>exit_proc\<close> that \<^verbatim>\<open>sig_proc\<close> relies on.\<close>

locale koniec_po =
  fixes E :: pm_env and B :: pm_obce and ex :: "nat \<Rightarrow> int \<Rightarrow> bool \<Rightarrow> pm \<Rightarrow> pm option"
  assumes ex_po: "obce_ok E B \<Longrightarrow> po E s0 s \<Longrightarrow> pred_option (po E s0) (ex rmp x d s)"
begin

lemma po_sig_proc_exit:
  assumes "obce_ok E B" "po E s0 s"
  shows "pred_option (po E s0) (sig_proc_exit E ex rmp signo s)"
proof -
  have "po E s0 (zmien rmp (\<lambda>p. p\<lparr>mp_sigstatus := na_char signo\<rparr>) s)"
    using assms(2) by (rule po_zmien) (auto simp: slot_pm)
  with assms(1) show ?thesis
    unfolding sig_proc_exit_def Let_def by (auto intro!: ex_po po_wolaj po_drukuj)
qed

lemma po_po_unpause:
  assumes B: "obce_ok E B" and t: "po E s0 t"
    and c: "rmp < length (mproc t) \<Longrightarrow> signo \<in> mp_catch (mproc t ! rmp)"
  shows "pred_option (po E s0) (if \<not> flaga_jest rmp UNPAUSED t then Some (odloz rmp signo ksig t)
    else do {
      (ok, t) \<leftarrow> sig_send E rmp signo t;
      if ok then Some t else sig_proc_exit E ex rmp signo (drukuj x (y t) t) })"
proof -
  have "pred_option (\<lambda>(b, t'). po E s0 t') (sig_send E rmp signo t)"
    using c by (intro po_sig_send[OF t]) (auto simp: bez_kill_def)
  with B t show ?thesis by (auto intro!: po_odloz po_sig_proc_exit po_drukuj elim!: pred_bindI)
qed

lemma po_zlap:
  assumes B: "obce_ok E B" and s: "po E s0 s" and c: "signo \<in> mp_catch (mproc s ! rmp)"
  shows "pred_option (po E s0) (do {
    t \<leftarrow> (if \<not> flaga_jest rmp UNPAUSED s then unpause E rmp s else Some s);
    if \<not> flaga_jest rmp UNPAUSED t then Some (odloz rmp signo ksig t)
    else do {
      (ok, t) \<leftarrow> sig_send E rmp signo t;
      if ok then Some t else sig_proc_exit E ex rmp signo (drukuj x (y t) t)
    } })"
proof (rule pred_bindI)
  show "pred_option (\<lambda>t. po E s0 t \<and> signo \<in> mp_catch (mproc t ! rmp))
      (if \<not> flaga_jest rmp UNPAUSED s then unpause E rmp s else Some s)"
  proof (cases "flaga_jest rmp UNPAUSED s")
    case False
    with c flagi_tylko_unpause[of s E rmp] po_unpause[OF s, of rmp] show ?thesis
      by (cases "unpause E rmp s") (auto dest: flagi_tylko_catch)
  qed (use s c in simp)
qed (use B po_po_unpause in blast)

lemma po_sig_proc_tresc:
  assumes B: "obce_ok E B" and s: "po E s0 s"
  shows "pred_option (po E s0) (sig_proc_tresc E B ex rmp signo tr ks s)"
proof -
  have slad: "po E s0 (zmien rmp (\<lambda>p. p\<lparr>mp_sigtrace := insert signo (mp_sigtrace p)\<rparr>) s)"
    using s by (rule po_zmien) (auto simp: slot_pm)
  have vfs: "pred_option (po E s0) (do { s \<leftarrow> wolaj_ok E c (odloz rmp signo ks s); Some (flagi_dodaj rmp {PM_SIG_PENDING} s) })"
    for c by (rule pred_bindI[OF po_wolaj_ok[OF po_odloz[OF s]]]) (simp add: po_flagi_dodaj)
  show ?thesis
    unfolding sig_proc_tresc_def Let_def
    by (intro pred_if po_zlap[OF B s] vfs obce_okD(2)[OF B] po_sig_proc_exit[OF B] slad s po_wolaj)
      (simp_all add: s slad po_odloz po_wolaj po_log)
qed

end

lemma sygnal_po_n: "sygnal_po E B (sig_proc_n brak_wyniku E B f)"
proof (induction f)
  case 0
  show ?case by unfold_locales (simp add: brak_wyniku_def)
next
  case (Suc f)
  have "koniec_po E B (exit_proc_tresc E B (sig_proc_n brak_wyniku E B f))"
    using sygnal_po.po_exit_proc[OF Suc] by unfold_locales
  from koniec_po.po_sig_proc_tresc[OF this] show ?case by unfold_locales simp
qed

interpretation sp: sygnal_po E B "sig_proc E B" for E B
  using sygnal_po.sig_po[OF sygnal_po_n] by unfold_locales (simp add: sig_proc_def del: sig_proc_n.simps)

interpretation ep: koniec_po E B "exit_proc E B" for E B
  using sp.po_exit_proc by unfold_locales (simp add: exit_proc_def)

end
