(* ===== verification/Pm_Paliwo.thy ===== *)
theory Pm_Paliwo
  imports Pm_Zmiany
begin

text \<open>
  The bound on the recursion between \<^verbatim>\<open>sig_proc\<close> and \<^verbatim>\<open>exit_proc\<close> does not matter: \<^verbatim>\<open>exit_proc\<close> marks its
  process as exiting before it sends a signal, no function revives a process, so a call that
  starts with fewer living processes than the bound never reaches it.
\<close>

section \<open>The number of living processes\<close>

definition liczba_zywych :: "pm \<Rightarrow> nat" where
  "liczba_zywych s = length (filter zyje (mproc s))"

lemma liczba_zywych_card: "liczba_zywych s = card {i. i < length (mproc s) \<and> zyje (mproc s ! i)}"
  by (simp add: liczba_zywych_def length_filter_conv_card)

lemma po_zyje: "po E s t \<Longrightarrow> i < length (mproc s) \<Longrightarrow> zyje (mproc t ! i) \<Longrightarrow> zyje (mproc s ! i)"
  by (auto simp: po_def slot_po_def)

lemma po_liczba:
  assumes "po E s t"
  shows "liczba_zywych t \<le> liczba_zywych s"
proof -
  have "{i. i < length (mproc t) \<and> zyje (mproc t ! i)} \<subseteq> {i. i < length (mproc s) \<and> zyje (mproc s ! i)}"
    using assms po_zyje[OF assms] by (auto simp: po_def)
  then show ?thesis unfolding liczba_zywych_card by (rule card_mono[rotated]) simp
qed

lemma po_liczba_mniej:
  assumes p: "po E s t" and i: "i < length (mproc s)" "zyje (mproc s ! i)" "\<not> zyje (mproc t ! i)"
  shows "liczba_zywych t < liczba_zywych s"
proof -
  have "{i. i < length (mproc t) \<and> zyje (mproc t ! i)} \<subset> {i. i < length (mproc s) \<and> zyje (mproc s ! i)}"
    using p i po_zyje[OF p] by (auto simp: po_def)
  then show ?thesis unfolding liczba_zywych_card by (rule psubset_card_mono[rotated]) simp
qed

lemma liczba_zywych_tablica: "liczba_zywych s \<le> length (mproc s)"
  by (simp add: liczba_zywych_def)

section \<open>Equal on small states, equal results\<close>

lemma bind_zgodne:
  assumes "pred_option P x" "\<And>y. P y \<Longrightarrow> f y = g y"
  shows "Option.bind x f = Option.bind x g"
  using assms by (cases x) auto

lemma FOR_zgodne:
  assumes "P s" "\<And>i t. i < n \<Longrightarrow> P t \<Longrightarrow> pred_option P (body i t)"
    and "\<And>i t. i < n \<Longrightarrow> P t \<Longrightarrow> body i t = body' i t"
  shows "FOR a n body s = FOR a n body' s"
  using assms
proof (induction a n body s rule: FOR.induct)
  case (1 a n body s)
  show ?case
  proof (cases "a < n")
    case True
    show ?thesis
    proof (cases "body a s")
      case (Some t)
      then have "P t" using True "1.prems" by (metis pred_SomeD)
      then have "FOR (Suc a) n body t = FOR (Suc a) n body' t"
        using "1.IH"[OF True Some] "1.prems"(2,3) by blast
      moreover have "body' a s = Some t" using Some True "1.prems"(1,3) by metis
      ultimately show ?thesis using True Some by (simp add: FOR_step)
    next
      case None
      moreover have "body' a s = None" using None True "1.prems"(1,3) by metis
      ultimately show ?thesis using True by (simp add: FOR_step)
    qed
  qed simp
qed

locale sygnal_zgodny = sygnal_po +
  fixes sig2 :: sygnal_f and N :: nat
  assumes zgodne: "obce_ok E B \<Longrightarrow> rmp < length (mproc s) \<Longrightarrow> liczba_zywych s < N \<Longrightarrow>
    sig rmp signo tr ks s = sig2 rmp signo tr ks s"
begin

lemma check_parent_zgodne:
  "obce_ok E B \<Longrightarrow> liczba_zywych s < N \<Longrightarrow> check_parent E sig c tc s = check_parent E sig2 c tc s"
  unfolding check_parent_def w_tablicy_def by (auto simp: zgodne)

lemma zombify_zgodne:
  assumes B: "obce_ok E B" and N: "liczba_zywych s < N"
  shows "zombify E sig rmp s = zombify E sig2 rmp s"
proof -
  have fl: "po E s (flagi_dodaj rmp F s)" if "IN_USE \<notin> F" for F using that by (simp add: po_flagi_dodaj)
  have cp: "check_parent E sig rmp tc t = check_parent E sig2 rmp tc t" if "po E s t" for tc t
    using B po_liczba[OF that] N by (simp add: check_parent_zgodne)
  have "Option.bind (tell_tracer rmp t) (check_parent E sig rmp False) =
      Option.bind (tell_tracer rmp t) (check_parent E sig2 rmp False)" if "po E s t" for t
    using po_tell_tracer[OF that] cp by (rule bind_zgodne)
  with cp fl show ?thesis by (auto simp: zombify_def w_tablicy_def Let_def)
qed

lemma tracer_died_zgodne:
  assumes B: "obce_ok E B" and N: "liczba_zywych s < N" and c: "child < length (mproc s)"
  shows "tracer_died E sig child s = tracer_died E sig2 child s"
proof -
  let ?s = "flagi_zdejmij child {TRACE_EXIT} (zmien child (\<lambda>p. p\<lparr>mp_tracer := NO_TRACER E\<rparr>) s)"
  have p: "po E s ?s"
    by (auto intro!: po_flagi_zdejmij po_zmien simp: slot_pm)
  then have "po E s (flagi_dodaj child {ZOMBIE} (flagi_zdejmij child {TRACE_ZOMBIE} ?s))"
    by (auto intro!: po_flagi_zdejmij po_flagi_dodaj)
  from po_liczba[OF this] po_liczba[OF p] N have n: "liczba_zywych ?s < N"
    "liczba_zywych (flagi_dodaj child {ZOMBIE} (flagi_zdejmij child {TRACE_ZOMBIE} ?s)) < N" by auto
  have "child < length (mproc ?s)" using c p by (simp add: po_def)
  with n B show ?thesis
    unfolding tracer_died_def Let_def by (simp add: zgodne check_parent_zgodne)
qed

lemma oddaj_dziecko_zgodne:
  assumes B: "obce_ok E B" and N: "liczba_zywych s < N" and i: "i < length (mproc s)"
  shows "oddaj_dziecko E sig p i s = oddaj_dziecko E sig2 p i s"
proof -
  have cp: "check_parent E sig i True (zmien i (\<lambda>p. p\<lparr>mp_parent := INIT_PROC_NR E\<rparr>) t) =
      check_parent E sig2 i True (zmien i (\<lambda>p. p\<lparr>mp_parent := INIT_PROC_NR E\<rparr>) t)" if "po E s t" for t
  proof -
    have "po E s (zmien i (\<lambda>p. p\<lparr>mp_parent := INIT_PROC_NR E\<rparr>) t)"
      using that by (rule po_zmien) (simp add: slot_pm)
    from po_liczba[OF this] B N show ?thesis by (simp add: check_parent_zgodne)
  qed
  have "pred_option (po E s) (if mp_tracer (mproc s ! i) = int p then tracer_died E sig i s else Some s)"
    using B by (simp add: po_tracer_died)
  then have "Option.bind (if mp_tracer (mproc s ! i) = int p then tracer_died E sig i s else Some s) (\<lambda>s.
        if mp_parent (mproc s ! i) = int p then
          let s = zmien i (\<lambda>p. p\<lparr>mp_parent := INIT_PROC_NR E\<rparr>) s in
          if flaga_jest i ZOMBIE s then check_parent E sig i True s else Some s
        else Some s) =
      Option.bind (if mp_tracer (mproc s ! i) = int p then tracer_died E sig i s else Some s) (\<lambda>s.
        if mp_parent (mproc s ! i) = int p then
          let s = zmien i (\<lambda>p. p\<lparr>mp_parent := INIT_PROC_NR E\<rparr>) s in
          if flaga_jest i ZOMBIE s then check_parent E sig2 i True s else Some s
        else Some s)"
    by (rule bind_zgodne) (simp add: Let_def cp)
  then show ?thesis
    unfolding oddaj_dziecko_def by (simp add: tracer_died_zgodne[OF B N i])
qed

lemma check_sig_petla_zgodne:
  assumes B: "obce_ok E B"
  shows "i \<le> length (mproc s) \<Longrightarrow> liczba_zywych s < N \<Longrightarrow>
    check_sig_petla E sig q n k i c e s = check_sig_petla E sig2 q n k i c e s"
proof (induction i arbitrary: c e s)
  case (Suc i)
  have po: "pred_option (po E s) (sig i n True k s)" using B by (simp add: sig_po)
  have dalej: "check_sig_petla E sig q n k i (c + 1) e t = check_sig_petla E sig2 q n k i (c + 1) e t"
    if "po E s t" for t
    using Suc that po_liczba[OF that] by (intro Suc.IH) (auto simp: po_def)
  have ih: "check_sig_petla E sig q n k i c' e' s = check_sig_petla E sig2 q n k i c' e' s" for c' e'
    using Suc by (intro Suc.IH) auto
  have zg: "sig i n True k s = sig2 i n True k s" using Suc B by (simp add: zgodne)
  have "Option.bind (sig i n True k s) (\<lambda>s. if q > 0 then Some (c + 1, e, s) else check_sig_petla E sig q n k i (c + 1) e s) =
      Option.bind (sig2 i n True k s) (\<lambda>s. if q > 0 then Some (c + 1, e, s) else check_sig_petla E sig2 q n k i (c + 1) e s)"
    unfolding zg[symmetric] by (rule bind_zgodne[OF po]) (simp add: dalej)
  then show ?case by (simp only: check_sig_petla.simps(2) ih)
qed simp

lemma check_sig_zgodne:
  assumes B: "obce_ok E B" and N: "liczba_zywych s < N"
  shows "check_sig E sig q n k s = check_sig E sig2 q n k s"
proof -
  have "check_sig_petla E sig q n k (length (mproc t)) c e t = check_sig_petla E sig2 q n k (length (mproc t)) c e t"
    if "po E s t" for t c e
    using po_liczba[OF that] N by (intro check_sig_petla_zgodne[OF B]) auto
  then show ?thesis unfolding check_sig_def Let_def by (simp add: po_wolaj)
qed

lemma exit_proc_zgodne:
  assumes B: "obce_ok E B" and N: "liczba_zywych s0 \<le> N" and p: "po E s0 s"
    and r: "rmp < length (mproc s0)" "zyje (mproc s0 ! rmp)"
  shows "exit_proc_tresc E B sig rmp x d s = exit_proc_tresc E B sig2 rmp x d s"
proof -
  have mniej: "liczba_zywych u < N" if "po E s0 t" "zawiadom_o_koncu E rmp x d' t = Some u'" "po E u' u" for t u' u d'
  proof -
    have u': "po E s0 u'" using po_zawiadom[OF that(1)] that(2) by (metis pred_SomeD)
    have "\<not> zyje (mproc u' ! rmp)"
      using that(2) r(1) u' by (auto simp: zawiadom_o_koncu_def Let_def bind_eq_Some_conv zyje_def zmien_def po_def
          nth_list_update)
    with r po_zyje[OF that(3)] u' have "\<not> zyje (mproc u ! rmp)" by (auto simp: po_def)
    with po_liczba_mniej[OF po_trans[OF u' that(3)] r] N show ?thesis by simp
  qed
  let ?ogon = "\<lambda>d' sg g u. do {
      s \<leftarrow> (if \<not> d' then zombify E sg rmp u else Some u);
      s \<leftarrow> FOR 0 (length (mproc s)) (oddaj_dziecko E sg rmp) s;
      if g \<noteq> 0 then map_option snd (check_sig E sg (- g) (SIGHUP E) False s) else Some s }"
  have ogon: "?ogon d' sig g u = ?ogon d' sig2 g u" if u: "\<And>t. po E u t \<Longrightarrow> liczba_zywych t < N" for d' g u
  proof -
    have z: "zombify E sig rmp u = zombify E sig2 rmp u" using zombify_zgodne[OF B u] by simp
    have po_z: "pred_option (po E u) (if \<not> d' then zombify E sig rmp u else Some u)"
      using po_zombify[OF B] by simp
    have f: "FOR 0 (length (mproc t)) (oddaj_dziecko E sig rmp) t = FOR 0 (length (mproc t)) (oddaj_dziecko E sig2 rmp) t"
      if "po E u t" for t
      using that u by (intro FOR_zgodne[where P = "\<lambda>t'. po E u t' \<and> length (mproc t') = length (mproc t)"])
        (auto intro!: pred_mono[OF po_oddaj_dziecko[OF B]] oddaj_dziecko_zgodne[OF B] simp: po_def)
    have po_f: "pred_option (po E u) (FOR 0 m (oddaj_dziecko E sig rmp) t)" if "po E u t" for m t
      using that B by (intro pred_FOR po_oddaj_dziecko)
    have cs: "check_sig E sig q n k t = check_sig E sig2 q n k t" if "po E u t" for q n k t
      using check_sig_zgodne[OF B u[OF that]] .
    have "?ogon d' sig g u = Option.bind (if \<not> d' then zombify E sig rmp u else Some u) (\<lambda>s.
        Option.bind (FOR 0 (length (mproc s)) (oddaj_dziecko E sig rmp) s) (\<lambda>s.
          if g \<noteq> 0 then map_option snd (check_sig E sig2 (- g) (SIGHUP E) False s) else Some s))"
      by (rule bind_zgodne[OF po_z], rule bind_zgodne[OF po_f]) (simp_all add: cs)
    also have "\<dots> = Option.bind (if \<not> d' then zombify E sig rmp u else Some u) (\<lambda>s.
        Option.bind (FOR 0 (length (mproc s)) (oddaj_dziecko E sig2 rmp) s) (\<lambda>s.
          if g \<noteq> 0 then map_option snd (check_sig E sig2 (- g) (SIGHUP E) False s) else Some s))"
      by (rule bind_zgodne[OF po_z]) (simp add: f)
    finally show ?thesis by (simp add: z)
  qed
  have zaw: "Option.bind (zawiadom_o_koncu E rmp x d' t) (?ogon d' sig g) =
      Option.bind (zawiadom_o_koncu E rmp x d' t) (?ogon d' sig2 g)" if t: "po E s0 t" for d' t g
  proof (cases "zawiadom_o_koncu E rmp x d' t")
    case (Some u)
    with ogon[of u d' g] mniej[OF t Some] show ?thesis by simp
  qed simp
  show ?thesis
    unfolding exit_proc_tresc_def Let_def
    by (rule bind_zgodne[OF po_rozlicz[OF B p]]) (simp only: zaw)
qed

lemma sig_proc_exit_zgodne:
  assumes B: "obce_ok E B" and N: "liczba_zywych s0 \<le> N" and p: "po E s0 s"
    and r: "rmp < length (mproc s0)" "zyje (mproc s0 ! rmp)"
  shows "sig_proc_exit E (exit_proc_tresc E B sig) rmp n s = sig_proc_exit E (exit_proc_tresc E B sig2) rmp n s"
proof -
  let ?s = "zmien rmp (\<lambda>p. p\<lparr>mp_sigstatus := na_char n\<rparr>) s"
  have s: "po E s0 ?s"
    using p by (rule po_zmien) (auto simp: slot_pm)
  then have t: "po E s0 (snd (wolaj E c (drukuj x y ?s)))" for c x y by (simp add: po_wolaj po_drukuj)
  note ex = exit_proc_zgodne[OF B N _ r]
  show ?thesis
    unfolding sig_proc_exit_def Let_def by (simp add: ex[OF s] ex[OF t])
qed

lemma sig_proc_tresc_zgodne:
  assumes B: "obce_ok E B" and N: "liczba_zywych s \<le> N" and r: "rmp < length (mproc s)"
  shows "sig_proc_tresc E B (exit_proc_tresc E B sig) rmp n tr ks s =
    sig_proc_tresc E B (exit_proc_tresc E B sig2) rmp n tr ks s"
proof (cases "zywy rmp s")
  case True
  then have z: "zyje (mproc s ! rmp)" by (simp add: zywy_def zyje_def flaga_jest_def)
  note ex = sig_proc_exit_zgodne[OF B N _ r z]
  have ex1: "sig_proc_exit E (exit_proc_tresc E B sig) rmp n (if b then snd (wolaj E c s) else s) =
      sig_proc_exit E (exit_proc_tresc E B sig2) rmp n (if b then snd (wolaj E c s) else s)"
    "sig_proc_exit E (exit_proc_tresc E B sig) rmp n s = sig_proc_exit E (exit_proc_tresc E B sig2) rmp n s" for b c
    by (simp_all add: ex po_wolaj)
  have un: "pred_option (\<lambda>t. po E s t \<and> mp_catch (mproc t ! rmp) = mp_catch (mproc s ! rmp))
      (if \<not> flaga_jest rmp UNPAUSED s then unpause E rmp s else Some s)"
    using flagi_tylko_unpause[of s E rmp] po_unpause[of E s s rmp]
    by (cases "unpause E rmp s") (auto dest: flagi_tylko_catch)
  have snd: "Option.bind (sig_send E rmp n t) (\<lambda>(ok, u). if ok then Some u
        else sig_proc_exit E (exit_proc_tresc E B sig) rmp n (drukuj x (y u) u)) =
      Option.bind (sig_send E rmp n t) (\<lambda>(ok, u). if ok then Some u
        else sig_proc_exit E (exit_proc_tresc E B sig2) rmp n (drukuj x (y u) u))"
    if "po E s t" "n \<in> mp_catch (mproc t ! rmp)" for t x y
  proof (rule bind_zgodne)
    show "pred_option (\<lambda>(b, u). po E s u) (sig_send E rmp n t)"
      using that by (intro po_sig_send) (auto simp: bez_kill_def)
  qed (auto simp: ex po_drukuj)
  have zlap: "Option.bind (if \<not> flaga_jest rmp UNPAUSED s then unpause E rmp s else Some s) (\<lambda>t.
        if \<not> flaga_jest rmp UNPAUSED t then Some (odloz rmp n ks t)
        else Option.bind (sig_send E rmp n t) (\<lambda>(ok, u). if ok then Some u
          else sig_proc_exit E (exit_proc_tresc E B sig) rmp n (drukuj x (y u) u))) =
      Option.bind (if \<not> flaga_jest rmp UNPAUSED s then unpause E rmp s else Some s) (\<lambda>t.
        if \<not> flaga_jest rmp UNPAUSED t then Some (odloz rmp n ks t)
        else Option.bind (sig_send E rmp n t) (\<lambda>(ok, u). if ok then Some u
          else sig_proc_exit E (exit_proc_tresc E B sig2) rmp n (drukuj x (y u) u)))"
    if "n \<in> mp_catch (mproc s ! rmp)" for x y
    by (rule bind_zgodne[OF un]) (use that in \<open>simp add: snd\<close>)
  show ?thesis
    unfolding sig_proc_tresc_def Let_def by (intro if_cong refl ex1 zlap) auto
qed (simp add: sig_proc_tresc_def Let_def)

end

section \<open>Enough fuel\<close>

text \<open>The two functions differ in the depth they allow and in the outcome of a call that is too deep.\<close>

lemma sygnal_zgodny_n: "sygnal_zgodny E B (sig_proc_n brak_wyniku E B f) (sig_proc_n z E B (f + k)) f"
proof (induction f)
  case 0
  show ?case by (intro sygnal_zgodny.intro sygnal_zgodny_axioms.intro sygnal_po_n) simp
next
  case (Suc f)
  from sygnal_zgodny.sig_proc_tresc_zgodne[OF Suc] show ?case
    by (intro sygnal_zgodny.intro sygnal_zgodny_axioms.intro sygnal_po_n) simp
qed

interpretation sz: sygnal_zgodny E B "sig_proc_n brak_wyniku E B f" "sig_proc_n z E B (f + k)" f for E B f k z
  by (rule sygnal_zgodny_n)

lemma sig_proc_paliwo:
  assumes "obce_ok E B" "rmp < length (mproc s)" "liczba_zywych s < f"
  shows "sig_proc_n z E B f rmp n tr ks s = sig_proc E B rmp n tr ks s"
proof -
  let ?d = "Suc (liczba_zywych s)"
  have "sig_proc_n brak_wyniku E B ?d rmp n tr ks s = sig_proc_n y E B (?d + k) rmp n tr ks s" for y k
    using assms(1,2) by (intro sz.zgodne) auto
  from this[of z "f - ?d"] this[of brak_wyniku "Suc (length (mproc s)) - ?d"] assms(3) liczba_zywych_tablica[of s]
  show ?thesis by (simp add: sig_proc_def del: sig_proc_n.simps)
qed

lemma sygnal_zgodny_sig_proc: "sygnal_zgodny E B (sig_proc_n brak_wyniku E B f) (sig_proc E B) f"
  using sig_proc_paliwo by (intro sygnal_zgodny.intro sygnal_zgodny_axioms.intro sygnal_po_n) blast

lemma sig_proc_rozwin:
  assumes "obce_ok E B" "rmp < length (mproc s)"
  shows "sig_proc E B rmp n tr ks s = sig_proc_tresc E B (exit_proc E B) rmp n tr ks s"
  using sygnal_zgodny.sig_proc_tresc_zgodne[OF sygnal_zgodny_sig_proc assms(1) liczba_zywych_tablica assms(2)]
  by (simp add: sig_proc_def exit_proc_def)

end
