(* ===== verification/Pm_Przyklad.thy ===== *)
theory Pm_Przyklad
  imports Pm_Main Pm_Paliwo
begin

text \<open>
  An instance of the environment of the process manager and a small process table, for the
  examples: the process manager, VFS, RS, the cv server, INIT and one user process.
\<close>

definition env0 :: pm_env where
  "env0 = \<lparr>NR_PROCS = 6, NR_TASKS = 5, NR_PIDS = 30000, NR_ITIMERS = 3, NSIG = 29, INIT_PID = 1, INIT_PROC_NR = 4,
     PM_PROC_NR = 0, VFS_PROC_NR = 1, RS_PROC_NR = 2, VM_PROC_NR = 8, SCHED_PROC_NR = 9, CLOCK = - 3, NO_TRACER = 0,
     NONE = 31743, KERNEL = - 1, SUPER_USER = 0, TO_TRACEFORK = 1, WNOHANG = 1, DUMPED = 128, SIG_DFL = 0, SIG_IGN = 1,
     SA_NODEFER = 16, SA_RESETHAND = 4, SIG_BLOCK = 1, SIG_UNBLOCK = 2, SIG_SETMASK = 3, SIG_INQUIRE = 4, SIGHUP = 1,
     SIGINT = 2, SIGQUIT = 3, SIGKILL = 9, SIGTERM = 15, SIGSTOP = 17, SIGCHLD = 20, SIGWINCH = 21, SIGVTALRM = 26,
     SIGPROF = 27, SIGSNDELAY = 28, SIGS_SIGNAL_RECEIVED = 100, SIGS_IS_LETHAL = (\<lambda>n. n = 9), SIGS_IS_STACKTRACE = (\<lambda>n. n = 6),
     SIGS_IS_TERMINATION = (\<lambda>n. n = 9 \<or> n = 6), PM_EXIT = 200, PM_DUMPCORE = 201, PM_UNPAUSE = 202, PM_FORK = 203,
     PM_SRV_FORK = 204, WAIT = 7, SUSPEND = - 998, EAGAIN = - 35, ENOSYS = - 78, ECHILD = - 10, ESRCH = - 3,
     EBUSY = - 16, EFAULT = - 14, ENOMEM = - 12, EDEADEPT = - 215, PRIO_MIN = - 20, PRIO_MAX = 20, MAX_USER_Q = 0,
     MIN_USER_Q = 14, USER_Q = 7, ENDPOINT_P = (\<lambda>e. e), uid_t = (\<lambda>x. x mod 2 ^ 32),
     gid_t = (\<lambda>x. x mod 2 ^ 32), clock_t = (\<lambda>x. x mod 2 ^ 32), odp = (\<lambda>h c. 0), czasy = (\<lambda>h e. (1, 2)),
     child_ep = (\<lambda>h. 77), odczytane = (\<lambda>h a. \<lparr>sa_handler = 1234, sa_mask = {2, 9}, sa_flags = 0\<rparr>)\<rparr>"

definition obce0 :: pm_obce where
  "obce0 = \<lparr>set_alarm = (\<lambda>i t s. Some s), stop_proc = (\<lambda>i n s. Some s), check_vtimer = (\<lambda>i n s. Some s),
     exec_restart = (\<lambda>i a b c s. Some s), sched_start_user = (\<lambda>c i s. Some (0, s))\<rparr>"

definition slot0 :: "string \<Rightarrow> int \<Rightarrow> int \<Rightarrow> int \<Rightarrow> flaga set \<Rightarrow> mproc" where
  "slot0 nazwa ep p rodzic fl =
     \<lparr>mp_pid = p, mp_procgrp = 1, mp_endpoint = ep, mp_name = nazwa, mp_flags = fl, mp_parent = rodzic, mp_tracer = 0,
      mp_trace_flags = 0, mp_sigtrace = {}, mp_scheduler = 31743, mp_nice = 0, mp_child_utime = 0, mp_child_stime = 0,
      mp_exitstatus = 0, mp_sigstatus = 0, mp_interval = [0, 0, 0], mp_wpid = - 1, mp_realuid = 5, mp_effuid = 5,
      mp_realgid = 5, mp_effgid = 5, mp_ignore = {}, mp_catch = {2}, mp_sigmask = {}, mp_sigmask2 = {},
      mp_sigpending = {}, mp_ksigpending = {}, mp_sigact = (\<lambda>n. \<lparr>sa_handler = 0, sa_mask = {}, sa_flags = 0\<rparr>),
      mp_sigreturn = 0, mp_reply = \<lparr>reply_res = 0, reply_res2 = 0, reply_mask = {}, reply_trace = 0\<rparr>,
      mp_timer = 0, mp_magic = 0\<rparr>"

definition wiadomosc0 :: pm_message where
  "wiadomosc0 = \<lparr>m_source = 5, m_type = 1, m1_i1 = 0, m1_i2 = 0, PM_PROC = 5, status = 0, pid = 10, sig_nr = 2,
     sig_osa = 0, sig_nsa = 64, sig_ret = 0, sig_how = 3, sig_set = {2, 9}, sig_context = 0, PM_STATUS = 0, PM_PC = 0,
     PM_NEWSP = 0, PM_TRACED_PROC = 0, NOTIFY_TIMESTAMP = 0\<rparr>"

definition pm0 :: pm where
  "pm0 = \<lparr>mproc = [slot0 ''pm'' 0 2 2 {IN_USE, PRIV_PROC}, slot0 ''vfs'' 1 3 2 {IN_USE, PRIV_PROC},
       slot0 ''rs'' 2 4 4 {IN_USE, PRIV_PROC}, slot0 ''cv'' 3 5 2 {IN_USE, PRIV_PROC}, slot0 ''init'' 4 1 4 {IN_USE},
       slot0 ''test'' 5 10 4 {IN_USE}],
     procs_in_use = 6, next_pid = 10, next_child = 0, next_child_srv = 0, mp = 5, who_p = 5, who_e = 5, call_nr = 1,
     m_in = wiadomosc0, core_sset = {3, 4, 5, 6}, ign_sset = {20, 21}, noign_sset = {4, 5}, log = [],
     calls_stats = (\<lambda>n. 0), uts_machine = [], system_hz = 0\<rparr>"

lemma obce0_ok: "obce_ok env0 obce0"
  by (simp add: obce_ok_def obce0_def te_same_sloty_def)

lemma env0_pola [simp]:
  "NR_PROCS env0 = 6" "NR_PIDS env0 = 30000" "INIT_PID env0 = 1" "INIT_PROC_NR env0 = 4" "VFS_PROC_NR env0 = 1"
  "SIGKILL env0 = 9" "SIGSTOP env0 = 17" "NSIG env0 = 29" "ESRCH env0 = - 3" "odp env0 h c = 0"
  by (simp_all add: env0_def)

lemma pm0_pola [simp]: "length (mproc pm0) = 6" "log pm0 = []" "mp pm0 = 5" "next_pid pm0 = 10"
  by (simp_all add: pm0_def)

lemma exit0: "case exit_proc env0 obce0 5 0 False pm0 of None \<Rightarrow> False | Some s \<Rightarrow> length (log s) = 5"
  by code_simp

lemma zabity0: "case sig_proc env0 obce0 5 9 True False pm0 of None \<Rightarrow> False | Some s \<Rightarrow> \<not> zywy 5 s"
  by code_simp

end
