(* ===== verification/Pm_Wlasnosci.thy ===== *)
theory Pm_Wlasnosci
  imports Pm_Przyklad Wlasnosci
begin

text \<open>
  The properties of the process manager: what it tells the cv server, the recursion of signals
  and exits, and the services that the rest of it is built from.
\<close>

section \<open>Finding the cv server\<close>

definition to_cv :: "nat \<Rightarrow> pm \<Rightarrow> bool" where
  "to_cv i s \<longleftrightarrow> flaga_jest i IN_USE s \<and> mp_name (mproc s ! i) = ''cv''"

text \<open>\<open>j\<close> is the slot of the cv server: the first slot in use with that name.\<close>

definition slot_serwera :: "nat \<Rightarrow> pm \<Rightarrow> bool" where
  "slot_serwera j s \<longleftrightarrow> j < length (mproc s) \<and> to_cv j s \<and> (\<forall>i < j. \<not> to_cv i s)"

lemma szukaj_serwera:
  "slot_serwera j s \<Longrightarrow> FOR_szukaj 0 (length (mproc s)) (\<lambda>i. flaga_jest i IN_USE s \<and> mp_name (mproc s ! i) = ''cv'') = j"
  by (rule FOR_szukaj_eqI) (auto simp: slot_serwera_def to_cv_def)

lemma tell_cv_serwer:
  "slot_serwera j s \<Longrightarrow> tell_cv E m t s =
    wolaj_ok E (Asynsend3 (mp_endpoint (mproc s ! j)) (m\<lparr>w_type := t\<rparr>)) s"
  unfolding tell_cv_def by (simp add: szukaj_serwera) (simp add: slot_serwera_def)

lemma tell_cv_brak:
  assumes "\<And>i. i < length (mproc s) \<Longrightarrow> \<not> to_cv i s"
  shows "tell_cv E m t s = Some s"
proof -
  have "FOR_szukaj 0 (length (mproc s)) (\<lambda>i. flaga_jest i IN_USE s \<and> mp_name (mproc s ! i) = ''cv'') = length (mproc s)"
    using assms by (subst FOR_szukaj_none_iff) (auto simp: to_cv_def)
  then show ?thesis by (simp add: tell_cv_def)
qed

lemma slot_serwera_istnieje:
  assumes "i < length (mproc s)" "to_cv i s"
  shows "\<exists>j. slot_serwera j s"
proof -
  define j where "j = (LEAST j. to_cv j s)"
  have "to_cv j s" "j \<le> i" "\<And>k. k < j \<Longrightarrow> \<not> to_cv k s"
    unfolding j_def using assms(2) by (auto intro: LeastI Least_le dest: not_less_Least)
  with assms(1) have "slot_serwera j s" by (auto simp: slot_serwera_def)
  then show ?thesis ..
qed

text \<open>
  C28. \<^verbatim>\<open>tell_cv\<close> sends one message, with the given type, to the first process in the table that is in use
  and called \<^verbatim>\<open>cv\<close>, and nothing when there is none; it changes nothing else, and fails only when the
  kernel refuses the message.
\<close>

theorem tell_cv_adresat:
  "tell_cv E m t s =
     (if \<exists>i < length (mproc s). to_cv i s then
        let j = (LEAST j. to_cv j s);
            c = Asynsend3 (mp_endpoint (mproc s ! j)) (m\<lparr>w_type := t\<rparr>)
        in if odp E (log s) c = OK then Some (s\<lparr>log := log s @ [c]\<rparr>) else None
      else Some s)"
proof (cases "\<exists>i < length (mproc s). to_cv i s")
  case True
  then obtain j where j: "slot_serwera j s" using slot_serwera_istnieje by blast
  then have "(LEAST j. to_cv j s) = j"
    by (intro Least_equality) (auto simp: slot_serwera_def not_less[symmetric])
  with True tell_cv_serwer[OF j] show ?thesis by (auto simp: wolaj_ok_def wolaj_def Let_def)
qed (use tell_cv_brak in auto)

section \<open>The end of a process\<close>

lemma te_same_sloty_trans: "te_same_sloty s t \<Longrightarrow> te_same_sloty t u \<Longrightarrow> te_same_sloty s u"
  by (auto simp: te_same_sloty_def)

lemma slot_serwera_po:
  "po E s t \<Longrightarrow> te_same_sloty s t \<Longrightarrow> slot_serwera j s \<Longrightarrow> slot_serwera j t"
  by (auto simp: slot_serwera_def to_cv_def te_same_sloty_def po_def slot_po_def)

lemma te_same_zmien:
  assumes "te_same_sloty s0 s" "\<And>p. IN_USE \<in> mp_flags (f p) \<longleftrightarrow> IN_USE \<in> mp_flags p"
  shows "te_same_sloty s0 (zmien i f s)"
  using assms by (cases "i < length (mproc s)")
    (auto simp: te_same_sloty_def zmien_def flaga_jest_def nth_list_update list_update_beyond)

lemma te_same_wolaj:
  "te_same_sloty s0 s \<Longrightarrow> te_same_sloty s0 (snd (wolaj E c s))"
  "te_same_sloty s0 s \<Longrightarrow> pred_option (te_same_sloty s0) (wolaj_ok E c s)"
  by (auto simp: te_same_sloty_def wolaj_def wolaj_ok_def flaga_jest_def Let_def)

lemma te_same_rozlicz:
  assumes B: "obce_ok E B"
  shows "pred_option (te_same_sloty s) (rozlicz E B rmp s)"
proof -
  have s: "pred_option (te_same_sloty s) (if flaga_jest rmp ALARM_ON s then set_alarm B rmp 0 s else Some s)"
  proof (cases "flaga_jest rmp ALARM_ON s")
    case True
    have "pred_option (\<lambda>s'. po E s s' \<and> te_same_sloty s s') (set_alarm B rmp 0 s)"
      using B by (simp add: obce_ok_def)
    with True show ?thesis by (auto elim: pred_mono)
  qed (simp add: te_same_sloty_def)
  have vm: "te_same_sloty s0 t \<Longrightarrow> te_same_sloty s0 (vm_notify_sig_wrapper E ep t)" for s0 t ep
    by (auto simp: vm_notify_sig_wrapper_def Let_def intro: te_same_wolaj(1))
  show ?thesis
    unfolding rozlicz_def Let_def split_def w_tablicy_def
    by (rule pred_bindI[OF s], rule pred_bindI[OF te_same_wolaj(2)], assumption)
      (auto intro!: pred_bindI[OF te_same_wolaj(2)] vm te_same_zmien)
qed

lemma flagi_dodaj_inne: "F \<notin> G \<Longrightarrow> flaga_jest i F (flagi_dodaj k G s) = flaga_jest i F s"
  by (cases "i < length (mproc s)"; cases "i = k")
    (auto simp: flaga_jest_def flagi_dodaj_def zmien_def list_update_beyond)

lemma wolaj_ok_Some:
  "wolaj_ok E c s = Some s' \<longleftrightarrow> odp E (log s) c = OK \<and> s' = s\<lparr>log := log s @ [c]\<rparr>"
  by (auto simp: wolaj_ok_def wolaj_def Let_def)

lemma log_flaga_jest [simp]: "flaga_jest i F (s\<lparr>log := x\<rparr>) = flaga_jest i F s"
  by (simp add: flaga_jest_def)

lemma flagi_dodaj_pola:
  "mp_endpoint (mproc (flagi_dodaj k G s) ! i) = mp_endpoint (mproc s ! i)"
  "mp_name (mproc (flagi_dodaj k G s) ! i) = mp_name (mproc s ! i)"
  "length (mproc (flagi_dodaj k G s)) = length (mproc s)" "log (flagi_dodaj k G s) = log s"
  by (cases "i < length (mproc s)"; cases "i = k"; auto simp: flagi_dodaj_def zmien_def list_update_beyond)+

text \<open>Adding other flags does not change which slot belongs to the server.\<close>

lemma slot_serwera_flagi: "IN_USE \<notin> G \<Longrightarrow> slot_serwera j (flagi_dodaj k G s) = slot_serwera j s"
  by (simp add: slot_serwera_def to_cv_def flagi_dodaj_inne flagi_dodaj_pola)

lemma slot_serwera_log [simp]: "slot_serwera j (s\<lparr>log := x\<rparr>) = slot_serwera j s"
  by (simp add: slot_serwera_def to_cv_def)

text \<open>Between two states a call was made.\<close>

definition wyslal :: "pm \<Rightarrow> pm \<Rightarrow> wolanie \<Rightarrow> bool" where
  "wyslal s t w \<longleftrightarrow> (\<exists>c. log t = log s @ c \<and> w \<in> set c)"

lemma wyslal_dalej: "wyslal s t w \<Longrightarrow> log u = log t @ c \<Longrightarrow> wyslal s u w"
  by (auto simp: wyslal_def)

lemma wyslal_przedtem: "wyslal s t w \<Longrightarrow> log s = log r @ c \<Longrightarrow> wyslal r t w"
  by (auto simp: wyslal_def)

lemma powiadomienia:
  assumes "tell_vfs E rmp m s = Some s1" "tell_cv E m t s1 = Some s2" "slot_serwera j s"
  shows "wyslal s s2 (Asynsend3 (mp_endpoint (mproc s ! j)) (m\<lparr>w_type := t\<rparr>))"
proof -
  from assms(1) obtain c where s1: "s1 = flagi_dodaj rmp {VFS_CALL} (s\<lparr>log := log s @ c\<rparr>)"
    by (auto simp: tell_vfs_def bind_eq_Some_conv wolaj_ok_Some split: if_splits)
  then have "slot_serwera j s1" "mp_endpoint (mproc s1 ! j) = mp_endpoint (mproc s ! j)"
    using assms(3) by (simp_all add: slot_serwera_flagi flagi_dodaj_pola)
  with assms(2) s1 show ?thesis by (auto simp: tell_cv_serwer wolaj_ok_Some wyslal_def flagi_dodaj_pola)
qed

lemma zawiadom_wysyla:
  assumes "zawiadom_o_koncu E rmp x d s = Some u" "slot_serwera j s"
  shows "\<exists>m. wyslal s u (Asynsend3 (mp_endpoint (mproc s ! j)) m) \<and> w_type m = 6 \<and>
    w_PM_PROC m = mp_endpoint (mproc s ! rmp)"
proof -
  define m0 where "m0 = wiadomosc_konca E d (mproc s ! rmp)"
  from assms(1) obtain s1 s2 s3 where s1: "tell_vfs E rmp m0 s = Some s1" and s2: "tell_cv E m0 6 s1 = Some s2"
    and s3: "(if flaga_jest rmp PRIV_PROC s2 then wolaj_ok E (Sys_clear (mp_endpoint (mproc s2 ! rmp))) s2 else Some s2) = Some s3"
    and u: "log u = log s3"
    by (auto simp: zawiadom_o_koncu_def m0_def[symmetric] Let_def bind_eq_Some_conv zmien_def)
  have "wyslal s u (Asynsend3 (mp_endpoint (mproc s ! j)) (m0\<lparr>w_type := 6\<rparr>))"
    using powiadomienia[OF s1 s2 assms(2)] s3 u by (auto simp: wolaj_ok_Some wyslal_def split: if_splits)
  moreover have "w_PM_PROC (m0\<lparr>w_type := 6\<rparr>) = mp_endpoint (mproc s ! rmp)" "w_type (m0\<lparr>w_type := 6\<rparr>) = 6"
    by (simp_all add: m0_def wiadomosc_konca_def Let_def pusta_wyjsciowa_def)
  ultimately show ?thesis by blast
qed

text \<open>What \<^verbatim>\<open>exit_proc\<close> has done when it completes for a process other than \<^verbatim>\<open>INIT\<close>.\<close>

lemma exit_rozbior:
  assumes B: "obce_ok E B" and run: "exit_proc E B rmp x d s = Some s'" and n: "mp_endpoint (mproc s ! rmp) \<noteq> INIT_PROC_NR E"
  obtains s1 d' u where "rozlicz E B rmp s = Some s1" "zawiadom_o_koncu E rmp x d' s1 = Some u" "po E u s'"
proof -
  obtain s1 where s1: "rozlicz E B rmp s = Some s1"
    using run by (auto simp: exit_proc_def exit_proc_tresc_def Let_def bind_eq_Some_conv)
  from run s1 n obtain d' u where u: "zawiadom_o_koncu E rmp x d' s1 = Some u" and
    reszta: "Option.bind (if \<not> d' then zombify E (sig_proc E B) rmp u else Some u) (\<lambda>t.
       Option.bind (FOR 0 (length (mproc t)) (oddaj_dziecko E (sig_proc E B) rmp) t) (\<lambda>t.
         if (if mp_pid (mproc s ! rmp) = mp_procgrp (mproc s ! mp s) then mp_procgrp (mproc s ! mp s) else 0) \<noteq> 0
         then map_option snd (check_sig E (sig_proc E B) (- (if mp_pid (mproc s ! rmp) = mp_procgrp (mproc s ! mp s) then mp_procgrp (mproc s ! mp s) else 0)) (SIGHUP E) False t) else Some t)) = Some s'"
    unfolding exit_proc_def exit_proc_tresc_def Let_def by (auto simp: bind_eq_Some_conv split: if_splits)
  have "pred_option (po E u) (Some s')"
    unfolding reszta[symmetric]
  proof (intro pred_bindI[where P = "po E u"] pred_if)
    show "pred_option (po E u) (map_option snd (check_sig E (sig_proc E B) q n k t))" if "po E u t" for q n k t
      using sp.po_check_sig[OF B that, of q n k] by (cases "check_sig E (sig_proc E B) q n k t") auto
    show "pred_option (po E u) (FOR 0 k (oddaj_dziecko E (sig_proc E B) rmp) t)" if "po E u t" for k t
      using that B by (intro pred_FOR sp.po_oddaj_dziecko)
    show "pred_option (po E u) (zombify E (sig_proc E B) rmp u)" by (simp add: sp.po_zombify[OF B])
  qed simp_all
  with that[OF s1 u] show thesis by simp
qed

lemma exit_wysyla:
  assumes B: "obce_ok E B" and run: "exit_proc E B rmp x d s = Some s'"
    and r: "rmp < length (mproc s)" and n: "mp_endpoint (mproc s ! rmp) \<noteq> INIT_PROC_NR E" and j: "slot_serwera j s"
  shows "\<exists>m. wyslal s s' (Asynsend3 (mp_endpoint (mproc s ! j)) m) \<and> w_type m = 6 \<and>
    w_PM_PROC m = mp_endpoint (mproc s ! rmp)"
proof -
  obtain s1 d' u where s1: "rozlicz E B rmp s = Some s1" and u: "zawiadom_o_koncu E rmp x d' s1 = Some u" and po: "po E u s'"
    by (rule exit_rozbior[OF B run n])
  have p: "po E s s1" "te_same_sloty s s1"
    using po_rozlicz[OF B po_refl] te_same_rozlicz[OF B] s1 by (metis pred_SomeD)+
  have ep: "slot_serwera j s1" "mp_endpoint (mproc s1 ! j) = mp_endpoint (mproc s ! j)"
    "mp_endpoint (mproc s1 ! rmp) = mp_endpoint (mproc s ! rmp)"
    using slot_serwera_po[OF p j] p(1) j r by (simp_all add: po_def slot_po_def slot_serwera_def)
  obtain c c' where "log s' = log u @ c" "log s1 = log s @ c'" using p(1) po by (auto simp: po_def)
  with zawiadom_wysyla[OF u ep(1)] ep(2,3) show ?thesis by (metis wyslal_dalej wyslal_przedtem)
qed

lemma exit_konczy:
  assumes B: "obce_ok E B" and run: "exit_proc E B rmp x d s = Some s'"
    and r: "rmp < length (mproc s)" and n: "mp_endpoint (mproc s ! rmp) \<noteq> INIT_PROC_NR E"
  shows "\<not> zyje (mproc s' ! rmp)"
proof -
  obtain s1 d' u where s1: "rozlicz E B rmp s = Some s1" and u: "zawiadom_o_koncu E rmp x d' s1 = Some u" and po: "po E u s'"
    by (rule exit_rozbior[OF B run n])
  have "po E s s1" using po_rozlicz[OF B po_refl] s1 by (metis pred_SomeD)
  moreover have "po E s1 u" using po_zawiadom[OF po_refl] u by (metis pred_SomeD)
  ultimately have l: "rmp < length (mproc u)" using r by (simp add: po_def)
  have "\<not> zyje (mproc u ! rmp)"
    using u l by (auto simp: zawiadom_o_koncu_def Let_def bind_eq_Some_conv zyje_def zmien_def)
  with po_zyje[OF po l] show ?thesis by blast
qed

text \<open>
  C12. Whenever \<^verbatim>\<open>exit_proc\<close> completes for a process other than \<^verbatim>\<open>INIT\<close> and a cv server is in the table, the server
  has been sent \<^verbatim>\<open>CS_EXIT\<close> with the endpoint of the process.
\<close>

theorem exit_zawiadamia_cv:
  assumes "obce_ok E B" and "exit_proc E B rmp x d s = Some s'" and "rmp < length (mproc s)"
    and "mp_endpoint (mproc s ! rmp) \<noteq> INIT_PROC_NR E" and "slot_serwera j s"
  shows "\<exists>m. wyslal s s' (Asynsend3 (mp_endpoint (mproc s ! j)) m) \<and> w_type m = CS_EXIT \<and>
    w_PM_PROC m = mp_endpoint (mproc s ! rmp)"
  using exit_wysyla[OF assms] by (simp add: CS_EXIT_def)

lemma slot_serwera0: "slot_serwera 3 pm0"
  by (simp add: slot_serwera_def to_cv_def flaga_jest_def pm0_def slot0_def less_Suc_eq numeral_eq_Suc)

lemma exit0_wynik: obtains s' where "exit_proc env0 obce0 5 0 False pm0 = Some s'"
  using exit0 by (cases "exit_proc env0 obce0 5 0 False pm0") auto

lemma pm0_sloty: "mp_endpoint (mproc pm0 ! 5) = 5" "mp_endpoint (mproc pm0 ! 3) = 3"
  by (simp_all add: pm0_def slot0_def numeral_eq_Suc)

theorem exit_zawiadamia_cv_przyklad:
  "\<exists>s' m. exit_proc env0 obce0 5 0 False pm0 = Some s' \<and> wyslal pm0 s' (Asynsend3 3 m) \<and>
     w_type m = CS_EXIT \<and> w_PM_PROC m = 5"
proof -
  obtain s' where "exit_proc env0 obce0 5 0 False pm0 = Some s'" by (rule exit0_wynik)
  with exit_zawiadamia_cv[OF obce0_ok this _ _ slot_serwera0] show ?thesis
    by (auto simp: pm0_sloty)
qed

text \<open>
  C11. From the end of a process to its mutexes: when the server handles the message that \<^verbatim>\<open>exit_proc\<close> sent
  for a process other than \<^verbatim>\<open>INIT\<close>, that process owns no mutex and waits nowhere, whatever reachable state the server was in; the
  endpoint of the process is not the indeterminate value of a sentinel.
\<close>

theorem koniec_procesu_zwalnia_mutexy:
  assumes "obce_ok E B" and "exit_proc E B rmp x d s = Some s'" and "rmp < length (mproc s)"
    and "mp_endpoint (mproc s ! rmp) \<noteq> INIT_PROC_NR E" and "slot_serwera j s"
    and "stan_serwera F v" and "mp_endpoint (mproc s ! rmp) \<notin> set (straznicy v)"
  shows "\<exists>m v'. wyslal s s' (Asynsend3 (mp_endpoint (mproc s ! j)) m) \<and>
    obslugaWiadomosci F \<lparr>m_source = PM_PROC_NR E, m_type = w_type m, m1_i1 = 0, m1_i2 = 0, PM_PROC = w_PM_PROC m\<rparr> v = Some v' \<and>
    \<not> czeka (mp_endpoint (mproc s ! rmp)) (abstr v') \<and> (\<forall>n. \<not> ma_mutex (mp_endpoint (mproc s ! rmp)) n (abstr v'))"
proof -
  let ?ep = "mp_endpoint (mproc s ! rmp)"
  from exit_wysyla[OF assms(1-5)] obtain m where m: "wyslal s s' (Asynsend3 (mp_endpoint (mproc s ! j)) m)"
    "w_type m = 6" "w_PM_PROC m = ?ep" by blast
  have I: "niezmiennik v" and P: "prot (abstr v)" using stan_serwera_zdrowy[OF assms(6)] by auto
  let ?m = "\<lparr>m_source = PM_PROC_NR E, m_type = w_type m, m1_i1 = 0, m1_i2 = 0, PM_PROC = w_PM_PROC m\<rparr>"
  from obsluga_exit[OF I, of ?m F] m(2,3) assms(7) obtain v' where
    "obslugaWiadomosci F ?m v = Some v'" "abstr v' = a_exit ?ep (abstr v)" by (auto simp: CS_EXIT_def)
  with m(1) a_exit_skutek(1,2)[OF P] show ?thesis by metis
qed

theorem koniec_procesu_zwalnia_mutexy_przyklad:
  "\<exists>s' m v v'. exit_proc env0 obce0 5 0 False pm0 = Some s' \<and> wyslal pm0 s' (Asynsend3 3 m) \<and> stan_serwera srod0 v \<and>
     obslugaWiadomosci srod0 \<lparr>m_source = PM_PROC_NR env0, m_type = w_type m, m1_i1 = 0, m1_i2 = 0, PM_PROC = w_PM_PROC m\<rparr> v = Some v' \<and>
     (\<forall>n. \<not> ma_mutex 5 n (abstr v'))"
proof -
  obtain s' where s': "exit_proc env0 obce0 5 0 False pm0 = Some s'" by (rule exit0_wynik)
  obtain v where v: "stan_serwera srod0 v" "set (straznicy v) = {0}" by (rule przyklad)
  from koniec_procesu_zwalnia_mutexy[OF obce0_ok s' _ _ slot_serwera0 v(1)] v(2) pm0_sloty s' v(1) show ?thesis by auto
qed

text \<open>\<^verbatim>\<open>unpause\<close> marks the process only on the path that tells VFS and the server.\<close>

lemma unpause_rozbior:
  assumes "unpause E rmp s = Some s'" and "slot_serwera j s"
    and "\<not> flaga_jest rmp VFS_CALL s" and "flaga_jest rmp VFS_CALL s'"
  obtains t c where "slot_serwera j t" "\<And>i. mp_endpoint (mproc t ! i) = mp_endpoint (mproc s ! i)" "log t = log s @ c"
    "(let m = pusta_wyjsciowa (PM_UNPAUSE E) (mp_endpoint (mproc t ! rmp)) in do {
       s \<leftarrow> tell_vfs E rmp m t;
       s \<leftarrow> tell_cv E m 5 s;
       Some (vm_notify_sig_wrapper E (mp_endpoint (mproc s ! rmp)) s) }) = Some s'"
proof -
  have nd: "\<not> flaga_jest rmp DELAY_CALL s" using assms(1,3,4) by (auto simp: unpause_def)
  have np: "flagi_zadna rmp {PAUSED, WAITING, SIGSUSPENDED} s"
  proof (rule ccontr)
    assume "\<not> ?thesis"
    with assms(1) nd have "\<exists>c. s' = flagi_dodaj rmp {UNPAUSED} (s\<lparr>log := log s @ c\<rparr>)"
      by (auto simp: unpause_def bind_eq_Some_conv wolaj_ok_Some)
    with assms(3,4) show False by (auto simp: flagi_dodaj_inne)
  qed
  show thesis
  proof (cases "flaga_jest rmp PM_SIG_PENDING s")
    case True
    with assms(1,2) nd np that[of s] show ?thesis by (simp add: unpause_def)
  next
    case False
    let ?c = "Sys_delay_stop (mp_endpoint (mproc s ! rmp))"
    let ?s = "s\<lparr>log := log s @ [?c]\<rparr>"
    have "odp E (log s) ?c \<noteq> EBUSY E"
      using assms(1,3,4) nd np False by (auto simp: unpause_def wolaj_def Let_def flagi_dodaj_inne)
    moreover have "odp E (log s) ?c = OK"
      using assms(1) nd np False calculation by (auto simp: unpause_def wolaj_def Let_def split: if_splits)
    ultimately show ?thesis
      using assms(1,2) nd np False that[of "flagi_dodaj rmp {PM_SIG_PENDING} ?s"]
      by (simp add: unpause_def wolaj_def slot_serwera_flagi flagi_dodaj_pola)
  qed
qed

text \<open>
  C13. Interrupting a process that is not suspended in the process manager: when \<^verbatim>\<open>unpause\<close> gets as far as asking
  VFS, the cv server has been sent \<^verbatim>\<open>CS_EINTR\<close> with the endpoint of the process.
\<close>

theorem unpause_zawiadamia_cv:
  assumes "unpause E rmp s = Some s'" and "slot_serwera j s" and "rmp < length (mproc s)"
    and "\<not> flaga_jest rmp VFS_CALL s" and "flaga_jest rmp VFS_CALL s'"
  shows "\<exists>m. wyslal s s' (Asynsend3 (mp_endpoint (mproc s ! j)) m) \<and> w_type m = CS_EINTR \<and>
    w_PM_PROC m = mp_endpoint (mproc s ! rmp)"
proof -
  obtain t c where t: "slot_serwera j t" "\<And>i. mp_endpoint (mproc t ! i) = mp_endpoint (mproc s ! i)" "log t = log s @ c"
    and dalej: "(let m = pusta_wyjsciowa (PM_UNPAUSE E) (mp_endpoint (mproc t ! rmp)) in do {
          s \<leftarrow> tell_vfs E rmp m t;
          s \<leftarrow> tell_cv E m 5 s;
          Some (vm_notify_sig_wrapper E (mp_endpoint (mproc s ! rmp)) s) }) = Some s'"
    by (rule unpause_rozbior[OF assms(1,2,4,5)]) (rule that)
  let ?m = "pusta_wyjsciowa (PM_UNPAUSE E) (mp_endpoint (mproc t ! rmp))"
  from dalej obtain s1 s2 where s12: "tell_vfs E rmp ?m t = Some s1" "tell_cv E ?m 5 s1 = Some s2"
    and s': "s' = vm_notify_sig_wrapper E (mp_endpoint (mproc s2 ! rmp)) s2"
    by (auto simp: Let_def bind_eq_Some_conv)
  obtain c' where "log s' = log s2 @ c'"
    unfolding s' using po_vm_notify[OF po_refl, of E s2] by (auto simp: po_def)
  with powiadomienia[OF s12 t(1)] t(2) have
    "wyslal s s' (Asynsend3 (mp_endpoint (mproc s ! j)) (?m\<lparr>w_type := 5\<rparr>))"
    by (metis wyslal_dalej wyslal_przedtem t(3))
  moreover have "w_type (?m\<lparr>w_type := 5\<rparr>) = CS_EINTR" "w_PM_PROC (?m\<lparr>w_type := 5\<rparr>) = mp_endpoint (mproc s ! rmp)"
    by (simp_all add: pusta_wyjsciowa_def CS_EINTR_def t(2))
  ultimately show ?thesis by blast
qed

lemma unpause0:
  "case unpause env0 5 pm0 of None \<Rightarrow> False | Some s \<Rightarrow> flaga_jest 5 VFS_CALL s \<and> \<not> flaga_jest 5 VFS_CALL pm0"
  by code_simp

theorem unpause_zawiadamia_cv_przyklad:
  "\<exists>s' m. unpause env0 5 pm0 = Some s' \<and> wyslal pm0 s' (Asynsend3 3 m) \<and> w_type m = CS_EINTR \<and> w_PM_PROC m = 5"
proof -
  obtain s' where "unpause env0 5 pm0 = Some s'" "flaga_jest 5 VFS_CALL s'" "\<not> flaga_jest 5 VFS_CALL pm0"
    using unpause0 by (cases "unpause env0 5 pm0") auto
  with unpause_zawiadamia_cv[OF this(1) slot_serwera0] show ?thesis by (auto simp: pm0_sloty)
qed

end
