(* ===== verification/Pm_Uslugi.thy ===== *)
theory Pm_Uslugi
  imports Pm_Wlasnosci
begin

text \<open>
  Further properties of the process manager: the recursion, process numbers, replies, signals
  that cannot be blocked and the checks of arguments.
\<close>

section \<open>The recursion of signals and exits\<close>

text \<open>
  C14. The recursion ends: with a bound above the number of slots the result is the same whatever outcome \<open>z\<close> a call
  beyond the bound would have, so no call gets there, and in particular \<^term>\<open>None\<close> is always a panic of the code and never a lack of
  depth. The function so defined satisfies the equation of the body of \<^verbatim>\<open>sig_proc\<close>, with \<open>exit_proc\<close> in place of the call.
\<close>

theorem sig_proc_rownanie:
  assumes "obce_ok E B" and "rmp < length (mproc s)"
  shows "sig_proc E B rmp n tr ks s = sig_proc_tresc E B (exit_proc E B) rmp n tr ks s \<and>
    (\<forall>f z. length (mproc s) < f \<longrightarrow> sig_proc_n z E B f rmp n tr ks s = sig_proc E B rmp n tr ks s)"
  using sig_proc_rozwin[OF assms] sig_proc_paliwo[OF assms] liczba_zywych_tablica[of s] by auto

theorem sig_proc_rownanie_przyklad:
  "\<exists>s'. sig_proc_n (\<lambda>r n t k s. None) env0 obce0 7 5 9 True False pm0 = Some s' \<and>
     sig_proc_n (\<lambda>r n t k s. Some s) env0 obce0 100 5 9 True False pm0 = Some s' \<and> \<not> zywy 5 s'"
proof -
  have "sig_proc_n z env0 obce0 f 5 9 True False pm0 = sig_proc env0 obce0 5 9 True False pm0" if "6 < f" for z f
    using sig_proc_rownanie[OF obce0_ok, of 5 pm0] that by simp
  moreover obtain s' where "sig_proc env0 obce0 5 9 True False pm0 = Some s'" "\<not> zywy 5 s'"
    using zabity0 by (cases "sig_proc env0 obce0 5 9 True False pm0") auto
  ultimately show ?thesis by (intro exI[of _ s']) simp
qed

section \<open>Process numbers\<close>

definition pid_po :: "pm_env \<Rightarrow> int \<Rightarrow> nat \<Rightarrow> int" where
  "pid_po E p k = (nastepny_pid E ^^ k) p"

lemma pid_po_Suc: "pid_po E p (Suc k) = pid_po E (nastepny_pid E p) k"
  by (simp add: pid_po_def funpow_swap1)

lemma zajety_next [simp]: "zajety p (s\<lparr>next_pid := q\<rparr>) = zajety p s"
  by (simp add: zajety_def)

lemma get_free_pid_krok:
  "get_free_pid E s =
     (let p = nastepny_pid E (next_pid s) in
      if zajety p s then get_free_pid E (s\<lparr>next_pid := p\<rparr>) else Some (p, s\<lparr>next_pid := p\<rparr>))"
  by (subst get_free_pid.simps) (simp add: Let_def)

lemma get_free_pid_po:
  "(\<And>i. i < k \<Longrightarrow> zajety (pid_po E (next_pid s) (Suc i)) s) \<Longrightarrow> \<not> zajety (pid_po E (next_pid s) (Suc k)) s \<Longrightarrow>
    get_free_pid E s = Some (pid_po E (next_pid s) (Suc k), s\<lparr>next_pid := pid_po E (next_pid s) (Suc k)\<rparr>)"
proof (induction k arbitrary: s)
  case 0
  then show ?case by (subst get_free_pid_krok) (simp add: Let_def pid_po_def)
next
  case (Suc k)
  let ?p = "nastepny_pid E (next_pid s)"
  have "zajety ?p s" using Suc.prems(1)[of 0] by (simp add: pid_po_def)
  then have "get_free_pid E s = get_free_pid E (s\<lparr>next_pid := ?p\<rparr>)"
    by (subst get_free_pid_krok) (simp add: Let_def)
  also have "\<dots> = Some (pid_po E ?p (Suc k), s\<lparr>next_pid := pid_po E ?p (Suc k)\<rparr>)"
    using Suc.IH[of "s\<lparr>next_pid := ?p\<rparr>"] Suc.prems(1)[of "Suc i" for i] Suc.prems(2) by (simp add: pid_po_Suc)
  finally show ?case by (simp add: pid_po_Suc)
qed

lemma pid_po_w_gore: "p + int k \<le> NR_PIDS E \<Longrightarrow> pid_po E p k = p + int k"
  by (induction k) (simp_all add: pid_po_def nastepny_pid_def)

lemma pid_po_osiaga:
  assumes "p \<le> NR_PIDS E" "INIT_PID E < q" "q \<le> NR_PIDS E"
  shows "\<exists>k. pid_po E p (Suc k) = q"
proof (cases "p < q")
  case True
  then have "pid_po E p (Suc (nat (q - p) - 1)) = q"
    using assms by (subst pid_po_w_gore) auto
  then show ?thesis by blast
next
  case False
  let ?a = "nat (NR_PIDS E - p)" and ?b = "nat (q - INIT_PID E - 1)"
  have "pid_po E p ?a = NR_PIDS E" using assms by (subst pid_po_w_gore) auto
  then have "pid_po E p (Suc ?a) = INIT_PID E + 1" by (simp add: pid_po_def nastepny_pid_def)
  moreover have "pid_po E (INIT_PID E + 1) ?b = q" using assms by (subst pid_po_w_gore) auto
  ultimately have "pid_po E p (?b + Suc ?a) = q" unfolding pid_po_def funpow_add by simp
  then show ?thesis by (metis add_Suc_right)
qed

lemma wolny_pid_istnieje:
  assumes "2 * int (length (mproc s)) < NR_PIDS E - INIT_PID E"
  shows "\<exists>p. INIT_PID E < p \<and> p \<le> NR_PIDS E \<and> \<not> zajety p s"
proof (rule ccontr)
  assume "\<not> ?thesis"
  then have "{INIT_PID E + 1..NR_PIDS E} \<subseteq> set (map mp_pid (mproc s) @ map mp_procgrp (mproc s))"
    by (force simp: zajety_def list_ex_iff)
  then have "card {INIT_PID E + 1..NR_PIDS E} \<le> card (set (map mp_pid (mproc s) @ map mp_procgrp (mproc s)))"
    by (intro card_mono) auto
  also have "\<dots> \<le> 2 * length (mproc s)"
    using card_length[of "map mp_pid (mproc s) @ map mp_procgrp (mproc s)"] by simp
  finally show False using assms by simp
qed

lemma nastepny_pid_zakres:
  "INIT_PID E \<le> p \<Longrightarrow> INIT_PID E < NR_PIDS E \<Longrightarrow> p \<le> NR_PIDS E \<Longrightarrow>
   INIT_PID E < nastepny_pid E p \<and> nastepny_pid E p \<le> NR_PIDS E"
  by (simp add: nastepny_pid_def)

lemma pid_po_zakres:
  assumes "INIT_PID E \<le> p" "INIT_PID E < NR_PIDS E" "p \<le> NR_PIDS E"
  shows "INIT_PID E < pid_po E p (Suc k) \<and> pid_po E p (Suc k) \<le> NR_PIDS E"
proof (induction k)
  case 0
  then show ?case using nastepny_pid_zakres[OF assms] by (simp add: pid_po_def)
next
  case (Suc k)
  then show ?case using nastepny_pid_zakres[of E "pid_po E p (Suc k)"] assms(2) by (simp add: pid_po_def)
qed

lemma get_free_pid_wynik:
  assumes "INIT_PID E \<le> next_pid s" and "next_pid s \<le> NR_PIDS E" and "2 * int (length (mproc s)) < NR_PIDS E - INIT_PID E"
  obtains p where "get_free_pid E s = Some (p, s\<lparr>next_pid := p\<rparr>)" and "INIT_PID E < p" and "p \<le> NR_PIDS E"
    and "\<And>r. r \<in> set (mproc s) \<Longrightarrow> mp_pid r \<noteq> p \<and> mp_procgrp r \<noteq> p"
proof -
  obtain q where q: "INIT_PID E < q" "q \<le> NR_PIDS E" "\<not> zajety q s" using wolny_pid_istnieje[OF assms(3)] by blast
  let ?P = "\<lambda>k. \<not> zajety (pid_po E (next_pid s) (Suc k)) s"
  have "\<exists>k. ?P k" using pid_po_osiaga[OF assms(2) q(1,2)] q(3) by metis
  then have "?P (Least ?P)" by (rule LeastI_ex)
  moreover have "\<not> ?P i" if "i < Least ?P" for i using that by (rule not_less_Least)
  ultimately obtain k where k: "?P k" "\<And>i. i < k \<Longrightarrow> \<not> ?P i" by blast
  let ?p = "pid_po E (next_pid s) (Suc k)"
  have "get_free_pid E s = Some (?p, s\<lparr>next_pid := ?p\<rparr>)" using k by (intro get_free_pid_po) auto
  moreover have "mp_pid r \<noteq> ?p \<and> mp_procgrp r \<noteq> ?p" if "r \<in> set (mproc s)" for r
    using k(1) that unfolding zajety_def list_ex_iff by blast
  ultimately show thesis using that[of ?p] pid_po_zakres[of E "next_pid s" k] assms(1,2) q(1,2) by auto
qed

text \<open>
  C37. \<^verbatim>\<open>get_free_pid\<close> always returns, and what it returns is a number in the range of process numbers that no process
  and no process group has, provided there are more numbers than twice the number of slots.
\<close>

theorem get_free_pid_wolny:
  assumes "INIT_PID E \<le> next_pid s" and "next_pid s \<le> NR_PIDS E" and "2 * int (length (mproc s)) < NR_PIDS E - INIT_PID E"
  shows "\<exists>p. get_free_pid E s = Some (p, s\<lparr>next_pid := p\<rparr>) \<and> INIT_PID E < p \<and> p \<le> NR_PIDS E \<and>
     (\<forall>r \<in> set (mproc s). mp_pid r \<noteq> p \<and> mp_procgrp r \<noteq> p)"
  using get_free_pid_wynik[OF assms] by metis

theorem get_free_pid_wolny_przyklad:
  "\<exists>p. get_free_pid env0 pm0 = Some (p, pm0\<lparr>next_pid := p\<rparr>) \<and> 1 < p \<and> p \<le> 30000 \<and>
     (\<forall>r \<in> set (mproc pm0). mp_pid r \<noteq> p \<and> mp_procgrp r \<noteq> p)"
  using get_free_pid_wolny[of env0 pm0] by simp

section \<open>Replies\<close>

definition do_wyslania :: "mproc \<Rightarrow> bool" where
  "do_wyslania p \<longleftrightarrow> REPLY \<in> mp_flags p \<and> IN_USE \<in> mp_flags p \<and> EXITING \<notin> mp_flags p"

definition wyslane_odp :: "wolanie list \<Rightarrow> wolanie list" where
  "wyslane_odp = filter (\<lambda>c. case c of Sendnb e r \<Rightarrow> True | _ \<Rightarrow> False)"

lemma wyslane_odp_append [simp]: "wyslane_odp (xs @ ys) = wyslane_odp xs @ wyslane_odp ys"
  by (simp add: wyslane_odp_def)

lemma sendreply_slot_wynik:
  assumes "i < length (mproc s)"
  shows "\<exists>s'. sendreply_slot E i s = Some s' \<and>
    mproc s' = (mproc s)[i := (if do_wyslania (mproc s ! i)
      then (mproc s ! i)\<lparr>mp_flags := mp_flags (mproc s ! i) - {REPLY}\<rparr> else mproc s ! i)] \<and>
    wyslane_odp (log s') = wyslane_odp (log s) @ (if do_wyslania (mproc s ! i)
      then [Sendnb (mp_endpoint (mproc s ! i)) (mp_reply (mproc s ! i))] else [])"
  using assms by (auto simp: sendreply_slot_def do_wyslania_def flaga_jest_def wolaj_def drukuj_def flagi_zdejmij_def
      zmien_def Let_def wyslane_odp_def)

lemma sendreply_wynik:
  "\<exists>s'. sendreply E s = Some s' \<and>
     mproc s' = map (\<lambda>p. if do_wyslania p then p\<lparr>mp_flags := mp_flags p - {REPLY}\<rparr> else p) (mproc s) \<and>
     wyslane_odp (log s') = wyslane_odp (log s) @
       map (\<lambda>p. Sendnb (mp_endpoint p) (mp_reply p)) (filter do_wyslania (mproc s))"
proof -
  let ?f = "\<lambda>p. if do_wyslania p then p\<lparr>mp_flags := mp_flags p - {REPLY}\<rparr> else p"
  let ?g = "\<lambda>xs. map (\<lambda>p. Sendnb (mp_endpoint p) (mp_reply p)) (filter do_wyslania xs)"
  have "\<exists>s'. FOR 0 (length (mproc s)) (sendreply_slot E) s = Some s' \<and>
      list_all2 (\<lambda>p p'. p' = ?f p) (mproc s) (mproc s') \<and>
      wyslane_odp (log s') = wyslane_odp (log s) @ ?g (take (length (mproc s)) (mproc s))"
  proof (rule FOR_sloty)
    fix i and t :: pm assume i: "i < length (mproc s)" "length (mproc t) = length (mproc s)" "mproc t ! i = mproc s ! i"
      and J: "wyslane_odp (log t) = wyslane_odp (log s) @ ?g (take i (mproc s))"
    with sendreply_slot_wynik[of i t E] show "\<exists>t' e'. sendreply_slot E i t = Some t' \<and> mproc t' = (mproc t)[i := e'] \<and>
        e' = ?f (mproc s ! i) \<and> wyslane_odp (log t') = wyslane_odp (log s) @ ?g (take (Suc i) (mproc s))"
      by (auto simp: take_Suc_conv_app_nth)
  qed simp_all
  then obtain s' where "FOR 0 (length (mproc s)) (sendreply_slot E) s = Some s'"
    "list_all2 (\<lambda>p p'. p' = ?f p) (mproc s) (mproc s')" "wyslane_odp (log s') = wyslane_odp (log s) @ ?g (mproc s)"
    by auto
  moreover from this(2) have "mproc s' = map ?f (mproc s)"
    by (auto simp: list_all2_conv_all_nth intro: nth_equalityI)
  ultimately show ?thesis by (auto simp: sendreply_def)
qed

text \<open>
  \<^verbatim>\<open>sendreply\<close> sends the stored reply to every process that is to get one, is in use and is not exiting, once
  each and in the order of the table, takes the mark from exactly those, and changes no slot otherwise.
\<close>

lemma sendreply_wszystkim:
  "\<exists>s'. sendreply E s = Some s' \<and>
     mproc s' = map (\<lambda>p. if do_wyslania p then p\<lparr>mp_flags := mp_flags p - {REPLY}\<rparr> else p) (mproc s) \<and>
     wyslane_odp (log s') = wyslane_odp (log s) @
       map (\<lambda>p. Sendnb (mp_endpoint p) (mp_reply p)) (filter do_wyslania (mproc s))"
  by (rule sendreply_wynik)

section \<open>Pending signals and \<^verbatim>\<open>SIGKILL\<close>\<close>

lemma po_check_pending_petla:
  assumes B: "obce_ok E B"
  shows "po E s0 s \<Longrightarrow> pred_option (po E s0) (check_pending_petla (sig_proc E B) rmp is s)"
proof (induction "is" arbitrary: s)
  case (Cons i "is")
  let ?s = "zmien rmp (\<lambda>p. p\<lparr>mp_sigpending := mp_sigpending p - {i}, mp_ksigpending := mp_ksigpending p - {i}\<rparr>) s"
  have "po E s0 ?s" using Cons.prems by (rule po_zmien) (auto simp: slot_pm)
  from sp.sig_po[OF B this] Cons show ?case
    by (auto simp: Let_def intro!: pred_bindI[OF sp.sig_po[OF B \<open>po E s0 ?s\<close>]])
qed simp

lemma po_check_pending: "obce_ok E B \<Longrightarrow> po E s0 s \<Longrightarrow> pred_option (po E s0) (check_pending E (sig_proc E B) rmp s)"
  unfolding check_pending_def by (rule po_check_pending_petla)

lemma list_all_zmien:
  "list_all P (mproc s) \<Longrightarrow> (\<And>p. P p \<Longrightarrow> P (f p)) \<Longrightarrow> list_all P (mproc (zmien i f s))"
  by (cases "i < length (mproc s)") (auto simp: zmien_def list_all_length nth_list_update list_update_beyond)

section \<open>Sending signal zero\<close>

lemma check_sig_petla_zero:
  assumes "\<not> SIGS_IS_LETHAL E 0"
  shows "\<exists>c' e'. check_sig_petla E sg q 0 k i c e s = Some (c', e', s) \<and>
    (c' > c \<longleftrightarrow> (\<exists>j < i. wybrany E q 0 j s \<and> uprawniony E j s)) \<and> c \<le> c' \<and>
    e' = (if \<exists>j < i. wybrany E q 0 j s \<and> \<not> uprawniony E j s then EPERM else e)"
proof (induction i arbitrary: c e)
  case (Suc i)
  have less_Suc_ex: "(\<exists>j < Suc i. P j) \<longleftrightarrow> P i \<or> (\<exists>j < i. P j)" for P by (auto simp: less_Suc_eq)
  show ?case
  proof (cases "wybrany E q 0 i s")
    case False
    with Suc[of c e] assms show ?thesis by (simp add: less_Suc_ex)
  next
    case True
    show ?thesis
    proof (cases "uprawniony E i s")
      case False
      with True Suc[of c EPERM] assms show ?thesis by (auto simp: less_Suc_ex)
    next
      case up: True
      from Suc[of "c + 1" e] obtain c' e' where
        "check_sig_petla E sg q 0 k i (c + 1) e s = Some (c', e', s)" "c + 1 \<le> c'"
        "e' = (if \<exists>j < i. wybrany E q 0 j s \<and> \<not> uprawniony E j s then EPERM else e)" by blast
      with True up assms show ?thesis by (auto simp: less_Suc_ex)
    qed
  qed
qed simp

text \<open>
  Sending signal zero only tests: nothing changes, and the result is \<^verbatim>\<open>OK\<close> when some selected process may be
  signalled, \<^verbatim>\<open>EPERM\<close> when there are selected processes but none may, and \<^verbatim>\<open>ESRCH\<close> when there is none.
\<close>

lemma kill_zero:
  assumes "0 < NSIG E" and "SIGKILL E \<noteq> 0" and "SIGTERM E \<noteq> 0" and "\<not> SIGS_IS_LETHAL E 0" and "zywy (mp s) s"
    and "sig_nr (m_in s) = 0"
  shows "do_kill E sg s = Some
    (if \<exists>i < length (mproc s). wybrany E (pid (m_in s)) 0 i s \<and> uprawniony E i s then OK
     else if \<exists>i < length (mproc s). wybrany E (pid (m_in s)) 0 i s then EPERM else ESRCH E, s)"
proof -
  obtain c' e' where "check_sig_petla E sg (pid (m_in s)) 0 False (length (mproc s)) 0 (ESRCH E) s = Some (c', e', s)"
    "c' > 0 \<longleftrightarrow> (\<exists>i < length (mproc s). wybrany E (pid (m_in s)) 0 i s \<and> uprawniony E i s)"
    "e' = (if \<exists>i < length (mproc s). wybrany E (pid (m_in s)) 0 i s \<and> \<not> uprawniony E i s then EPERM else ESRCH E)"
    using check_sig_petla_zero[OF assms(4)] by blast
  with assms show ?thesis by (auto simp: do_kill_def check_sig_def)
qed

lemma kill_zero_przyklad:
  "do_kill env0 (sig_proc env0 obce0) (pm0\<lparr>m_in := wiadomosc0\<lparr>pid := 999, sig_nr := 0\<rparr>\<rparr>) =
     Some (- 3, pm0\<lparr>m_in := wiadomosc0\<lparr>pid := 999, sig_nr := 0\<rparr>\<rparr>)"
proof -
  let ?s = "pm0\<lparr>m_in := wiadomosc0\<lparr>pid := 999, sig_nr := 0\<rparr>\<rparr>"
  have "zywy (mp ?s) ?s" "SIGTERM env0 \<noteq> 0" "\<not> SIGS_IS_LETHAL env0 0"
    by (simp_all add: zywy_def flaga_jest_def pm0_def slot0_def env0_def)
  moreover have "\<not> wybrany env0 999 0 i ?s" if "i < 6" for i
  proof -
    have "i \<in> {0, 1, 2, 3, 4, 5}" using that by auto
    then show ?thesis by (auto simp: wybrany_def pm0_def slot0_def)
  qed
  ultimately show ?thesis using kill_zero[of env0 ?s "sig_proc env0 obce0"] by auto
qed

section \<open>Arguments\<close>

text \<open>
  \<^verbatim>\<open>pm_isokendpt\<close> accepts an endpoint exactly when its slot number is that of a kernel task or of a slot in use
  that has this very endpoint, and it always yields the slot number.
\<close>

lemma pm_isokendpt_poprawny:
  "snd (pm_isokendpt E e s) = ENDPOINT_P E e \<and>
   (EDEADEPT E \<noteq> OK \<longrightarrow> (fst (pm_isokendpt E e s) = OK \<longleftrightarrow>
     - NR_TASKS E \<le> ENDPOINT_P E e \<and> ENDPOINT_P E e < int (NR_PROCS E) \<and>
     (0 \<le> ENDPOINT_P E e \<longrightarrow> mp_endpoint (mproc s ! nat (ENDPOINT_P E e)) = e \<and>
        flaga_jest (nat (ENDPOINT_P E e)) IN_USE s)))"
  by (auto simp: pm_isokendpt_def Let_def errno_defs)

lemma pm_isokendpt_poprawny_przyklad:
  "fst (pm_isokendpt env0 5 pm0) = OK \<and> fst (pm_isokendpt env0 6 pm0) \<noteq> OK"
  using pm_isokendpt_poprawny[of env0 5 pm0] pm_isokendpt_poprawny[of env0 6 pm0]
  by (simp add: env0_def pm0_def slot0_def flaga_jest_def OK_def)

text \<open>
  \<^verbatim>\<open>nice_to_priority\<close> gives a user queue for every nice value in the range, keeps the order of nice values and sends
  the smallest to the highest queue; outside the range it fails with \<^verbatim>\<open>EINVAL\<close>.
\<close>

lemma nice_to_priority_zakres:
  assumes "PRIO_MIN E \<le> PRIO_MAX E" and "MAX_USER_Q E \<le> MIN_USER_Q E"
  shows "(n < PRIO_MIN E \<or> n > PRIO_MAX E \<longrightarrow> nice_to_priority E n = (EINVAL, None)) \<and>
    nice_to_priority E (PRIO_MIN E) = (OK, Some (MAX_USER_Q E)) \<and>
    (PRIO_MIN E \<le> n \<and> n \<le> m \<and> m \<le> PRIO_MAX E \<longrightarrow>
      (\<exists>q q'. nice_to_priority E n = (OK, Some q) \<and> nice_to_priority E m = (OK, Some q') \<and>
         MAX_USER_Q E \<le> q \<and> q \<le> q' \<and> q' \<le> MIN_USER_Q E))"
proof -
  let ?w = "MIN_USER_Q E - MAX_USER_Q E + 1" and ?d = "PRIO_MAX E - PRIO_MIN E + 1"
  have d: "dziel ((x - PRIO_MIN E) * ?w) ?d = (x - PRIO_MIN E) * ?w div ?d" if "PRIO_MIN E \<le> x" for x
    using that assms by (simp add: dziel_def sgn_if abs_mult)
  have mono: "(n - PRIO_MIN E) * ?w div ?d \<le> (m - PRIO_MIN E) * ?w div ?d" if "n \<le> m"
    using that assms by (intro zdiv_mono1 mult_right_mono) auto
  have nieuj: "0 \<le> (x - PRIO_MIN E) * ?w div ?d" if "PRIO_MIN E \<le> x" for x
    using that assms by (intro pos_imp_zdiv_nonneg_iff[THEN iffD2]) auto
  show ?thesis
    using assms d[of n] d[of m] mono nieuj[of n] nieuj[of m] by (auto simp: nice_to_priority_def Let_def dziel_def)
qed

lemma nice_to_priority_zakres_przyklad:
  "\<exists>q q'. nice_to_priority env0 0 = (OK, Some q) \<and> nice_to_priority env0 10 = (OK, Some q') \<and> 0 \<le> q \<and> q \<le> q' \<and> q' \<le> 14"
proof -
  have "PRIO_MIN env0 = - 20" "PRIO_MAX env0 = 20" "MAX_USER_Q env0 = 0" "MIN_USER_Q env0 = 14" by (simp_all add: env0_def)
  with nice_to_priority_zakres[of env0 0 10] show ?thesis by simp
qed

section \<open>Boot parameters\<close>

text \<open>The block that holds a list of named parameters, and the string that a pointer into the block points to.\<close>

definition blok :: "(string \<times> string) list \<Rightarrow> string" where
  "blok ps = concat (map (\<lambda>(n, v). n @ CHR ''='' # v @ [NUL]) ps) @ [NUL]"

definition napis :: "string \<Rightarrow> string" where
  "napis = takeWhile (\<lambda>c. c \<noteq> NUL)"

lemma przedrostek_wspolny:
  "przedrostek xs ys = (ns, es) \<Longrightarrow> \<exists>p. xs = p @ ns \<and> ys = p @ es \<and> (ns = [] \<or> es = [] \<or> hd ns \<noteq> hd es)"
proof (induction xs ys rule: przedrostek.induct)
  case (1 n ns' e es')
  show ?case
  proof (cases "n = e")
    case True
    with 1 obtain p where "ns' = p @ ns" "es' = p @ es" "ns = [] \<or> es = [] \<or> hd ns \<noteq> hd es" by auto
    with True show ?thesis by (intro exI[of _ "n # p"]) simp
  qed (use 1 in auto)
qed auto

lemma przed_rownoscia:
  "a @ CHR ''='' # x = b @ CHR ''='' # y \<Longrightarrow> CHR ''='' \<notin> set a \<Longrightarrow> CHR ''='' \<notin> set b \<Longrightarrow> a = b \<and> x = y"
  by (induction a arbitrary: b) (auto simp: Cons_eq_append_conv)

lemma find_param_krok:
  assumes "NUL \<notin> set name" "CHR ''='' \<notin> set name" "NUL \<notin> set n" "CHR ''='' \<notin> set n" "NUL \<notin> set v"
  shows "find_param name (n @ CHR ''='' # v @ NUL # r) = (if name = n then Some (Some (v @ NUL # r)) else find_param name r)"
proof -
  let ?e = "n @ CHR ''='' # v @ NUL # r"
  obtain ns es where p: "przedrostek name ?e = (ns, es)" by fastforce
  from przedrostek_wspolny[OF p] obtain q where q: "name = q @ ns" "?e = q @ es" "ns = [] \<or> es = [] \<or> hd ns \<noteq> hd es" by blast
  have nul: "NUL \<noteq> CHR ''=''" by (simp add: NUL_def)
  have "NUL \<in> set es" using q(1,2) assms(1) by (metis Un_iff in_set_conv_decomp set_append append_Cons append_assoc)
  then have es: "es \<noteq> []" by auto
  have "dropWhile (\<lambda>c. c \<noteq> NUL) ((n @ CHR ''='' # v) @ NUL # r) = dropWhile (\<lambda>c. c \<noteq> NUL) (NUL # r)"
    using assms(3,5) nul by (intro dropWhile_append2) auto
  then have "dropWhile (\<lambda>c. c \<noteq> NUL) ?e = NUL # r" by simp
  moreover have "dropWhile (\<lambda>c. c \<noteq> NUL) (q @ es) = dropWhile (\<lambda>c. c \<noteq> NUL) es"
    using q(1) assms(1) by (intro dropWhile_append2) auto
  ultimately have d: "dropWhile (\<lambda>c. c \<noteq> NUL) es = NUL # r" using q(2) by metis
  have h: "hd ?e \<noteq> NUL" using assms(3) nul by (cases n) auto
  have "find_param name ?e = (if ns = [] \<and> hd es = CHR ''='' then Some (Some (tl es)) else find_param name r)"
    using es p d h by (subst find_param.simps) (cases ?e; cases es; auto simp: Let_def)
  also have "ns = [] \<and> hd es = CHR ''='' \<longleftrightarrow> name = n"
  proof
    assume "ns = [] \<and> hd es = CHR ''=''"
    with q es show "name = n" using przed_rownoscia[of n "v @ NUL # r" q "tl es"] assms(2,4) by (cases es) auto
  next
    assume "name = n"
    have "przedrostek n (n @ x) = ([], x)" for x by (induction n) (cases x; auto)+
    with \<open>name = n\<close> p show "ns = [] \<and> hd es = CHR ''=''" by auto
  qed
  finally have w: "find_param name ?e = (if name = n then Some (Some (tl es)) else find_param name r)" .
  show ?thesis
  proof (cases "name = n")
    case True
    with q \<open>(ns = [] \<and> hd es = CHR ''='') = (name = n)\<close> have "es = CHR ''='' # v @ NUL # r" by simp
    with w True show ?thesis by simp
  qed (use w in simp)
qed

lemma find_param_koniec: "find_param name [NUL] = Some None"
  by (simp add: find_param.simps)

text \<open>
  \<^verbatim>\<open>find_param\<close> reads back what the boot block was built from: in the block of any list of named parameters it finds the
  value of the first one with the given name, and \<^verbatim>\<open>NULL\<close> when there is none, without reading outside the block. Names
  contain neither zero characters nor equals signs, values no zero characters.
\<close>

lemma find_param_odczytuje:
  assumes "NUL \<notin> set name" and "CHR ''='' \<notin> set name"
    and "\<forall>(n, v) \<in> set ps. NUL \<notin> set n \<and> CHR ''='' \<notin> set n \<and> NUL \<notin> set v"
  shows "map_option (map_option napis) (find_param name (blok ps)) = Some (map_of ps name)"
  using assms(3)
proof (induction ps)
  case Nil
  then show ?case by (simp add: blok_def find_param_koniec)
next
  case (Cons a ps)
  obtain n v where a: "a = (n, v)" by fastforce
  have "blok (a # ps) = n @ CHR ''='' # v @ NUL # blok ps" by (simp add: blok_def a)
  moreover have "napis (v @ NUL # r) = v" for r
    unfolding napis_def by (subst takeWhile_append2) (use Cons.prems a in auto)
  ultimately show ?case using Cons find_param_krok[of name n v "blok ps"] assms(1,2) by (simp add: a)
qed

lemma find_param_odczytuje_przyklad:
  "map_option (map_option napis) (find_param ''hz'' (blok [(''h'', ''1''), (''hz'', ''60''), (''hz'', ''50'')])) = Some (Some ''60'')"
  using find_param_odczytuje[of "''hz''" "[(''h'', ''1''), (''hz'', ''60''), (''hz'', ''50'')]"] by (simp add: NUL_def)

end
