(* ===== verification/Pm_Start.thy ===== *)
theory Pm_Start
  imports Pm_Uslugi
begin

text \<open>
  The initialisation of the process manager: from a zeroed process table and a boot image whose
  processes have different slots it builds a table that satisfies what the other properties of the
  process manager assume.
\<close>

section \<open>One entry of the boot image\<close>

text \<open>A slot as the loader leaves it, and the slot of a process of the boot image.\<close>

definition zerowy :: "mproc \<Rightarrow> bool" where
  "zerowy p \<longleftrightarrow> mp_flags p = {} \<and> mp_pid p = 0 \<and> mp_procgrp p = 0 \<and> mp_parent p = 0 \<and> mp_ignore p = {} \<and> mp_catch p = {} \<and>
     mp_sigmask p = {} \<and> mp_sigmask2 p = {} \<and> (\<forall>n. sa_mask (mp_sigact p n) = {})"

definition zalozony :: "pm_env \<Rightarrow> pm_boot \<Rightarrow> boot_image \<Rightarrow> mproc \<Rightarrow> bool" where
  "zalozony E P ip p \<longleftrightarrow>
     mp_endpoint p = endpoint ip \<and> mp_name p = take (PROC_NAME_LEN P - 1) (proc_name ip) \<and>
     (if proc_nr ip = INIT_PROC_NR E
      then mp_flags p = {IN_USE} \<and> mp_pid p = INIT_PID E \<and> mp_procgrp p = INIT_PID E \<and> mp_parent p = INIT_PROC_NR E
      else mp_flags p = {IN_USE, PRIV_PROC} \<and> INIT_PID E < mp_pid p \<and> mp_pid p \<le> NR_PIDS E \<and> mp_procgrp p = 0 \<and>
        mp_parent p = (if proc_nr ip = RS_PROC_NR E then INIT_PROC_NR E else RS_PROC_NR E)) \<and>
     bez_kill E p"

text \<open>The processes of the image, the numbers they use, and the state after a part of the image.\<close>

definition procesy_obrazu :: "boot_image list \<Rightarrow> boot_image list" where
  "procesy_obrazu = filter (\<lambda>ip. proc_nr ip \<ge> 0)"

definition pidy_rozne :: "pm \<Rightarrow> bool" where
  "pidy_rozne s \<longleftrightarrow> (\<forall>i < length (mproc s). \<forall>j < length (mproc s).
     flaga_jest i IN_USE s \<and> flaga_jest j IN_USE s \<and> mp_pid (mproc s ! i) = mp_pid (mproc s ! j) \<longrightarrow> i = j)"

definition po_obrazie :: "pm_env \<Rightarrow> pm_boot \<Rightarrow> nat \<Rightarrow> boot_image list \<Rightarrow> pm \<Rightarrow> bool" where
  "po_obrazie E P n ips s \<longleftrightarrow>
     length (mproc s) = n \<and> procs_in_use s = int (length (procesy_obrazu ips)) \<and>
     INIT_PID E \<le> next_pid s \<and> next_pid s \<le> NR_PIDS E \<and> pidy_rozne s \<and>
     (\<forall>ip \<in> set (procesy_obrazu ips). zalozony E P ip (mproc s ! nat (proc_nr ip))) \<and>
     (\<forall>i < n. int i \<notin> proc_nr ` set ips \<longrightarrow> zerowy (mproc s ! i))"

lemma po_obrazie_zajete:
  assumes "po_obrazie E P n ips s" "i < n"
  shows "flaga_jest i IN_USE s \<longleftrightarrow> int i \<in> proc_nr ` set ips"
proof
  assume "flaga_jest i IN_USE s"
  then show "int i \<in> proc_nr ` set ips" using assms by (auto simp: po_obrazie_def zerowy_def flaga_jest_def)
next
  assume "int i \<in> proc_nr ` set ips"
  then obtain ip where "ip \<in> set (procesy_obrazu ips)" "proc_nr ip = int i" by (auto simp: procesy_obrazu_def)
  then have "zalozony E P ip (mproc s ! i)" using assms(1) unfolding po_obrazie_def by (metis nat_int)
  then show "flaga_jest i IN_USE s" by (auto simp: zalozony_def flaga_jest_def split: if_splits)
qed

lemma bez_kill_zerowy: "zerowy p \<Longrightarrow> bez_kill E p"
  by (simp add: zerowy_def bez_kill_def)

text \<open>A fresh slot with a number that no slot in use has keeps the numbers apart.\<close>

lemma po_obrazie_dopisz:
  assumes s: "po_obrazie E P n ips s" and ip: "0 \<le> proc_nr ip" "proc_nr ip < int n" "proc_nr ip \<notin> proc_nr ` set ips"
    and p: "zalozony E P ip p" and inne: "\<And>j. j < n \<Longrightarrow> j \<noteq> nat (proc_nr ip) \<Longrightarrow> flaga_jest j IN_USE s \<Longrightarrow> mp_pid (mproc s ! j) \<noteq> mp_pid p"
    and t: "mproc t = (mproc s)[nat (proc_nr ip) := p]" "procs_in_use t = procs_in_use s + 1"
      "INIT_PID E \<le> next_pid t" "next_pid t \<le> NR_PIDS E"
  shows "po_obrazie E P n (ips @ [ip]) t"
proof -
  let ?i = "nat (proc_nr ip)"
  have len: "length (mproc s) = n" "?i < n" using s ip by (auto simp: po_obrazie_def)
  have "pidy_rozne t"
    using s inne len unfolding po_obrazie_def pidy_rozne_def flaga_jest_def t(1) by (auto simp: nth_list_update) metis+
  moreover have "zalozony E P jp (mproc t ! nat (proc_nr jp))" if "jp \<in> set (procesy_obrazu (ips @ [ip]))" for jp
  proof (cases "proc_nr jp = proc_nr ip")
    case True
    then have "jp = ip" using that ip(1,3) by (auto simp: procesy_obrazu_def rev_image_eqI)
    then show ?thesis using p len t(1) by simp
  next
    case False
    then have "jp \<in> set (procesy_obrazu ips)" "nat (proc_nr jp) \<noteq> ?i" using that ip(1) by (auto simp: procesy_obrazu_def)
    then show ?thesis using s t(1) unfolding po_obrazie_def by simp
  qed
  moreover have "zerowy (mproc t ! i)" if "i < n" "int i \<notin> proc_nr ` set (ips @ [ip])" for i
    using that s t(1) ip(1) unfolding po_obrazie_def by (auto simp: nth_list_update)
  ultimately show ?thesis
    using s t len ip(1) unfolding po_obrazie_def by (auto simp: procesy_obrazu_def)
qed

section \<open>The whole image\<close>

text \<open>The kernel and VFS answer every call of the initialisation with success.\<close>

definition start_udany :: "pm_env \<Rightarrow> pm_boot \<Rightarrow> bool" where
  "start_udany E P \<longleftrightarrow> (\<forall>h c. odp E h c = OK) \<and> (\<forall>h. typ_odpowiedzi P h = OK)"

lemma wolaj_ok_udane: "start_udany E P \<Longrightarrow> wolaj_ok E c s = Some (s\<lparr>log := log s @ [c]\<rparr>)"
  by (simp add: start_udany_def wolaj_ok_def wolaj_def)

lemma zaloz_slot_wynik:
  assumes s: "po_obrazie E P n ips s" and ok: "start_udany E P" and pidy: "0 < INIT_PID E" "2 * int n < NR_PIDS E - INIT_PID E"
    and ip: "proc_nr ip < int n" "0 \<le> proc_nr ip \<Longrightarrow> proc_nr ip \<notin> proc_nr ` set ips"
  shows "\<exists>t. zaloz_slot E P ip s = Some t \<and> po_obrazie E P n (ips @ [ip]) t"
proof (cases "0 \<le> proc_nr ip")
  case False
  then have "po_obrazie E P n (ips @ [ip]) s" using s by (auto simp: po_obrazie_def procesy_obrazu_def)
  then show ?thesis using False by (simp add: zaloz_slot_def)
next
  case True
  let ?i = "nat (proc_nr ip)"
  have len: "length (mproc s) = n" "?i < n" using s ip True by (auto simp: po_obrazie_def)
  have z: "zerowy (mproc s ! ?i)" using s ip(2)[OF True] True len(2) unfolding po_obrazie_def by simp
  have zak: "INIT_PID E \<le> next_pid s" "next_pid s \<le> NR_PIDS E" using s by (auto simp: po_obrazie_def)
  show ?thesis
  proof (cases "proc_nr ip = INIT_PROC_NR E")
    case init: True
    have inne: "mp_pid (mproc s ! j) \<noteq> INIT_PID E" if j: "j < n" "flaga_jest j IN_USE s" for j
    proof -
      obtain jp where "jp \<in> set ips" "proc_nr jp = int j" using po_obrazie_zajete[OF s j(1)] j(2) by auto
      then have "zalozony E P jp (mproc s ! j)" "proc_nr jp \<noteq> INIT_PROC_NR E"
        using s ip(2)[OF True] init unfolding po_obrazie_def procesy_obrazu_def by (force, force)
      then show ?thesis by (simp add: zalozony_def)
    qed
    obtain t p where "zaloz_slot E P ip s = Some t" "mproc t = (mproc s)[?i := p]" "procs_in_use t = procs_in_use s + 1"
      "next_pid t = next_pid s" "zalozony E P ip p" "mp_pid p = INIT_PID E"
      using True init len z ip(1) unfolding zaloz_slot_def
      by (simp add: w_tablicy_def wolaj_ok_udane[OF ok] zmien_def Let_def zalozony_def zerowy_def bez_kill_def)
    then show ?thesis using po_obrazie_dopisz[OF s True ip(1) ip(2)[OF True], of p t] zak inne by auto
  next
    case inny: False
    let ?p = "(mproc s ! ?i)\<lparr>mp_name := take (PROC_NAME_LEN P - 1) (proc_name ip), mp_ignore := {}, mp_sigmask := {}, mp_catch := {},
      mp_parent := (if proc_nr ip = RS_PROC_NR E then INIT_PROC_NR E else RS_PROC_NR E)\<rparr>"
    let ?s = "s\<lparr>procs_in_use := procs_in_use s + 1, mproc := (mproc s)[?i := ?p]\<rparr>"
    obtain k where k: "get_free_pid E ?s = Some (k, ?s\<lparr>next_pid := k\<rparr>)" "INIT_PID E < k" "k \<le> NR_PIDS E"
      and wolne: "\<And>r. r \<in> set (mproc ?s) \<Longrightarrow> mp_pid r \<noteq> k \<and> mp_procgrp r \<noteq> k"
      by (rule get_free_pid_wynik[of E ?s]) (use zak pidy len in simp_all)
    have inne: "mp_pid (mproc s ! j) \<noteq> k" if "j < n" "j \<noteq> ?i" for j
      using wolne[of "mproc ?s ! j"] that len by (simp add: in_set_conv_nth) (metis nth_list_update_neq)
    obtain t p where "zaloz_slot E P ip s = Some t" "mproc t = (mproc s)[?i := p]" "procs_in_use t = procs_in_use s + 1"
      "next_pid t = k" "zalozony E P ip p" "mp_pid p = k"
      using True inny len z k ip(1) unfolding zaloz_slot_def
      by (simp add: w_tablicy_def wolaj_ok_udane[OF ok] zmien_def Let_def zalozony_def zerowy_def bez_kill_def)
    then show ?thesis using po_obrazie_dopisz[OF s True ip(1) ip(2)[OF True], of p t] k(2,3) inne by auto
  qed
qed

lemma zaloz_sloty_wynik:
  assumes "po_obrazie E P n ips s" "start_udany E P" "0 < INIT_PID E" "2 * int n < NR_PIDS E - INIT_PID E"
    and "\<And>ip. ip \<in> set jps \<Longrightarrow> proc_nr ip < int n" "distinct (map proc_nr (procesy_obrazu (ips @ jps)))"
  shows "\<exists>t. zaloz_sloty E P jps s = Some t \<and> po_obrazie E P n (ips @ jps) t"
  using assms(1,5,6)
proof (induction jps arbitrary: ips s)
  case Nil
  then show ?case by simp
next
  case (Cons jp jps)
  have "proc_nr jp \<notin> proc_nr ` set ips" if "0 \<le> proc_nr jp"
    using Cons.prems(3) that by (auto simp: procesy_obrazu_def)
  then obtain s' where s': "zaloz_slot E P jp s = Some s'" "po_obrazie E P n (ips @ [jp]) s'"
    using zaloz_slot_wynik[OF Cons.prems(1) assms(2-4), of jp] Cons.prems(2) by auto
  then show ?case using Cons.IH[OF s'(2)] Cons.prems(2,3) by auto
qed

lemma po_obrazie_bez_kill: "po_obrazie E P n ips s \<Longrightarrow> list_all (bez_kill E) (mproc s)"
proof (unfold list_all_length, intro allI impI)
  fix i assume s: "po_obrazie E P n ips s" and i: "i < length (mproc s)"
  show "bez_kill E (mproc s ! i)"
  proof (cases "int i \<in> proc_nr ` set ips")
    case True
    then obtain ip where "ip \<in> set (procesy_obrazu ips)" "proc_nr ip = int i" by (auto simp: procesy_obrazu_def)
    then have "zalozony E P ip (mproc s ! i)" using s unfolding po_obrazie_def by (metis nat_int)
    then show ?thesis by (simp add: zalozony_def)
  next
    case False
    then show ?thesis using s i by (intro bez_kill_zerowy) (auto simp: po_obrazie_def)
  qed
qed

lemma get_free_pid_pid: "get_free_pid E s = Some r \<Longrightarrow> \<exists>p. snd r = s\<lparr>next_pid := p\<rparr>"
  by (erule get_free_pid.raw_induct[of "\<lambda>E s r. \<exists>p. snd r = s\<lparr>next_pid := p\<rparr>", rotated])
     (fastforce simp: Let_def split: if_splits)

lemma zaloz_slot_stale:
  assumes "zaloz_slot E P ip s = Some t"
  shows "core_sset t = core_sset s" "map mp_magic (mproc t) = map mp_magic (mproc s)"
proof -
  have m: "map mp_magic (xs[i := p]) = map mp_magic xs" if "mp_magic p = mp_magic (xs ! i)" for xs i p
    using that by (metis list_update_id map_update)
  show "core_sset t = core_sset s"
    using assms by (auto simp: zaloz_slot_def Let_def wolaj_ok_def wolaj_def zmien_def bind_eq_Some_conv dest!: get_free_pid_pid split: if_splits)
  show "map mp_magic (mproc t) = map mp_magic (mproc s)"
    using assms by (auto simp: zaloz_slot_def Let_def wolaj_ok_def wolaj_def zmien_def bind_eq_Some_conv nth_list_update w_tablicy_def intro!: m
        dest!: get_free_pid_pid split: if_splits)
qed

lemma zaloz_sloty_stale:
  assumes "zaloz_sloty E P ips s = Some t"
  shows "core_sset t = core_sset s" "map mp_magic (mproc t) = map mp_magic (mproc s)"
proof -
  have "core_sset t = core_sset s \<and> map mp_magic (mproc t) = map mp_magic (mproc s)"
    using assms by (induction ips arbitrary: s) (fastforce simp: bind_eq_Some_conv dest: zaloz_slot_stale)+
  then show "core_sset t = core_sset s" "map mp_magic (mproc t) = map mp_magic (mproc s)" by simp_all
qed

lemma start_po_obrazie:
  assumes "list_all zerowy (mproc s)" and "next_pid s = INIT_PID E + 1" and "start_udany E P" and "0 < INIT_PID E"
    and "2 * int (length (mproc s)) < NR_PIDS E - INIT_PID E"
    and "\<forall>ip \<in> set (image_tab P). proc_nr ip < int (length (mproc s))" and "distinct (map proc_nr (procesy_obrazu (image_tab P)))"
  obtains s' where "sef_cb_init_fresh E P s = Some (OK, s')" "po_obrazie E P (length (mproc s)) (image_tab P) s'"
    "core_sset s' = set (core_sigs E P)" "list_all (\<lambda>p. mp_magic p = MP_MAGIC P) (mproc s')" "system_hz s' = sys_hz P"
proof -
  let ?z = "\<lambda>s. (zeruj_sloty P s)\<lparr>core_sset := set (core_sigs E P), ign_sset := set (ign_sigs E P), noign_sset := set (noign_sigs P)\<rparr>"
  let ?s = "(?z s)\<lparr>log := log s @ [Sys_getmonparams, Sys_getkinfo, Sys_getimage], procs_in_use := 0\<rparr>"
  have z: "zerowy (p\<lparr>mp_timer := x, mp_magic := y\<rparr>) \<longleftrightarrow> zerowy p" for p x y by (simp add: zerowy_def)
  have "list_all zerowy (mproc ?s)" using assms(1) by (simp add: zeruj_sloty_def list_all_length z)
  then have "po_obrazie E P (length (mproc s)) [] ?s"
    using assms(2,5) by (auto simp: po_obrazie_def procesy_obrazu_def pidy_rozne_def flaga_jest_def list_all_length zerowy_def zeruj_sloty_def)
  then obtain t where t: "zaloz_sloty E P (image_tab P) ?s = Some t" "po_obrazie E P (length (mproc s)) (image_tab P) t"
    using zaloz_sloty_wynik[OF _ assms(3-5), of "[]" ?s "image_tab P"] assms(6,7) by auto
  let ?t = "t\<lparr>uts_machine := nazwa_maszyny P t, system_hz := sys_hz P, log := log t @ [Sendrec_init (NONE E), Sched_init]\<rparr>"
  have "nazwa_maszyny P (t\<lparr>log := x\<rparr>) = nazwa_maszyny P t" for x by (simp add: nazwa_maszyny_def split: architektura.split)
  then have "sef_cb_init_fresh E P s = Some (OK, ?t)"
    using t(1) assms(3) by (simp add: sef_cb_init_fresh_def wolaj_ok_udane[OF assms(3)] wolaj_def start_udany_def Let_def zeruj_sloty_def)
  moreover have "po_obrazie E P (length (mproc s)) (image_tab P) ?t"
    using t(2) by (simp add: po_obrazie_def pidy_rozne_def flaga_jest_def)
  moreover have "core_sset ?t = set (core_sigs E P)" using zaloz_sloty_stale(1)[OF t(1)] by simp
  moreover have "list_all (\<lambda>p. mp_magic p = MP_MAGIC P) (mproc ?t)"
    using zaloz_sloty_stale(2)[OF t(1)] by (simp add: zeruj_sloty_def list_all_length list_eq_iff_nth_eq)
  ultimately show thesis using that by simp
qed

text \<open>
  C29. The initialisation of the process manager succeeds on a zeroed table: exactly the processes of the boot image
  are in use and counted, each with its endpoint and name, INIT as the user process with number \<^verbatim>\<open>INIT_PID\<close> and the others as
  system processes with parents RS or INIT, their numbers are all different and in the range, no slot
  blocks, ignores or catches \<^verbatim>\<open>SIGKILL\<close>, every slot has the magic number, and the clock rate is that of the kernel.
\<close>

theorem sef_cb_init_fresh_poprawne:
  assumes "list_all zerowy (mproc s)" and "next_pid s = INIT_PID E + 1" and "start_udany E P" and "0 < INIT_PID E"
    and "2 * int (length (mproc s)) < NR_PIDS E - INIT_PID E"
    and "\<forall>ip \<in> set (image_tab P). proc_nr ip < int (length (mproc s))" and "distinct (map proc_nr (procesy_obrazu (image_tab P)))"
  shows "\<exists>s'. sef_cb_init_fresh E P s = Some (OK, s') \<and> length (mproc s') = length (mproc s) \<and>
     (\<forall>i < length (mproc s). flaga_jest i IN_USE s' \<longleftrightarrow> int i \<in> proc_nr ` set (image_tab P)) \<and>
     procs_in_use s' = int (length (procesy_obrazu (image_tab P))) \<and> pidy_rozne s' \<and>
     (\<forall>ip \<in> set (procesy_obrazu (image_tab P)). zalozony E P ip (mproc s' ! nat (proc_nr ip))) \<and>
     list_all (bez_kill E) (mproc s') \<and> core_sset s' = set (core_sigs E P) \<and> INIT_PID E \<le> next_pid s' \<and> next_pid s' \<le> NR_PIDS E \<and>
     list_all (\<lambda>p. mp_magic p = MP_MAGIC P) (mproc s') \<and> system_hz s' = sys_hz P"
proof -
  obtain s' where s': "sef_cb_init_fresh E P s = Some (OK, s')" "po_obrazie E P (length (mproc s)) (image_tab P) s'"
    "core_sset s' = set (core_sigs E P)" "list_all (\<lambda>p. mp_magic p = MP_MAGIC P) (mproc s')" "system_hz s' = sys_hz P"
    by (rule start_po_obrazie[OF assms])
  show ?thesis
    using s'(1,3-5) po_obrazie_zajete[OF s'(2)] po_obrazie_bez_kill[OF s'(2)] s'(2) unfolding po_obrazie_def by blast
qed

definition boot0 :: pm_boot where
  "boot0 = \<lparr>image_tab = [\<lparr>proc_nr = - 3, proc_name = ''clock'', endpoint = - 3\<rparr>, \<lparr>proc_nr = 0, proc_name = ''pm'', endpoint = 0\<rparr>,
       \<lparr>proc_nr = 1, proc_name = ''vfs'', endpoint = 1\<rparr>, \<lparr>proc_nr = 2, proc_name = ''rs'', endpoint = 2\<rparr>,
       \<lparr>proc_nr = 4, proc_name = ''init'', endpoint = 4\<rparr>],
     typ_odpowiedzi = (\<lambda>h. 0), PROC_NAME_LEN = 16, USR_Q = 7, SRV_Q = 4, SIGILL = 4, SIGTRAP = 5, SIGABRT = 6, SIGEMT = 7,
     SIGFPE = 8, SIGBUS = 10, SIGSEGV = 11, SIGCONT = 19, init_timer = 2147483647, MP_MAGIC = 3237998106,
     arch = I386, getprocessor = 686, sys_hz = 60\<rparr>"

definition pm_zero :: pm where
  "pm_zero = pm0\<lparr>mproc := replicate 6 (slot0 [] 0 0 0 {}\<lparr>mp_procgrp := 0, mp_catch := {}\<rparr>), next_pid := 2\<rparr>"

theorem sef_cb_init_fresh_poprawne_przyklad:
  "\<exists>s'. sef_cb_init_fresh env0 boot0 pm_zero = Some (OK, s') \<and> procs_in_use s' = 4 \<and> pidy_rozne s' \<and>
     zalozony env0 boot0 \<lparr>proc_nr = 4, proc_name = ''init'', endpoint = 4\<rparr> (mproc s' ! 4)"
proof -
  have "list_all zerowy (mproc pm_zero)" "start_udany env0 boot0" "2 * int (length (mproc pm_zero)) < NR_PIDS env0 - INIT_PID env0"
    "next_pid pm_zero = INIT_PID env0 + 1" "0 < INIT_PID env0"
    by (simp_all add: pm_zero_def slot0_def zerowy_def list_all_length start_udany_def boot0_def OK_def)
  moreover have "\<forall>ip \<in> set (image_tab boot0). proc_nr ip < int (length (mproc pm_zero))"
    "distinct (map proc_nr (procesy_obrazu (image_tab boot0)))"
    by (simp_all add: pm_zero_def boot0_def procesy_obrazu_def)
  ultimately show ?thesis
    using sef_cb_init_fresh_poprawne[of pm_zero env0 boot0] by (auto simp: boot0_def procesy_obrazu_def)
qed

end
