(* ===== verification/Pm_Niezmiennik.thy ===== *)
theory Pm_Niezmiennik
  imports Pm_Start
begin

text \<open>
  The invariant of the process table over whole runs of the process manager: the comment in
  \<^verbatim>\<open>main.c\<close> that the process manager assumes \<^verbatim>\<open>mp_parent\<close> to be a valid slot number holds in every
  reachable state, and so does the rule that no slot blocks, ignores or catches \<^verbatim>\<open>SIGKILL\<close>.
\<close>

section \<open>The invariant\<close>

definition slot_ok :: "pm_env \<Rightarrow> mproc \<Rightarrow> bool" where
  "slot_ok E p \<longleftrightarrow> 0 \<le> mp_parent p \<and> mp_parent p < int (NR_PROCS E) \<and> bez_kill E p"

definition tablica_ok :: "pm_env \<Rightarrow> pm \<Rightarrow> bool" where
  "tablica_ok E s \<longleftrightarrow> length (mproc s) = NR_PROCS E \<and> list_all (slot_ok E) (mproc s) \<and>
     0 \<le> INIT_PROC_NR E \<and> INIT_PROC_NR E < int (NR_PROCS E)"

lemma tablica_po: "po E s t \<Longrightarrow> tablica_ok E s \<Longrightarrow> tablica_ok E t"
  unfolding tablica_ok_def list_all_length po_def slot_po_def slot_ok_def by (metis (no_types, lifting))

lemma tablica_pred_po: "tablica_ok E s \<Longrightarrow> pred_option (po E s) x \<Longrightarrow> pred_option (tablica_ok E) x"
  by (auto elim: pred_mono intro: tablica_po)

lemma tablica_zmien:
  "tablica_ok E s \<Longrightarrow> (\<And>p. slot_ok E p \<Longrightarrow> slot_ok E (f p)) \<Longrightarrow> tablica_ok E (zmien i f s)"
  unfolding tablica_ok_def using list_all_zmien[of "slot_ok E" s f i] by (auto simp: zmien_def)

lemma tablica_pola: "mproc t = mproc s \<Longrightarrow> tablica_ok E t = tablica_ok E s"
  by (simp add: tablica_ok_def)

text \<open>The steps of the handlers that change a slot directly, or only other fields of the state.\<close>

lemma tablica_kroki:
  assumes "tablica_ok E s"
  shows "tablica_ok E (flagi_dodaj i F s)" "tablica_ok E (flagi_zdejmij i F s)" "tablica_ok E (snd (wolaj E c s))"
    "tablica_ok E (drukuj t xs s)" "pred_option (tablica_ok E) (wolaj_ok E c s)" "pred_option (tablica_ok E) (setreply k r s)"
    "pred_option (tablica_ok E) (tell_vfs E i m s)" "tablica_ok E (cleanup i s)"
proof -
  show f: "tablica_ok E (flagi_dodaj i F s)" for i F
    unfolding flagi_dodaj_def by (rule tablica_zmien[OF assms]) (simp add: slot_ok_def bez_kill_def)
  show "tablica_ok E (flagi_zdejmij i F s)"
    unfolding flagi_zdejmij_def by (rule tablica_zmien[OF assms]) (simp add: slot_ok_def bez_kill_def)
  show "tablica_ok E (snd (wolaj E c s))" "tablica_ok E (drukuj t xs s)"
    using assms by (simp_all add: wolaj_def drukuj_def tablica_ok_def)
  show "pred_option (tablica_ok E) (wolaj_ok E c s)" by (rule tablica_pred_po[OF assms po_wolaj_ok[OF po_refl]])
  show "pred_option (tablica_ok E) (setreply k r s)" by (rule tablica_pred_po[OF assms po_setreply[OF po_refl]])
  show "pred_option (tablica_ok E) (tell_vfs E i m s)" by (rule tablica_pred_po[OF assms po_tell_vfs[OF po_refl]])
  show "tablica_ok E (cleanup i s)" by (rule tablica_po[OF po_cleanup[OF po_refl] assms])
qed

lemma tablica_sendreply: "tablica_ok E s \<Longrightarrow> pred_option (tablica_ok E) (sendreply E s)"
  unfolding sendreply_def
  by (rule pred_FOR) (auto simp: sendreply_slot_def Let_def split_def intro!: tablica_kroki)

section \<open>Handlers of the sources\<close>

text \<open>
  The contract of a handler: it is called by a process, and whatever state it leaves satisfies the
  invariant.
\<close>

locale obsluga =
  fixes E :: pm_env and B :: pm_obce and h :: "pm \<Rightarrow> (int \<times> pm) option"
  assumes h_ok: "obce_ok E B \<Longrightarrow> tablica_ok E s \<Longrightarrow> mp s < NR_PROCS E \<Longrightarrow> 0 \<le> who_p s \<Longrightarrow> who_p s < int (NR_PROCS E) \<Longrightarrow> pred_option (\<lambda>(r, t). tablica_ok E t) (h s)"
begin

text \<open>A round of \<^verbatim>\<open>main\<close> after the handler: the reply is stored and all replies are sent.\<close>

lemma odpowiedz_ok:
  assumes "obce_ok E B" "tablica_ok E s" "mp s < NR_PROCS E" "0 \<le> who_p s" "who_p s < int (NR_PROCS E)"
  shows "pred_option (tablica_ok E) (do {
    (result, s) \<leftarrow> h s;
    s \<leftarrow> (if result \<noteq> SUSPEND E then setreply (who_p s) result s else Some s);
    sendreply E s })"
  by (rule pred_bindI[OF h_ok[OF assms]]) (auto intro!: pred_bindI[OF tablica_kroki(6)] tablica_sendreply simp: split_def)

end

text \<open>A handler that hands a state with the invariant on to the delivery of signals keeps the invariant.\<close>

lemma tablica_check_pending:
  "obce_ok E B \<Longrightarrow> tablica_ok E s \<Longrightarrow> pred_option (tablica_ok E) (check_pending E (sig_proc E B) rmp s)"
  by (rule tablica_pred_po[OF _ po_check_pending[OF _ po_refl]])

lemma tablica_check_sig:
  "obce_ok E B \<Longrightarrow> tablica_ok E s \<Longrightarrow> pred_option (\<lambda>(r, t). tablica_ok E t) (check_sig E (sig_proc E B) q n k s)"
  using sp.po_check_sig[OF _ po_refl, of E B s q n k] by (auto elim!: pred_mono intro: tablica_po)

lemma tablica_sig_proc:
  "obce_ok E B \<Longrightarrow> tablica_ok E s \<Longrightarrow> pred_option (tablica_ok E) (sig_proc E B i n t k s)"
  by (rule tablica_pred_po[OF _ sp.sig_po[OF _ po_refl]])

lemma tablica_exit_proc:
  "obce_ok E B \<Longrightarrow> tablica_ok E s \<Longrightarrow> pred_option (tablica_ok E) (exit_proc E B i x d s)"
  by (rule tablica_pred_po[OF _ ep.ex_po[OF _ po_refl]])

lemma slot_ok_maski:
  assumes "slot_ok E p"
  shows "slot_ok E (p\<lparr>mp_reply := r\<rparr>)" "slot_ok E (p\<lparr>mp_sigmask := mp_sigmask p \<union> (A - {SIGKILL E, SIGSTOP E})\<rparr>)"
    "slot_ok E (p\<lparr>mp_sigmask := mp_sigmask p - A\<rparr>)" "slot_ok E (p\<lparr>mp_sigmask := A - {SIGKILL E, SIGSTOP E}\<rparr>)"
    "slot_ok E (p\<lparr>mp_sigmask2 := mp_sigmask p, mp_sigmask := A - {SIGKILL E, SIGSTOP E}\<rparr>)" "slot_ok E (p\<lparr>mp_wpid := w\<rparr>)"
    "slot_ok E (p\<lparr>mp_sigtrace := A\<rparr>)" "slot_ok E (p\<lparr>mp_scheduler := w\<rparr>)" "slot_ok E (p\<lparr>mp_pid := w\<rparr>)"
    "slot_ok E (p\<lparr>mp_sigstatus := w\<rparr>)" "slot_ok E (p\<lparr>mp_procgrp := w\<rparr>)"
  using assms by (simp_all add: slot_ok_def bez_kill_def)

interpretation o_exit: obsluga E B "do_exit E B" for E B
  by unfold_locales (auto simp: do_exit_def Let_def split_def intro!: tablica_kroki pred_bindI[OF tablica_exit_proc])

interpretation o_sigpending: obsluga E B "\<lambda>s. Some (do_sigpending s)" for E B
  by unfold_locales (auto simp: do_sigpending_def intro!: tablica_zmien slot_ok_maski)

interpretation o_pause: obsluga E B "\<lambda>s. Some (do_pause E s)" for E B
  by unfold_locales (auto simp: do_pause_def intro!: tablica_kroki)

interpretation o_kill: obsluga E B "do_kill E (sig_proc E B)" for E B
  by unfold_locales (auto simp: do_kill_def intro!: tablica_check_sig)

interpretation o_srv_kill: obsluga E B "do_srv_kill E (sig_proc E B)" for E B
  by unfold_locales (auto simp: do_srv_kill_def intro!: tablica_check_sig)

interpretation o_sigprocmask: obsluga E B "do_sigprocmask E (sig_proc E B)" for E B
  by unfold_locales
    (auto simp: do_sigprocmask_def Let_def intro!: tablica_zmien slot_ok_maski pred_bindI[OF tablica_check_pending])

interpretation o_sigsuspend: obsluga E B "do_sigsuspend E (sig_proc E B)" for E B
  by unfold_locales
    (auto simp: do_sigsuspend_def Let_def intro!: tablica_kroki(1) tablica_zmien slot_ok_maski pred_bindI[OF tablica_check_pending])

interpretation o_sigreturn: obsluga E B "do_sigreturn E (sig_proc E B)" for E B
  by unfold_locales
    (auto simp: do_sigreturn_def Let_def split_def intro!: tablica_kroki(3) tablica_zmien slot_ok_maski pred_bindI[OF tablica_check_pending])

interpretation o_sigaction: obsluga E B "\<lambda>s. Some (do_sigaction E s)" for E B
proof
  fix s assume s: "tablica_ok E s"
  have k: "slot_ok E (if c then p\<lparr>mp_ignore := insert n (mp_ignore p), mp_sigpending := mp_sigpending p - {n},
      mp_ksigpending := mp_ksigpending p - {n}, mp_catch := mp_catch p - {n}\<rparr>
    else if d then p\<lparr>mp_ignore := mp_ignore p - {n}, mp_catch := mp_catch p - {n}\<rparr>
    else p\<lparr>mp_ignore := mp_ignore p - {n}, mp_catch := insert n (mp_catch p)\<rparr>)"
    "slot_ok E (p\<lparr>mp_sigact := (mp_sigact p)(n := \<lparr>sa_handler = a, sa_mask = A - {SIGKILL E, SIGSTOP E}, sa_flags = f\<rparr>),
      mp_sigreturn := r\<rparr>)" if "slot_ok E p" "n \<noteq> SIGKILL E" for p n c d a A f r
    using that by (auto simp: slot_ok_def bez_kill_def)
  show "pred_option (\<lambda>(r, t). tablica_ok E t) (Some (do_sigaction E s))"
    using s by (auto simp: do_sigaction_def Let_def split_def intro!: tablica_zmien k tablica_kroki(3))
qed

lemma tablica_tell_parent: "tablica_ok E s \<Longrightarrow> pred_option (tablica_ok E) (tell_parent i s)"
  by (rule tablica_pred_po[OF _ po_tell_parent[OF po_refl]])

lemma tablica_check_parent:
  "obce_ok E B \<Longrightarrow> tablica_ok E s \<Longrightarrow> pred_option (tablica_ok E) (check_parent E (sig_proc E B) i c s)"
  by (rule tablica_pred_po[OF _ sp.po_check_parent[OF _ po_refl]])

lemma tablica_tell_tracer: "tablica_ok E s \<Longrightarrow> pred_option (tablica_ok E) (tell_tracer i s)"
  by (rule tablica_pred_po[OF _ po_tell_tracer[OF po_refl]])

lemma tablica_waitpid_petla:
  assumes B: "obce_ok E B" and s: "tablica_ok E s"
  shows "pred_option (\<lambda>(w, t). tablica_ok E t) (waitpid_petla E (sig_proc E B) q is c s)"
proof (induction "is" arbitrary: c)
  case (Cons i "is")
  have z: "pred_option (\<lambda>(w, t). tablica_ok E t) (do { s \<leftarrow> tell_tracer i s; s \<leftarrow> check_parent E (sig_proc E B) i True s;
      Some (Inr (SUSPEND E), s) })"
    by (rule pred_bindI[OF tablica_tell_tracer[OF s]], rule pred_bindI[OF tablica_check_parent[OF B]]) auto
  have r: "pred_option (\<lambda>(w, t). tablica_ok E t) (do { s \<leftarrow> tell_parent i s;
      Some (Inr (SUSPEND E), if \<not> flaga_jest i VFS_CALL s then cleanup i s else s) })"
    by (rule pred_bindI[OF tablica_tell_parent[OF s]]) (auto intro: tablica_kroki)
  show ?case
    using s Cons.IH z r by (auto simp: Let_def split: option.split intro!: tablica_zmien slot_ok_maski)
qed (use s in simp)

interpretation o_waitpid: obsluga E B "do_waitpid E (sig_proc E B)" for E B
  by unfold_locales
    (auto simp: do_waitpid_def Let_def split: sum.split intro!: pred_bindI[OF tablica_waitpid_petla] tablica_zmien slot_ok_maski tablica_kroki(1))

text \<open>The two calls that fill a slot: the child is a copy of its parent, and its own parent is the caller.\<close>

lemma slot_ok_dziecka:
  assumes "tablica_ok E s" "mp s < length (mproc s)" "0 \<le> who_p s" "who_p s < int (NR_PROCS E)"
  shows "slot_ok E (slot_dziecka E s ep)"
  using assms by (auto simp: slot_dziecka_def slot_ok_def bez_kill_def Let_def tablica_ok_def list_all_length)

lemma tablica_get_free_pid:
  "tablica_ok E s \<Longrightarrow> pred_option (\<lambda>(k, t). tablica_ok E t) (get_free_pid E s)"
  by (cases "get_free_pid E s") (auto dest!: get_free_pid_pid simp: tablica_ok_def)

lemma tablica_wpisz: "tablica_ok E s \<Longrightarrow> slot_ok E p \<Longrightarrow> tablica_ok E (zmien c (\<lambda>_. p) (s\<lparr>procs_in_use := k\<rparr>))"
  by (rule tablica_zmien) (simp_all add: tablica_ok_def)

lemma tablica_dziecko:
  assumes B: "obce_ok E B" and s: "tablica_ok E s" and p: "slot_ok E p"
    and koniec: "\<And>t. tablica_ok E t \<Longrightarrow> pred_option Q (dalej t)"
  shows "pred_option Q (do {
    ns \<leftarrow> get_free_pid E (zmien c (\<lambda>_. p) (s\<lparr>procs_in_use := k\<rparr>));
    s \<leftarrow> tell_vfs E c (m ns) (zmien c (\<lambda>p. p\<lparr>mp_pid := fst ns\<rparr>) (snd ns));
    s \<leftarrow> zglos_sledzacemu E (sig_proc E B) c s;
    dalej s })"
proof -
  have z: "pred_option (tablica_ok E) (zglos_sledzacemu E (sig_proc E B) c t)" if "tablica_ok E t" for t
    unfolding zglos_sledzacemu_def using that B by (auto intro: tablica_sig_proc)
  show ?thesis
    by (intro pred_bindI[OF tablica_get_free_pid[OF tablica_wpisz[OF s p]]])
      (auto intro!: pred_bindI[OF tablica_kroki(7)] pred_bindI[OF z] tablica_zmien slot_ok_maski koniec)
qed

lemma slot_ok_flagi: "slot_ok E p \<Longrightarrow> slot_ok E (p\<lparr>mp_flags := F\<rparr>)"
  by (simp add: slot_ok_def bez_kill_def)

lemma tablica_inne: "tablica_ok E s \<Longrightarrow> tablica_ok E (s\<lparr>next_child := c\<rparr>)" "tablica_ok E s \<Longrightarrow> tablica_ok E (s\<lparr>next_child_srv := c\<rparr>)"
  by (simp_all add: tablica_ok_def)

interpretation o_fork: obsluga E B "do_fork E (sig_proc E B)" for E B
proof
  fix s assume B: "obce_ok E B" and s: "tablica_ok E s" "mp s < NR_PROCS E" "0 \<le> who_p s" "who_p s < int (NR_PROCS E)"
  define t where "t = s\<lparr>next_child := snd (szukaj_slotu s 0 (next_child s))\<rparr>"
  define w where "w c = snd (wolaj E c t)" for c
  have w: "tablica_ok E (w c)" for c unfolding w_def t_def by (intro tablica_kroki(3) tablica_inne s)
  have d: "slot_ok E (slot_dziecka E (w c) ep)" for c ep
    using s w[of c] by (intro slot_ok_dziecka) (auto simp: w_def t_def wolaj_def tablica_ok_def)
  show "pred_option (\<lambda>(r, t). tablica_ok E t) (do_fork E (sig_proc E B) s)"
    unfolding do_fork_def Let_def split_def t_def[symmetric] w_def[symmetric]
    using s w by (auto intro!: tablica_kroki(4) tablica_dziecko[OF B w] slot_ok_flagi slot_ok_maski d)
qed

lemma slot_ok_uid: "slot_ok E p \<Longrightarrow> slot_ok E (p\<lparr>mp_flags := F, mp_realuid := u, mp_effuid := u, mp_realgid := g, mp_effgid := g\<rparr>)"
  by (simp add: slot_ok_def bez_kill_def)

interpretation o_srv_fork: obsluga E B "do_srv_fork E (sig_proc E B)" for E B
proof
  fix s assume B: "obce_ok E B" and s: "tablica_ok E s" "mp s < NR_PROCS E" "0 \<le> who_p s" "who_p s < int (NR_PROCS E)"
  define t where "t = s\<lparr>next_child_srv := snd (szukaj_slotu s 0 (next_child_srv s))\<rparr>"
  define w where "w c = snd (wolaj E c t)" for c
  have w: "tablica_ok E (w c)" for c unfolding w_def t_def by (intro tablica_kroki(3) tablica_inne s)
  have d: "slot_ok E (slot_dziecka E (w c) ep)" for c ep
    using s w[of c] by (intro slot_ok_dziecka) (auto simp: w_def t_def wolaj_def tablica_ok_def)
  show "pred_option (\<lambda>(r, t). tablica_ok E t) (do_srv_fork E (sig_proc E B) s)"
    unfolding do_srv_fork_def Let_def split_def t_def[symmetric] w_def[symmetric]
    using s w by (auto intro!: tablica_kroki(4) tablica_dziecko[OF B w] slot_ok_uid d pred_bindI[OF tablica_kroki(6)])
qed

interpretation o_no_sys: obsluga E B "\<lambda>s. Some (no_sys E, s)" for E B
  by unfold_locales simp

section \<open>The main loop\<close>

text \<open>What is assumed of the functions outside the sources that a round may call.\<close>

definition reszta_ok :: "pm_env \<Rightarrow> pm_obce \<Rightarrow> pm_tablica \<Rightarrow> bool" where
  "reszta_ok E B T \<longleftrightarrow> (\<forall>s. tablica_ok E s \<longrightarrow>
     (\<forall>i n. pred_option (tablica_ok E) (check_vtimer B i n s)) \<and>
     (\<forall>i a b c. pred_option (tablica_ok E) (exec_restart B i a b c s)) \<and>
     (\<forall>c i. pred_option (\<lambda>(r, t). tablica_ok E t) (sched_start_user B c i s)) \<and>
     (\<forall>t. pred_option (tablica_ok E) (expire_timers T t s)))"

text \<open>The handlers that \<^verbatim>\<open>call_vec\<close> may hold: those of the sources, and others that keep the contract.\<close>

definition obslugi_zrodel :: "pm_env \<Rightarrow> pm_obce \<Rightarrow> (pm \<Rightarrow> (int \<times> pm) option) set" where
  "obslugi_zrodel E B = {do_fork E (sig_proc E B), do_srv_fork E (sig_proc E B), do_exit E B, do_waitpid E (sig_proc E B),
     do_kill E (sig_proc E B), do_srv_kill E (sig_proc E B), do_sigprocmask E (sig_proc E B), do_sigsuspend E (sig_proc E B),
     do_sigreturn E (sig_proc E B), \<lambda>s. Some (do_sigaction E s), \<lambda>s. Some (do_sigpending s), \<lambda>s. Some (do_pause E s),
     \<lambda>s. Some (no_sys E, s)}"

definition call_vec_ok :: "pm_env \<Rightarrow> pm_obce \<Rightarrow> pm_tablica \<Rightarrow> bool" where
  "call_vec_ok E B T \<longleftrightarrow> (\<forall>n. call_vec T n \<in> obslugi_zrodel E B \<or> obsluga E B (call_vec T n)) \<and> obsluga E B (do_getsysinfo T)"

lemma obslugi_zrodel_ok: "h \<in> obslugi_zrodel E B \<Longrightarrow> obsluga E B h"
  unfolding obslugi_zrodel_def
  by (auto intro: o_fork.obsluga_axioms o_srv_fork.obsluga_axioms o_exit.obsluga_axioms o_waitpid.obsluga_axioms
      o_kill.obsluga_axioms o_srv_kill.obsluga_axioms o_sigprocmask.obsluga_axioms o_sigsuspend.obsluga_axioms
      o_sigreturn.obsluga_axioms o_sigaction.obsluga_axioms o_sigpending.obsluga_axioms o_pause.obsluga_axioms
      o_no_sys.obsluga_axioms)

lemma tablica_exit_restart:
  assumes B: "obce_ok E B" and s: "tablica_ok E s"
  shows "pred_option (tablica_ok E) (exit_restart E (sig_proc E B) i d s)"
proof -
  have z: "pred_option (tablica_ok E) (if d then zombify E (sig_proc E B) i t else Some t)" if "tablica_ok E t" for d t
    using tablica_pred_po[OF that sp.po_zombify[OF B po_refl]] that by simp
  show ?thesis
    unfolding exit_restart_def Let_def split_def w_tablicy_def
    by (rule pred_bindI[OF z])
      (auto intro!: tablica_zmien slot_ok_maski tablica_kroki s pred_bindI[OF tablica_kroki(5)] pred_bindI[OF tablica_kroki(6)])
qed

lemma tablica_restart_sigs:
  "obce_ok E B \<Longrightarrow> tablica_ok E s \<Longrightarrow> pred_option (tablica_ok E) (restart_sigs E (sig_proc E B) (exit_proc E B) i s)"
  unfolding restart_sigs_def
  by (auto intro!: tablica_exit_proc pred_bindI[OF tablica_check_pending] tablica_kroki)

lemma tablica_vfs:
  assumes B: "obce_ok E B" and T: "reszta_ok E B T" and s: "tablica_ok E s"
  shows "pred_option (tablica_ok E) (po_odpowiedzi_vfs E B t i s)"
proof -
  have f: "pred_option (\<lambda>(r, t). tablica_ok E t) (sched_start_user B a i s)" for a
    using T s by (simp add: reszta_ok_def)
  have e: "pred_option (tablica_ok E) (exec_restart B i a b c s)" for a b c using T s by (simp add: reszta_ok_def)
  show ?thesis
    unfolding po_odpowiedzi_vfs_def Let_def
    using B s e by (cases t) (auto intro!: tablica_kroki tablica_exit_restart tablica_zmien slot_ok_maski
        pred_bindI[OF f] pred_bindI[OF tablica_exit_proc] pred_bindI[OF tablica_kroki(6)])
qed

lemma tablica_handle_vfs_reply:
  assumes B: "obce_ok E B" and T: "reszta_ok E B T" and s: "tablica_ok E s"
  shows "pred_option (tablica_ok E) (handle_vfs_reply E B t s)"
  unfolding handle_vfs_reply_def Let_def split_def w_tablicy_def
  using s by (auto intro!: tablica_kroki tablica_restart_sigs[OF B] pred_bindI[OF tablica_vfs[OF B T]])

lemma wykonaj_pm_ok:
  assumes "reszta_ok E B T" "call_vec_ok E B T"
  shows "obsluga E B (wykonaj_pm E B T)"
proof
  fix s assume s: "obce_ok E B" "tablica_ok E s" "mp s < NR_PROCS E" "0 \<le> who_p s" "who_p s < int (NR_PROCS E)"
  have c: "obsluga E B (call_vec T n)" "obsluga E B (do_getsysinfo T)" for n
    using assms(2) obslugi_zrodel_ok unfolding call_vec_ok_def by blast+
  have h: "pred_option (\<lambda>(r, t). tablica_ok E t) (do { s \<leftarrow> handle_vfs_reply E B t s; Some (SUSPEND E, s) })" for t
    by (rule pred_bindI[OF tablica_handle_vfs_reply[OF s(1) assms(1) s(2)]]) simp
  have l: "pred_option (\<lambda>(r, t). tablica_ok E t) (call_vec T n (licz_wolanie s))" for n
    by (rule obsluga.h_ok[OF c(1) s(1)]) (use s in \<open>simp_all add: licz_wolanie_def tablica_ok_def\<close>)
  show "pred_option (\<lambda>(r, t). tablica_ok E t) (wykonaj_pm E B T s)"
    unfolding wykonaj_pm_def
    using s(2) h l obsluga.h_ok[OF c(1) s] obsluga.h_ok[OF c(2) s] by (auto split: option.split)
qed

lemma pm_isokendpt_zakres: "pm_isokendpt E e s = (OK, p) \<Longrightarrow> EDEADEPT E \<noteq> OK \<Longrightarrow> p < int (NR_PROCS E) \<and> p = ENDPOINT_P E e"
  by (auto simp: pm_isokendpt_def Let_def errno_defs split: if_splits)

lemma tablica_main_krok:
  assumes B: "obce_ok E B" and T: "reszta_ok E B T" "call_vec_ok E B T" and e: "EDEADEPT E \<noteq> OK"
    and m: "n \<or> 0 \<le> ENDPOINT_P E (m_source m)" and s: "tablica_ok E s"
  shows "pred_option (tablica_ok E) (main_pm_krok E B T (m, n) s)"
proof -
  let ?s = "s\<lparr>m_in := m, who_e := m_source m\<rparr>"
  obtain r p where iso: "pm_isokendpt E (m_source m) ?s = (r, p)" by fastforce
  show ?thesis
  proof (cases "r = OK")
    case True
    with pm_isokendpt_zakres iso e have p: "p < int (NR_PROCS E)" "p = ENDPOINT_P E (m_source m)" by blast+
    define t where "t c = ?s\<lparr>who_p := p, call_nr := m_type m, mp := c\<rparr>" for c
    have t: "tablica_ok E (t c)" for c using s by (simp add: t_def tablica_ok_def)
    have z: "pred_option (tablica_ok E) (if p = CLOCK E then expire_timers T (NOTIFY_TIMESTAMP m) (t c) else Some (t c))" for c
      using T(1) t by (simp add: reszta_ok_def)
    have w: "pred_option (tablica_ok E) (do { (result, s) \<leftarrow> wykonaj_pm E B T (t c);
        s \<leftarrow> (if result \<noteq> SUSPEND E then setreply (who_p s) result s else Some s); sendreply E s })" if "c < NR_PROCS E" "\<not> n" for c
      using obsluga.odpowiedz_ok[OF wykonaj_pm_ok[OF T] B t] that p m by (simp add: t_def)
    let ?k = "if p < 0 then PM_PROC_NR E else p"
    have eq: "main_pm_krok E B T (m, n) s = do {
        c \<leftarrow> w_tablicy ?k (?s\<lparr>who_p := p, call_nr := m_type m\<rparr>);
        if p \<ge> 0 \<and> mp_endpoint (mproc (t c) ! c) \<noteq> m_source m then None
        else if flaga_jest c EXITING (t c) then Some (t c)
        else if n then Option.bind (if p = CLOCK E then expire_timers T (NOTIFY_TIMESTAMP m) (t c) else Some (t c)) (sendreply E)
        else do { (result, s) \<leftarrow> wykonaj_pm E B T (t c);
          s \<leftarrow> (if result \<noteq> SUSPEND E then setreply (who_p s) result s else Some s); sendreply E s } }"
      using True iso by (simp add: main_pm_krok_def Let_def t_def cong: if_cong)
    have c: "pred_option (\<lambda>c. c < NR_PROCS E) (w_tablicy ?k (?s\<lparr>who_p := p, call_nr := m_type m\<rparr>))"
      using s by (auto simp: w_tablicy_def tablica_ok_def)
    show ?thesis
      unfolding eq by (rule pred_bindI[OF c], intro pred_if pred_bindI[OF z tablica_sendreply] w) (simp_all add: t)
  qed (use iso in \<open>simp add: main_pm_krok_def\<close>)
qed

lemma tablica_signal_manager:
  assumes B: "obce_ok E B" and T: "reszta_ok E B T" and s: "tablica_ok E s"
  shows "pred_option (\<lambda>(r, t). tablica_ok E t) (sef_cb_signal_manager E B e n s)"
proof -
  have v: "pred_option (tablica_ok E) (check_vtimer B k q t)" if "tablica_ok E t" for k q t
    using T that by (simp add: reszta_ok_def)
  have o: "pred_option (\<lambda>(b, t). tablica_ok E t) (po_opoznieniu E (sig_proc E B) i q t)" if "tablica_ok E t" for i q t
    unfolding po_opoznieniu_def Let_def
    using that by (auto intro!: tablica_kroki(2) pred_bindI[OF tablica_check_pending[OF B]])
  have z: "tablica_ok E (zmien 0 (\<lambda>p. p\<lparr>mp_procgrp := g\<rparr>) (s\<lparr>mp := 0\<rparr>))" for g
    by (intro tablica_zmien slot_ok_maski) (use s in \<open>simp_all add: tablica_ok_def\<close>)
  have k: "pred_option (\<lambda>(r, t). tablica_ok E t) (process_ksig E B (sig_proc E B) e n s)"
    unfolding process_ksig_def Let_def
    using s z v by (auto split: prod.split intro!: tablica_kroki(4) pred_bindI[OF v] pred_bindI[OF tablica_check_sig[OF B]] pred_bindI[OF o])
  show ?thesis
    unfolding sef_cb_signal_manager_def by (rule pred_bindI[OF k]) (auto intro!: pred_bindI[OF tablica_sendreply])
qed

text \<open>
  The process manager as a step relation: a round of the main loop, in which only a notification may come
  from the kernel, or the callback that the kernel's signals arrive through.
\<close>

inductive krok_pm :: "pm_env \<Rightarrow> pm_obce \<Rightarrow> pm_tablica \<Rightarrow> pm \<Rightarrow> pm \<Rightarrow> bool" for E B T where
  wiadomosc: "n \<or> 0 \<le> ENDPOINT_P E (m_source m) \<Longrightarrow> main_pm_krok E B T (m, n) s = Some s' \<Longrightarrow> krok_pm E B T s s'"
| sygnal: "sef_cb_signal_manager E B e n s = Some (r, s') \<Longrightarrow> krok_pm E B T s s'"

inductive_cases krok_pm_przypadki: "krok_pm E B T s s'"

lemma krok_pm_ok:
  assumes "krok_pm E B T s s'" "obce_ok E B" "reszta_ok E B T" "call_vec_ok E B T" "EDEADEPT E \<noteq> OK" "tablica_ok E s"
  shows "tablica_ok E s'"
  using assms(1)
proof (cases rule: krok_pm.cases)
  case (wiadomosc n m)
  with tablica_main_krok[OF assms(2-5) wiadomosc(1) assms(6)] show ?thesis by simp
next
  case (sygnal e n r)
  with tablica_signal_manager[OF assms(2,3,6), of e n] show ?thesis by simp
qed

text \<open>The table as \<^verbatim>\<open>sef_cb_init_fresh\<close> expects it, and a boot image with \<^verbatim>\<open>INIT\<close> and \<^verbatim>\<open>RS\<close>.\<close>

definition gotowy_do_startu :: "pm_env \<Rightarrow> pm_boot \<Rightarrow> pm \<Rightarrow> bool" where
  "gotowy_do_startu E P s \<longleftrightarrow> list_all zerowy (mproc s) \<and> length (mproc s) = NR_PROCS E \<and> next_pid s = INIT_PID E + 1 \<and>
     start_udany E P \<and> 0 < INIT_PID E \<and> 2 * int (NR_PROCS E) < NR_PIDS E - INIT_PID E \<and>
     (\<forall>ip \<in> set (image_tab P). proc_nr ip < int (NR_PROCS E)) \<and> distinct (map proc_nr (procesy_obrazu (image_tab P))) \<and>
     {INIT_PROC_NR E, RS_PROC_NR E} \<subseteq> proc_nr ` set (image_tab P) \<and> 0 \<le> INIT_PROC_NR E \<and> 0 \<le> RS_PROC_NR E"

lemma start_tablica_ok:
  assumes "gotowy_do_startu E P s"
  obtains s' where "sef_cb_init_fresh E P s = Some (OK, s')" "tablica_ok E s'"
proof -
  note g = assms[unfolded gotowy_do_startu_def]
  obtain s' where s': "sef_cb_init_fresh E P s = Some (OK, s')" "po_obrazie E P (NR_PROCS E) (image_tab P) s'"
    using g start_po_obrazie[of s E P] by metis
  have zak: "INIT_PROC_NR E < int (NR_PROCS E)" "RS_PROC_NR E < int (NR_PROCS E)" using g by auto
  have "0 \<le> mp_parent (mproc s' ! i) \<and> mp_parent (mproc s' ! i) < int (NR_PROCS E)" if i: "i < NR_PROCS E" for i
  proof (cases "int i \<in> proc_nr ` set (image_tab P)")
    case True
    then obtain ip where "ip \<in> set (procesy_obrazu (image_tab P))" "proc_nr ip = int i" by (auto simp: procesy_obrazu_def)
    then have "zalozony E P ip (mproc s' ! i)" using s'(2) unfolding po_obrazie_def by (metis nat_int)
    then show ?thesis using g zak by (auto simp: zalozony_def split: if_splits)
  next
    case False
    then show ?thesis using s'(2) i zak g by (auto simp: po_obrazie_def zerowy_def)
  qed
  then have "tablica_ok E s'"
    using po_obrazie_bez_kill[OF s'(2)] s'(2) zak g by (auto simp: tablica_ok_def slot_ok_def list_all_length po_obrazie_def)
  with s'(1) show thesis by (rule that)
qed

lemma osiagalne_ok:
  assumes "(krok_pm E B T)\<^sup>*\<^sup>* s s'" "obce_ok E B" "reszta_ok E B T" "call_vec_ok E B T" "EDEADEPT E \<noteq> OK" "tablica_ok E s"
  shows "tablica_ok E s'"
  using assms(1,6) by (induction rule: rtranclp_induct) (auto intro: krok_pm_ok[OF _ assms(2-5)])

text \<open>What the start-up relies on: \<^verbatim>\<open>sef_startup\<close> of a fresh service runs its callback and goes on in the state that this leaves.\<close>

definition sef_swiezy :: "(sef_callbacks \<Rightarrow> pm \<Rightarrow> pm option) \<Rightarrow> bool" where
  "sef_swiezy sef_startup \<longleftrightarrow> (\<forall>cb s t. cb_init_fresh cb s = Some (OK, t) \<longrightarrow> sef_startup cb s = Some t)"

text \<open>
  C30. The types of the process table: in every state that the process manager reaches from its start, by any messages and kernel signals, the table
  has its length, the parent of every slot is a valid slot number, and no process blocks, ignores or catches \<^verbatim>\<open>SIGKILL\<close>. The
  start-up succeeds; the handlers are those of the sources or others that keep the table so.
\<close>

theorem tablica_zawsze_ok:
  assumes "gotowy_do_startu E P s0" and "obce_ok E B" and "reszta_ok E B T" and "call_vec_ok E B T" and "EDEADEPT E \<noteq> OK"
    and "sef_swiezy sef_startup"
  shows "\<exists>s. sef_local_startup E B P sef_cb_init_fail sef_startup s0 = Some s \<and>
    (\<forall>s'. (krok_pm E B T)\<^sup>*\<^sup>* s s' \<longrightarrow> length (mproc s') = NR_PROCS E \<and>
       (\<forall>i < NR_PROCS E. w_tablicy (mp_parent (mproc s' ! i)) s' \<noteq> None \<and> bez_kill E (mproc s' ! i)))"
proof -
  obtain s where s: "sef_cb_init_fresh E P s0 = Some (OK, s)" "tablica_ok E s" using start_tablica_ok[OF assms(1)] .
  have "sef_local_startup E B P sef_cb_init_fail sef_startup s0 = Some s" using assms(6) s(1) by (simp add: sef_local_startup_def sef_swiezy_def)
  moreover have "length (mproc s') = NR_PROCS E \<and> (\<forall>i < NR_PROCS E. w_tablicy (mp_parent (mproc s' ! i)) s' \<noteq> None \<and> bez_kill E (mproc s' ! i))"
    if "(krok_pm E B T)\<^sup>*\<^sup>* s s'" for s'
    using osiagalne_ok[OF that assms(2-5) s(2)] by (auto simp: tablica_ok_def slot_ok_def list_all_length w_tablicy_def)
  ultimately show ?thesis by blast
qed

definition tablica0 :: pm_tablica where
  "tablica0 = \<lparr>kod_vfs = (\<lambda>n. if n = 300 then Some PM_EXIT_REPLY else None), COMMON_GETSYSINFO = 400, NCALLS = 120,
     call_vec = (\<lambda>n. if n = 1 then do_exit env0 obce0 else if n = 2 then do_fork env0 (sig_proc env0 obce0)
       else if n = 37 then do_kill env0 (sig_proc env0 obce0) else (\<lambda>s. Some (no_sys env0, s))),
     do_getsysinfo = (\<lambda>s. Some (OK, s)), expire_timers = (\<lambda>t s. Some s), ENABLE_SYSCALL_STATS = True\<rparr>"

lemma tablica0_ok: "reszta_ok env0 obce0 tablica0" "call_vec_ok env0 obce0 tablica0"
  by (auto simp: reszta_ok_def call_vec_ok_def tablica0_def obce0_def obslugi_zrodel_def obsluga_def)

lemma gotowy0: "gotowy_do_startu env0 boot0 pm_zero"
  by (simp add: gotowy_do_startu_def pm_zero_def slot0_def zerowy_def list_all_length start_udany_def boot0_def OK_def
      procesy_obrazu_def env0_def)

text \<open>A kernel signal for an endpoint that does not exist is a step in every state.\<close>

lemma krok0: "\<exists>s'. krok_pm env0 obce0 tablica0 s s'"
proof -
  obtain s' where "sendreply env0 (drukuj ''PM: process_ksig: %d?? not ok'' [99] s) = Some s'"
    using sendreply_wynik by blast
  then have "sef_cb_signal_manager env0 obce0 99 15 s = Some (EDEADEPT env0, s')"
    by (simp add: sef_cb_signal_manager_def process_ksig_def pm_isokendpt_def env0_def errno_defs Let_def)
  then show ?thesis by (blast intro: krok_pm.sygnal)
qed

definition sef0 :: "sef_callbacks \<Rightarrow> pm \<Rightarrow> pm option" where
  "sef0 cb s = (case cb_init_fresh cb s of Some (r, t) \<Rightarrow> if r = OK then Some t else None | None \<Rightarrow> None)"

theorem tablica_zawsze_ok_przyklad:
  "\<exists>s s'. sef_local_startup env0 obce0 boot0 (\<lambda>s. None) sef0 pm_zero = Some s \<and> krok_pm env0 obce0 tablica0 s s' \<and>
     length (mproc s') = 6 \<and> w_tablicy (mp_parent (mproc s' ! 4)) s' \<noteq> None \<and> bez_kill env0 (mproc s' ! 4)"
proof -
  have "EDEADEPT env0 \<noteq> OK" "sef_swiezy sef0" by (simp_all add: env0_def OK_def sef_swiezy_def sef0_def)
  from tablica_zawsze_ok[OF gotowy0 obce0_ok tablica0_ok this, of "\<lambda>s. None"] obtain s where
    "sef_local_startup env0 obce0 boot0 (\<lambda>s. None) sef0 pm_zero = Some s"
    and r: "\<And>s'. (krok_pm env0 obce0 tablica0)\<^sup>*\<^sup>* s s' \<Longrightarrow> length (mproc s') = NR_PROCS env0 \<and>
       (\<forall>i < NR_PROCS env0. w_tablicy (mp_parent (mproc s' ! i)) s' \<noteq> None \<and> bez_kill env0 (mproc s' ! i))" by blast
  moreover obtain s' where "krok_pm env0 obce0 tablica0 s s'" using krok0 by blast
  ultimately show ?thesis using r[OF r_into_rtranclp[of "krok_pm env0 obce0 tablica0" s s']] by auto
qed

end
