(* ===== verification/Pm_Procesy.thy ===== *)
theory Pm_Procesy
  imports Pm_Niezmiennik
begin

text \<open>
  The life of a process in the process manager: what \<^verbatim>\<open>fork\<close> creates, and how the status of a process that ended
  reaches its parent, in both orders of \<^verbatim>\<open>exit\<close> and \<^verbatim>\<open>wait\<close>.
\<close>

section \<open>Creating a process\<close>

lemma szukaj_slotu_wolny:
  "(\<exists>k \<ge> 1. n + k \<le> length (mproc s) \<and> \<not> flaga_jest ((c + k) mod length (mproc s)) IN_USE s) \<Longrightarrow>
   fst (szukaj_slotu s n c) \<le> length (mproc s) \<and> snd (szukaj_slotu s n c) < length (mproc s) \<and>
   \<not> flaga_jest (snd (szukaj_slotu s n c)) IN_USE s"
proof (induction s n c rule: szukaj_slotu.induct)
  case (1 s n c)
  then obtain k where k: "1 \<le> k" "n + k \<le> length (mproc s)" "\<not> flaga_jest ((c + k) mod length (mproc s)) IN_USE s" by blast
  let ?c = "(c + 1) mod length (mproc s)"
  show ?case
  proof (cases "flaga_jest ?c IN_USE s")
    case True
    with k have k2: "2 \<le> k" by (cases "k = 1") auto
    have "(?c + (k - 1)) mod length (mproc s) = (c + 1 + (k - 1)) mod length (mproc s)" by (rule mod_add_left_eq)
    with k2 have "(?c + (k - 1)) mod length (mproc s) = (c + k) mod length (mproc s)" by simp
    with k k2 have "\<exists>k \<ge> 1. n + 1 + k \<le> length (mproc s) \<and> \<not> flaga_jest ((?c + k) mod length (mproc s)) IN_USE s"
      by (intro exI[of _ "k - 1"]) auto
    with 1(1)[of ?c "n + 1"] True k show ?thesis by (subst (1 2 3) szukaj_slotu.simps) (simp add: Let_def)
  next
    case False
    moreover have "?c < length (mproc s)" using k(1,2) by (intro mod_less_divisor) linarith
    ultimately show ?thesis using k by (subst (1 2 3) szukaj_slotu.simps) (auto simp: Let_def)
  qed
qed

lemma przesuniecie_mod: "(c + (a mod N + 1)) mod N = (c mod N + 1 + a) mod (N :: nat)"
proof -
  have "(c + (a mod N + 1)) mod N = (c + 1 + a mod N) mod N" by (simp add: ac_simps)
  also have "\<dots> = (c + 1 + a) mod N" by (rule mod_add_right_eq)
  also have "\<dots> = (c mod N + (1 + a)) mod N" using mod_add_left_eq[of c N "1 + a"] by (simp add: ac_simps)
  finally show ?thesis by (simp add: ac_simps)
qed

lemma szukaj_slotu_istnieje:
  assumes "i < length (mproc s)" "\<not> flaga_jest i IN_USE s"
  shows "\<exists>k \<ge> 1. 0 + k \<le> length (mproc s) \<and> \<not> flaga_jest ((c + k) mod length (mproc s)) IN_USE s"
proof -
  let ?N = "length (mproc s)"
  let ?a = "i + (?N - c mod ?N) - 1"
  have N: "0 < ?N" "c mod ?N < ?N" using assms(1) by (auto intro!: mod_less_divisor)
  have "c mod ?N + 1 + ?a = i + ?N" using N(2) by linarith
  then have "(c + (?a mod ?N + 1)) mod ?N = (i + ?N) mod ?N" by (simp only: przesuniecie_mod)
  then have "(c + (?a mod ?N + 1)) mod ?N = i" using assms(1) by simp
  moreover have "?a mod ?N + 1 \<le> ?N" using N(1) by (simp add: Suc_leI)
  ultimately show ?thesis using assms(2) by (intro exI[of _ "?a mod ?N + 1"]) simp
qed

text \<open>The kernel and VFS answer the calls of a \<^verbatim>\<open>fork\<close> with success.\<close>

definition fork_udany :: "pm_env \<Rightarrow> bool" where
  "fork_udany E \<longleftrightarrow> (\<forall>h p c. odp E h (Vm_fork p c) = OK) \<and> (\<forall>h e m. odp E h (Asynsend3 e m) = OK)"

text \<open>
  C38. A \<^verbatim>\<open>fork\<close> of an untraced user process, with room in the table, takes a free slot for a copy of the caller. The copy has
  a process number that no other process and no process group has, the caller as its parent, the endpoint that the memory
  manager passed back, no tracer, no accumulated times, statuses or intervals, and of the flags only those that are inherited, waiting for VFS;
  every other field is that of the caller. Nothing else changes but the counters: one process more, the slot and the number taken last.
  The memory manager and then VFS are told, and the call is answered later.
\<close>

theorem do_fork_tworzy:
  assumes "\<not> pelna_tablica E s" and "i < length (mproc s)" and "\<not> flaga_jest i IN_USE s" and "fork_udany E"
    and "mp s < length (mproc s)" and "flaga_jest (mp s) IN_USE s" and "\<not> flaga_jest (mp s) PRIV_PROC s"
    and "mp_trace_flags (mproc s ! mp s) AND TO_TRACEFORK E = 0"
    and "INIT_PID E \<le> next_pid s" and "next_pid s \<le> NR_PIDS E" and "2 * int (length (mproc s)) < NR_PIDS E - INIT_PID E"
  shows "\<exists>c k. c < length (mproc s) \<and> \<not> flaga_jest c IN_USE s \<and> INIT_PID E < k \<and>
    (\<forall>j < length (mproc s). j \<noteq> c \<longrightarrow> mp_pid (mproc s ! j) \<noteq> k \<and> mp_procgrp (mproc s ! j) \<noteq> k) \<and>
    (let rodzic = mproc s ! mp s;
         vm = Vm_fork (mp_endpoint rodzic) (int c);
         ep = child_ep E (log s @ [vm])
     in do_fork E sig s = Some (SUSPEND E, s\<lparr>
       mproc := (mproc s)[c := rodzic\<lparr>mp_pid := k, mp_parent := who_p s, mp_endpoint := ep,
         mp_flags := mp_flags rodzic \<inter> {IN_USE, DELAY_CALL, TAINTED} \<union> {VFS_CALL},
         mp_tracer := NO_TRACER E, mp_trace_flags := 0, mp_sigtrace := {}, mp_child_utime := 0, mp_child_stime := 0,
         mp_exitstatus := 0, mp_sigstatus := 0, mp_interval := replicate (NR_ITIMERS E) 0\<rparr>],
       procs_in_use := procs_in_use s + 1, next_child := c, next_pid := k,
       log := log s @ [vm, Asynsend3 (VFS_PROC_NR E) \<lparr>w_type = PM_FORK E, w_PM_PROC = ep,
         w_PM_PPROC = Some (mp_endpoint rodzic), w_PM_CPID = Some k, w_PM_REUID = Some (- 1), w_PM_REGID = Some (- 1),
         w_PM_TRACED_PROC = None, w_PM_TERM_SIG = None, w_PM_PATH = None\<rparr>]\<rparr>))"
proof -
  obtain n c where nc: "szukaj_slotu s 0 (next_child s) = (n, c)" by fastforce
  have c: "n \<le> length (mproc s)" "c < length (mproc s)" "\<not> flaga_jest c IN_USE s"
    using szukaj_slotu_wolny[OF szukaj_slotu_istnieje[OF assms(2,3)], of "next_child s"] nc by auto
  let ?v = "Vm_fork (mp_endpoint (mproc s ! mp s)) (int c)"
  let ?s2 = "s\<lparr>next_child := c, log := log s @ [?v]\<rparr>"
  let ?d = "slot_dziecka E ?s2 (child_ep E (log ?s2))"
  let ?r = "?d\<lparr>mp_flags := mp_flags ?d \<inter> {IN_USE, DELAY_CALL, TAINTED}\<rparr>"
  let ?s3 = "?s2\<lparr>procs_in_use := procs_in_use s + 1, mproc := (mproc s)[c := ?r]\<rparr>"
  have d: "?d = (mproc s ! mp s)\<lparr>mp_parent := who_p s, mp_endpoint := child_ep E (log s @ [?v]),
      mp_tracer := NO_TRACER E, mp_trace_flags := 0, mp_sigtrace := {}, mp_child_utime := 0, mp_child_stime := 0,
      mp_exitstatus := 0, mp_sigstatus := 0, mp_interval := replicate (NR_ITIMERS E) 0\<rparr>"
    using assms(8) by (simp add: slot_dziecka_def Let_def)
  obtain k where k: "get_free_pid E ?s3 = Some (k, ?s3\<lparr>next_pid := k\<rparr>)" "INIT_PID E < k"
    and wolne: "\<And>r. r \<in> set (mproc ?s3) \<Longrightarrow> mp_pid r \<noteq> k \<and> mp_procgrp r \<noteq> k"
    by (rule get_free_pid_wynik[of E ?s3]) (use assms(9-11) in simp_all)
  have inne: "mp_pid (mproc s ! j) \<noteq> k \<and> mp_procgrp (mproc s ! j) \<noteq> k" if "j < length (mproc s)" "j \<noteq> c" for j
    using wolne[of "mproc ?s3 ! j"] that by (simp add: in_set_conv_nth) (metis nth_list_update_neq)
  let ?m = "(pusta_wyjsciowa (PM_FORK E) (mp_endpoint ?r))\<lparr>w_PM_PPROC := Some (mp_endpoint (mproc s ! mp s)),
    w_PM_CPID := Some k, w_PM_REUID := Some (- 1), w_PM_REGID := Some (- 1)\<rparr>"
  let ?p = "?r\<lparr>mp_pid := k, mp_flags := mp_flags ?r \<union> {VFS_CALL}\<rparr>"
  have w: "do_fork E sig s = Some (SUSPEND E, ?s3\<lparr>next_pid := k, mproc := (mproc s)[c := ?p],
      log := log s @ [?v, Asynsend3 (VFS_PROC_NR E) ?m]\<rparr>)"
    using assms(1,4,7) nc c d k(1)
    by (simp add: do_fork_def Let_def wolaj_def fork_udany_def flaga_jest_def zmien_def tell_vfs_def wolaj_ok_def flagi_dodaj_def
        zglos_sledzacemu_def)
  have p: "?p = (mproc s ! mp s)\<lparr>mp_pid := k, mp_parent := who_p s, mp_endpoint := child_ep E (log s @ [?v]),
         mp_flags := mp_flags (mproc s ! mp s) \<inter> {IN_USE, DELAY_CALL, TAINTED} \<union> {VFS_CALL},
         mp_tracer := NO_TRACER E, mp_trace_flags := 0, mp_sigtrace := {}, mp_child_utime := 0, mp_child_stime := 0,
         mp_exitstatus := 0, mp_sigstatus := 0, mp_interval := replicate (NR_ITIMERS E) 0\<rparr>"
    unfolding d by (rule mproc.equality) simp_all
  have ep: "mp_endpoint ?r = child_ep E (log s @ [?v])" unfolding d by simp
  show ?thesis
    unfolding w p Let_def ep pusta_wyjsciowa_def
    by (intro exI[of _ c] exI[of _ k] conjI c(2,3) k(2) allI impI; (use inne in blast)?) (auto intro: pm.equality)
qed

definition pm1 :: pm where
  "pm1 = pm0\<lparr>mproc := [slot0 ''pm'' 0 2 2 {IN_USE, PRIV_PROC}, slot0 ''vfs'' 1 3 2 {IN_USE, PRIV_PROC},
     slot0 ''rs'' 2 4 4 {IN_USE, PRIV_PROC}, slot0 [] 0 0 0 {}, slot0 ''init'' 4 1 4 {IN_USE},
     slot0 ''test'' 5 10 4 {IN_USE}\<lparr>mp_effuid := 0\<rparr>], procs_in_use := 5\<rparr>"

theorem do_fork_tworzy_przyklad:
  "\<exists>s' c. do_fork env0 (sig_proc env0 obce0) pm1 = Some (SUSPEND env0, s') \<and> c < 6 \<and> procs_in_use s' = 6 \<and>
     mp_parent (mproc s' ! c) = 5 \<and> mp_endpoint (mproc s' ! c) = 77 \<and> 1 < mp_pid (mproc s' ! c) \<and>
     mp_name (mproc s' ! c) = ''test'' \<and> mp_realuid (mproc s' ! c) = 5"
proof -
  have pola: "length (mproc pm1) = 6" "mp pm1 = 5" "who_p pm1 = 5" "procs_in_use pm1 = 5" "next_pid pm1 = 10"
    "mp_name (mproc pm1 ! 5) = ''test''" "mp_realuid (mproc pm1 ! 5) = 5" "child_ep env0 h = 77" for h
    by (simp_all add: pm1_def pm0_def slot0_def env0_def numeral_eq_Suc)
  have h: "\<not> pelna_tablica env0 pm1" "\<not> flaga_jest 3 IN_USE pm1" "fork_udany env0" "flaga_jest (mp pm1) IN_USE pm1"
    "\<not> flaga_jest (mp pm1) PRIV_PROC pm1" "mp_trace_flags (mproc pm1 ! mp pm1) AND TO_TRACEFORK env0 = 0"
    by (simp_all add: pelna_tablica_def flaga_jest_def fork_udany_def OK_def LAST_FEW_def pm1_def pm0_def slot0_def numeral_eq_Suc)
  from do_fork_tworzy[of env0 pm1 3 "sig_proc env0 obce0", OF h(1) _ h(2,3) _ h(4-6)] pola obtain c k s' where
    "do_fork env0 (sig_proc env0 obce0) pm1 = Some (SUSPEND env0, s')" "c < 6" "1 < k" "procs_in_use s' = 6"
    "mproc s' ! c = (mproc pm1 ! 5)\<lparr>mp_pid := k, mp_parent := 5, mp_endpoint := 77,
       mp_flags := mp_flags (mproc pm1 ! 5) \<inter> {IN_USE, DELAY_CALL, TAINTED} \<union> {VFS_CALL},
       mp_tracer := NO_TRACER env0, mp_trace_flags := 0, mp_sigtrace := {}, mp_child_utime := 0, mp_child_stime := 0,
       mp_exitstatus := 0, mp_sigstatus := 0, mp_interval := replicate (NR_ITIMERS env0) 0\<rparr>"
    by (auto simp: Let_def)
  with pola show ?thesis by (intro exI[of _ s'] exI[of _ c]) simp
qed

section \<open>Waiting for a child\<close>

text \<open>What a parent reads from the status word: the macros \<^verbatim>\<open>WEXITSTATUS\<close> and \<^verbatim>\<open>WTERMSIG\<close> of \<^verbatim>\<open>sys/wait.h\<close>.\<close>

definition wexitstatus :: "int \<Rightarrow> int" where
  "wexitstatus w = (w div 256) mod 256"

definition wtermsig :: "int \<Rightarrow> int" where
  "wtermsig w = w mod 128"

lemma slowo_stanu_odczyt:
  "wexitstatus (slowo_stanu p) = mp_exitstatus p mod 256" "wtermsig (slowo_stanu p) = mp_sigstatus p mod 128"
proof -
  have "(mp_exitstatus p * 256 + mp_sigstatus p mod 256) div 256 = mp_exitstatus p"
    by (simp add: div_add1_eq)
  then show "wexitstatus (slowo_stanu p) = mp_exitstatus p mod 256" by (simp add: wexitstatus_def slowo_stanu_def)
  have "(mp_exitstatus p * 256 + mp_sigstatus p mod 256) mod 128 = mp_sigstatus p mod 256 mod 128"
    using mod_mult_self2[of "mp_sigstatus p mod 256" 128 "mp_exitstatus p * 2"] by (simp add: ac_simps)
  also have "\<dots> = mp_sigstatus p mod 128" by (simp add: mod_mod_cancel)
  finally show "wtermsig (slowo_stanu p) = mp_sigstatus p mod 128" by (simp add: wtermsig_def slowo_stanu_def)
qed

text \<open>
  What ends the search of \<^verbatim>\<open>do_waitpid\<close> at a slot: a traced process that died, a traced process that stopped with a signal to
  report, of which \<open>n\<close> is the first, or a dead child.
\<close>

definition pierwszy_sygnal :: "pm_env \<Rightarrow> nat \<Rightarrow> int \<Rightarrow> pm \<Rightarrow> bool" where
  "pierwszy_sygnal E i n s \<longleftrightarrow> 1 \<le> n \<and> n < NSIG E \<and> n \<in> mp_sigtrace (mproc s ! i) \<and>
     (\<forall>m. 1 \<le> m \<and> m < n \<longrightarrow> m \<notin> mp_sigtrace (mproc s ! i))"

definition sledzony_gotowy :: "pm_env \<Rightarrow> nat \<Rightarrow> pm \<Rightarrow> bool" where
  "sledzony_gotowy E i s \<longleftrightarrow> mp_tracer (mproc s ! i) = who_p s \<and>
     (flaga_jest i TRACE_ZOMBIE s \<or> flaga_jest i STOPPED s \<and> (\<exists>n. pierwszy_sygnal E i n s))"

definition gotowe :: "pm_env \<Rightarrow> nat \<Rightarrow> pm \<Rightarrow> bool" where
  "gotowe E i s \<longleftrightarrow> sledzony_gotowy E i s \<or> mp_parent (mproc s ! i) = who_p s \<and> flaga_jest i ZOMBIE s"

lemma find_pierwszy:
  "List.find (\<lambda>n. n \<in> mp_sigtrace (mproc s ! i)) [1..NSIG E - 1] = Some n \<longleftrightarrow> pierwszy_sygnal E i n s"
proof
  assume "List.find (\<lambda>n. n \<in> mp_sigtrace (mproc s ! i)) [1..NSIG E - 1] = Some n"
  then obtain k where k: "k < nat (NSIG E - 1)" "n \<in> mp_sigtrace (mproc s ! i)" "n = 1 + int k"
    "\<And>j. j < k \<Longrightarrow> 1 + int j \<notin> mp_sigtrace (mproc s ! i)"
    by (auto simp: find_Some_iff)
  have "m \<notin> mp_sigtrace (mproc s ! i)" if "1 \<le> m" "m < n" for m
    using k(4)[of "nat (m - 1)"] that k(3) by simp
  with k show "pierwszy_sygnal E i n s" by (auto simp: pierwszy_sygnal_def)
next
  assume "pierwszy_sygnal E i n s"
  then show "List.find (\<lambda>n. n \<in> mp_sigtrace (mproc s ! i)) [1..NSIG E - 1] = Some n"
    by (auto simp: find_Some_iff pierwszy_sygnal_def intro!: exI[of _ "nat (n - 1)"])
qed

lemma find_pierwszy_None:
  "List.find (\<lambda>n. n \<in> mp_sigtrace (mproc s ! i)) [1..NSIG E - 1] = None \<longleftrightarrow> (\<nexists>n. pierwszy_sygnal E i n s)"
  unfolding find_pierwszy[symmetric] by (cases "List.find (\<lambda>n. n \<in> mp_sigtrace (mproc s ! i)) [1..NSIG E - 1]") auto

lemma waitpid_petla_pomija:
  assumes "\<And>j. j \<in> set xs \<Longrightarrow> kwalifikuje q j s \<Longrightarrow> \<not> gotowe E j s"
  shows "waitpid_petla E sig q (xs @ ys) c s = waitpid_petla E sig q ys (c + int (length (filter (\<lambda>j. kwalifikuje q j s) xs))) s"
  using assms
proof (induction xs arbitrary: c)
  case (Cons x xs)
  have "waitpid_petla E sig q (x # xs @ ys) c s =
      waitpid_petla E sig q (xs @ ys) (if kwalifikuje q x s then c + 1 else c) s"
    using Cons.prems[of x] by (auto simp: gotowe_def sledzony_gotowy_def Let_def find_pierwszy split: option.split)
  with Cons show ?case by (auto simp: add.assoc simp del: waitpid_petla.simps)
qed simp

text \<open>The children that a call of \<^verbatim>\<open>wait\<close> or \<^verbatim>\<open>waitpid\<close> asks for.\<close>

definition pytanie :: "pm_env \<Rightarrow> pm \<Rightarrow> int" where
  "pytanie E s = (let p = (if call_nr s = WAIT E then - 1 else pid (m_in s)) in if p = 0 then - mp_procgrp (mproc s ! mp s) else p)"

text \<open>The state after the parent in slot \<open>k\<close> was told about the child in slot \<open>i\<close>.\<close>

definition powiedziane :: "nat \<Rightarrow> nat \<Rightarrow> pm \<Rightarrow> pm" where
  "powiedziane k i s = s\<lparr>mproc := (mproc s)[
     k := (mproc s ! k)\<lparr>mp_reply := (mp_reply (mproc s ! k))\<lparr>reply_res2 := slowo_stanu (mproc s ! i), reply_res := mp_pid (mproc s ! i)\<rparr>,
            mp_flags := mp_flags (mproc s ! k) \<union> {REPLY} - {WAITING}\<rparr>,
     i := (mproc s ! i)\<lparr>mp_flags := mp_flags (mproc s ! i) - {ZOMBIE} \<union> {TOLD_PARENT}\<rparr>]\<rparr>"

lemma powiedziane_pola:
  assumes "i < length (mproc s)" "k < length (mproc s)" "k \<noteq> i"
  shows "mproc (powiedziane k i s) ! k = (mproc s ! k)\<lparr>mp_reply := (mp_reply (mproc s ! k))\<lparr>reply_res2 := slowo_stanu (mproc s ! i),
      reply_res := mp_pid (mproc s ! i)\<rparr>, mp_flags := mp_flags (mproc s ! k) \<union> {REPLY} - {WAITING}\<rparr>"
    "mproc (powiedziane k i s) ! i = (mproc s ! i)\<lparr>mp_flags := mp_flags (mproc s ! i) - {ZOMBIE} \<union> {TOLD_PARENT}\<rparr>"
    "j \<noteq> k \<Longrightarrow> j \<noteq> i \<Longrightarrow> mproc (powiedziane k i s) ! j = mproc s ! j"
    "length (mproc (powiedziane k i s)) = length (mproc s)"
  using assms by (simp_all add: powiedziane_def)

lemma tell_parent_wynik:
  assumes "i < length (mproc s)" "k < length (mproc s)" "k \<noteq> i" "0 < k" "mp_parent (mproc s ! i) = int k"
    and "flaga_jest i ZOMBIE s" "\<not> flaga_jest i TOLD_PARENT s"
  shows "tell_parent i s = Some (powiedziane k i s)"
  using assms
  by (simp add: tell_parent_def powiedziane_def setreply_def w_tablicy_def Let_def zmien_def flagi_dodaj_def flagi_zdejmij_def
      list_update_swap[of k i])

text \<open>The state after the tracer in slot \<open>k\<close> was told about the process in slot \<open>i\<close>, which its parent has still to be told about.\<close>

definition powiedziane_sledzacemu :: "nat \<Rightarrow> nat \<Rightarrow> pm \<Rightarrow> pm" where
  "powiedziane_sledzacemu k i s = s\<lparr>mproc := (mproc s)[
     k := (mproc s ! k)\<lparr>mp_reply := (mp_reply (mproc s ! k))\<lparr>reply_res2 := slowo_stanu (mproc s ! i), reply_res := mp_pid (mproc s ! i)\<rparr>,
            mp_flags := mp_flags (mproc s ! k) \<union> {REPLY} - {WAITING}\<rparr>,
     i := (mproc s ! i)\<lparr>mp_flags := mp_flags (mproc s ! i) - {TRACE_ZOMBIE} \<union> {ZOMBIE}\<rparr>]\<rparr>"

lemma tell_tracer_wynik:
  assumes "i < length (mproc s)" "k < length (mproc s)" "k \<noteq> i" "0 < k" "mp_tracer (mproc s ! i) = int k" "flaga_jest i TRACE_ZOMBIE s"
  shows "tell_tracer i s = Some (powiedziane_sledzacemu k i s)"
  using assms
  by (simp add: tell_tracer_def powiedziane_sledzacemu_def setreply_def w_tablicy_def Let_def zmien_def flagi_dodaj_def
      flagi_zdejmij_def list_update_swap[of k i])

text \<open>\<^verbatim>\<open>do_waitpid\<close> with the arguments decoded, and when the slot \<open>i\<close> is the first that ends the search.\<close>

lemma do_waitpid_petla:
  "do_waitpid E sig s = Option.bind (waitpid_petla E sig (pytanie E s) [0..<length (mproc s)] 0 s) (\<lambda>(w, t).
     case w of Inr r \<Rightarrow> Some (r, t)
     | Inl children \<Rightarrow>
         if children > 0 then
           if (if call_nr s = WAIT E then 0 else sig_nr (m_in s)) AND WNOHANG E \<noteq> 0 then Some (0, t)
           else Some (SUSPEND E, zmien (mp t) (\<lambda>p. p\<lparr>mp_wpid := pytanie E s\<rparr>) (flagi_dodaj (mp t) {WAITING} t))
         else Some (ECHILD E, t))"
  unfolding do_waitpid_def pytanie_def Let_def by simp

lemma do_waitpid_pierwszy:
  assumes "i < length (mproc s)" "\<forall>j < i. kwalifikuje (pytanie E s) j s \<longrightarrow> \<not> gotowe E j s"
    "\<And>c ys. waitpid_petla E sig (pytanie E s) (i # ys) c s = map_option (\<lambda>(r, t). (Inr r, t)) w"
  shows "do_waitpid E sig s = w"
proof -
  have "[0..<length (mproc s)] = [0..<i] @ i # [Suc i..<length (mproc s)]"
    using assms(1) upt_add_eq_append[of 0 i "length (mproc s) - i"] by (simp add: upt_conv_Cons)
  with waitpid_petla_pomija[of "[0..<i]" "pytanie E s" s E sig "i # [Suc i..<length (mproc s)]" 0] assms(2,3) show ?thesis
    unfolding do_waitpid_petla by (cases w) auto
qed

text \<open>
  C39. Every outcome of \<^verbatim>\<open>wait\<close> and \<^verbatim>\<open>waitpid\<close> of a process in a slot other than the first. Without a process in question the call fails with
  \<^verbatim>\<open>ECHILD\<close>. While none of them has anything to report, it returns zero when it is not to wait, and otherwise the caller is
  marked as waiting. Else the first that has decides (the caller itself never has). Of a dead child the process number and the status become the reply of the
  caller, and the slot of the child is free again unless VFS still works on its end. Of a traced process that died they become
  the reply too, and then its parent is told in its turn. For a traced process that stopped, the first signal to report is taken from the set of
  those, the status says that it is stopped by this signal, and its process number is returned. Nothing else changes.
\<close>

theorem do_waitpid_wynik:
  assumes "mp s < length (mproc s)" and "who_p s = int (mp s)" and "0 < mp s"
  shows "((\<forall>j < length (mproc s). \<not> kwalifikuje (pytanie E s) j s) \<longrightarrow> do_waitpid E sig s = Some (ECHILD E, s)) \<and>
    ((\<exists>j < length (mproc s). kwalifikuje (pytanie E s) j s) \<and> (\<forall>j < length (mproc s). kwalifikuje (pytanie E s) j s \<longrightarrow> \<not> gotowe E j s) \<longrightarrow>
      do_waitpid E sig s =
        (if (if call_nr s = WAIT E then 0 else sig_nr (m_in s)) AND WNOHANG E \<noteq> 0 then Some (0, s)
         else Some (SUSPEND E, zmien (mp s) (\<lambda>p. p\<lparr>mp_wpid := pytanie E s\<rparr>) (flagi_dodaj (mp s) {WAITING} s)))) \<and>
    (\<forall>i < length (mproc s). i \<noteq> mp s \<and> kwalifikuje (pytanie E s) i s \<and> (\<forall>j < i. kwalifikuje (pytanie E s) j s \<longrightarrow> \<not> gotowe E j s) \<longrightarrow>
      (mp_parent (mproc s ! i) = who_p s \<and> flaga_jest i ZOMBIE s \<and> \<not> sledzony_gotowy E i s \<longrightarrow>
        do_waitpid E sig s = Some (SUSPEND E,
          if flaga_jest i VFS_CALL s then powiedziane (mp s) i s else cleanup i (powiedziane (mp s) i s))) \<and>
      (mp_tracer (mproc s ! i) = who_p s \<and> flaga_jest i TRACE_ZOMBIE s \<longrightarrow>
        do_waitpid E sig s = map_option (Pair (SUSPEND E)) (check_parent E sig i True (powiedziane_sledzacemu (mp s) i s))) \<and>
      (\<forall>n. mp_tracer (mproc s ! i) = who_p s \<and> \<not> flaga_jest i TRACE_ZOMBIE s \<and> flaga_jest i STOPPED s \<and> pierwszy_sygnal E i n s \<longrightarrow>
        do_waitpid E sig s = Some (mp_pid (mproc s ! i), s\<lparr>mproc := (mproc s)[
          i := (mproc s ! i)\<lparr>mp_sigtrace := mp_sigtrace (mproc s ! i) - {n}\<rparr>,
          mp s := (mproc s ! mp s)\<lparr>mp_reply := (mp_reply (mproc s ! mp s))\<lparr>reply_res2 := 127 + n * 256\<rparr>\<rparr>]\<rparr>)))"
proof (intro conjI impI allI)
  let ?q = "pytanie E s" and ?N = "length (mproc s)"
  note petla = waitpid_petla_pomija[where c = 0 and s = s and E = E and q = ?q and sig = sig]
  show "do_waitpid E sig s = Some (ECHILD E, s)" if "\<forall>j < ?N. \<not> kwalifikuje ?q j s"
    using petla[of "[0..<?N]" "[]"] that by (simp add: do_waitpid_petla)
  show "do_waitpid E sig s =
        (if (if call_nr s = WAIT E then 0 else sig_nr (m_in s)) AND WNOHANG E \<noteq> 0 then Some (0, s)
         else Some (SUSPEND E, zmien (mp s) (\<lambda>p. p\<lparr>mp_wpid := ?q\<rparr>) (flagi_dodaj (mp s) {WAITING} s)))"
    if "(\<exists>j < ?N. kwalifikuje ?q j s) \<and> (\<forall>j < ?N. kwalifikuje ?q j s \<longrightarrow> \<not> gotowe E j s)"
  proof -
    have "filter (\<lambda>j. kwalifikuje ?q j s) [0..<?N] \<noteq> []" using that by (auto simp: filter_empty_conv)
    then show ?thesis using petla[of "[0..<?N]" "[]"] that by (auto simp: do_waitpid_petla)
  qed
  fix i assume i: "i < ?N" and w: "i \<noteq> mp s \<and> kwalifikuje ?q i s \<and> (\<forall>j < i. kwalifikuje ?q j s \<longrightarrow> \<not> gotowe E j s)"
  note pierwszy = do_waitpid_pierwszy[OF i w[THEN conjunct2, THEN conjunct2]]
  show "do_waitpid E sig s = Some (SUSPEND E,
        if flaga_jest i VFS_CALL s then powiedziane (mp s) i s else cleanup i (powiedziane (mp s) i s))"
    if z: "mp_parent (mproc s ! i) = who_p s \<and> flaga_jest i ZOMBIE s \<and> \<not> sledzony_gotowy E i s"
  proof (rule pierwszy)
    fix c ys
    have "tell_parent i s = Some (powiedziane (mp s) i s)"
      using w z i assms by (intro tell_parent_wynik) (auto simp: kwalifikuje_def Let_def)
    moreover have "flaga_jest i VFS_CALL (powiedziane (mp s) i s) = flaga_jest i VFS_CALL s"
      using i by (simp add: powiedziane_def flaga_jest_def)
    ultimately show "waitpid_petla E sig ?q (i # ys) c s = map_option (\<lambda>(r, t). (Inr r, t)) (Some (SUSPEND E,
        if flaga_jest i VFS_CALL s then powiedziane (mp s) i s else cleanup i (powiedziane (mp s) i s)))"
      using w z by (auto simp: Let_def sledzony_gotowy_def find_pierwszy split: option.split)
  qed
  show "do_waitpid E sig s = map_option (Pair (SUSPEND E)) (check_parent E sig i True (powiedziane_sledzacemu (mp s) i s))"
    if z: "mp_tracer (mproc s ! i) = who_p s \<and> flaga_jest i TRACE_ZOMBIE s"
  proof (rule pierwszy)
    fix c ys
    have "tell_tracer i s = Some (powiedziane_sledzacemu (mp s) i s)"
      using w z i assms by (intro tell_tracer_wynik) auto
    with w z show "waitpid_petla E sig ?q (i # ys) c s = map_option (\<lambda>(r, t). (Inr r, t))
        (map_option (Pair (SUSPEND E)) (check_parent E sig i True (powiedziane_sledzacemu (mp s) i s)))"
      by (cases "check_parent E sig i True (powiedziane_sledzacemu (mp s) i s)") (simp_all add: Let_def)
  qed
  show "do_waitpid E sig s = Some (mp_pid (mproc s ! i), s\<lparr>mproc := (mproc s)[
      i := (mproc s ! i)\<lparr>mp_sigtrace := mp_sigtrace (mproc s ! i) - {n}\<rparr>,
      mp s := (mproc s ! mp s)\<lparr>mp_reply := (mp_reply (mproc s ! mp s))\<lparr>reply_res2 := 127 + n * 256\<rparr>\<rparr>]\<rparr>)"
    if z: "mp_tracer (mproc s ! i) = who_p s \<and> \<not> flaga_jest i TRACE_ZOMBIE s \<and> flaga_jest i STOPPED s \<and> pierwszy_sygnal E i n s" for n
  proof (rule pierwszy)
    fix c ys
    have "List.find (\<lambda>n. n \<in> mp_sigtrace (mproc s ! i)) [1..NSIG E - 1] = Some n" using z by (simp add: find_pierwszy)
    with w z i show "waitpid_petla E sig ?q (i # ys) c s = map_option (\<lambda>(r, t). (Inr r, t)) (Some (mp_pid (mproc s ! i), s\<lparr>mproc := (mproc s)[
        i := (mproc s ! i)\<lparr>mp_sigtrace := mp_sigtrace (mproc s ! i) - {n}\<rparr>,
        mp s := (mproc s ! mp s)\<lparr>mp_reply := (mp_reply (mproc s ! mp s))\<lparr>reply_res2 := 127 + n * 256\<rparr>\<rparr>]\<rparr>))"
      by (simp add: Let_def zmien_def)
  qed
qed

definition pm2 :: pm where
  "pm2 = pm0\<lparr>mproc := (mproc pm0)[5 := slot0 ''test'' 5 10 4 {IN_USE, EXITING, ZOMBIE}\<lparr>mp_exitstatus := 3\<rparr>], mp := 4, who_p := 4, call_nr := 7\<rparr>"

theorem do_waitpid_wynik_przyklad:
  "\<exists>s'. do_waitpid env0 (sig_proc env0 obce0) pm2 = Some (SUSPEND env0, s') \<and> reply_res (mp_reply (mproc s' ! 4)) = 10 \<and>
     wexitstatus (reply_res2 (mp_reply (mproc s' ! 4))) = 3 \<and> mp_flags (mproc s' ! 5) = {} \<and> procs_in_use s' = 5"
proof -
  have p: "pytanie env0 pm2 = - 1" "length (mproc pm2) = 6" "mp pm2 = 4" "who_p pm2 = 4"
    by (simp_all add: pytanie_def pm2_def env0_def)
  have k: "kwalifikuje (- 1) 5 pm2" "\<forall>j < 5. kwalifikuje (- 1) j pm2 \<longrightarrow> \<not> gotowe env0 j pm2"
    "mp_parent (mproc pm2 ! 5) = 4" "flaga_jest 5 ZOMBIE pm2" "\<not> sledzony_gotowy env0 5 pm2" "\<not> flaga_jest 5 VFS_CALL pm2"
    by (simp_all add: kwalifikuje_def gotowe_def sledzony_gotowy_def flaga_jest_def pm2_def pm0_def slot0_def numeral_eq_Suc less_Suc_eq)
  have "do_waitpid env0 (sig_proc env0 obce0) pm2 = Some (SUSPEND env0, cleanup 5 (powiedziane 4 5 pm2))"
    using do_waitpid_wynik[of pm2 env0 "sig_proc env0 obce0", THEN conjunct2, THEN conjunct2, THEN spec, of 5] p k by simp
  moreover have "wexitstatus (slowo_stanu (mproc pm2 ! 5)) = 3" by (simp add: slowo_stanu_odczyt pm2_def)
  ultimately show ?thesis by (auto simp: cleanup_def powiedziane_def zmien_def pm2_def pm0_def slot0_def numeral_eq_Suc)
qed

section \<open>The end of an ordinary process\<close>

text \<open>All calls of the kernel and the other servers succeed.\<close>

definition jadro_udane :: "pm_env \<Rightarrow> bool" where
  "jadro_udane E \<longleftrightarrow> (\<forall>h c. odp E h c = OK)"

lemma wolaj_ok_jadro: "jadro_udane E \<Longrightarrow> wolaj_ok E c s = Some (s\<lparr>log := log s @ [c]\<rparr>)"
  by (simp add: jadro_udane_def wolaj_ok_def wolaj_def)

lemma FOR_bez_zmian: "(\<And>i. i < n \<Longrightarrow> body i s = Some s) \<Longrightarrow> FOR 0 n body s = Some s"
  using FOR_rule[of "\<lambda>_ t. t = s" 0 s n body] by auto

lemma vm_notify_pola:
  "mproc (vm_notify_sig_wrapper E ep s) = mproc s" "mp (vm_notify_sig_wrapper E ep s) = mp s"
  "ign_sset (vm_notify_sig_wrapper E ep s) = ign_sset s"
  by (simp_all add: vm_notify_sig_wrapper_def wolaj_def Let_def)

lemma rozlicz_wynik:
  assumes "jadro_udane E" "\<not> flaga_jest r ALARM_ON s" "mp_parent (mproc s ! r) = int k" "k < length (mproc s)"
  obtains t u v where "rozlicz E B r s = Some t" "mp t = mp s" "ign_sset t = ign_sset s"
    "mproc t = (mproc s)[k := (mproc s ! k)\<lparr>mp_child_utime := u, mp_child_stime := v\<rparr>]"
proof -
  have "\<exists>t u v. rozlicz E B r s = Some t \<and> mp t = mp s \<and> ign_sset t = ign_sset s \<and>
    mproc t = (mproc s)[k := (mproc s ! k)\<lparr>mp_child_utime := u, mp_child_stime := v\<rparr>]"
    using assms(2-4)
    by (simp add: rozlicz_def Let_def wolaj_ok_jadro[OF assms(1)] split_def w_tablicy_def vm_notify_pola zmien_def)
      (intro exI, rule refl)
  with that show thesis by blast
qed

lemma tell_cv_log: "jadro_udane E \<Longrightarrow> \<exists>l. tell_cv E m t s = Some (s\<lparr>log := l\<rparr>)"
  unfolding tell_cv_def Let_def by (cases s) (simp add: wolaj_ok_jadro)

lemma zawiadom_wynik:
  assumes "jadro_udane E" "\<not> flaga_jest r VFS_CALL s" "\<not> flaga_jest r PRIV_PROC s" "r < length (mproc s)"
  obtains t where "zawiadom_o_koncu E r x d s = Some t" "mp t = mp s" "ign_sset t = ign_sset s"
    "mproc t = (mproc s)[r := (mproc s ! r)\<lparr>mp_flags := mp_flags (mproc s ! r) \<inter> {IN_USE, TRACE_EXIT} \<union> {VFS_CALL, EXITING},
       mp_exitstatus := na_char x\<rparr>]"
proof -
  let ?m = "wiadomosc_konca E d (mproc s ! r)"
  let ?s1 = "flagi_dodaj r {VFS_CALL} (s\<lparr>log := log s @ [Asynsend3 (VFS_PROC_NR E) ?m]\<rparr>)"
  obtain l where l: "tell_cv E ?m 6 ?s1 = Some (?s1\<lparr>log := l\<rparr>)" using tell_cv_log[OF assms(1)] by blast
  have "\<exists>t. zawiadom_o_koncu E r x d s = Some t \<and> mp t = mp s \<and> ign_sset t = ign_sset s \<and>
    mproc t = (mproc s)[r := (mproc s ! r)\<lparr>mp_flags := mp_flags (mproc s ! r) \<inter> {IN_USE, TRACE_EXIT} \<union> {VFS_CALL, EXITING},
       mp_exitstatus := na_char x\<rparr>]"
  proof -
    have F: "insert EXITING (insert VFS_CALL (F \<inter> {IN_USE, VFS_CALL, PRIV_PROC, TRACE_EXIT})) =
        insert VFS_CALL (insert EXITING (F \<inter> {IN_USE, TRACE_EXIT}))" if "PRIV_PROC \<notin> F" for F
      using that by auto
    show ?thesis
      using assms(2-4) l
      by (simp add: zawiadom_o_koncu_def Let_def tell_vfs_def wolaj_ok_jadro[OF assms(1)] zmien_def flagi_dodaj_def flaga_jest_def F)
  qed
  with that show thesis by blast
qed

text \<open>A process for which \<^verbatim>\<open>SIGCHLD\<close> has no effect: ignored by the process, or left to the default.\<close>

definition obojetny_na_sigchld :: "pm_env \<Rightarrow> nat \<Rightarrow> pm \<Rightarrow> bool" where
  "obojetny_na_sigchld E k s \<longleftrightarrow> mp_tracer (mproc s ! k) = NO_TRACER E \<and> mp_flags (mproc s ! k) \<inter> {VFS_CALL, PRIV_PROC, STOPPED} = {} \<and>
     (SIGCHLD E \<in> mp_ignore (mproc s ! k) \<or>
      SIGCHLD E \<notin> mp_sigmask (mproc s ! k) \<and> SIGCHLD E \<notin> mp_catch (mproc s ! k) \<and> SIGCHLD E \<in> ign_sset s)"

lemma sigchld_bez_skutku:
  assumes "obce_ok E B" "k < length (mproc s)" "zywy k s" "obojetny_na_sigchld E k s"
  shows "sig_proc E B k (SIGCHLD E) True False s = Some s"
  using assms(3,4) unfolding sig_proc_rozwin[OF assms(1,2)]
  by (auto simp: sig_proc_tresc_def obojetny_na_sigchld_def flaga_jest_def Let_def)

text \<open>
  A living user process in slot \<open>r\<close> whose end concerns nobody but its living parent in slot \<open>k\<close>: no alarm is set, it is not in a
  call of VFS, nobody traces it, it has no children, traces nobody and leads no group of the current process.
\<close>

definition zwykly :: "pm_env \<Rightarrow> nat \<Rightarrow> nat \<Rightarrow> pm \<Rightarrow> bool" where
  "zwykly E r k s \<longleftrightarrow> r < length (mproc s) \<and> zywy r s \<and> mp_flags (mproc s ! r) \<inter> {PRIV_PROC, VFS_CALL, ALARM_ON} = {} \<and>
     mp_endpoint (mproc s ! r) \<noteq> INIT_PROC_NR E \<and> mp_endpoint (mproc s ! r) \<noteq> VFS_PROC_NR E \<and>
     mp_parent (mproc s ! r) = int k \<and> 0 < k \<and> k < length (mproc s) \<and> k \<noteq> r \<and> zywy k s \<and> mp_tracer (mproc s ! r) = NO_TRACER E \<and>
     (\<forall>j < length (mproc s). flaga_jest j IN_USE s \<longrightarrow> mp_parent (mproc s ! j) \<noteq> int r \<and> mp_tracer (mproc s ! j) \<noteq> int r) \<and>
     mp_pid (mproc s ! r) \<noteq> mp_procgrp (mproc s ! mp s)"

lemma powiedziane_zachowuje:
  assumes z: "r < length (mproc z)" "k < length (mproc z)" "k \<noteq> r"
    and k: "mproc z ! k = (mproc s ! k)\<lparr>mp_child_utime := u, mp_child_stime := v\<rparr>"
    and r: "mproc z ! r = (mproc s ! r)\<lparr>mp_flags := F, mp_exitstatus := e\<rparr>" "IN_USE \<in> F \<Longrightarrow> IN_USE \<in> mp_flags (mproc s ! r)"
    and inne: "\<And>j. j \<noteq> k \<Longrightarrow> j \<noteq> r \<Longrightarrow> mproc z ! j = mproc s ! j"
  shows "mp_parent (mproc (powiedziane k r z) ! j) = mp_parent (mproc s ! j) \<and>
    mp_tracer (mproc (powiedziane k r z) ! j) = mp_tracer (mproc s ! j) \<and>
    (IN_USE \<in> mp_flags (mproc (powiedziane k r z) ! j) \<longrightarrow> IN_USE \<in> mp_flags (mproc s ! j))"
proof -
  note pp = powiedziane_pola[OF z]
  consider "j = k" | "j = r" | "j \<noteq> k" "j \<noteq> r" by blast
  then show ?thesis by cases (simp_all add: pp k r inne)
qed

text \<open>The state of an ordinary process that has ended and is a zombie, and what is left to do for its parent.\<close>

lemma zombie_wynik:
  assumes "jadro_udane E" "zwykly E r k s"
  obtains z where "Option.bind (rozlicz E B r s) (zawiadom_o_koncu E r x False) = Some z" "mp z = mp s" "ign_sset z = ign_sset s"
    "length (mproc z) = length (mproc s)"
    "mproc z ! r = (mproc s ! r)\<lparr>mp_flags := mp_flags (mproc s ! r) \<inter> {IN_USE, TRACE_EXIT} \<union> {VFS_CALL, EXITING}, mp_exitstatus := na_char x\<rparr>"
    "\<exists>u v. mproc z ! k = (mproc s ! k)\<lparr>mp_child_utime := u, mp_child_stime := v\<rparr>"
    "\<And>j. j \<noteq> k \<Longrightarrow> j \<noteq> r \<Longrightarrow> mproc z ! j = mproc s ! j"
proof -
  have zw: "r < length (mproc s)" "k < length (mproc s)" "k \<noteq> r" "mp_parent (mproc s ! r) = int k"
    and fl: "\<not> flaga_jest r ALARM_ON s" "\<not> flaga_jest r VFS_CALL s" "\<not> flaga_jest r PRIV_PROC s"
    using assms(2) by (auto simp: zwykly_def flaga_jest_def)
  obtain t u v where t: "rozlicz E B r s = Some t" "mp t = mp s" "ign_sset t = ign_sset s"
    "mproc t = (mproc s)[k := (mproc s ! k)\<lparr>mp_child_utime := u, mp_child_stime := v\<rparr>]"
    by (rule rozlicz_wynik[OF assms(1) fl(1) zw(4,2)])
  have tr: "mproc t ! r = mproc s ! r" "length (mproc t) = length (mproc s)" using t(4) zw(3) by simp_all
  obtain w where w: "zawiadom_o_koncu E r x False t = Some w" "mp w = mp s" "ign_sset w = ign_sset s"
    "mproc w = (mproc t)[r := (mproc s ! r)\<lparr>mp_flags := mp_flags (mproc s ! r) \<inter> {IN_USE, TRACE_EXIT} \<union> {VFS_CALL, EXITING},
       mp_exitstatus := na_char x\<rparr>]"
    by (rule zawiadom_wynik[of E r t x False]) (use assms(1) zw fl t(2,3) tr in \<open>simp_all add: flaga_jest_def\<close>)
  have k: "mproc w ! k = (mproc s ! k)\<lparr>mp_child_utime := u, mp_child_stime := v\<rparr>" using t(4) w(4) zw by simp
  show thesis
  proof (rule that[of w])
    show "Option.bind (rozlicz E B r s) (zawiadom_o_koncu E r x False) = Some w" using t(1) w(1) by simp
    show "\<exists>u v. mproc w ! k = (mproc s ! k)\<lparr>mp_child_utime := u, mp_child_stime := v\<rparr>" using k by blast
  qed (use t(4) w(2-4) tr zw(1) in simp_all)
qed

lemma zombify_wynik:
  assumes z: "r < length (mproc s)" "k < length (mproc s)" "k \<noteq> r" "0 < k"
    and r: "mp_parent (mproc s ! r) = int k" "mp_tracer (mproc s ! r) = NO_TRACER E" "mp_flags (mproc s ! r) \<inter> {ZOMBIE, TRACE_ZOMBIE, TOLD_PARENT} = {}"
    and k: "zywy k s" "wait_test k r s \<or> obce_ok E B \<and> obojetny_na_sigchld E k s"
  shows "zombify E (sig_proc E B) r s =
    Some (if wait_test k r s then powiedziane k r (flagi_dodaj r {ZOMBIE} s) else flagi_dodaj r {ZOMBIE} s)"
proof -
  let ?z = "flagi_dodaj r {ZOMBIE} s"
  have zr: "mproc ?z ! r = (mproc s ! r)\<lparr>mp_flags := mp_flags (mproc s ! r) \<union> {ZOMBIE}\<rparr>" "mproc ?z ! k = mproc s ! k"
    "length (mproc ?z) = length (mproc s)" "ign_sset ?z = ign_sset s"
    using z by (simp_all add: flagi_dodaj_def zmien_def)
  have zk: "wait_test k r ?z = wait_test k r s" "zywy k ?z"
    using k(1) zr by (simp_all add: wait_test_def flaga_jest_def zywy_def)
  have zm: "zombify E (sig_proc E B) r s = check_parent E (sig_proc E B) r False ?z"
    using r by (auto simp: zombify_def flaga_jest_def Let_def)
  show ?thesis
  proof (cases "wait_test k r s")
    case True
    have "tell_parent r ?z = Some (powiedziane k r ?z)"
      using z r zr by (intro tell_parent_wynik) (auto simp: flaga_jest_def)
    with True zm zk z r zr show ?thesis
      by (simp add: check_parent_def w_tablicy_def zywy_def)
  next
    case False
    have "obojetny_na_sigchld E k ?z" using k(2) False zr by (simp add: obojetny_na_sigchld_def)
    from sigchld_bez_skutku[OF _ _ zk(2) this] k(2) False z(2) zr(3)
    have "sig_proc E B k (SIGCHLD E) True False ?z = Some ?z" by simp
    with False zm zk z r zr show ?thesis
      by (simp add: check_parent_def w_tablicy_def zywy_def)
  qed
qed

text \<open>\<^verbatim>\<open>exit_proc\<close> for an ordinary process whose parent waits for it or does not mind its end: the state in the end.\<close>

lemma exit_wynik:
  assumes "jadro_udane E" "zwykly E r k s" "wait_test k r s \<or> obce_ok E B \<and> obojetny_na_sigchld E k s"
  obtains z u v where "exit_proc E B r x False s = Some (if wait_test k r s then powiedziane k r z else z)"
    "mproc z ! r = (mproc s ! r)\<lparr>mp_flags := mp_flags (mproc s ! r) \<inter> {IN_USE, TRACE_EXIT} \<union> {VFS_CALL, EXITING, ZOMBIE}, mp_exitstatus := na_char x\<rparr>"
    "mproc z ! k = (mproc s ! k)\<lparr>mp_child_utime := u, mp_child_stime := v\<rparr>" "length (mproc z) = length (mproc s)"
proof -
  have zw: "r < length (mproc s)" "k < length (mproc s)" "k \<noteq> r" "0 < k" "mp_parent (mproc s ! r) = int k"
    "mp_tracer (mproc s ! r) = NO_TRACER E" "zywy k s"
    using assms(2) by (auto simp: zwykly_def)
  obtain w where w: "Option.bind (rozlicz E B r s) (zawiadom_o_koncu E r x False) = Some w" "mp w = mp s" "ign_sset w = ign_sset s"
    "length (mproc w) = length (mproc s)"
    "mproc w ! r = (mproc s ! r)\<lparr>mp_flags := mp_flags (mproc s ! r) \<inter> {IN_USE, TRACE_EXIT} \<union> {VFS_CALL, EXITING}, mp_exitstatus := na_char x\<rparr>"
    "\<exists>u v. mproc w ! k = (mproc s ! k)\<lparr>mp_child_utime := u, mp_child_stime := v\<rparr>"
    and inne: "\<And>j. j \<noteq> k \<Longrightarrow> j \<noteq> r \<Longrightarrow> mproc w ! j = mproc s ! j"
    by (rule zombie_wynik[OF assms(1,2), of B x]) (rule that)
  from w(6) obtain u v where wk: "mproc w ! k = (mproc s ! k)\<lparr>mp_child_utime := u, mp_child_stime := v\<rparr>" by blast
  let ?z = "flagi_dodaj r {ZOMBIE} w" and ?y = "if wait_test k r s then powiedziane k r (flagi_dodaj r {ZOMBIE} w) else flagi_dodaj r {ZOMBIE} w"
  have wt: "wait_test k r w = wait_test k r s" "zywy k w" "obojetny_na_sigchld E k w = obojetny_na_sigchld E k s"
    using zw(7) w(3) by (simp_all add: wait_test_def flaga_jest_def zywy_def obojetny_na_sigchld_def wk w(5))
  have zm: "zombify E (sig_proc E B) r w = Some ?y"
    using zombify_wynik[of r w k E B] zw w(4,5) wt assms(3) by auto
  let ?F = "mp_flags (mproc s ! r) \<inter> {IN_USE, TRACE_EXIT} \<union> {VFS_CALL, EXITING, ZOMBIE}"
  have zr: "mproc ?z ! r = (mproc s ! r)\<lparr>mp_flags := ?F, mp_exitstatus := na_char x\<rparr>" "mproc ?z ! k = mproc w ! k"
    "length (mproc ?z) = length (mproc s)"
    using zw(1-3) w(4,5) by (auto simp: flagi_dodaj_def zmien_def insert_commute)
  have innez: "mproc ?z ! j = mproc s ! j" if "j \<noteq> k" "j \<noteq> r" for j using that inne by (simp add: flagi_dodaj_def zmien_def)
  have rk: "r < length (mproc ?z)" "k < length (mproc ?z)" using zw(1,2) zr(3) by simp_all
  have yj: "mp_parent (mproc ?y ! j) = mp_parent (mproc s ! j) \<and> mp_tracer (mproc ?y ! j) = mp_tracer (mproc s ! j) \<and>
      (IN_USE \<in> mp_flags (mproc ?y ! j) \<longrightarrow> IN_USE \<in> mp_flags (mproc s ! j))" for j
  proof (cases "wait_test k r s")
    case True
    have "IN_USE \<in> mp_flags (mproc s ! r)" if "IN_USE \<in> ?F" using that by simp
    from powiedziane_zachowuje[OF rk zw(3) zr(2)[unfolded wk] zr(1) this innez] True show ?thesis by simp
  next
    case False
    consider "j = k" | "j = r" | "j \<noteq> k" "j \<noteq> r" by blast
    then show ?thesis by cases (use False in \<open>simp_all add: zr wk innez\<close>)
  qed
  have ly: "length (mproc ?y) = length (mproc s)" using zr(3) by (simp add: powiedziane_def)
  have "oddaj_dziecko E (sig_proc E B) r j ?y = Some ?y" if "j < length (mproc ?y)" for j
    using yj[of j] assms(2) that ly unfolding zwykly_def oddaj_dziecko_def flaga_jest_def by auto
  then have petla: "FOR 0 (length (mproc ?y)) (oddaj_dziecko E (sig_proc E B) r) ?y = Some ?y" by (rule FOR_bez_zmian)
  from w(1) obtain t where t: "rozlicz E B r s = Some t" "zawiadom_o_koncu E r x False t = Some w" by (auto simp: bind_eq_Some_conv)
  have "exit_proc E B r x False s = Some ?y"
    using assms(2) t zm petla unfolding exit_proc_def exit_proc_tresc_def zwykly_def by (simp add: Let_def)
  from that[OF this zr(1)] zr(2,3) wk show thesis by simp
qed

lemma na_char_mod: "na_char x mod 256 = x mod 256"
  by (simp add: na_char_def mod_diff_left_eq)

text \<open>
  C40. The status given to \<^verbatim>\<open>exit\<close> is what the waiting parent reads: when an ordinary process ends while its parent waits for
  it, \<^verbatim>\<open>exit_proc\<close> succeeds, the parent waits no longer and its reply holds the process number of the child and a status word from
  which \<^verbatim>\<open>WEXITSTATUS\<close> gives the status modulo 256 and \<^verbatim>\<open>WTERMSIG\<close> the signal; the child is marked as reported, so its parent is not told again.
  Ordinary means an untraced user process, not \<^verbatim>\<open>INIT\<close> or VFS, without children, tracees or alarm, not in a call of VFS and not the leader of the
  group of the current process; all kernel calls succeed.
\<close>

theorem exit_wait_status:
  assumes "jadro_udane E" and "r < length (mproc s)" and "zywy r s"
    and "mp_flags (mproc s ! r) \<inter> {PRIV_PROC, VFS_CALL, ALARM_ON} = {}"
    and "mp_endpoint (mproc s ! r) \<noteq> INIT_PROC_NR E" and "mp_endpoint (mproc s ! r) \<noteq> VFS_PROC_NR E"
    and "mp_parent (mproc s ! r) = int k" and "0 < k" and "k < length (mproc s)" and "k \<noteq> r" and "zywy k s" and "wait_test k r s"
    and "mp_tracer (mproc s ! r) = NO_TRACER E"
    and "\<forall>j < length (mproc s). flaga_jest j IN_USE s \<longrightarrow> mp_parent (mproc s ! j) \<noteq> int r \<and> mp_tracer (mproc s ! j) \<noteq> int r"
    and "mp_pid (mproc s ! r) \<noteq> mp_procgrp (mproc s ! mp s)"
  shows "\<exists>s'. exit_proc E B r x False s = Some s' \<and> flaga_jest k REPLY s' \<and> \<not> flaga_jest k WAITING s' \<and>
    reply_res (mp_reply (mproc s' ! k)) = mp_pid (mproc s ! r) \<and>
    wexitstatus (reply_res2 (mp_reply (mproc s' ! k))) = x mod 256 \<and>
    wtermsig (reply_res2 (mp_reply (mproc s' ! k))) = mp_sigstatus (mproc s ! r) mod 128 \<and>
    flaga_jest r TOLD_PARENT s' \<and> flaga_jest r EXITING s' \<and> \<not> flaga_jest r ZOMBIE s'"
proof -
  have "zwykly E r k s" using assms(2-11,13-15) by (simp add: zwykly_def)
  then obtain z u v where z: "exit_proc E B r x False s = Some (if wait_test k r s then powiedziane k r z else z)"
    "mproc z ! r = (mproc s ! r)\<lparr>mp_flags := mp_flags (mproc s ! r) \<inter> {IN_USE, TRACE_EXIT} \<union> {VFS_CALL, EXITING, ZOMBIE}, mp_exitstatus := na_char x\<rparr>"
    "mproc z ! k = (mproc s ! k)\<lparr>mp_child_utime := u, mp_child_stime := v\<rparr>" "length (mproc z) = length (mproc s)"
    by (rule exit_wynik[OF assms(1)]) (use assms(12) in auto)
  have "r < length (mproc z)" "k < length (mproc z)" using z(4) assms(2,9) by simp_all
  note pp = powiedziane_pola[OF this assms(10)]
  show ?thesis
    using z(1) assms(12) by (intro exI[of _ "powiedziane k r z"]) (simp add: flaga_jest_def pp z slowo_stanu_odczyt na_char_mod)
qed

definition pm3 :: pm where
  "pm3 = pm0\<lparr>mproc := (mproc pm0)[4 := slot0 ''init'' 4 1 4 {IN_USE, WAITING}]\<rparr>"

theorem exit_wait_status_przyklad:
  "\<exists>s'. exit_proc env0 obce0 5 300 False pm3 = Some s' \<and> reply_res (mp_reply (mproc s' ! 4)) = 10 \<and>
     wexitstatus (reply_res2 (mp_reply (mproc s' ! 4))) = 44 \<and> \<not> flaga_jest 4 WAITING s'"
proof -
  have j: "jadro_udane env0" by (simp add: jadro_udane_def OK_def)
  have l: "length (mproc pm3) = 6" by (simp add: pm3_def)
  have a: "zywy 5 pm3" "mp_flags (mproc pm3 ! 5) \<inter> {PRIV_PROC, VFS_CALL, ALARM_ON} = {}" "mp_endpoint (mproc pm3 ! 5) = 5"
    "mp_parent (mproc pm3 ! 5) = int 4" "zywy 4 pm3" "wait_test 4 5 pm3" "mp_tracer (mproc pm3 ! 5) = NO_TRACER env0" "mp_pid (mproc pm3 ! 5) = 10"
    "mp_pid (mproc pm3 ! 5) \<noteq> mp_procgrp (mproc pm3 ! mp pm3)"
    by (simp_all add: zywy_def flaga_jest_def wait_test_def env0_def pm3_def pm0_def slot0_def numeral_eq_Suc)
  have b: "\<forall>j < length (mproc pm3). flaga_jest j IN_USE pm3 \<longrightarrow> mp_parent (mproc pm3 ! j) \<noteq> int 5 \<and> mp_tracer (mproc pm3 ! j) \<noteq> int 5"
    by (simp add: flaga_jest_def pm3_def pm0_def slot0_def numeral_eq_Suc less_Suc_eq)
  from exit_wait_status[OF j _ a(1,2) _ _ a(4) _ _ _ a(5-7) b a(9), of obce0 300] l a(3,8) show ?thesis by auto
qed

section \<open>The signal that cannot be refused\<close>

lemma kill_do_konca:
  assumes "obce_ok E B" "rmp < length (mproc s)" "zywy rmp s" "bez_kill E (mproc s ! rmp)"
    and "\<not> flaga_jest rmp PRIV_PROC s" "\<not> flaga_jest rmp VFS_CALL s" "SIGKILL E \<notin> ign_sset s"
  shows "sig_proc E B rmp (SIGKILL E) tr ks s = sig_proc_exit E (exit_proc E B) rmp (SIGKILL E) s"
  using assms(3-7) unfolding sig_proc_rozwin[OF assms(1,2)] sig_proc_tresc_def Let_def bez_kill_def by simp

lemma sigstatus_pola:
  "mp_flags (mproc (zmien i (\<lambda>p. p\<lparr>mp_sigstatus := n\<rparr>) s) ! j) = mp_flags (mproc s ! j)"
  "mp_parent (mproc (zmien i (\<lambda>p. p\<lparr>mp_sigstatus := n\<rparr>) s) ! j) = mp_parent (mproc s ! j)"
  "mp_tracer (mproc (zmien i (\<lambda>p. p\<lparr>mp_sigstatus := n\<rparr>) s) ! j) = mp_tracer (mproc s ! j)"
  "mp_procgrp (mproc (zmien i (\<lambda>p. p\<lparr>mp_sigstatus := n\<rparr>) s) ! j) = mp_procgrp (mproc s ! j)"
  "mp_pid (mproc (zmien i (\<lambda>p. p\<lparr>mp_sigstatus := n\<rparr>) s) ! j) = mp_pid (mproc s ! j)"
  "mp_wpid (mproc (zmien i (\<lambda>p. p\<lparr>mp_sigstatus := n\<rparr>) s) ! j) = mp_wpid (mproc s ! j)"
  "mp_endpoint (mproc (zmien i (\<lambda>p. p\<lparr>mp_sigstatus := n\<rparr>) s) ! j) = mp_endpoint (mproc s ! j)"
  "mp_name (mproc (zmien i (\<lambda>p. p\<lparr>mp_sigstatus := n\<rparr>) s) ! j) = mp_name (mproc s ! j)"
  by (cases "i < length (mproc s)"; cases "j = i"; simp add: zmien_def list_update_beyond)+

text \<open>\<^verbatim>\<open>sig_proc_exit\<close> changes the slot and the log before it calls \<^verbatim>\<open>exit_proc\<close>.\<close>

lemma sig_proc_exit_rozbior:
  assumes "sig_proc_exit E ex rmp n s = Some s'"
  obtains d t c where "ex rmp 0 d t = Some s'" "mproc t = mproc (zmien rmp (\<lambda>p. p\<lparr>mp_sigstatus := na_char n\<rparr>) s)" "log t = log s @ c"
proof -
  let ?z = "zmien rmp (\<lambda>p. p\<lparr>mp_sigstatus := na_char n\<rparr>) s"
  have l: "log ?z = log s" by (simp add: zmien_def)
  show thesis
    using assms that[of False ?z "[]"] that[of True ?z "[]"]
      that[of True "snd (wolaj E (Sys_stacktrace (mp_endpoint (mproc ?z ! rmp))) (drukuj ''PM: coredump signal %d for %d / %s'' [n, mp_pid (mproc ?z ! rmp)] ?z))"]
    by (auto simp: sig_proc_exit_def Let_def l wolaj_def drukuj_def split: if_splits)
qed

lemma sig_proc_exit_konczy:
  assumes B: "obce_ok E B" and run: "sig_proc_exit E (exit_proc E B) rmp n s = Some s'"
    and r: "rmp < length (mproc s)" "mp_endpoint (mproc s ! rmp) \<noteq> INIT_PROC_NR E"
  shows "\<not> zywy rmp s'" "slot_serwera j s \<Longrightarrow>
    \<exists>m. wyslal s s' (Asynsend3 (mp_endpoint (mproc s ! j)) m) \<and> w_type m = 6 \<and> w_PM_PROC m = mp_endpoint (mproc s ! rmp)"
proof -
  obtain d t c where t: "exit_proc E B rmp 0 d t = Some s'"
    "mproc t = mproc (zmien rmp (\<lambda>p. p\<lparr>mp_sigstatus := na_char n\<rparr>) s)" "log t = log s @ c"
    by (rule sig_proc_exit_rozbior[OF run])
  have t2: "mp_endpoint (mproc t ! i) = mp_endpoint (mproc s ! i)" "mp_flags (mproc t ! i) = mp_flags (mproc s ! i)"
    "mp_name (mproc t ! i) = mp_name (mproc s ! i)" "length (mproc t) = length (mproc s)" for i
    unfolding t(2) by (simp_all add: sigstatus_pola) (simp add: zmien_def)
  have r2: "rmp < length (mproc t)" "mp_endpoint (mproc t ! rmp) \<noteq> INIT_PROC_NR E" using r t2 by simp_all
  show "\<not> zywy rmp s'" using exit_konczy[OF B t(1) r2] by (simp add: zywy_def zyje_def flaga_jest_def)
  show "\<exists>m. wyslal s s' (Asynsend3 (mp_endpoint (mproc s ! j)) m) \<and> w_type m = 6 \<and> w_PM_PROC m = mp_endpoint (mproc s ! rmp)"
    if "slot_serwera j s"
  proof -
    have "slot_serwera j t" using that by (simp add: slot_serwera_def to_cv_def flaga_jest_def t2)
    from exit_wysyla[OF B t(1) r2 this] show ?thesis using wyslal_przedtem t(3) by (metis t2(1))
  qed
qed

lemma na_char_mod128: "na_char n mod 128 = n mod 128"
proof -
  have "na_char n mod 128 = na_char n mod 256 mod 128" by (simp add: mod_mod_cancel)
  then show ?thesis by (simp add: na_char_mod mod_mod_cancel)
qed

lemma kill_zwykly:
  assumes "obce_ok E B" "sig_proc E B rmp (SIGKILL E) tr ks s = sig_proc_exit E (exit_proc E B) rmp (SIGKILL E) s"
    and "rmp < length (mproc s)"
    and h: "jadro_udane E \<and> SIGKILL E \<notin> core_sset s \<and> zwykly E rmp k s \<and> (wait_test k rmp s \<or> obojetny_na_sigchld E k s)"
  obtains z where "sig_proc E B rmp (SIGKILL E) tr ks s = Some (if wait_test k rmp s then powiedziane k rmp z else z)"
    "mp_sigstatus (mproc z ! rmp) = na_char (SIGKILL E)" "mp_exitstatus (mproc z ! rmp) = 0" "{EXITING, ZOMBIE} \<subseteq> mp_flags (mproc z ! rmp)"
    "mp_pid (mproc z ! rmp) = mp_pid (mproc s ! rmp)" "length (mproc z) = length (mproc s)"
proof -
  let ?s = "zmien rmp (\<lambda>p. p\<lparr>mp_sigstatus := na_char (SIGKILL E)\<rparr>) s"
  have k: "k \<noteq> rmp" using h by (simp add: zwykly_def)
  have sr: "mproc ?s ! rmp = (mproc s ! rmp)\<lparr>mp_sigstatus := na_char (SIGKILL E)\<rparr>" "\<And>j. j \<noteq> rmp \<Longrightarrow> mproc ?s ! j = mproc s ! j"
    "length (mproc ?s) = length (mproc s)" "mp ?s = mp s" "ign_sset ?s = ign_sset s" "core_sset ?s = core_sset s"
    using assms(3) by (simp_all add: zmien_def)
  note pola = sigstatus_pola[of rmp "na_char (SIGKILL E)" s]
  have wt: "wait_test k rmp ?s = wait_test k rmp s" by (simp add: wait_test_def flaga_jest_def pola)
  have ob: "obojetny_na_sigchld E k ?s = obojetny_na_sigchld E k s" using k by (simp add: obojetny_na_sigchld_def sr)
  have "zwykly E rmp k ?s" using h unfolding zwykly_def by (simp add: zywy_def flaga_jest_def pola sr)
  then obtain z u v where z: "exit_proc E B rmp 0 False ?s = Some (if wait_test k rmp ?s then powiedziane k rmp z else z)"
    "mproc z ! rmp = (mproc ?s ! rmp)\<lparr>mp_flags := mp_flags (mproc ?s ! rmp) \<inter> {IN_USE, TRACE_EXIT} \<union> {VFS_CALL, EXITING, ZOMBIE}, mp_exitstatus := na_char 0\<rparr>"
    "mproc z ! k = (mproc ?s ! k)\<lparr>mp_child_utime := u, mp_child_stime := v\<rparr>" "length (mproc z) = length (mproc ?s)"
    by (rule exit_wynik[where B = B and x = 0, OF conjunct1[OF h]]) (use h wt ob assms(1) in blast)
  have "sig_proc E B rmp (SIGKILL E) tr ks s = exit_proc E B rmp 0 False ?s"
    using h sr(6) by (simp add: assms(2) sig_proc_exit_def Let_def)
  with z(1) wt have w: "sig_proc E B rmp (SIGKILL E) tr ks s = Some (if wait_test k rmp s then powiedziane k rmp z else z)" by simp
  show thesis by (rule that[OF w]) (simp_all add: z(2,4) sr(1,3) na_char_def[of 0])
qed

text \<open>
  C31. \<^verbatim>\<open>SIGKILL\<close> ends every living user process but \<^verbatim>\<open>INIT\<close> that is not inside a call of VFS, stopped or traced or not, whatever other signals
  it blocks, ignores or handles (\<^verbatim>\<open>SIGKILL\<close> is not among them by the invariant of the table, nor in the set of signals ignored by default): unless the process manager panics, the process is not alive when \<^verbatim>\<open>sig_proc\<close> returns, and the cv
  server has been sent \<^verbatim>\<open>CS_EXIT\<close> for it. For an ordinary process (\<open>zwykly\<close>) whose parent waits for it or is indifferent to \<^verbatim>\<open>SIGCHLD\<close> there
  is no panic when the kernel calls succeed and the signal dumps no core: the process is marked as exiting, with status zero and the signal; a waiting parent is answered and reads the
  signal from the status word, and otherwise the process stays as a zombie.
\<close>

theorem kill_konczy:
  assumes "obce_ok E B" and "rmp < length (mproc s)" and "zywy rmp s" and "bez_kill E (mproc s ! rmp)"
    and "\<not> flaga_jest rmp PRIV_PROC s" and "\<not> flaga_jest rmp VFS_CALL s" and "SIGKILL E \<notin> ign_sset s"
    and "mp_endpoint (mproc s ! rmp) \<noteq> INIT_PROC_NR E"
  shows "(\<forall>s'. sig_proc E B rmp (SIGKILL E) tr ks s = Some s' \<longrightarrow> \<not> zywy rmp s' \<and>
      (\<forall>j. slot_serwera j s \<longrightarrow> (\<exists>m. wyslal s s' (Asynsend3 (mp_endpoint (mproc s ! j)) m) \<and> w_type m = CS_EXIT \<and>
        w_PM_PROC m = mp_endpoint (mproc s ! rmp)))) \<and>
    (\<forall>k. jadro_udane E \<and> SIGKILL E \<notin> core_sset s \<and> zwykly E rmp k s \<and> (wait_test k rmp s \<or> obojetny_na_sigchld E k s) \<longrightarrow>
      (\<exists>s'. sig_proc E B rmp (SIGKILL E) tr ks s = Some s' \<and> flaga_jest rmp EXITING s' \<and>
        mp_exitstatus (mproc s' ! rmp) = 0 \<and> mp_sigstatus (mproc s' ! rmp) = na_char (SIGKILL E) \<and>
        (if wait_test k rmp s
         then flaga_jest rmp TOLD_PARENT s' \<and> flaga_jest k REPLY s' \<and> \<not> flaga_jest k WAITING s' \<and>
           reply_res (mp_reply (mproc s' ! k)) = mp_pid (mproc s ! rmp) \<and>
           wtermsig (reply_res2 (mp_reply (mproc s' ! k))) = SIGKILL E mod 128
         else flaga_jest rmp ZOMBIE s')))"
proof (intro conjI allI impI)
  note kill = kill_do_konca[OF assms(1-7), of tr ks]
  show "\<not> zywy rmp s'" if "sig_proc E B rmp (SIGKILL E) tr ks s = Some s'" for s'
    using that unfolding kill by (rule sig_proc_exit_konczy(1)[OF assms(1) _ assms(2,8)])
  show "\<exists>m. wyslal s s' (Asynsend3 (mp_endpoint (mproc s ! j)) m) \<and> w_type m = CS_EXIT \<and> w_PM_PROC m = mp_endpoint (mproc s ! rmp)"
    if "sig_proc E B rmp (SIGKILL E) tr ks s = Some s'" "slot_serwera j s" for s' j
    unfolding CS_EXIT_def using that(1) unfolding kill by (rule sig_proc_exit_konczy(2)[OF assms(1) _ assms(2,8) that(2)])
  fix k assume h: "jadro_udane E \<and> SIGKILL E \<notin> core_sset s \<and> zwykly E rmp k s \<and> (wait_test k rmp s \<or> obojetny_na_sigchld E k s)"
  obtain z where w: "sig_proc E B rmp (SIGKILL E) tr ks s = Some (if wait_test k rmp s then powiedziane k rmp z else z)"
    and zr: "mp_sigstatus (mproc z ! rmp) = na_char (SIGKILL E)" "mp_exitstatus (mproc z ! rmp) = 0" "{EXITING, ZOMBIE} \<subseteq> mp_flags (mproc z ! rmp)"
      "mp_pid (mproc z ! rmp) = mp_pid (mproc s ! rmp)" and l: "length (mproc z) = length (mproc s)"
    by (rule kill_zwykly[OF assms(1) kill assms(2) h])
  have k: "k < length (mproc z)" "rmp < length (mproc z)" "k \<noteq> rmp" using h l assms(2) by (auto simp: zwykly_def)
  note pp = powiedziane_pola[OF k(2,1,3)]
  show "\<exists>s'. sig_proc E B rmp (SIGKILL E) tr ks s = Some s' \<and> flaga_jest rmp EXITING s' \<and>
        mp_exitstatus (mproc s' ! rmp) = 0 \<and> mp_sigstatus (mproc s' ! rmp) = na_char (SIGKILL E) \<and>
        (if wait_test k rmp s
         then flaga_jest rmp TOLD_PARENT s' \<and> flaga_jest k REPLY s' \<and> \<not> flaga_jest k WAITING s' \<and>
           reply_res (mp_reply (mproc s' ! k)) = mp_pid (mproc s ! rmp) \<and>
           wtermsig (reply_res2 (mp_reply (mproc s' ! k))) = SIGKILL E mod 128
         else flaga_jest rmp ZOMBIE s')"
    by (rule exI, rule conjI[OF w]) (use zr(3) in \<open>simp add: flaga_jest_def pp zr slowo_stanu_odczyt na_char_mod128\<close>)
qed

theorem kill_konczy_przyklad:
  "\<exists>s'. sig_proc env0 obce0 5 9 True False pm3 = Some s' \<and> \<not> zywy 5 s' \<and> flaga_jest 5 EXITING s' \<and>
     wtermsig (reply_res2 (mp_reply (mproc s' ! 4))) = 9"
proof -
  have p: "length (mproc pm3) = 6" "wait_test 4 5 pm3" "mp_endpoint (mproc pm3 ! 5) = 5" "jadro_udane env0" "9 \<notin> core_sset pm3"
    by (simp_all add: wait_test_def flaga_jest_def jadro_udane_def OK_def pm3_def pm0_def slot0_def numeral_eq_Suc)
  have a: "zywy 5 pm3" "bez_kill env0 (mproc pm3 ! 5)" "\<not> flaga_jest 5 PRIV_PROC pm3" "\<not> flaga_jest 5 VFS_CALL pm3" "SIGKILL env0 \<notin> ign_sset pm3"
    by (simp_all add: zywy_def flaga_jest_def bez_kill_def pm3_def pm0_def slot0_def)
  have z: "zwykly env0 5 4 pm3"
    by (simp add: zwykly_def zywy_def flaga_jest_def env0_def pm3_def pm0_def slot0_def numeral_eq_Suc less_Suc_eq)
  show ?thesis
    using kill_konczy[OF obce0_ok _ a, where tr = True and ks = False] p z by fastforce
qed

end
