(* ===== verification/Spec2Isabelle.thy ===== *)
theory Spec2Isabelle
  imports Many_Procs Prod_Cons_Postep Jeden_Proces Tictac Simple_Cv Many_Cv2 Check_Fifo Sprawiedliwosc Pm_Procesy
begin

text \<open>
  A server of mutexes and condition variables for MINIX 3: a verification development for the
  sources under \<^verbatim>\<open>src/projekt\<close>.

  \<^bold>\<open>The program.\<close> User processes call \<^verbatim>\<open>cs_lock\<close>, \<^verbatim>\<open>cs_unlock\<close>, \<^verbatim>\<open>cs_wait\<close> and \<^verbatim>\<open>cs_broadcast\<close> of the C library
  (\<^verbatim>\<open>lib/libc/sys-minix/cv.c\<close>). Each call sends a message to the server \<^verbatim>\<open>cv\<close> (\<^verbatim>\<open>servers/cv/main.c\<close>, with the
  waiting queues of \<^verbatim>\<open>queue.h\<close> and the constants of \<^verbatim>\<open>includes.h\<close>) and waits for its answer; the server
  answers at once, or later, when the mutex is handed over or the event occurs. The process
  manager (\<^verbatim>\<open>servers/pm\<close>: \<^verbatim>\<open>utility.c\<close>, \<^verbatim>\<open>signal.c\<close>, \<^verbatim>\<open>forkexit.c\<close>, \<^verbatim>\<open>main.c\<close>) is changed in two places: when it
  interrupts a process because of a signal it also sends \<^verbatim>\<open>CS_EINTR\<close> to the server, and when a process
  ends it sends \<^verbatim>\<open>CS_EXIT\<close>.

  \<^bold>\<open>Theories, in the order of the code.\<close>
  \<^item> \<open>Prelude\<close>: counting loops of C (\<open>FOR\<close>, \<open>FOR_szukaj\<close>), association of slots, generic lemmas.
  \<^item> \<open>Kolejka\<close>: \<^verbatim>\<open>queue.h\<close>. The linked list with two sentinels on an explicit heap, and the locale of
    FIFO queues that it implements; the interpretation of that locale is on the list on the heap.
  \<^item> \<open>Tablica\<close>: the two tables of the server as a locale of tables of numbered slots, with its two
    interpretations, for \<^verbatim>\<open>M\<close> and for \<^verbatim>\<open>CV\<close>.
  \<^item> \<open>Komunikaty\<close>: the messages and the error numbers.
  \<^item> \<open>Serwer\<close>: \<^verbatim>\<open>servers/cv/main.c\<close>, one definition per function and per loop, with the state as the
    record \<open>serwer\<close> (\<^verbatim>\<open>M\<close>, \<^verbatim>\<open>CV\<close>, \<^verbatim>\<open>aktualnyProces\<close>, and the messages sent).
  \<^item> \<open>Monitor\<close>: the abstract specification: a map from mutexes to owner and queue, and a map from
    events to waiting processes, with one operation per request.
  \<^item> \<open>Zgodnosc\<close>, \<open>Zgodnosc_Sygnaly\<close>: every operation of the server acts on the abstraction of its
    state as the operation of the monitor, without undefined behaviour.
  \<^item> \<open>Protokol\<close>: the invariant of the monitor under the protocol of the clients (a process that
    waits sends no request), and the balance of requests and answers.
  \<^item> \<open>Dzialanie\<close>: \<^verbatim>\<open>main\<close> of the server: reachable states, and the run of a whole sequence of messages.
  \<^item> \<open>Skutki\<close>, \<open>Wlasnosci\<close>: the effect of each request in full, and the properties of the server.
  \<^item> \<open>Sprawiedliwosc\<close>: waiting is bounded: every change of the owner of a mutex brings a queued process
    one place forward, until it is the owner.
  \<^item> \<open>Libc\<close>, \<open>Klient\<close>: \<^verbatim>\<open>cv.c\<close> over an arbitrary outcome of \<^verbatim>\<open>_syscall\<close>, and connected to the server.
  \<^item> \<open>Uklad\<close>: client processes that run next to the server in any order, with their requests answered by the
    definitions of \<open>Serwer\<close>, and the locale of programs whose requests fit the tables; \<open>Sekcja\<close>: the locale of
    programs with a critical section, in which at most one process is at a time; \<open>Przebieg\<close>: an executable scheduler for
    the programs of \<open>Uklad\<close>, every schedule of which is a run of the processes with the server.
  \<^item> \<open>Many_Procs\<close>: the test program \<^verbatim>\<open>testy/src/many_procs.c\<close> as such a program: its output is never mixed up, it
    writes all its lines and never gets stuck.
  \<^item> \<open>Prod_Cons\<close>, \<open>Prod_Cons_Dane\<close>, \<open>Prod_Cons_Dowod\<close>: the test program \<^verbatim>\<open>testy/src/prod_cons.c\<close>, producers and consumers
    with a shared buffer: the counter of the buffer is always right, and what the consumers print is what the producers
    put into the buffer, all of it at the end; \<open>Prod_Cons_Postep\<close>: with a consumer the program never gets stuck, so no wake-up is
    lost.
  \<^item> \<open>Jeden_Proces\<close>: the test programs \<^verbatim>\<open>testy/src/lock_unlock.c\<close> and \<^verbatim>\<open>testy/src/simple_many.c\<close> as functions over the client library
    connected to the server: they print the templates of the tests, the second one when its overflowing products have different values; \<open>Wydruk\<close>: the decimal conversion of \<^verbatim>\<open>printf\<close>.
  \<^item> \<open>Para\<close>: programs of a parent and one child over one mutex and one event; a locale whose law is a set of configurations
    closed under the steps of the two processes. It also relates the calls of the library as actions of such programs to the functions of
    \<open>Libc\<close>: on the same answers they have the same results and \<^verbatim>\<open>errno\<close>. \<open>Tictac\<close>, \<open>Simple_Cv\<close>: the test programs \<^verbatim>\<open>testy/src/tictac.c\<close> and \<^verbatim>\<open>testy/src/simple_cv.c\<close>
    as its instances: they write the templates of the tests in whatever order the processes run.
  \<^item> \<open>Rodzina\<close>: the same for a parent with any number of children over any monitor; \<open>Many_Cv2\<close>: the test program
    \<^verbatim>\<open>testy/src/many_cv2.c\<close>: an event wakes its processes in the order in which they began to wait, and none waits in vain;
    \<open>Check_Fifo\<close>: the test program \<^verbatim>\<open>testy/src/check_fifo.c\<close>: the mutex is handed on in the order in which the processes ask for it.
  \<^item> \<open>Pm_Stan\<close>: the process table and the environment of the process manager.
  \<^item> \<open>Pm_Utility\<close>, \<open>Pm_Signal\<close>, \<open>Pm_Forkexit\<close>, \<open>Pm_Rekurencja\<close>, \<open>Pm_Main\<close>: its four files.
  \<^item> \<open>Pm_Zmiany\<close>, \<open>Pm_Paliwo\<close>: what sending a signal and ending a process may change, as locales
    on the function that the two call each other through, and that the bound on their recursion is
    never reached.
  \<^item> \<open>Pm_Przyklad\<close>, \<open>Pm_Wlasnosci\<close>, \<open>Pm_Uslugi\<close>, \<open>Pm_Start\<close>: a concrete environment, the messages to the cv
    server, the services (process numbers, replies, signals, endpoints, priorities, boot
    parameters) and the initialisation.
  \<^item> \<open>Pm_Niezmiennik\<close>: the invariant of the process table as a locale of handlers, interpreted on every
    handler of the sources, and that it holds after the initialisation and any number of turns of the
    message loop.
  \<^item> \<open>Pm_Procesy\<close>: the life of a process: what \<^verbatim>\<open>fork\<close> builds, what \<^verbatim>\<open>waitpid\<close> returns on every branch, that
    a parent reads the status the child ended with, and that \<^verbatim>\<open>SIGKILL\<close> ends a process.

  \<^bold>\<open>How the code is represented.\<close> A structure is a record, an array a list, a pointer into the process
  table an index, a pointer to a list element an address of the heap. Undefined behaviour, an access
  outside an array and a \<^verbatim>\<open>panic\<close> are the outcome \<^term>\<open>None\<close>, so a theorem that a function returns a value
  excludes them. The integers of the server and of the process manager are identifiers, indices and
  counters that no operation drives out of range; they are \<^typ>\<open>int\<close> or \<^typ>\<open>nat\<close>, and the conversions
  to \<^verbatim>\<open>char\<close> are written out; those to \<^verbatim>\<open>uid_t\<close>, \<^verbatim>\<open>gid_t\<close> and \<^verbatim>\<open>clock_t\<close>, types of headers outside the sources, are functions of the environment.
  The value of a product of \<^verbatim>\<open>simple_many.c\<close> that does not fit its type is an argument, with \<^term>\<open>None\<close> for undefined behaviour.
  The members of the union in a message are separate fields of its record: each handler reads the ones its sender has set. Values that C leaves indeterminate (the field \<^verbatim>\<open>proces\<close> of a sentinel of a queue)
  come from a function of the environment, and the theorems say where they matter. Code that is not
  among the sources (the kernel calls, \<^verbatim>\<open>_syscall\<close>, the files of the process manager that are not here,
  the constants of the MINIX headers) is a parameter: a field of \<open>pm_env\<close>, \<open>pm_obce\<close>, \<open>pm_boot\<close> or
  \<open>pm_tablica\<close>, or an argument. What is relied on is stated in the hypotheses (\<open>obce_ok\<close>: these functions
  change no identity of a slot and revive no process).

  \<^bold>\<open>Loops and bounds.\<close> Loops over tables are \<open>FOR\<close> or structural recursion. The retry loop of the client's
  \<^verbatim>\<open>cs_lock\<close> and \<^verbatim>\<open>get_free_pid\<close> may run forever and are partial functions; when they return is proved.
  \<^verbatim>\<open>sig_proc\<close> and \<^verbatim>\<open>exit_proc\<close> call each other: the recursion is bounded by the number of slots plus one, and
  a call beyond the bound has an outcome of its own, the argument \<open>z\<close> of \<open>sig_proc_n\<close>, so that it is not taken for a
  panic. \<open>Pm_Uslugi\<close> shows that the result is the same for every \<open>z\<close>, so that the bound is never reached, and satisfies the
  unbounded equation, because every nested call follows the end of one more process.

  \<^bold>\<open>Not modelled.\<close> The start-up callbacks of the server that only register themselves. The other test programs:
  \<^verbatim>\<open>lock_hang.c\<close>, \<^verbatim>\<open>many_pm.c\<close>, \<^verbatim>\<open>st.c\<close>, \<^verbatim>\<open>test3.c\<close> and \<^verbatim>\<open>test4.c\<close> wait with \<^verbatim>\<open>sleep\<close> for an order of steps that no theorem can rely on, or write to files
  of their own, \<^verbatim>\<open>sigint.c\<close> exercises signals that the model of the processes does not send, \<^verbatim>\<open>tictactac.c\<close> waits without the mutex,
  \<^verbatim>\<open>bad_prod_cons.c\<close> calls a function that does not exist and is not built, and \<^verbatim>\<open>many_cv.c\<close> is a variant of \<^verbatim>\<open>many_cv2.c\<close> with a mutex per child.
  \<^verbatim>\<open>proto.h\<close> and \<^verbatim>\<open>cv.h\<close> hold declarations only. Build files, start scripts and the configuration of the server hold no code of
  the program.
\<close>

end
